(* ===== verification/Prelude.thy ===== *)
theory Prelude
  imports Complex_Main "HOL-Library.Char_ord"
begin

text \<open>
  What every component of the development shares.

  \<^item> The result type of fallible operations (\<open>Inl\<close> is the thrown error), its sequencing
    operator and the lemmas that take a successful sequence apart.
  \<^item> The fragment of the JavaScript string library the router uses: white space, \<open>trim\<close>,
    \<open>padStart\<close>/\<open>padEnd\<close>, decimal printing and reading of integers. A string is a list of
    \<open>char\<close>, that is of code units below 256.
  \<^item> Association lists used as insertion-ordered \<open>Map\<close> objects, and sums over filtered lists.
  \<^item> The collections \<open>res_simps\<close> (unfolding of sequencing) and \<open>db_simps\<close> (accessors of
    updated database states) that the component proofs pass to the simplifier.
\<close>

named_theorems res_simps "unfolding of result sequencing"
named_theorems db_simps "reads of an updated database state"

section \<open>Results\<close>

type_synonym ('e, 'a) result = "'e + 'a"

definition res_bind :: "('e, 'a) result \<Rightarrow> ('a \<Rightarrow> ('e, 'b) result) \<Rightarrow> ('e, 'b) result" where
  "res_bind r f = (case r of Inl e \<Rightarrow> Inl e | Inr x \<Rightarrow> f x)"

definition res_map :: "('a \<Rightarrow> 'b) \<Rightarrow> ('e, 'a) result \<Rightarrow> ('e, 'b) result" where
  "res_map f r = (case r of Inl e \<Rightarrow> Inl e | Inr x \<Rightarrow> Inr (f x))"

definition guard :: "bool \<Rightarrow> 'e \<Rightarrow> ('e, unit) result" where
  "guard b e = (if b then Inr () else Inl e)"

lemma res_bind_Inl [simp]: "res_bind (Inl e) f = Inl e"
  by (simp add: res_bind_def)

lemma res_bind_Inr [simp]: "res_bind (Inr x) f = f x"
  by (simp add: res_bind_def)

lemma res_map_Inl [simp]: "res_map f (Inl e) = Inl e"
  by (simp add: res_map_def)

lemma res_map_Inr [simp]: "res_map f (Inr x) = Inr (f x)"
  by (simp add: res_map_def)

lemma guard_True [simp]: "guard True e = Inr ()"
  by (simp add: guard_def)

lemma guard_False [simp]: "guard False e = Inl e"
  by (simp add: guard_def)

lemma res_bind_eq_Inr: "res_bind r f = Inr y \<longleftrightarrow> (\<exists>x. r = Inr x \<and> f x = Inr y)"
  by (cases r) auto

lemma res_bind_eq_Inl: "res_bind r f = Inl e \<longleftrightarrow> r = Inl e \<or> (\<exists>x. r = Inr x \<and> f x = Inl e)"
  by (cases r) auto

lemma res_map_eq_Inr: "res_map f r = Inr y \<longleftrightarrow> (\<exists>x. r = Inr x \<and> y = f x)"
  by (cases r) auto

lemma guard_eq_Inr: "guard b e = Inr u \<longleftrightarrow> b"
  by (simp add: guard_def)

lemma guard_eq_Inl: "guard b e = Inl e' \<longleftrightarrow> \<not> b \<and> e' = e"
  by (auto simp: guard_def)

lemmas res_eqs [res_simps] =
  res_bind_eq_Inr res_bind_eq_Inl res_map_eq_Inr guard_eq_Inr guard_eq_Inl

section \<open>Strings\<close>

definition is_space :: "char \<Rightarrow> bool" where
  "is_space c = ((of_char c :: nat) \<in> {9, 10, 11, 12, 13, 32, 160})"

definition is_digit :: "char \<Rightarrow> bool" where
  "is_digit c = (48 \<le> (of_char c :: nat) \<and> (of_char c :: nat) \<le> 57)"

definition digit_val :: "char \<Rightarrow> nat" where
  "digit_val c = of_char c - 48"

definition digit_char :: "nat \<Rightarrow> char" where
  "digit_char n = char_of (48 + n)"

definition trim :: "string \<Rightarrow> string" where
  "trim s = rev (dropWhile is_space (rev (dropWhile is_space s)))"

definition pad_start :: "nat \<Rightarrow> char \<Rightarrow> string \<Rightarrow> string" where
  "pad_start n c s = replicate (n - length s) c @ s"

definition pad_end :: "nat \<Rightarrow> char \<Rightarrow> string \<Rightarrow> string" where
  "pad_end n c s = s @ replicate (n - length s) c"

definition all_digits :: "string \<Rightarrow> bool" where
  "all_digits s = (s \<noteq> [] \<and> list_all is_digit s)"

fun read_nat :: "nat \<Rightarrow> string \<Rightarrow> nat" where
  "read_nat acc [] = acc"
| "read_nat acc (c # cs) = read_nat (10 * acc + digit_val c) cs"

fun show_nat :: "nat \<Rightarrow> string" where
  "show_nat n = (if n < 10 then [digit_char n] else show_nat (n div 10) @ [digit_char (n mod 10)])"

declare show_nat.simps [simp del]

definition show_int :: "int \<Rightarrow> string" where
  "show_int i = (if i < 0 then CHR ''-'' # show_nat (nat (- i)) else show_nat (nat i))"

lemma of_char_digit [simp]: "d < 10 \<Longrightarrow> (of_char (digit_char d) :: nat) = 48 + d"
  by (simp add: digit_char_def)

lemma is_digit_digit_char [simp]: "d < 10 \<Longrightarrow> is_digit (digit_char d)"
  by (simp add: is_digit_def)

lemma digit_val_digit_char [simp]: "d < 10 \<Longrightarrow> digit_val (digit_char d) = d"
  by (simp add: digit_val_def)

lemma digit_not_space: "is_digit c \<Longrightarrow> \<not> is_space c"
  by (auto simp: is_digit_def is_space_def)

lemma digit_char_inj: "a < 10 \<Longrightarrow> b < 10 \<Longrightarrow> digit_char a = digit_char b \<Longrightarrow> a = b"
  using digit_val_digit_char by metis

lemma read_nat_append: "read_nat acc (s @ t) = read_nat (read_nat acc s) t"
  by (induction s arbitrary: acc) auto

lemma read_nat_acc: "read_nat acc s = acc * 10 ^ length s + read_nat 0 s"
proof (induction s arbitrary: acc)
  case (Cons c s)
  show ?case
    using Cons.IH [of "10 * acc + digit_val c"] Cons.IH [of "digit_val c"]
    by (simp add: algebra_simps)
qed simp

lemma read_nat_zeros: "read_nat 0 (replicate k CHR ''0'' @ s) = read_nat 0 s"
proof -
  have "read_nat 0 (replicate k CHR ''0'') = 0"
    by (induction k) (simp_all add: digit_val_def)
  then show ?thesis by (simp add: read_nat_append)
qed

lemma show_nat_nonempty [simp]: "show_nat n \<noteq> []"
  by (subst show_nat.simps) simp

lemma show_nat_digits: "list_all is_digit (show_nat n)"
proof (induction n rule: show_nat.induct)
  case (1 n)
  then show ?case by (subst show_nat.simps) auto
qed

lemma all_digits_show_nat [simp]: "all_digits (show_nat n)"
  by (simp add: all_digits_def show_nat_digits)

lemma read_show_nat [simp]: "read_nat 0 (show_nat n) = n"
proof (induction n rule: show_nat.induct)
  case (1 n)
  then show ?case by (subst show_nat.simps) (auto simp: read_nat_append)
qed

lemma show_nat_inj [simp]: "show_nat a = show_nat b \<longleftrightarrow> a = b"
  by (metis read_show_nat)

lemma show_nat_length: "n < 10 ^ k \<Longrightarrow> 0 < k \<Longrightarrow> length (show_nat n) \<le> k"
proof (induction k arbitrary: n)
  case (Suc k)
  show ?case
  proof (cases "n < 10")
    case True
    then show ?thesis by (subst show_nat.simps) simp
  next
    case False
    with Suc.prems have "n div 10 < 10 ^ k" and "0 < k"
      by (auto intro: ccontr)
    with Suc.IH have "length (show_nat (n div 10)) \<le> k" by blast
    with False show ?thesis by (subst show_nat.simps) simp
  qed
qed simp

lemma dash_not_digit [simp]: "\<not> is_digit CHR ''-''"
  by (simp add: is_digit_def)

lemma show_int_inj: "show_int a = show_int b \<Longrightarrow> a = b"
proof -
  have hd: "is_digit (hd (show_nat n))" for n
    using show_nat_digits [of n] show_nat_nonempty [of n] by (cases "show_nat n") auto
  assume eq: "show_int a = show_int b"
  show "a = b"
  proof (cases "(a < 0) = (b < 0)")
    case True
    with eq show ?thesis by (auto simp: show_int_def split: if_splits)
  next
    case False
    with eq show ?thesis
      using hd [of "nat a"] hd [of "nat b"] by (auto simp: show_int_def split: if_splits)
        (metis dash_not_digit list.sel(1))+
  qed
qed

lemma trim_id:
  assumes "s \<noteq> []" and "\<not> is_space (hd s)" and "\<not> is_space (last s)"
  shows "trim s = s"
proof -
  have l: "dropWhile is_space s = s"
    using assms(1,2) by (cases s) auto
  have "dropWhile is_space (rev s) = rev s"
    using assms(1,3) by (cases "rev s") (auto simp: last_conv_nth hd_rev [symmetric])
  with l show ?thesis by (simp add: trim_def)
qed

lemma trim_trim [simp]: "trim (trim s) = trim s"
proof (cases "trim s = []")
  case True
  moreover have "trim [] = []" by (simp add: trim_def)
  ultimately show ?thesis by simp
next
  case False
  let ?l = "dropWhile is_space s"
  let ?t = "dropWhile is_space (rev ?l)"
  from False have t: "?t \<noteq> []" by (simp add: trim_def)
  then have last: "\<not> is_space (last (rev ?t))"
    by (simp add: last_rev hd_dropWhile)
  obtain p where p: "rev ?l = p @ ?t"
    using takeWhile_dropWhile_id [of is_space "rev ?l"] by metis
  then have "?l = rev ?t @ rev p" by (metis rev_append rev_rev_ident)
  with t have "hd ?l = hd (rev ?t)" and "?l \<noteq> []"
    by (metis hd_append2 rev_is_Nil_conv, metis append_is_Nil_conv rev_is_Nil_conv)
  then have "\<not> is_space (hd (rev ?t))" by (metis hd_dropWhile)
  with t last show ?thesis
    by (metis False rev_is_Nil_conv trim_def trim_id)
qed

text \<open>
  \<open>truthy\<close> is the JavaScript test of a \<open>string | null | undefined\<close>, \<open>split_on\<close> is
  \<open>String.split\<close> on one character, \<open>to_lower\<close> is \<open>toLowerCase\<close> on the code units below 256.
\<close>

fun truthy :: "string option \<Rightarrow> bool" where
  "truthy None = False"
| "truthy (Some s) = (s \<noteq> [])"

fun split_on :: "char \<Rightarrow> string \<Rightarrow> string list" where
  "split_on c [] = [[]]"
| "split_on c (x # xs) =
     (if x = c then [] # split_on c xs
      else case split_on c xs of [] \<Rightarrow> [[x]] | p # ps \<Rightarrow> (x # p) # ps)"

fun join_with :: "string \<Rightarrow> string list \<Rightarrow> string" where
  "join_with sep [] = []"
| "join_with sep [s] = s"
| "join_with sep (s # t # ss) = s @ sep @ join_with sep (t # ss)"

definition lower_char :: "char \<Rightarrow> char" where
  "lower_char c =
     (let n = of_char c :: nat
      in if (65 \<le> n \<and> n \<le> 90) \<or> (192 \<le> n \<and> n \<le> 222 \<and> n \<noteq> 215) then char_of (n + 32) else c)"

definition to_lower :: "string \<Rightarrow> string" where
  "to_lower s = map lower_char s"

definition ends_with :: "string \<Rightarrow> string \<Rightarrow> bool" where
  "ends_with s suf = (length suf \<le> length s \<and> drop (length s - length suf) s = suf)"

definition starts_with :: "string \<Rightarrow> string \<Rightarrow> bool" where
  "starts_with s pre = (take (length pre) s = pre)"

lemma split_on_nonempty [simp]: "split_on c s \<noteq> []"
  by (induction s) (auto split: list.splits)

lemma split_on_free: "c \<notin> set s \<Longrightarrow> split_on c s = [s]"
  by (induction s) auto

lemma split_on_first: "c \<notin> set s \<Longrightarrow> split_on c (s @ c # t) = s # split_on c t"
  by (induction s) auto

lemma split_on_Cons:
  assumes "split_on c s = p # q"
  shows "\<exists>r. s = p @ r \<and> (q = [] \<longrightarrow> r = []) \<and> (q \<noteq> [] \<longrightarrow> (\<exists>t. r = c # t \<and> split_on c t = q))"
  using assms
proof (induction s arbitrary: p)
  case (Cons a s)
  show ?case
  proof (cases "a = c")
    case True
    with Cons.prems show ?thesis by auto
  next
    case False
    with Cons.prems obtain p' where "split_on c s = p' # q" "p = a # p'"
      by (cases "split_on c s") auto
    with Cons.IH show ?thesis by auto
  qed
qed simp

lemma split_one: "split_on c s = [a] \<longleftrightarrow> s = a \<and> c \<notin> set a"
proof
  assume "split_on c s = [a]"
  then show "s = a \<and> c \<notin> set a"
  proof (induction s arbitrary: a)
    case (Cons x s)
    then show ?case by (auto split: if_splits list.splits)
  qed simp
qed (auto simp: split_on_free)

lemma split_two: "split_on c s = [a, b] \<longleftrightarrow> s = a @ c # b \<and> c \<notin> set a \<and> c \<notin> set b"
proof
  assume "split_on c s = [a, b]"
  then show "s = a @ c # b \<and> c \<notin> set a \<and> c \<notin> set b"
  proof (induction s arbitrary: a)
    case (Cons x s)
    then show ?case by (auto simp: split_one split: if_splits list.splits)
  qed simp
qed (auto simp: split_on_first split_on_free)

lemma starts_with_append [simp]: "starts_with (p @ s) p"
  by (simp add: starts_with_def)

lemma truthy_iff: "truthy v \<longleftrightarrow> (\<exists>s. v = Some s \<and> s \<noteq> [])"
  by (cases v) auto

section \<open>Insertion-ordered maps\<close>

text \<open>
  A JavaScript \<open>Map\<close> iterates in insertion order: \<open>set\<close> on a present key keeps its place,
  on a new key appends at the end.
\<close>

fun map_set :: "'k \<Rightarrow> 'v \<Rightarrow> ('k \<times> 'v) list \<Rightarrow> ('k \<times> 'v) list" where
  "map_set k v [] = [(k, v)]"
| "map_set k v ((k', v') # m) = (if k = k' then (k, v) # m else (k', v') # map_set k v m)"

definition map_delete :: "'k \<Rightarrow> ('k \<times> 'v) list \<Rightarrow> ('k \<times> 'v) list" where
  "map_delete k m = filter (\<lambda>e. fst e \<noteq> k) m"

lemma map_of_map_set [simp]: "map_of (map_set k v m) = (map_of m)(k \<mapsto> v)"
  by (induction k v m rule: map_set.induct) auto

lemma map_of_map_delete [simp]: "map_of (map_delete k m) = (map_of m)(k := None)"
  by (induction m) (auto simp: map_delete_def fun_eq_iff)

lemma keys_map_set: "fst ` set (map_set k v m) = insert k (fst ` set m)"
  by (induction k v m rule: map_set.induct) auto

lemma distinct_map_set: "distinct (map fst m) \<Longrightarrow> distinct (map fst (map_set k v m))"
proof (induction k v m rule: map_set.induct)
  case (2 k v k' v' m)
  then show ?case using keys_map_set [of k v m] by auto
qed simp

lemma distinct_map_delete: "distinct (map fst m) \<Longrightarrow> distinct (map fst (map_delete k m))"
  by (induction m) (auto simp: map_delete_def)

lemma length_map_set:
  "length (map_set k v m) = (if k \<in> fst ` set m then length m else Suc (length m))"
  by (induction k v m rule: map_set.induct) auto

lemma map_of_filter_key:
  "map_of (filter (\<lambda>e. P (fst e)) m) k = (if P k then map_of m k else None)"
  by (induction m) auto

lemma map_of_Some_key: "map_of m k = Some v \<Longrightarrow> k \<in> fst ` set m"
  by (induction m) (auto split: if_splits)

section \<open>Sums over filtered lists\<close>

definition sum_for :: "('a \<Rightarrow> 'k) \<Rightarrow> ('a \<Rightarrow> int) \<Rightarrow> 'k \<Rightarrow> 'a list \<Rightarrow> int" where
  "sum_for key amount k xs = sum_list (map amount (filter (\<lambda>x. key x = k) xs))"

lemma sum_for_Nil [simp]: "sum_for key amount k [] = 0"
  by (simp add: sum_for_def)

lemma sum_for_append [simp]:
  "sum_for key amount k (xs @ ys) = sum_for key amount k xs + sum_for key amount k ys"
  by (simp add: sum_for_def)

lemma sum_for_Cons [simp]:
  "sum_for key amount k (x # xs) = (if key x = k then amount x else 0) + sum_for key amount k xs"
  by (simp add: sum_for_def)

lemma find_None_key: "List.find (\<lambda>x. f x = k) xs = None \<longleftrightarrow> k \<notin> f ` set xs"
  by (auto simp: find_None_iff)

lemma find_Some_key: "List.find (\<lambda>x. f x = k) xs = Some x \<Longrightarrow> x \<in> set xs \<and> f x = k"
  by (auto simp: find_Some_iff)

lemma find_key_append:
  "List.find P (xs @ ys) = (case List.find P xs of Some x \<Rightarrow> Some x | None \<Rightarrow> List.find P ys)"
  by (induction xs) auto

lemma distinct_key_unique:
  "distinct (map f xs) \<Longrightarrow> x \<in> set xs \<Longrightarrow> y \<in> set xs \<Longrightarrow> f x = f y \<Longrightarrow> x = y"
  by (simp add: distinct_map inj_on_def)

lemma distinct_singleton_list: "distinct xs \<Longrightarrow> set xs = {x} \<Longrightarrow> xs = [x]"
  by (metis distinct_card card.empty card.insert empty_iff finite.emptyI length_0_conv length_Suc_conv
      list.set_intros(1) singletonD)

lemma filter_below_nth:
  fixes key :: "'a \<Rightarrow> 'k :: linorder"
  assumes "sorted_wrt (\<lambda>a b. key b < key a) xs" and "k < length xs"
  shows "filter (\<lambda>x. key x < key (xs ! k)) xs = drop (Suc k) xs"
  using assms
proof (induction xs arbitrary: k)
  case (Cons x xs)
  show ?case
  proof (cases k)
    case 0
    with Cons.prems show ?thesis by (auto intro: filter_True)
  next
    case (Suc j)
    with Cons.prems have "key (xs ! j) < key x" by auto
    then have "\<not> key x < key (xs ! j)" by simp
    with Suc Cons show ?thesis by simp
  qed
qed simp

section \<open>Sequences of fallible state-changing calls\<close>

text \<open>
  A loop \<open>for (const x of xs) results.push(await f(x))\<close> whose body may throw: the state changes made
  before the exception stay.
\<close>

fun run_all :: "('s \<Rightarrow> 'i \<Rightarrow> ('e, 'r) result \<times> 's) \<Rightarrow> 's \<Rightarrow> 'i list \<Rightarrow> ('e, 'r list) result \<times> 's" where
  "run_all f s [] = (Inr [], s)"
| "run_all f s (i # is) =
     (case f s i of
        (Inl e, s') \<Rightarrow> (Inl e, s')
      | (Inr r, s') \<Rightarrow>
          (case run_all f s' is of
             (Inl e, s'') \<Rightarrow> (Inl e, s'')
           | (Inr rs, s'') \<Rightarrow> (Inr (r # rs), s'')))"

lemma run_all_Cons_Inr:
  "run_all f s (i # is) = (Inr rs, t) \<longleftrightarrow>
     (\<exists>r s' rs'. f s i = (Inr r, s') \<and> run_all f s' is = (Inr rs', t) \<and> rs = r # rs')"
  by (auto split: prod.splits sum.splits)

lemma run_all_keeps:
  assumes "\<And>s i r s'. f s i = (r, s') \<Longrightarrow> g s' = g s" and "run_all f s is = (r, s')"
  shows "g s' = g s"
  using assms(2)
proof (induction "is" arbitrary: s r)
  case (Cons i "is")
  obtain r1 s1 where 1: "f s i = (r1, s1)" by (cases "f s i")
  obtain r2 s2 where 2: "run_all f s1 is = (r2, s2)" by (cases "run_all f s1 is")
  show ?case
    using Cons.prems 1 2 assms(1) [OF 1] Cons.IH [of s1 r2] by (auto split: sum.splits)
qed simp

text \<open>
  The interface of an operation that may be called again for the same event. \<open>settled s i\<close> says
  that the event \<open>i\<close> is already accounted for in \<open>s\<close>: a successful call settles its event, a
  settled event stays settled whatever is called next, and calling it again succeeds and changes
  nothing. The operation keeps the invariant \<open>inv\<close> of the state.
\<close>

locale idempotent_step =
  fixes step :: "'s \<Rightarrow> 'i \<Rightarrow> ('e, 'r) result \<times> 's"
    and settled :: "'s \<Rightarrow> 'i \<Rightarrow> bool"
    and inv :: "'s \<Rightarrow> bool"
  assumes settles: "step s i = (Inr r, s') \<Longrightarrow> settled s' i"
    and stable: "settled s i \<Longrightarrow> step s j = (res, s') \<Longrightarrow> settled s' i"
    and idle: "settled s i \<Longrightarrow> \<exists>r. step s i = (Inr r, s)"
    and keeps_inv: "inv s \<Longrightarrow> step s i = (res, s') \<Longrightarrow> inv s'"
begin

lemma run_all_inv: "inv s \<Longrightarrow> run_all step s is = (r, s') \<Longrightarrow> inv s'"
proof (induction "is" arbitrary: s r s')
  case (Cons i "is")
  obtain r1 s1 where step: "step s i = (r1, s1)" by (cases "step s i")
  with Cons.prems(1) have inv: "inv s1" by (rule keeps_inv)
  show ?case
  proof (cases r1)
    case (Inl e)
    with step Cons.prems(2) inv show ?thesis by simp
  next
    case (Inr x)
    obtain r2 s2 where rest: "run_all step s1 is = (r2, s2)" by (cases "run_all step s1 is")
    then have "inv s2" using Cons.IH inv by blast
    with step Inr rest Cons.prems(2) show ?thesis by (auto split: sum.splits)
  qed
qed simp

lemma run_all_stable: "settled s i \<Longrightarrow> run_all step s is = (Inr rs, s') \<Longrightarrow> settled s' i"
  by (induction "is" arbitrary: s rs) (auto simp: run_all_Cons_Inr simp del: run_all.simps(2) dest: stable)

lemma run_all_settles: "run_all step s is = (Inr rs, s') \<Longrightarrow> i \<in> set is \<Longrightarrow> settled s' i"
  by (induction "is" arbitrary: s rs)
    (auto simp: run_all_Cons_Inr simp del: run_all.simps(2) dest: settles run_all_stable)

lemma run_all_idle: "\<forall>i \<in> set is. settled s i \<Longrightarrow> \<exists>rs. run_all step s is = (Inr rs, s)"
proof (induction "is")
  case (Cons i "is")
  then obtain r rs where "step s i = (Inr r, s)" "run_all step s is = (Inr rs, s)"
    using idle by fastforce
  then show ?case by simp
qed simp

lemma redelivery:
  assumes "run_all step s is = (Inr rs, s')" and "set js \<subseteq> set is"
  shows "\<exists>rs'. run_all step s' js = (Inr rs', s')"
  by (rule run_all_idle) (use assms run_all_settles in blast)

end

end
