(* ===== verification/Db.thy ===== *)
theory Db
  imports Prelude
begin

text \<open>
  The database the router keeps, as far as the modelled services read and write it: one record per
  entity of \<open>db/entities\<close> and one record \<open>db\<close> of tables. A table with a primary-key lookup is a
  partial map; \<open>credit_transactions\<close> and \<open>generations\<close> are append-only and are lists in insertion
  order, as is \<open>api_keys\<close>, which is also searched by hash. Amounts are integers (micro-USD), dates are integers (epoch milliseconds).

  Functions ending in \<open>_of\<close> are the \<open>findOne\<close> queries; the update helpers are the SQL statements
  \<open>UPDATE \<dots> WHERE id = :id\<close>, which leave the table alone when no row has the id.
\<close>

section \<open>Entities\<close>

datatype transaction_kind = Purchase | Usage | Refund | Adjustment | Auto_topup | Grant

record credit_transaction =
  tx_id :: string
  tx_workspaceId :: string
  tx_kind :: transaction_kind
  tx_amountMicros :: int
  tx_reference :: "string option"
  tx_description :: "string option"
  tx_idempotencyKey :: string
  tx_createdAt :: int

record workspace =
  ws_balanceMicros :: int
  ws_stripeCustomerId :: "string option"
  ws_autoTopUpEnabled :: bool
  ws_autoTopUpThresholdMicros :: "int option"
  ws_autoTopUpAmountMicros :: "int option"
  ws_autoTopUpLastAt :: "int option"
  ws_firstRequestAt :: "int option"
  ws_createdAt :: int

record api_key =
  key_id :: string
  key_workspaceId :: string
  key_name :: string
  key_keyHash :: string
  key_prefix :: string
  key_purpose :: "string option"
  key_modelScope :: "string list option"
  key_spendLimitMicros :: "int option"
  key_spentTotalMicros :: int
  key_requestsPerMinute :: "int option"
  key_tokensPerMinute :: "int option"
  key_expiresAt :: "int option"
  key_lastUsedAt :: "int option"
  key_revokedAt :: "int option"
  key_createdByUserId :: "string option"
  key_createdAt :: int

datatype generation_status = Ok | Error | Aborted

record metering_record =
  gen_id :: string
  gen_workspaceId :: string
  gen_apiKeyId :: string
  gen_modelId :: string
  gen_endpointId :: "string option"
  gen_externalEndpointId :: "string option"
  gen_evidenceSnapshotId :: "string option"
  gen_evidenceDigest :: "string option"
  gen_promptTokens :: int
  gen_completionTokens :: int
  gen_costMicros :: int
  gen_promptPer1mMicros :: int
  gen_completionPer1mMicros :: int
  gen_streamed :: bool
  gen_status :: generation_status
  gen_errorCode :: "string option"
  gen_finishReason :: "string option"
  gen_latencyMs :: int
  gen_timeToFirstTokenMs :: "int option"
  gen_tokensPerSecond :: "rat option"
  gen_requestId :: "string option"
  gen_clientIpHash :: "string option"
  gen_client :: string
  gen_createdAt :: int

record db =
  workspaces :: "string \<rightharpoonup> workspace"
  transactions :: "credit_transaction list"
  generations :: "metering_record list"
  api_keys :: "api_key list"
  owners :: "string \<rightharpoonup> string"

section \<open>Queries and updates\<close>

definition find_by_key :: "db \<Rightarrow> string \<Rightarrow> credit_transaction option" where
  "find_by_key d k = List.find (\<lambda>t. tx_idempotencyKey t = k) (transactions d)"

definition balance_in :: "db \<Rightarrow> string \<Rightarrow> int" where
  "balance_in d w = (case workspaces d w of None \<Rightarrow> 0 | Some ws \<Rightarrow> ws_balanceMicros ws)"

definition update_workspace :: "string \<Rightarrow> (workspace \<Rightarrow> workspace) \<Rightarrow> db \<Rightarrow> db" where
  "update_workspace w f d = d\<lparr>workspaces := (workspaces d)(w := map_option f (workspaces d w))\<rparr>"

definition update_api_key :: "string \<Rightarrow> (api_key \<Rightarrow> api_key) \<Rightarrow> db \<Rightarrow> db" where
  "update_api_key k f d = d\<lparr>api_keys := map (\<lambda>r. if key_id r = k then f r else r) (api_keys d)\<rparr>"

definition insert_transaction :: "credit_transaction \<Rightarrow> db \<Rightarrow> db" where
  "insert_transaction t d = d\<lparr>transactions := transactions d @ [t]\<rparr>"

definition insert_generation :: "metering_record \<Rightarrow> db \<Rightarrow> db" where
  "insert_generation g d = d\<lparr>generations := generations d @ [g]\<rparr>"

text \<open>A column of the workspaces table, or several: what a write does not touch.\<close>

definition ws_view :: "(workspace \<Rightarrow> 'a) \<Rightarrow> db \<Rightarrow> string \<Rightarrow> 'a option" where
  "ws_view v d w = map_option v (workspaces d w)"

section \<open>Lemmas\<close>

lemma ws_view_update:
  assumes "\<And>ws. v (f ws) = v ws"
  shows "ws_view v (update_workspace w f d) = ws_view v d"
  using assms by (auto simp: ws_view_def update_workspace_def fun_eq_iff option.map_comp comp_def)

lemma ws_view_insert [db_simps]:
  "ws_view v (insert_transaction t d) = ws_view v d"
  "ws_view v (insert_generation g d) = ws_view v d"
  "ws_view v (update_api_key k h d) = ws_view v d"
  by (simp_all add: ws_view_def fun_eq_iff insert_transaction_def insert_generation_def update_api_key_def)

lemma update_workspace_idle:
  assumes "\<And>ws. workspaces d w = Some ws \<Longrightarrow> f ws = ws"
  shows "update_workspace w f d = d"
proof -
  have "map_option f (workspaces d w) = workspaces d w" using assms by (cases "workspaces d w") auto
  then have "(workspaces d)(w := map_option f (workspaces d w)) = workspaces d" by auto
  then show ?thesis by (simp add: update_workspace_def)
qed

lemma workspaces_update_workspace [db_simps]:
  "workspaces (update_workspace w f d) v =
     (if v = w then map_option f (workspaces d w) else workspaces d v)"
  by (simp add: update_workspace_def)

lemma update_workspace_frame [db_simps]:
  "transactions (update_workspace w f d) = transactions d"
  "generations (update_workspace w f d) = generations d"
  "api_keys (update_workspace w f d) = api_keys d"
  "owners (update_workspace w f d) = owners d"
  by (simp_all add: update_workspace_def)

lemma api_keys_update_api_key [db_simps]:
  "api_keys (update_api_key k f d) = map (\<lambda>r. if key_id r = k then f r else r) (api_keys d)"
  by (simp add: update_api_key_def)

lemma update_api_key_frame [db_simps]:
  "transactions (update_api_key k f d) = transactions d"
  "generations (update_api_key k f d) = generations d"
  "workspaces (update_api_key k f d) = workspaces d"
  "owners (update_api_key k f d) = owners d"
  by (simp_all add: update_api_key_def)

lemma insert_transaction_frame [db_simps]:
  "transactions (insert_transaction t d) = transactions d @ [t]"
  "workspaces (insert_transaction t d) = workspaces d"
  "generations (insert_transaction t d) = generations d"
  "api_keys (insert_transaction t d) = api_keys d"
  "owners (insert_transaction t d) = owners d"
  by (simp_all add: insert_transaction_def)

lemma insert_generation_frame [db_simps]:
  "generations (insert_generation g d) = generations d @ [g]"
  "workspaces (insert_generation g d) = workspaces d"
  "transactions (insert_generation g d) = transactions d"
  "api_keys (insert_generation g d) = api_keys d"
  "owners (insert_generation g d) = owners d"
  by (simp_all add: insert_generation_def)

lemma find_by_key_None: "find_by_key d k = None \<longleftrightarrow> k \<notin> tx_idempotencyKey ` set (transactions d)"
  by (simp add: find_by_key_def find_None_key)

lemma find_by_key_Some:
  "find_by_key d k = Some t \<Longrightarrow> t \<in> set (transactions d) \<and> tx_idempotencyKey t = k"
  unfolding find_by_key_def by (rule find_Some_key)

lemma find_by_key_cong: "transactions d = transactions d' \<Longrightarrow> find_by_key d k = find_by_key d' k"
  by (simp add: find_by_key_def)

lemma find_by_key_insert [db_simps]:
  "find_by_key (insert_transaction t d) k =
     (case find_by_key d k of Some x \<Rightarrow> Some x
      | None \<Rightarrow> if tx_idempotencyKey t = k then Some t else None)"
  by (simp add: find_by_key_def insert_transaction_frame find_key_append split: option.split)

lemma balance_in_frame [db_simps]:
  "balance_in (insert_transaction t d) w = balance_in d w"
  "balance_in (insert_generation g d) w = balance_in d w"
  "balance_in (update_api_key k f d) w = balance_in d w"
  by (simp_all add: balance_in_def db_simps)

end
