(* ===== verification/Money.thy ===== *)
theory Money
  imports Prelude
begin

text \<open>
  The money helpers of \<open>billing/money.ts\<close>: micro-USD amounts are integers; these functions are
  the only conversions to and from text, dollars and cents. JavaScript numbers are represented
  by the integers they denote; \<open>Number.isSafeInteger\<close> is the explicit bound \<open>MAX_SAFE_INTEGER\<close>,
  and since reading a decimal literal rounds monotonically, a literal above the bound is read as a
  number above the bound, which is all the code looks at.
\<close>

section \<open>Definitions\<close>

datatype money_error =
    NotAnInteger string
  | OutOfRange
  | NotAUsdAmount string
  | NotPositive
  | ChargeNotPositive
  | ChargeNotWholeCents int

definition MICROS_PER_USD :: int where "MICROS_PER_USD = 1000000"

definition MICROS_PER_CENT :: int where "MICROS_PER_CENT = 10000"

definition MAX_SAFE_INTEGER :: int where "MAX_SAFE_INTEGER = 9007199254740991"

definition is_safe_integer :: "int \<Rightarrow> bool" where
  "is_safe_integer i = (\<bar>i\<bar> \<le> MAX_SAFE_INTEGER)"

text \<open>The regular expression \<open>^-?\d+$\<close>.\<close>

fun is_integer_literal :: "string \<Rightarrow> bool" where
  "is_integer_literal [] = False"
| "is_integer_literal (c # cs) =
     (if c = CHR ''-'' then all_digits cs else all_digits (c # cs))"

definition number_of_literal :: "string \<Rightarrow> int" where
  "number_of_literal s =
     (case s of [] \<Rightarrow> 0
      | c # cs \<Rightarrow> if c = CHR ''-'' then - int (read_nat 0 cs) else int (read_nat 0 s))"

definition parseMicros :: "string \<Rightarrow> (money_error, int) result" where
  "parseMicros value =
     (if \<not> is_integer_literal (trim value) then Inl (NotAnInteger value)
      else let parsed = number_of_literal (trim value)
           in if \<not> is_safe_integer parsed then Inl OutOfRange else Inr parsed)"

text \<open>
  The regular expression \<open>^(\d+)(?:\.(\d{1,6}))?$\<close>: the digits before the point and, when there is
  a point, the one to six digits after it.
\<close>

definition usd_match :: "string \<Rightarrow> (string \<times> string option) option" where
  "usd_match text =
     (let whole = takeWhile is_digit text; rest = dropWhile is_digit text
      in if whole = [] then None
         else case rest of
             [] \<Rightarrow> Some (whole, None)
           | c # fr \<Rightarrow>
               if c = CHR ''.'' \<and> all_digits fr \<and> length fr \<le> 6
               then Some (whole, Some fr) else None)"

definition usdToMicros :: "string \<Rightarrow> (money_error, int) result" where
  "usdToMicros value =
     (case usd_match (trim value) of
        None \<Rightarrow> Inl (NotAUsdAmount value)
      | Some (whole, fr) \<Rightarrow>
          let micros = int (read_nat 0 whole) * MICROS_PER_USD
                + int (read_nat 0 (pad_end 6 CHR ''0'' (case fr of None \<Rightarrow> [] | Some f \<Rightarrow> f)))
          in if micros \<le> 0 then Inl NotPositive
             else if \<not> is_safe_integer micros then Inl OutOfRange
             else Inr micros)"

definition formatMicros :: "int \<Rightarrow> string" where
  "formatMicros value = show_int value"

definition microsToUsdString :: "int \<Rightarrow> string" where
  "microsToUsdString value =
     (let absolute = \<bar>value\<bar>;
          whole = nat (absolute div MICROS_PER_USD);
          fraction = pad_start 6 CHR ''0'' (show_nat (nat (absolute mod MICROS_PER_USD)))
      in (if value < 0 then ''-'' else '''') @ show_nat whole @ ''.'' @ fraction)"

definition microsToCents :: "int \<Rightarrow> (money_error, int) result" where
  "microsToCents value =
     (if value \<le> 0 then Inl ChargeNotPositive
      else if value mod MICROS_PER_CENT \<noteq> 0 then Inl (ChargeNotWholeCents value)
      else Inr (value div MICROS_PER_CENT))"

definition centsToMicros :: "int \<Rightarrow> int" where
  "centsToMicros cents = cents * MICROS_PER_CENT"

section \<open>Lemmas\<close>

lemmas money_consts = MICROS_PER_USD_def MICROS_PER_CENT_def MAX_SAFE_INTEGER_def

lemma all_digits_trim: "all_digits s \<Longrightarrow> trim s = s"
  by (rule trim_id) (auto simp: all_digits_def list_all_iff digit_not_space)

lemma all_digits_ends: "all_digits s \<Longrightarrow> s \<noteq> [] \<and> is_digit (hd s) \<and> is_digit (last s)"
  by (simp add: all_digits_def list_all_iff)

lemma show_nat_first: "\<exists>c cs. show_nat n = c # cs \<and> is_digit c"
  using show_nat_digits [of n] show_nat_nonempty [of n] by (cases "show_nat n") auto

lemma literal_show_int: "is_integer_literal (show_int i)"
proof (cases "i < 0")
  case False
  obtain c cs where "show_nat (nat i) = c # cs" "is_digit c" using show_nat_first by blast
  with False all_digits_show_nat [of "nat i"] show ?thesis by (auto simp: show_int_def)
qed (simp add: show_int_def)

lemma number_of_show_int: "number_of_literal (show_int i) = i"
proof (cases "i < 0")
  case False
  obtain c cs where s: "show_nat (nat i) = c # cs" "is_digit c" using show_nat_first by blast
  then have "read_nat 0 (c # cs) = nat i" by (metis read_show_nat)
  with s False show ?thesis by (auto simp: show_int_def number_of_literal_def)
qed (simp add: show_int_def number_of_literal_def)

lemma dash_not_space: "\<not> is_space CHR ''-''"
  by (simp add: is_space_def)

lemma trim_show_int: "trim (show_int i) = show_int i"
proof (cases "i < 0")
  case True
  then show ?thesis
    using all_digits_ends [OF all_digits_show_nat, of "nat (- i)"] dash_not_space
    by (intro trim_id) (auto simp: show_int_def digit_not_space)
next
  case False
  then show ?thesis by (simp add: show_int_def all_digits_trim)
qed

lemma parseMicros_eq:
  "parseMicros value = Inr n \<longleftrightarrow>
     is_integer_literal (trim value) \<and> number_of_literal (trim value) = n \<and> is_safe_integer n"
  by (auto simp: parseMicros_def Let_def)

lemma takeWhile_digits_point:
  assumes "list_all is_digit w" and "\<not> is_digit c"
  shows "takeWhile is_digit (w @ c # f) = w" and "dropWhile is_digit (w @ c # f) = c # f"
  using assms by (induction w) auto

lemma length_fraction:
  "0 \<le> r \<Longrightarrow> r < MICROS_PER_USD \<Longrightarrow> length (pad_start 6 CHR ''0'' (show_nat (nat r))) = 6"
  using show_nat_length [of "nat r" 6] by (simp add: pad_start_def money_consts)

lemma digits_pad_start: "all_digits s \<Longrightarrow> all_digits (pad_start n CHR ''0'' s)"
  by (auto simp: all_digits_def pad_start_def list_all_iff is_digit_def)

lemma usd_match_microsToUsdString:
  assumes "0 \<le> v"
  shows "usd_match (microsToUsdString v) =
    Some (show_nat (nat (v div MICROS_PER_USD)),
          Some (pad_start 6 CHR ''0'' (show_nat (nat (v mod MICROS_PER_USD)))))"
proof -
  let ?w = "show_nat (nat (v div MICROS_PER_USD))"
  let ?f = "pad_start 6 CHR ''0'' (show_nat (nat (v mod MICROS_PER_USD)))"
  have str: "microsToUsdString v = ?w @ CHR ''.'' # ?f"
    using assms by (simp add: microsToUsdString_def Let_def)
  have pt: "\<not> is_digit CHR ''.''" by (simp add: is_digit_def)
  have "length ?f = 6"
    by (rule length_fraction) (simp_all add: money_consts)
  moreover have "all_digits ?f" by (simp add: digits_pad_start)
  ultimately show ?thesis
    unfolding str usd_match_def
    by (simp add: takeWhile_digits_point [OF show_nat_digits pt])
qed

lemma trim_microsToUsdString: "0 \<le> v \<Longrightarrow> trim (microsToUsdString v) = microsToUsdString v"
proof -
  assume v: "0 \<le> v"
  let ?w = "show_nat (nat (v div MICROS_PER_USD))"
  let ?f = "pad_start 6 CHR ''0'' (show_nat (nat (v mod MICROS_PER_USD)))"
  have str: "microsToUsdString v = ?w @ CHR ''.'' # ?f"
    using v by (simp add: microsToUsdString_def Let_def)
  have "is_digit (hd ?w)" using show_nat_first by (metis list.sel(1))
  moreover have "is_digit (last ?f)"
    using all_digits_ends [OF digits_pad_start [OF all_digits_show_nat]] by blast
  moreover have "?f \<noteq> []" by (simp add: pad_start_def)
  ultimately show ?thesis
    unfolding str by (intro trim_id) (auto simp: digit_not_space)
qed

lemma read_fraction: "length f = 6 \<Longrightarrow> read_nat 0 (pad_end 6 CHR ''0'' f) = read_nat 0 f"
  by (simp add: pad_end_def)

lemma microsToCents_eq:
  "microsToCents v = Inr c \<longleftrightarrow> 0 < v \<and> v = c * MICROS_PER_CENT"
  by (auto simp: microsToCents_def money_consts)

section \<open>Properties\<close>

text \<open>
  Every safe integer amount survives the wire format: \<open>parseMicros\<close> reads back exactly what
  \<open>formatMicros\<close> wrote.
\<close>
theorem micros_roundtrip:
  "is_safe_integer n \<Longrightarrow> parseMicros (formatMicros n) = Inr n"
  by (simp add: parseMicros_eq formatMicros_def trim_show_int literal_show_int number_of_show_int)

text \<open>
  A positive safe amount printed in dollars with six decimals by \<open>microsToUsdString\<close> is read
  back by \<open>usdToMicros\<close> as the same number of micro-USD.
\<close>

theorem usd_roundtrip:
  assumes "0 < v" and "is_safe_integer v"
  shows "usdToMicros (microsToUsdString v) = Inr v"
proof -
  let ?r = "v mod MICROS_PER_USD"
  have r: "0 \<le> ?r" "?r < MICROS_PER_USD" by (simp_all add: money_consts)
  then have "read_nat 0 (pad_end 6 CHR ''0'' (pad_start 6 CHR ''0'' (show_nat (nat ?r)))) = nat ?r"
    using length_fraction [OF r] by (simp add: read_fraction) (simp add: pad_start_def read_nat_zeros)
  with assms r show ?thesis
    by (simp add: usdToMicros_def trim_microsToUsdString usd_match_microsToUsdString Let_def
        pos_imp_zdiv_nonneg_iff money_consts)
qed

text \<open>
  A charge is accepted exactly when it is a positive whole number of cents, and then the cents
  convert back to the amount that was asked for: no rounding ever changes what is billed.
\<close>

lemma cents_exact:
  "microsToCents v = Inr c \<longleftrightarrow> 0 < v \<and> centsToMicros c = v"
  by (auto simp: microsToCents_eq centsToMicros_def)

end
