(* ===== verification/Ledger.thy ===== *)
theory Ledger
  imports Db Money "HOL-Library.Multiset" "HOL-Library.List_Lexorder" "HOL-Library.Product_Lexorder"
begin

text \<open>
  The credits ledger, \<open>billing/ledger.service.ts\<close>: the single writer of \<open>credit_transactions\<close> and
  of \<open>workspaces.balanceMicros\<close>.

  \<^item> \<open>ledger_record\<close>, \<open>debitGeneration\<close>, \<open>ledger_append\<close>, \<open>appendWithin\<close>, \<open>balanceOf\<close> and \<open>page\<close> are the
    service's operations on the database state. A transaction either returns the new state or an
    error, in which case the caller keeps the old state (the rollback). The random row id and the
    clock are arguments.
  \<^item> \<open>ledger_inv\<close> is the documented invariant: the cached balance of every workspace is the sum
    of its ledger rows, and no two rows share an idempotency key, a row id, or lack a workspace.
  \<^item> \<open>write_step\<close> runs any number of concurrent \<open>record\<close> calls: the first read and the transaction
    of one call are separate atomic steps, and steps of other calls may come in between.
  \<^item> \<open>record\<close> is an interpretation of the prelude's locale \<open>idempotent_step\<close>: a loop over ledger
    events keeps the invariant, settles every event and may be repeated without effect.
\<close>

section \<open>Definitions\<close>

record ledger_input =
  in_workspaceId :: string
  in_kind :: transaction_kind
  in_amountMicros :: int
  in_idempotencyKey :: string
  in_reference :: "string option"
  in_description :: "string option"

record ledger_entry =
  le_transaction :: credit_transaction
  le_balanceMicros :: int
  le_replayed :: bool

datatype ledger_error =
    WorkspaceNotFound
  | InsufficientCredits int int
  | LedgerSign transaction_kind int
  | UniqueViolation

datatype required_sign = Positive | Negative | AnySign

fun REQUIRED_SIGN :: "transaction_kind \<Rightarrow> required_sign" where
  "REQUIRED_SIGN Purchase = Positive"
| "REQUIRED_SIGN Auto_topup = Positive"
| "REQUIRED_SIGN Grant = Positive"
| "REQUIRED_SIGN Usage = Negative"
| "REQUIRED_SIGN Refund = Negative"
| "REQUIRED_SIGN Adjustment = AnySign"

definition MAY_OVERDRAW :: "transaction_kind \<Rightarrow> bool" where
  "MAY_OVERDRAW k = (k = Usage \<or> k = Refund)"

definition assertSign :: "ledger_input \<Rightarrow> (ledger_error, unit) result" where
  "assertSign i =
     (let required = REQUIRED_SIGN (in_kind i);
          wrong = in_amountMicros i = 0
            \<or> (required = Positive \<and> in_amountMicros i < 0)
            \<or> (required = Negative \<and> in_amountMicros i > 0)
      in guard (\<not> wrong) (LedgerSign (in_kind i) (in_amountMicros i)))"

text \<open>The row \<open>ledger_append\<close> inserts; \<open>uuid\<close> is \<open>randomUUID()\<close> and \<open>now\<close> is \<open>new Date()\<close>.\<close>

definition transaction_of :: "ledger_input \<Rightarrow> string \<Rightarrow> int \<Rightarrow> credit_transaction" where
  "transaction_of i uuid now =
     \<lparr>tx_id = uuid, tx_workspaceId = in_workspaceId i, tx_kind = in_kind i,
      tx_amountMicros = in_amountMicros i, tx_reference = in_reference i,
      tx_description = in_description i, tx_idempotencyKey = in_idempotencyKey i,
      tx_createdAt = now\<rparr>"

text \<open>
  The conditional relative update: \<open>None\<close> when no row was affected, that is when there is no such
  workspace or the overdraft guard in the \<open>WHERE\<close> clause does not hold.
\<close>

definition move_balance :: "db \<Rightarrow> ledger_input \<Rightarrow> db option" where
  "move_balance d i =
     (case workspaces d (in_workspaceId i) of
        None \<Rightarrow> None
      | Some w \<Rightarrow>
          if \<not> MAY_OVERDRAW (in_kind i) \<and> in_amountMicros i < 0
             \<and> \<not> ws_balanceMicros w + in_amountMicros i \<ge> 0
          then None
          else Some (update_workspace (in_workspaceId i)
                 (\<lambda>w. w\<lparr>ws_balanceMicros := ws_balanceMicros w + in_amountMicros i\<rparr>) d))"

text \<open>The insert fails on either unique index: the idempotency key and the primary key.\<close>

definition violates_unique :: "db \<Rightarrow> credit_transaction \<Rightarrow> bool" where
  "violates_unique d t =
     (tx_idempotencyKey t \<in> tx_idempotencyKey ` set (transactions d)
      \<or> tx_id t \<in> tx_id ` set (transactions d))"

definition ledger_append :: "db \<Rightarrow> ledger_input \<Rightarrow> string \<Rightarrow> int \<Rightarrow> (ledger_error, ledger_entry \<times> db) result" where
  "ledger_append d i uuid now =
     (case move_balance d i of
        None \<Rightarrow>
          (case workspaces d (in_workspaceId i) of
             None \<Rightarrow> Inl WorkspaceNotFound
           | Some w \<Rightarrow> Inl (InsufficientCredits (ws_balanceMicros w) (in_amountMicros i)))
      | Some d1 \<Rightarrow>
          let t = transaction_of i uuid now
          in if violates_unique d1 t then Inl UniqueViolation
             else let d2 = insert_transaction t d1
                  in Inr (\<lparr>le_transaction = t,
                           le_balanceMicros = balance_in d2 (in_workspaceId i),
                           le_replayed = False\<rparr>, d2))"

definition replay :: "db \<Rightarrow> credit_transaction \<Rightarrow> ledger_entry" where
  "replay d t = \<lparr>le_transaction = t, le_balanceMicros = balance_in d (tx_workspaceId t), le_replayed = True\<rparr>"

text \<open>
  \<open>record\<close> up to the transaction: the sign check and the first look for the key. \<open>None\<close> means that
  the transaction is to be run.
\<close>

definition record_begin :: "db \<Rightarrow> ledger_input \<Rightarrow> (ledger_error, ledger_entry option) result" where
  "record_begin d i =
     res_bind (assertSign i) (\<lambda>_.
       Inr (map_option (replay d) (find_by_key d (in_idempotencyKey i))))"

text \<open>
  \<open>record\<close> from the transaction on: a unique violation rolls back and looks the key up again.
\<close>

definition record_commit ::
  "db \<Rightarrow> ledger_input \<Rightarrow> string \<Rightarrow> int \<Rightarrow> (ledger_error, ledger_entry) result \<times> db" where
  "record_commit d i uuid now =
     (case ledger_append d i uuid now of
        Inr (entry, d') \<Rightarrow> (Inr entry, d')
      | Inl UniqueViolation \<Rightarrow>
          (case find_by_key d (in_idempotencyKey i) of
             None \<Rightarrow> (Inl UniqueViolation, d)
           | Some winner \<Rightarrow> (Inr (replay d winner), d))
      | Inl e \<Rightarrow> (Inl e, d))"

definition ledger_record ::
  "db \<Rightarrow> ledger_input \<Rightarrow> string \<Rightarrow> int \<Rightarrow> (ledger_error, ledger_entry) result \<times> db" where
  "ledger_record d i uuid now =
     (case record_begin d i of
        Inl e \<Rightarrow> (Inl e, d)
      | Inr (Some entry) \<Rightarrow> (Inr entry, d)
      | Inr None \<Rightarrow> record_commit d i uuid now)"

definition appendWithin ::
  "db \<Rightarrow> ledger_input \<Rightarrow> string \<Rightarrow> int \<Rightarrow> (ledger_error, ledger_entry \<times> db) result" where
  "appendWithin d i uuid now = res_bind (assertSign i) (\<lambda>_. ledger_append d i uuid now)"

text \<open>
  \<open>LedgerService.transaction\<close>: the caller's work runs in one database transaction, so an error
  leaves the state as it was.
\<close>

definition run_transaction :: "(db \<Rightarrow> ('e, 'a \<times> db) result) \<Rightarrow> db \<Rightarrow> ('e, 'a) result \<times> db" where
  "run_transaction run d = (case run d of Inl e \<Rightarrow> (Inl e, d) | Inr (x, d') \<Rightarrow> (Inr x, d'))"

definition generation_input :: "string \<Rightarrow> string \<Rightarrow> int \<Rightarrow> ledger_input" where
  "generation_input w g amount =
     \<lparr>in_workspaceId = w, in_kind = Usage, in_amountMicros = - amount,
      in_idempotencyKey = ''generation:'' @ g, in_reference = Some g, in_description = None\<rparr>"

definition debitGeneration ::
  "db \<Rightarrow> string \<Rightarrow> string \<Rightarrow> int \<Rightarrow> string \<Rightarrow> int \<Rightarrow> (ledger_error, ledger_entry option) result \<times> db" where
  "debitGeneration d w g amount uuid now =
     (if amount \<le> 0 then (Inr None, d)
      else case ledger_record d (generation_input w g amount) uuid now of
             (Inl e, d') \<Rightarrow> (Inl e, d')
           | (Inr entry, d') \<Rightarrow> (Inr (Some entry), d'))"

record credits_balance =
  cb_balanceMicros :: int
  cb_spendable :: bool

definition toBalance :: "int \<Rightarrow> int \<Rightarrow> credits_balance" where
  "toBalance allowOverdraftMicros balance =
     \<lparr>cb_balanceMicros = balance, cb_spendable = (balance + allowOverdraftMicros > 0)\<rparr>"

definition balanceOf :: "int \<Rightarrow> db \<Rightarrow> string \<Rightarrow> (ledger_error, credits_balance) result" where
  "balanceOf allowOverdraftMicros d w =
     (case workspaces d w of
        None \<Rightarrow> Inl WorkspaceNotFound
      | Some ws \<Rightarrow> Inr (toBalance allowOverdraftMicros (ws_balanceMicros ws)))"

text \<open>
  The keyset page of \<open>LedgerService.page\<close>. A cursor is the pair of the sort value and the row id
  that \<open>encodeCursor\<close> packs; rows are ordered by \<open>(createdAt, id)\<close>, newest first, and the query
  takes one row more than the page holds.
\<close>

type_synonym cursor = "int \<times> string"

definition cursor_of :: "credit_transaction \<Rightarrow> cursor" where
  "cursor_of t = (tx_createdAt t, tx_id t)"

definition DEFAULT_PAGE_SIZE :: int where "DEFAULT_PAGE_SIZE = 20"

definition MAX_PAGE_SIZE :: int where "MAX_PAGE_SIZE = 200"

record ledger_page =
  pg_edges :: "(cursor \<times> credit_transaction) list"
  pg_hasNextPage :: bool
  pg_endCursor :: "cursor option"
  pg_totalCount :: nat

definition page_size :: "int option \<Rightarrow> nat" where
  "page_size first =
     nat (min (max (case first of None \<Rightarrow> DEFAULT_PAGE_SIZE | Some n \<Rightarrow> n) 1) MAX_PAGE_SIZE)"

definition after_cursor :: "cursor option \<Rightarrow> credit_transaction \<Rightarrow> bool" where
  "after_cursor after t =
     (case after of
        None \<Rightarrow> True
      | Some (value, i) \<Rightarrow> tx_createdAt t < value \<or> (tx_createdAt t = value \<and> tx_id t < i))"

definition page_query :: "db \<Rightarrow> string \<Rightarrow> cursor option \<Rightarrow> credit_transaction list" where
  "page_query d w after =
     rev (sort_key cursor_of (filter (\<lambda>t. tx_workspaceId t = w \<and> after_cursor after t) (transactions d)))"

definition page :: "db \<Rightarrow> string \<Rightarrow> int option \<Rightarrow> cursor option \<Rightarrow> ledger_page" where
  "page d w first after =
     (let size = page_size first;
          rows = take (size + 1) (page_query d w after);
          hasNext = length rows > size;
          pg = (if hasNext then take size rows else rows);
          edges = map (\<lambda>t. (cursor_of t, t)) pg
      in \<lparr>pg_edges = edges, pg_hasNextPage = hasNext,
          pg_endCursor = (if edges = [] then None else Some (fst (last edges))),
          pg_totalCount = length (filter (\<lambda>t. tx_workspaceId t = w) (transactions d))\<rparr>)"

text \<open>
  Concurrent \<open>record\<close> calls. A writer is idle, has read and found no row for its key, or has
  returned. \<open>other_write\<close> stands for the updates other services make to workspace columns the
  ledger does not own.
\<close>

datatype writer =
    Idle
  | Pending ledger_input
  | Returned ledger_input "(ledger_error, ledger_entry) result"

record pool =
  pool_db :: db
  writers :: "nat \<Rightarrow> writer"

inductive write_step :: "pool \<Rightarrow> pool \<Rightarrow> bool" where
  refuse: "writers s p = Idle \<Longrightarrow> record_begin (pool_db s) i = Inl e \<Longrightarrow>
    write_step s (s\<lparr>writers := (writers s)(p := Returned i (Inl e))\<rparr>)"
| found: "writers s p = Idle \<Longrightarrow> record_begin (pool_db s) i = Inr (Some entry) \<Longrightarrow>
    write_step s (s\<lparr>writers := (writers s)(p := Returned i (Inr entry))\<rparr>)"
| missed: "writers s p = Idle \<Longrightarrow> record_begin (pool_db s) i = Inr None \<Longrightarrow>
    write_step s (s\<lparr>writers := (writers s)(p := Pending i)\<rparr>)"
| commit: "writers s p = Pending i \<Longrightarrow> record_commit (pool_db s) i uuid now = (r, d') \<Longrightarrow>
    write_step s (s\<lparr>pool_db := d', writers := (writers s)(p := Returned i r)\<rparr>)"
| other_write: "(\<And>ws. ws_balanceMicros (f ws) = ws_balanceMicros ws) \<Longrightarrow>
    write_step s (s\<lparr>pool_db := update_workspace w f (pool_db s)\<rparr>)"

inductive pool_reachable :: "db \<Rightarrow> pool \<Rightarrow> bool" for d0 where
  start: "pool_reachable d0 \<lparr>pool_db = d0, writers = (\<lambda>_. Idle)\<rparr>"
| step: "pool_reachable d0 s \<Longrightarrow> write_step s t \<Longrightarrow> pool_reachable d0 t"

section \<open>The ledger invariant\<close>

definition ledger_inv :: "db \<Rightarrow> bool" where
  "ledger_inv d =
     ((\<forall>w ws. workspaces d w = Some ws \<longrightarrow>
         ws_balanceMicros ws = sum_for tx_workspaceId tx_amountMicros w (transactions d))
      \<and> distinct (map tx_idempotencyKey (transactions d))
      \<and> distinct (map tx_id (transactions d))
      \<and> (\<forall>t \<in> set (transactions d). tx_workspaceId t \<in> dom (workspaces d)))"

lemma ledger_invI:
  assumes "\<And>w ws. workspaces d w = Some ws \<Longrightarrow>
      ws_balanceMicros ws = sum_for tx_workspaceId tx_amountMicros w (transactions d)"
    and "distinct (map tx_idempotencyKey (transactions d))"
    and "distinct (map tx_id (transactions d))"
    and "\<And>t. t \<in> set (transactions d) \<Longrightarrow> tx_workspaceId t \<in> dom (workspaces d)"
  shows "ledger_inv d"
  using assms by (auto simp: ledger_inv_def)

lemma ledger_inv_balance:
  "ledger_inv d \<Longrightarrow> w \<in> dom (workspaces d) \<Longrightarrow>
     balance_in d w = sum_for tx_workspaceId tx_amountMicros w (transactions d)"
  by (auto simp: ledger_inv_def balance_in_def)

text \<open>Writes that touch neither a balance nor the ledger keep the invariant.\<close>

lemma ledger_inv_frame:
  assumes "ledger_inv d" and "transactions d' = transactions d"
    and "dom (workspaces d') = dom (workspaces d)"
    and "\<And>w. balance_in d' w = balance_in d w"
  shows "ledger_inv d'"
proof (rule ledger_invI)
  fix w ws
  assume w: "workspaces d' w = Some ws"
  then have "w \<in> dom (workspaces d)" using assms(3) by auto
  then have "balance_in d w = sum_for tx_workspaceId tx_amountMicros w (transactions d)"
    by (rule ledger_inv_balance [OF assms(1)])
  then show "ws_balanceMicros ws = sum_for tx_workspaceId tx_amountMicros w (transactions d')"
    using w assms(2) assms(4) [of w] by (simp add: balance_in_def)
qed (use assms(1-3) in \<open>auto simp: ledger_inv_def\<close>)

lemma ledger_inv_update_workspace:
  assumes "ledger_inv d" and "\<And>ws. ws_balanceMicros (f ws) = ws_balanceMicros ws"
  shows "ledger_inv (update_workspace w f d)"
  using assms(1)
  by (rule ledger_inv_frame)
    (auto simp: db_simps balance_in_def assms(2) dom_def split: option.splits if_splits)

section \<open>Append\<close>

lemma move_balance_Some:
  assumes "move_balance d i = Some d1"
  obtains w where "workspaces d (in_workspaceId i) = Some w"
    and "d1 = update_workspace (in_workspaceId i)
          (\<lambda>w. w\<lparr>ws_balanceMicros := ws_balanceMicros w + in_amountMicros i\<rparr>) d"
    and "MAY_OVERDRAW (in_kind i) \<or> 0 \<le> in_amountMicros i \<or> 0 \<le> ws_balanceMicros w + in_amountMicros i"
  using assms by (auto simp: move_balance_def split: option.splits if_splits)

lemma append_success:
  assumes "ledger_append d i uuid now = Inr (entry, d')"
  shows "workspaces d (in_workspaceId i) \<noteq> None"
    and "in_idempotencyKey i \<notin> tx_idempotencyKey ` set (transactions d)"
    and "uuid \<notin> tx_id ` set (transactions d)"
    and "transactions d' = transactions d @ [transaction_of i uuid now]"
    and "balance_in d' (in_workspaceId i) = balance_in d (in_workspaceId i) + in_amountMicros i"
    and "w \<noteq> in_workspaceId i \<Longrightarrow> workspaces d' w = workspaces d w"
    and "entry = \<lparr>le_transaction = transaction_of i uuid now,
           le_balanceMicros = balance_in d' (in_workspaceId i), le_replayed = False\<rparr>"
    and "MAY_OVERDRAW (in_kind i) \<or> 0 \<le> in_amountMicros i \<or> 0 \<le> balance_in d' (in_workspaceId i)"
proof -
  from assms obtain d1 where d1: "move_balance d i = Some d1"
    and fresh: "\<not> violates_unique d1 (transaction_of i uuid now)"
    and d': "d' = insert_transaction (transaction_of i uuid now) d1"
    and entry: "entry = \<lparr>le_transaction = transaction_of i uuid now,
           le_balanceMicros = balance_in d' (in_workspaceId i), le_replayed = False\<rparr>"
    by (auto simp: ledger_append_def Let_def split: option.splits if_splits)
  from d1 obtain ws where ws: "workspaces d (in_workspaceId i) = Some ws"
    and upd: "d1 = update_workspace (in_workspaceId i)
          (\<lambda>w. w\<lparr>ws_balanceMicros := ws_balanceMicros w + in_amountMicros i\<rparr>) d"
    and ok: "MAY_OVERDRAW (in_kind i) \<or> 0 \<le> in_amountMicros i \<or> 0 \<le> ws_balanceMicros ws + in_amountMicros i"
    by (rule move_balance_Some)
  show "workspaces d (in_workspaceId i) \<noteq> None" using ws by simp
  show "in_idempotencyKey i \<notin> tx_idempotencyKey ` set (transactions d)"
    and "uuid \<notin> tx_id ` set (transactions d)"
    using fresh by (auto simp: violates_unique_def upd db_simps transaction_of_def)
  show "transactions d' = transactions d @ [transaction_of i uuid now]"
    by (simp add: d' upd db_simps)
  show bal: "balance_in d' (in_workspaceId i) = balance_in d (in_workspaceId i) + in_amountMicros i"
    using ws by (simp add: d' upd db_simps balance_in_def)
  show "workspaces d' w = workspaces d w" if "w \<noteq> in_workspaceId i"
    using that by (simp add: d' upd db_simps)
  show "entry = \<lparr>le_transaction = transaction_of i uuid now,
           le_balanceMicros = balance_in d' (in_workspaceId i), le_replayed = False\<rparr>"
    by (rule entry)
  show "MAY_OVERDRAW (in_kind i) \<or> 0 \<le> in_amountMicros i \<or> 0 \<le> balance_in d' (in_workspaceId i)"
    using ok ws bal by (auto simp: balance_in_def)
qed

lemma append_dom:
  assumes "ledger_append d i uuid now = Inr (entry, d')"
  shows "dom (workspaces d') = dom (workspaces d)"
proof -
  from assms obtain d1 where d1: "move_balance d i = Some d1"
    and d': "d' = insert_transaction (transaction_of i uuid now) d1"
    by (auto simp: ledger_append_def Let_def split: option.splits if_splits)
  from d1 show ?thesis
    by (rule move_balance_Some) (auto simp: d' db_simps dom_def split: if_splits)
qed

lemma append_inv:
  assumes inv: "ledger_inv d" and app: "ledger_append d i uuid now = Inr (entry, d')"
  shows "ledger_inv d'"
proof (rule ledger_invI)
  note facts = append_success [OF app]
  fix w ws
  assume w: "workspaces d' w = Some ws"
  then have dom: "w \<in> dom (workspaces d)" using append_dom [OF app] by auto
  have "balance_in d' w = sum_for tx_workspaceId tx_amountMicros w (transactions d')"
  proof (cases "w = in_workspaceId i")
    case True
    then show ?thesis
      using facts(4,5) ledger_inv_balance [OF inv dom] by (simp add: transaction_of_def)
  next
    case False
    then have "balance_in d' w = balance_in d w" using facts(6) by (simp add: balance_in_def)
    with False show ?thesis
      using facts(4) ledger_inv_balance [OF inv dom] by (simp add: transaction_of_def)
  qed
  with w show "ws_balanceMicros ws = sum_for tx_workspaceId tx_amountMicros w (transactions d')"
    by (simp add: balance_in_def)
next
  show "distinct (map tx_idempotencyKey (transactions d'))"
    using append_success(2,4) [OF app] inv by (auto simp: ledger_inv_def transaction_of_def)
  show "distinct (map tx_id (transactions d'))"
    using append_success(3,4) [OF app] inv by (auto simp: ledger_inv_def transaction_of_def)
  show "tx_workspaceId t \<in> dom (workspaces d')" if "t \<in> set (transactions d')" for t
    using that append_success(1,4) [OF app] append_dom [OF app] inv
    by (auto simp: ledger_inv_def transaction_of_def)
qed

section \<open>Record\<close>

lemma record_commit_cases:
  assumes "record_commit d i uuid now = (r, d')"
  obtains (appended) entry where "ledger_append d i uuid now = Inr (entry, d')" and "r = Inr entry"
  | (raced) t where "find_by_key d (in_idempotencyKey i) = Some t" and "r = Inr (replay d t)" and "d' = d"
  | (failed) e where "r = Inl e" and "d' = d" and "ledger_append d i uuid now = Inl e"
proof (cases "ledger_append d i uuid now")
  case (Inl e)
  show thesis
  proof (cases "e = UniqueViolation \<and> find_by_key d (in_idempotencyKey i) \<noteq> None")
    case True
    then obtain t where "find_by_key d (in_idempotencyKey i) = Some t" by auto
    with True Inl assms show thesis by (intro raced [of t]) (auto simp: record_commit_def)
  next
    case False
    with Inl assms have "r = Inl e" "d' = d"
      by (auto simp: record_commit_def split: ledger_error.splits option.splits)
    with Inl show thesis by (rule_tac failed)
  qed
next
  case (Inr x)
  then show thesis using assms by (cases x) (auto simp: record_commit_def intro: appended)
qed

lemma record_begin_None:
  "record_begin d i = Inr None \<longleftrightarrow>
     assertSign i = Inr () \<and> in_idempotencyKey i \<notin> tx_idempotencyKey ` set (transactions d)"
  by (auto simp: record_begin_def res_simps find_by_key_None)

lemma record_begin_Some:
  "record_begin d i = Inr (Some entry) \<longleftrightarrow>
     assertSign i = Inr () \<and> (\<exists>t. find_by_key d (in_idempotencyKey i) = Some t \<and> entry = replay d t)"
  by (auto simp: record_begin_def res_simps)

lemma ledger_record_cases:
  assumes "ledger_record d i uuid now = (r, d')"
  obtains (appended) entry where "assertSign i = Inr ()" and "ledger_append d i uuid now = Inr (entry, d')"
      and "r = Inr entry"
  | (replayed) t where "assertSign i = Inr ()" and "find_by_key d (in_idempotencyKey i) = Some t"
      and "r = Inr (replay d t)" and "d' = d"
  | (failed) e where "r = Inl e" and "d' = d"
proof (cases "record_begin d i")
  case (Inl e)
  with assms show thesis by (intro failed [of e]) (auto simp: ledger_record_def)
next
  case (Inr x)
  show thesis
  proof (cases x)
    case None
    with Inr assms have "record_commit d i uuid now = (r, d')" by (simp add: ledger_record_def)
    moreover have "assertSign i = Inr ()" using Inr None by (simp add: record_begin_None)
    ultimately show thesis
      by (cases rule: record_commit_cases) (auto intro: appended replayed failed)
  next
    case (Some entry)
    with Inr have "record_begin d i = Inr (Some entry)" by simp
    then obtain t where "assertSign i = Inr ()" "find_by_key d (in_idempotencyKey i) = Some t"
        "entry = replay d t"
      by (auto simp: record_begin_Some)
    moreover have "r = Inr entry" "d' = d" using Inr Some assms by (simp_all add: ledger_record_def)
    ultimately show thesis using replayed by blast
  qed
qed

lemma ledger_record_inv:
  assumes "ledger_record d i uuid now = (r, d')" and "ledger_inv d"
  shows "ledger_inv d'"
  using assms(1) by (cases rule: ledger_record_cases) (auto intro: append_inv assms(2))

lemma append_find:
  assumes "ledger_append d i uuid now = Inr (entry, d')"
  shows "find_by_key d' (in_idempotencyKey i) = Some (le_transaction entry)"
proof -
  have "find_by_key d (in_idempotencyKey i) = None"
    using append_success(2) [OF assms] by (simp add: find_by_key_None)
  then show ?thesis
    using append_success(4,7) [OF assms] unfolding find_by_key_def
    by (simp add: find_key_append transaction_of_def)
qed

lemma ledger_record_find:
  assumes "ledger_record d i uuid now = (Inr entry, d')"
  shows "find_by_key d' (in_idempotencyKey i) = Some (le_transaction entry)"
  using assms
  by (cases rule: ledger_record_cases) (auto simp: append_find replay_def)

lemma ledger_record_replays:
  assumes "find_by_key d (in_idempotencyKey i) = Some t" and "assertSign i = Inr ()"
  shows "ledger_record d i uuid now = (Inr (replay d t), d)"
  using assms by (simp add: ledger_record_def record_begin_def)

lemma ledger_record_sign: "ledger_record d i uuid now = (Inr entry, d') \<Longrightarrow> assertSign i = Inr ()"
  by (erule ledger_record_cases) auto

lemma ledger_record_appends:
  assumes "ledger_record d i uuid now = (r, d')"
  shows "\<exists>ts. transactions d' = transactions d @ ts \<and> length ts \<le> 1"
  using assms by (cases rule: ledger_record_cases) (auto simp: append_success(4))

lemma ledger_record_fresh:
  assumes "assertSign i = Inr ()"
    and "in_idempotencyKey i \<notin> tx_idempotencyKey ` set (transactions d)"
    and "uuid \<notin> tx_id ` set (transactions d)"
  shows "ledger_record d i uuid now =
    (case workspaces d (in_workspaceId i) of
       None \<Rightarrow> (Inl WorkspaceNotFound, d)
     | Some w \<Rightarrow>
         if in_amountMicros i < 0 \<and> in_kind i \<notin> {Usage, Refund} \<and> ws_balanceMicros w < - in_amountMicros i
         then (Inl (InsufficientCredits (ws_balanceMicros w) (in_amountMicros i)), d)
         else (Inr \<lparr>le_transaction = transaction_of i uuid now,
                    le_balanceMicros = ws_balanceMicros w + in_amountMicros i, le_replayed = False\<rparr>,
               insert_transaction (transaction_of i uuid now)
                 (update_workspace (in_workspaceId i)
                   (\<lambda>w. w\<lparr>ws_balanceMicros := ws_balanceMicros w + in_amountMicros i\<rparr>) d)))"
proof -
  have "record_begin d i = Inr None" using assms(1,2) by (simp add: record_begin_None)
  then have "ledger_record d i uuid now = record_commit d i uuid now" by (simp add: ledger_record_def)
  moreover have "tx_idempotencyKey (transaction_of i uuid now) = in_idempotencyKey i"
      "tx_id (transaction_of i uuid now) = uuid"
    by (simp_all add: transaction_of_def)
  ultimately show ?thesis
    using assms(2,3)
    by (auto simp: record_commit_def ledger_append_def move_balance_def violates_unique_def Let_def
        MAY_OVERDRAW_def db_simps balance_in_def split: option.split)
qed

text \<open>The ledger moves balances and nothing else of a workspace.\<close>

lemma ledger_record_view:
  assumes "ledger_record d i uuid now = (r, d')"
    and "\<And>ws b. v (ws\<lparr>ws_balanceMicros := b\<rparr>) = v ws"
  shows "ws_view v d' = ws_view v d"
  using assms(1)
proof (cases rule: ledger_record_cases)
  case (appended entry)
  then obtain d1 where d1: "move_balance d i = Some d1"
    and "d' = insert_transaction (transaction_of i uuid now) d1"
    by (auto simp: ledger_append_def Let_def split: option.splits if_splits)
  then show ?thesis
    by (auto simp: db_simps elim!: move_balance_Some intro!: ws_view_update assms(2))
qed simp_all

section \<open>Recording is idempotent\<close>

definition ledger_call ::
  "db \<Rightarrow> ledger_input \<times> string \<times> int \<Rightarrow> (ledger_error, ledger_entry) result \<times> db" where
  "ledger_call d c = (case c of (i, uuid, now) \<Rightarrow> ledger_record d i uuid now)"

definition ledger_settled :: "db \<Rightarrow> ledger_input \<Rightarrow> bool" where
  "ledger_settled d i = (assertSign i = Inr () \<and> find_by_key d (in_idempotencyKey i) \<noteq> None)"

lemma find_by_key_grows:
  "find_by_key d k = Some t \<Longrightarrow> transactions d' = transactions d @ ts \<Longrightarrow> find_by_key d' k = Some t"
  by (simp add: find_by_key_def find_key_append)

lemma ledger_record_grows:
  "ledger_record d i uuid now = (r, d') \<Longrightarrow> find_by_key d k = Some t \<Longrightarrow> find_by_key d' k = Some t"
  using ledger_record_appends find_by_key_grows by blast

interpretation lr: idempotent_step ledger_call "\<lambda>d c. ledger_settled d (fst c)" ledger_inv
proof
  fix d d' and c :: "ledger_input \<times> string \<times> int" and r
  assume "ledger_call d c = (Inr r, d')"
  then show "ledger_settled d' (fst c)"
    by (cases c) (auto simp: ledger_call_def ledger_settled_def ledger_record_find dest: ledger_record_sign)
next
  fix d d' and c e :: "ledger_input \<times> string \<times> int" and r
  assume "ledger_settled d (fst c)" and "ledger_call d e = (r, d')"
  then show "ledger_settled d' (fst c)"
    by (cases e) (auto simp: ledger_call_def ledger_settled_def dest: ledger_record_grows)
next
  fix d and c :: "ledger_input \<times> string \<times> int"
  assume "ledger_settled d (fst c)"
  then show "\<exists>r. ledger_call d c = (Inr r, d)"
    by (cases c) (auto simp: ledger_call_def ledger_settled_def ledger_record_replays)
next
  fix d d' and c :: "ledger_input \<times> string \<times> int" and r
  assume "ledger_inv d" and "ledger_call d c = (r, d')"
  then show "ledger_inv d'" by (cases c) (auto simp: ledger_call_def intro: ledger_record_inv)
qed

section \<open>Concurrent writers\<close>

inductive_cases write_stepE: "write_step s t"

text \<open>
  What every interleaving keeps: the ledger invariant, that a returned entry is a row of the ledger
  under the caller's key, and that two calls that both wrote have different keys.
\<close>

definition pool_inv :: "pool \<Rightarrow> bool" where
  "pool_inv s =
     (ledger_inv (pool_db s)
      \<and> (\<forall>p i entry. writers s p = Returned i (Inr entry) \<longrightarrow>
            find_by_key (pool_db s) (in_idempotencyKey i) = Some (le_transaction entry))
      \<and> (\<forall>p q i j entry entry'.
            writers s p = Returned i (Inr entry) \<longrightarrow> writers s q = Returned j (Inr entry') \<longrightarrow>
            \<not> le_replayed entry \<longrightarrow> \<not> le_replayed entry' \<longrightarrow>
            in_idempotencyKey i = in_idempotencyKey j \<longrightarrow> p = q))"

lemma pool_invD:
  assumes "pool_inv s"
  shows "ledger_inv (pool_db s)"
    and "writers s p = Returned i (Inr entry) \<Longrightarrow>
      find_by_key (pool_db s) (in_idempotencyKey i) = Some (le_transaction entry)"
    and "writers s p = Returned i (Inr entry) \<Longrightarrow> writers s q = Returned j (Inr entry') \<Longrightarrow>
      \<not> le_replayed entry \<Longrightarrow> \<not> le_replayed entry' \<Longrightarrow>
      in_idempotencyKey i = in_idempotencyKey j \<Longrightarrow> p = q"
  using assms unfolding pool_inv_def by blast+

lemma pool_inv_return:
  assumes inv: "pool_inv s" and db: "ledger_inv d'" "\<And>k t. find_by_key (pool_db s) k = Some t \<Longrightarrow> find_by_key d' k = Some t"
    and res: "\<And>entry. r = Inr entry \<Longrightarrow> find_by_key d' (in_idempotencyKey i) = Some (le_transaction entry)"
    and fresh: "\<And>entry. r = Inr entry \<Longrightarrow> \<not> le_replayed entry \<Longrightarrow>
      find_by_key (pool_db s) (in_idempotencyKey i) = None"
  shows "pool_inv (s\<lparr>pool_db := d', writers := (writers s)(p := Returned i r)\<rparr>)"
proof -
  note old = pool_invD [OF inv]
  have clash: False
    if "writers s q = Returned j (Inr e')" "r = Inr e" "\<not> le_replayed e"
      "in_idempotencyKey i = in_idempotencyKey j" for q j e e'
    using old(2) [OF that(1)] fresh [OF that(2,3)] that(4) by simp
  show ?thesis
    unfolding pool_inv_def using db old res clash by (auto split: if_splits) metis+
qed

lemma write_step_inv: "write_step s t \<Longrightarrow> pool_inv s \<Longrightarrow> pool_inv t"
proof (induction rule: write_step.induct)
  case (refuse s p i e)
  then show ?case using pool_inv_return [of s "pool_db s" "Inl e" i p] by (auto dest: pool_invD)
next
  case (found s p i entry)
  then obtain tx where "find_by_key (pool_db s) (in_idempotencyKey i) = Some tx"
    "entry = replay (pool_db s) tx"
    by (auto simp: record_begin_Some)
  with found show ?case
    using pool_inv_return [of s "pool_db s" "Inr entry" i p] by (auto simp: replay_def dest: pool_invD)
next
  case (missed s p i)
  then show ?case unfolding pool_inv_def by (auto split: if_splits)
next
  case (commit s p i uuid now r d')
  note inv = pool_invD [OF commit.prems]
  from commit(2) show ?case
  proof (cases rule: record_commit_cases)
    case (appended entry)
    show ?thesis
    proof (rule pool_inv_return [OF commit.prems])
      show "ledger_inv d'" using inv(1) appended(1) by (rule append_inv)
      show "find_by_key d' k = Some t" if "find_by_key (pool_db s) k = Some t" for k t
        using that append_success(4) [OF appended(1)] by (rule find_by_key_grows)
    qed (use appended append_find append_success(2) find_by_key_None in auto)
  next
    case (raced t)
    then show ?thesis
      using pool_inv_return [OF commit.prems, of "pool_db s" r i p] inv(1) by (auto simp: replay_def)
  next
    case (failed e)
    then show ?thesis using pool_inv_return [OF commit.prems, of "pool_db s" r i p] inv(1) by auto
  qed
next
  case (other_write f s w)
  then show ?case
    unfolding pool_inv_def
    by (auto simp: ledger_inv_update_workspace db_simps find_by_key_cong [OF update_workspace_frame(1)])
qed

lemma pool_reachable_inv: "pool_reachable d0 s \<Longrightarrow> ledger_inv d0 \<Longrightarrow> pool_inv s"
proof (induction rule: pool_reachable.induct)
  case start
  then show ?case by (simp add: pool_inv_def)
next
  case (step s t)
  then show ?case by (blast intro: write_step_inv)
qed

section \<open>Pages\<close>

lemma after_cursor_None [simp]: "after_cursor None t"
  by (simp add: after_cursor_def)

lemma after_cursor_Some: "after_cursor (Some c) t \<longleftrightarrow> cursor_of t < c"
  by (cases c) (auto simp: after_cursor_def cursor_of_def)

definition workspace_rows :: "db \<Rightarrow> string \<Rightarrow> credit_transaction list" where
  "workspace_rows d w = filter (\<lambda>t. tx_workspaceId t = w) (transactions d)"

lemma distinct_cursors:
  assumes "distinct (map tx_id ts)"
  shows "distinct (map cursor_of (filter P ts))"
proof -
  have "distinct (map tx_id (filter P ts))" using assms by (rule distinct_map_filter)
  then have "distinct (map (snd \<circ> cursor_of) (filter P ts))"
    by (simp add: cursor_of_def comp_def)
  then show ?thesis by (metis distinct_map list.map_comp)
qed

lemma page_query_sorted:
  assumes "ledger_inv d"
  shows "sorted_wrt (\<lambda>a b. cursor_of b < cursor_of a) (page_query d w after)"
proof -
  let ?ts = "filter (\<lambda>t. tx_workspaceId t = w \<and> after_cursor after t) (transactions d)"
  have "distinct (map cursor_of ?ts)"
    using assms by (intro distinct_cursors) (simp add: ledger_inv_def)
  then have "distinct (map cursor_of (sort_key cursor_of ?ts))"
    by (simp add: distinct_map)
  then have "sorted_wrt (<) (map cursor_of (sort_key cursor_of ?ts))"
    by (simp add: strict_sorted_iff)
  then show ?thesis by (simp add: page_query_def sorted_wrt_rev sorted_wrt_map)
qed

lemma set_page_query:
  "set (page_query d w after) = {t \<in> set (transactions d). tx_workspaceId t = w \<and> after_cursor after t}"
  by (auto simp: page_query_def)

lemma sorted_wrt_key_unique:
  fixes key :: "'a \<Rightarrow> 'k :: linorder"
  assumes "sorted_wrt (\<lambda>a b. key b < key a) xs" and "sorted_wrt (\<lambda>a b. key b < key a) ys"
    and "set xs = set ys"
  shows "xs = ys"
  using assms
proof (induction xs arbitrary: ys)
  case (Cons x xs)
  then obtain y ys' where ys: "ys = y # ys'" by (cases ys) auto
  have "x = y"
  proof (rule ccontr)
    assume "x \<noteq> y"
    with Cons.prems ys have "x \<in> set ys'" and "y \<in> set xs" by auto
    with Cons.prems ys have "key x < key y" and "key y < key x" by auto
    then show False by simp
  qed
  moreover have "set xs = set ys'"
    using Cons.prems ys \<open>x = y\<close> by (auto simp: insert_ident)
  ultimately show ?case using Cons ys by auto
qed simp

lemma page_query_after:
  assumes "ledger_inv d"
  shows "page_query d w (Some c) = filter (\<lambda>t. cursor_of t < c) (page_query d w None)"
  by (rule sorted_wrt_key_unique [where key = cursor_of])
    (auto simp: page_query_sorted [OF assms] sorted_wrt_filter set_page_query after_cursor_Some)

lemma page_query_resume:
  assumes "ledger_inv d" and "k < length (page_query d w None)"
  shows "page_query d w (Some (cursor_of (page_query d w None ! k))) = drop (Suc k) (page_query d w None)"
  using filter_below_nth [OF page_query_sorted [OF assms(1)] assms(2)]
  by (simp add: page_query_after [OF assms(1)])

lemma mset_page_query: "mset (page_query d w None) = mset (workspace_rows d w)"
  by (simp add: page_query_def workspace_rows_def)

lemma page_edges: "map snd (pg_edges (page d w first after)) = take (page_size first) (page_query d w after)"
  by (simp add: page_def Let_def comp_def min_def)

lemma page_next: "pg_hasNextPage (page d w first after) \<longleftrightarrow> page_size first < length (page_query d w after)"
  by (simp add: page_def Let_def)

lemma page_size_pos: "0 < page_size first"
  by (simp add: page_size_def MAX_PAGE_SIZE_def)

lemma page_end:
  assumes "pg_hasNextPage (page d w first after)"
  shows "pg_endCursor (page d w first after) =
    Some (cursor_of (page_query d w after ! (page_size first - 1)))"
proof -
  let ?rows = "take (page_size first) (page_query d w after)"
  have len: "length ?rows = page_size first" using assms by (simp add: page_next)
  then have "?rows \<noteq> []" using page_size_pos by (metis length_0_conv less_numeral_extra(3))
  moreover have "last ?rows = page_query d w after ! (page_size first - 1)"
    using len page_size_pos [of first] \<open>?rows \<noteq> []\<close> by (simp add: last_conv_nth)
  ultimately show ?thesis
    using assms by (simp add: page_def Let_def page_next last_map)
qed

text \<open>Following \<open>endCursor\<close> from page to page, as the Credits screen does.\<close>

fun walk :: "nat \<Rightarrow> db \<Rightarrow> string \<Rightarrow> int option \<Rightarrow> cursor option \<Rightarrow> credit_transaction list" where
  "walk 0 d w first after = map snd (pg_edges (page d w first after))"
| "walk (Suc n) d w first after =
     (let p = page d w first after
      in map snd (pg_edges p) @
         (if pg_hasNextPage p then walk n d w first (pg_endCursor p) else []))"

lemma walk_from:
  assumes inv: "ledger_inv d" and "page_query d w after = drop k (page_query d w None)"
    and "length (page_query d w None) - k \<le> n"
  shows "walk n d w first after = drop k (page_query d w None)"
  using assms(2,3)
proof (induction n arbitrary: after k)
  case 0
  then show ?case by (simp add: page_edges)
next
  case (Suc n)
  let ?all = "page_query d w None" and ?s = "page_size first"
  show ?case
  proof (cases "pg_hasNextPage (page d w first after)")
    case False
    then show ?thesis using Suc.prems by (simp add: page_edges page_next Let_def)
  next
    case True
    then have len: "?s < length ?all - k" using Suc.prems by (simp add: page_next)
    then have idx: "k + (?s - 1) < length ?all" by simp
    have "pg_endCursor (page d w first after) = Some (cursor_of (?all ! (k + (?s - 1))))"
      using page_end [OF True] Suc.prems(1) len by simp
    moreover have "page_query d w (Some (cursor_of (?all ! (k + (?s - 1))))) = drop (k + ?s) ?all"
      using page_query_resume [OF inv idx] page_size_pos [of first] by simp
    moreover have "length ?all - (k + ?s) \<le> n"
      using Suc.prems(2) page_size_pos [of first] by simp
    ultimately have "walk n d w first (pg_endCursor (page d w first after)) = drop (k + ?s) ?all"
      using Suc.IH by simp
    moreover have "take ?s (drop k ?all) @ drop (k + ?s) ?all = drop k ?all"
      by (metis add.commute append_take_drop_id drop_drop)
    ultimately show ?thesis using True Suc.prems(1) by (simp add: page_edges Let_def)
  qed
qed

section \<open>A small ledger for the witnesses\<close>

definition new_workspace :: "int \<Rightarrow> workspace" where
  "new_workspace created =
     \<lparr>ws_balanceMicros = 0, ws_stripeCustomerId = None, ws_autoTopUpEnabled = False,
      ws_autoTopUpThresholdMicros = None, ws_autoTopUpAmountMicros = None,
      ws_autoTopUpLastAt = None, ws_firstRequestAt = None, ws_createdAt = created\<rparr>"

definition one_workspace :: db where
  "one_workspace = \<lparr>workspaces = [''w'' \<mapsto> new_workspace 0], transactions = [], generations = [],
     api_keys = [], owners = Map.empty\<rparr>"

definition purchase :: "string \<Rightarrow> int \<Rightarrow> ledger_input" where
  "purchase k amount = \<lparr>in_workspaceId = ''w'', in_kind = Purchase, in_amountMicros = amount,
     in_idempotencyKey = k, in_reference = None, in_description = None\<rparr>"

lemmas example_defs = one_workspace_def new_workspace_def purchase_def

lemmas ledger_defs = ledger_record_def record_begin_def record_commit_def ledger_append_def
  move_balance_def violates_unique_def transaction_of_def replay_def assertSign_def
  MAY_OVERDRAW_def find_by_key_def balance_in_def update_workspace_def insert_transaction_def Let_def

lemma one_workspace_inv: "ledger_inv one_workspace"
  by (simp add: ledger_inv_def example_defs)

lemma one_workspace_purchase:
  "ledger_record one_workspace (purchase ''k'' 500) ''u1'' 7 =
     (Inr \<lparr>le_transaction = transaction_of (purchase ''k'' 500) ''u1'' 7,
           le_balanceMicros = 500, le_replayed = False\<rparr>,
      insert_transaction (transaction_of (purchase ''k'' 500) ''u1'' 7)
        (update_workspace ''w'' (\<lambda>w. w\<lparr>ws_balanceMicros := ws_balanceMicros w + 500\<rparr>) one_workspace))"
  by (simp add: ledger_defs example_defs)

section \<open>Properties\<close>

text \<open>
  C4: whatever order concurrent \<open>record\<close> calls interleave in, including calls that race for the
  same key and writes of other services to other columns, the cached balance of every workspace
  is the sum of its ledger rows in every reachable state.
\<close>

theorem concurrent_balance:
  assumes "ledger_inv d0" and "pool_reachable d0 s" and "workspaces (pool_db s) w = Some ws"
  shows "ws_balanceMicros ws = sum_for tx_workspaceId tx_amountMicros w (transactions (pool_db s))"
  using pool_invD(1) [OF pool_reachable_inv [OF assms(2,1)]] assms(3) by (auto simp: ledger_inv_def)

lemma commit_example:
  "pool_reachable one_workspace
     \<lparr>pool_db = snd (record_commit one_workspace (purchase ''k'' 500) ''u1'' 7),
      writers = (\<lambda>_. Idle)(0 := Returned (purchase ''k'' 500)
        (fst (record_commit one_workspace (purchase ''k'' 500) ''u1'' 7)))\<rparr>"
proof -
  let ?i = "purchase ''k'' 500"
  have "write_step \<lparr>pool_db = one_workspace, writers = (\<lambda>_. Idle)\<rparr>
          (\<lparr>pool_db = one_workspace, writers = (\<lambda>_. Idle)\<rparr>\<lparr>writers := (\<lambda>_. Idle)(0 := Pending ?i)\<rparr>)"
    using write_step.missed [of "\<lparr>pool_db = one_workspace, writers = (\<lambda>_. Idle)\<rparr>" 0 ?i]
    by (simp add: ledger_defs example_defs)
  with pool_reachable.start have pending:
    "pool_reachable one_workspace \<lparr>pool_db = one_workspace, writers = (\<lambda>_. Idle)(0 := Pending ?i)\<rparr>"
    by (force intro: pool_reachable.step)
  have "write_step \<lparr>pool_db = one_workspace, writers = (\<lambda>_. Idle)(0 := Pending ?i)\<rparr>
     \<lparr>pool_db = snd (record_commit one_workspace ?i ''u1'' 7),
      writers = (\<lambda>_. Idle)(0 := Returned ?i (fst (record_commit one_workspace ?i ''u1'' 7)))\<rparr>"
    using write_step.commit [of "\<lparr>pool_db = one_workspace, writers = (\<lambda>_. Idle)(0 := Pending ?i)\<rparr>" 0 ?i
        "''u1''" 7 "fst (record_commit one_workspace ?i ''u1'' 7)" "snd (record_commit one_workspace ?i ''u1'' 7)"]
    by simp
  with pending show ?thesis by (rule pool_reachable.step)
qed

theorem concurrent_balance_witness:
  "workspaces (snd (record_commit one_workspace (purchase ''k'' 500) ''u1'' 7)) ''w'' =
      Some ((new_workspace 0)\<lparr>ws_balanceMicros := 500\<rparr>)
   \<and> (500::int) = sum_for tx_workspaceId tx_amountMicros ''w''
        (transactions (snd (record_commit one_workspace (purchase ''k'' 500) ''u1'' 7)))"
proof -
  have w: "workspaces (snd (record_commit one_workspace (purchase ''k'' 500) ''u1'' 7)) ''w'' =
      Some ((new_workspace 0)\<lparr>ws_balanceMicros := 500\<rparr>)"
    by (simp add: ledger_defs example_defs)
  with concurrent_balance [OF one_workspace_inv commit_example, of "''w''"] show ?thesis by simp
qed

text \<open>
  C5: a repeated event cannot charge twice. In every reachable state of concurrent \<open>record\<close> calls,
  two calls that returned an entry for the same idempotency key returned the same ledger row, that
  row is the only one with the key, and at most one of the two calls wrote it.
\<close>

theorem exactly_once:
  assumes "ledger_inv d0" and "pool_reachable d0 s"
    and "writers s p = Returned i (Inr e)" and "writers s q = Returned j (Inr e')"
    and "in_idempotencyKey i = in_idempotencyKey j"
  shows "le_transaction e = le_transaction e'
    \<and> filter (\<lambda>t. tx_idempotencyKey t = in_idempotencyKey i) (transactions (pool_db s)) = [le_transaction e]
    \<and> (\<not> le_replayed e \<longrightarrow> \<not> le_replayed e' \<longrightarrow> p = q)"
proof -
  note inv = pool_invD [OF pool_reachable_inv [OF assms(2,1)]]
  let ?ts = "transactions (pool_db s)" and ?P = "\<lambda>t. tx_idempotencyKey t = in_idempotencyKey i"
  have found: "find_by_key (pool_db s) (in_idempotencyKey i) = Some (le_transaction e)"
    by (rule inv(2) [OF assms(3)])
  then have mem: "le_transaction e \<in> set (filter ?P ?ts)" by (auto dest: find_by_key_Some)
  have dist: "distinct (map tx_idempotencyKey ?ts)" using inv(1) by (simp add: ledger_inv_def)
  then have "x = le_transaction e" if "x \<in> set (filter ?P ?ts)" for x
    using that mem by (auto intro: distinct_key_unique)
  moreover have "distinct (filter ?P ?ts)" using dist by (simp add: distinct_map)
  moreover have "set (filter ?P ?ts) = {le_transaction e}" using calculation(1) mem by blast
  ultimately have "filter ?P ?ts = [le_transaction e]" by (rule_tac distinct_singleton_list)
  moreover have "le_transaction e = le_transaction e'"
    using found inv(2) [OF assms(4)] assms(5) by simp
  ultimately show ?thesis using inv(3) [OF assms(3,4) _ _ assms(5)] by blast
qed

theorem exactly_once_witness:
  "let s = \<lparr>pool_db = snd (record_commit one_workspace (purchase ''k'' 500) ''u1'' 7),
        writers = (\<lambda>_. Idle)(0 := Returned (purchase ''k'' 500)
          (fst (record_commit one_workspace (purchase ''k'' 500) ''u1'' 7)))\<rparr>
   in filter (\<lambda>t. tx_idempotencyKey t = ''k'') (transactions (pool_db s))
        = [transaction_of (purchase ''k'' 500) ''u1'' 7]"
proof -
  have r: "fst (record_commit one_workspace (purchase ''k'' 500) ''u1'' 7) =
      Inr \<lparr>le_transaction = transaction_of (purchase ''k'' 500) ''u1'' 7,
           le_balanceMicros = 500, le_replayed = False\<rparr>"
    by (simp add: ledger_defs example_defs)
  have k: "in_idempotencyKey (purchase ''k'' 500) = ''k''" by (simp add: example_defs)
  show ?thesis
    using exactly_once [OF one_workspace_inv commit_example, of 0 "purchase ''k'' 500" _ 0 "purchase ''k'' 500"]
    by (simp add: r k)
qed

text \<open>
  Recording the same event again, with any other fields, row id and clock, returns the row that
  the first call wrote, marks it as replayed and leaves the whole database unchanged.
\<close>

theorem record_replay:
  assumes "ledger_record d i uuid now = (Inr e, d')"
    and "in_idempotencyKey j = in_idempotencyKey i" and "assertSign j = Inr ()"
  shows "\<exists>e'. ledger_record d' j uuid' now' = (Inr e', d')
    \<and> le_transaction e' = le_transaction e \<and> le_replayed e'"
  using ledger_record_replays [of d' j "le_transaction e"] ledger_record_find [OF assms(1)] assms(2,3)
  by (simp add: replay_def)

text \<open>
  The outcome of \<open>record\<close> for a well-signed event that is not in the ledger yet, with a fresh
  row id. A missing workspace is reported as such; a withdrawal that would take the balance below
  zero is refused unless it is usage or a refund; otherwise the row is appended and the balance
  moves by exactly the amount. A refused call leaves the database unchanged.
\<close>

theorem record_outcome:
  assumes "assertSign i = Inr ()"
    and "in_idempotencyKey i \<notin> tx_idempotencyKey ` set (transactions d)"
    and "uuid \<notin> tx_id ` set (transactions d)"
  shows "ledger_record d i uuid now =
    (case workspaces d (in_workspaceId i) of
       None \<Rightarrow> (Inl WorkspaceNotFound, d)
     | Some w \<Rightarrow>
         if in_amountMicros i < 0 \<and> in_kind i \<notin> {Usage, Refund} \<and> ws_balanceMicros w < - in_amountMicros i
         then (Inl (InsufficientCredits (ws_balanceMicros w) (in_amountMicros i)), d)
         else (Inr \<lparr>le_transaction = transaction_of i uuid now,
                    le_balanceMicros = ws_balanceMicros w + in_amountMicros i, le_replayed = False\<rparr>,
               insert_transaction (transaction_of i uuid now)
                 (update_workspace (in_workspaceId i)
                   (\<lambda>w. w\<lparr>ws_balanceMicros := ws_balanceMicros w + in_amountMicros i\<rparr>) d)))"
  using assms by (rule ledger_record_fresh)

text \<open>
  C22: the ledger pages are complete: following \<open>endCursor\<close> from the first page returns every row of
  the workspace exactly once, newest first, whatever page size was asked for.
\<close>

theorem ledger_walk_complete:
  assumes "ledger_inv d"
  shows "mset (walk (length (transactions d)) d w first None) = mset (workspace_rows d w)
    \<and> sorted_wrt (\<lambda>a b. cursor_of b < cursor_of a) (walk (length (transactions d)) d w first None)"
proof -
  have "length (page_query d w None) = length (workspace_rows d w)"
    by (metis mset_page_query size_mset)
  then have "length (page_query d w None) \<le> length (transactions d)"
    by (simp add: workspace_rows_def)
  then have "walk (length (transactions d)) d w first None = page_query d w None"
    using walk_from [OF assms, of w None 0] by simp
  then show ?thesis by (simp add: mset_page_query page_query_sorted [OF assms])
qed

theorem ledger_walk_complete_witness:
  "mset (walk 1 (snd (ledger_record one_workspace (purchase ''k'' 500) ''u1'' 7)) ''w'' (Some 1) None)
     = {#transaction_of (purchase ''k'' 500) ''u1'' 7#}"
proof -
  let ?d = "snd (ledger_record one_workspace (purchase ''k'' 500) ''u1'' 7)"
  have inv: "ledger_inv ?d" using ledger_record_inv [OF _ one_workspace_inv] by (metis prod.collapse)
  have ts: "transactions ?d = [transaction_of (purchase ''k'' 500) ''u1'' 7]"
    by (simp add: one_workspace_purchase db_simps) (simp add: example_defs)
  show ?thesis
    using ledger_walk_complete [OF inv, of "''w''" "Some 1"]
    by (simp add: ts workspace_rows_def) (simp add: transaction_of_def purchase_def)
qed

end
