(* ===== verification/Write_Queue.thy ===== *)
theory Write_Queue
  imports Prelude
begin

text \<open>
  \<open>LedgerService.serialize\<close>: the chain of promises that runs one ledger transaction at a time per
  key. A call is a ticket that remembers the promise it was chained on (\<open>tk_prev\<close>, what the map held
  for its key when it was enqueued). The steps are the calls of \<open>serialize\<close> and the callbacks of the
  promises: a task starts when its predecessor has settled, settles in either way, and after that the
  cleanup callback removes the key from the map if no later call has replaced it.

  The invariant gives mutual exclusion per key, first-in first-out order, and that the map only holds
  keys with a call whose cleanup is still to come.
\<close>

section \<open>Definitions\<close>

definition SQLITE_WRITER :: string where "SQLITE_WRITER = ''__sqlite__''"

definition serialize_key :: "bool \<Rightarrow> string \<Rightarrow> string" where
  "serialize_key sqlite w = (if sqlite then SQLITE_WRITER else w)"

datatype task_status = Waiting | Running | Settled

record ticket =
  tk_key :: string
  tk_prev :: "nat option"
  tk_status :: task_status
  tk_cleared :: bool

record write_queue =
  tickets :: "ticket list"
  queue_tail :: "string \<rightharpoonup> nat"

definition empty_queue :: write_queue where
  "empty_queue = \<lparr>tickets = [], queue_tail = Map.empty\<rparr>"

definition serialize :: "bool \<Rightarrow> string \<Rightarrow> write_queue \<Rightarrow> write_queue" where
  "serialize sqlite w q =
     (let k = serialize_key sqlite w
      in \<lparr>tickets = tickets q @
            [\<lparr>tk_key = k, tk_prev = queue_tail q k, tk_status = Waiting, tk_cleared = False\<rparr>],
          queue_tail = (queue_tail q)(k \<mapsto> length (tickets q))\<rparr>)"

definition settled_ticket :: "write_queue \<Rightarrow> nat \<Rightarrow> bool" where
  "settled_ticket q n = (n < length (tickets q) \<and> tk_status (tickets q ! n) = Settled)"

definition set_status :: "nat \<Rightarrow> task_status \<Rightarrow> write_queue \<Rightarrow> write_queue" where
  "set_status n st q = q\<lparr>tickets := (tickets q)[n := (tickets q ! n)\<lparr>tk_status := st\<rparr>]\<rparr>"

definition clear_slot :: "nat \<Rightarrow> write_queue \<Rightarrow> write_queue" where
  "clear_slot n q =
     (let k = tk_key (tickets q ! n)
      in \<lparr>tickets = (tickets q)[n := (tickets q ! n)\<lparr>tk_cleared := True\<rparr>],
          queue_tail = (if queue_tail q k = Some n then (queue_tail q)(k := None) else queue_tail q)\<rparr>)"

inductive queue_step :: "bool \<Rightarrow> write_queue \<Rightarrow> write_queue \<Rightarrow> bool" for sqlite where
  enqueue: "queue_step sqlite q (serialize sqlite w q)"
| run: "n < length (tickets q) \<Longrightarrow> tk_status (tickets q ! n) = Waiting \<Longrightarrow>
    (\<forall>p. tk_prev (tickets q ! n) = Some p \<longrightarrow> settled_ticket q p) \<Longrightarrow>
    queue_step sqlite q (set_status n Running q)"
| settle: "n < length (tickets q) \<Longrightarrow> tk_status (tickets q ! n) = Running \<Longrightarrow>
    queue_step sqlite q (set_status n Settled q)"
| clear: "settled_ticket q n \<Longrightarrow> \<not> tk_cleared (tickets q ! n) \<Longrightarrow>
    queue_step sqlite q (clear_slot n q)"

inductive queue_reachable :: "bool \<Rightarrow> write_queue \<Rightarrow> bool" for sqlite where
  start: "queue_reachable sqlite empty_queue"
| step: "queue_reachable sqlite q \<Longrightarrow> queue_step sqlite q q' \<Longrightarrow> queue_reachable sqlite q'"

section \<open>The invariant\<close>

text \<open>
  \<open>earlier q m n\<close>: ticket \<open>m\<close> was enqueued before \<open>n\<close> on the same key.
\<close>

definition earlier :: "write_queue \<Rightarrow> nat \<Rightarrow> nat \<Rightarrow> bool" where
  "earlier q m n =
     (m < n \<and> n < length (tickets q) \<and> tk_key (tickets q ! m) = tk_key (tickets q ! n))"

text \<open>
  \<open>behind q p m\<close>: a call chained on \<open>p\<close> runs after \<open>m\<close>, because \<open>m\<close> has settled, is \<open>p\<close> itself or
  was enqueued before \<open>p\<close>.
\<close>

fun behind :: "write_queue \<Rightarrow> nat option \<Rightarrow> nat \<Rightarrow> bool" where
  "behind q None m = settled_ticket q m"
| "behind q (Some p) m = (m = p \<or> earlier q m p)"

definition order_inv :: "write_queue \<Rightarrow> bool" where
  "order_inv q =
     (\<forall>m n. earlier q m n \<longrightarrow> tk_status (tickets q ! n) \<noteq> Waiting \<longrightarrow> settled_ticket q m)"

definition prev_inv :: "write_queue \<Rightarrow> bool" where
  "prev_inv q =
     (\<forall>m n. earlier q m n \<longrightarrow> behind q (tk_prev (tickets q ! n)) m)"

definition tail_inv :: "write_queue \<Rightarrow> bool" where
  "tail_inv q =
     (\<forall>m < length (tickets q). behind q (queue_tail q (tk_key (tickets q ! m))) m)"

definition slot_inv :: "write_queue \<Rightarrow> bool" where
  "slot_inv q =
     (\<forall>k n. queue_tail q k = Some n \<longrightarrow>
        n < length (tickets q) \<and> tk_key (tickets q ! n) = k \<and> \<not> tk_cleared (tickets q ! n))"

definition queue_inv :: "write_queue \<Rightarrow> bool" where
  "queue_inv q = (order_inv q \<and> prev_inv q \<and> tail_inv q \<and> slot_inv q)"

lemma queue_invD:
  assumes "queue_inv q"
  shows "earlier q m n \<Longrightarrow> tk_status (tickets q ! n) \<noteq> Waiting \<Longrightarrow> settled_ticket q m"
    and "earlier q m n \<Longrightarrow> behind q (tk_prev (tickets q ! n)) m"
    and "m < length (tickets q) \<Longrightarrow> behind q (queue_tail q (tk_key (tickets q ! m))) m"
    and "queue_tail q k = Some n \<Longrightarrow>
      n < length (tickets q) \<and> tk_key (tickets q ! n) = k \<and> \<not> tk_cleared (tickets q ! n)"
  using assms by (simp_all add: queue_inv_def order_inv_def prev_inv_def tail_inv_def slot_inv_def)

lemma queue_invI:
  assumes "\<And>m n. earlier q m n \<Longrightarrow> tk_status (tickets q ! n) \<noteq> Waiting \<Longrightarrow> settled_ticket q m"
    and "\<And>m n. earlier q m n \<Longrightarrow> behind q (tk_prev (tickets q ! n)) m"
    and "\<And>m. m < length (tickets q) \<Longrightarrow> behind q (queue_tail q (tk_key (tickets q ! m))) m"
    and "\<And>k n. queue_tail q k = Some n \<Longrightarrow>
      n < length (tickets q) \<and> tk_key (tickets q ! n) = k \<and> \<not> tk_cleared (tickets q ! n)"
  shows "queue_inv q"
  using assms by (simp add: queue_inv_def order_inv_def prev_inv_def tail_inv_def slot_inv_def)

lemma behind_mono:
  assumes "behind q p m" and "earlier q' = earlier q"
    and "\<And>m. settled_ticket q m \<Longrightarrow> settled_ticket q' m"
  shows "behind q' p m"
  using assms by (cases p) auto

text \<open>Ticket updates that keep the keys and predecessors and never unsettle a ticket.\<close>

lemma update_ticket:
  assumes "n < length (tickets q)" and "tk_key t = tk_key (tickets q ! n)"
    and "tk_prev t = tk_prev (tickets q ! n)"
    and "tk_status (tickets q ! n) = Settled \<Longrightarrow> tk_status t = Settled"
    and "tickets q' = (tickets q)[n := t]"
  shows "earlier q' = earlier q"
    and "tk_prev (tickets q' ! m) = tk_prev (tickets q ! m)"
    and "tk_key (tickets q' ! m) = tk_key (tickets q ! m)"
    and "settled_ticket q m \<Longrightarrow> settled_ticket q' m"
  using assms by (auto simp: earlier_def settled_ticket_def fun_eq_iff nth_list_update)

lemma set_status_inv:
  assumes inv: "queue_inv q" and n: "n < length (tickets q)"
    and up: "tk_status (tickets q ! n) = Settled \<Longrightarrow> st = Settled"
    and order: "\<And>m. earlier q m n \<Longrightarrow> st \<noteq> Waiting \<Longrightarrow> settled_ticket q m"
  shows "queue_inv (set_status n st q)"
proof -
  let ?q = "set_status n st q" and ?t = "(tickets q ! n)\<lparr>tk_status := st\<rparr>"
  have eq: "tickets ?q = (tickets q)[n := ?t]" "queue_tail ?q = queue_tail q"
    by (simp_all add: set_status_def)
  note upd = update_ticket [OF n, of ?t ?q]
  have e: "earlier ?q = earlier q" using upd(1) up eq by simp
  have k: "tk_key (tickets ?q ! m) = tk_key (tickets q ! m)" for m using upd(3) up eq by simp
  have p: "tk_prev (tickets ?q ! m) = tk_prev (tickets q ! m)" for m using upd(2) up eq by simp
  have s: "settled_ticket q m \<Longrightarrow> settled_ticket ?q m" for m using upd(4) up eq by simp
  note old = queue_invD [OF inv]
  show ?thesis
  proof (rule queue_invI)
    show "settled_ticket ?q m" if "earlier ?q m j" "tk_status (tickets ?q ! j) \<noteq> Waiting" for m j
      using that old(1) [of m j] order [of m] n eq e
      by (cases "j = n") (auto intro: s)
    show "behind ?q (tk_prev (tickets ?q ! j)) m" if "earlier ?q m j" for m j
      using that old(2) [of m j] by (auto simp: p e intro: behind_mono [OF _ e s])
    show "behind ?q (queue_tail ?q (tk_key (tickets ?q ! m))) m" if "m < length (tickets ?q)" for m
    proof -
      have "m < length (tickets q)" using that eq(1) by simp
      then have "behind ?q (queue_tail q (tk_key (tickets q ! m))) m"
        by (rule behind_mono [OF old(3) e s])
      then show ?thesis by (simp only: k eq(2))
    qed
    show "j < length (tickets ?q) \<and> tk_key (tickets ?q ! j) = k \<and> \<not> tk_cleared (tickets ?q ! j)"
      if "queue_tail ?q k = Some j" for k j
      using that old(4) [of k j] n by (cases "j = n") (auto simp: eq)
  qed
qed

lemma behind_settled:
  assumes "queue_inv q" and "behind q p m" and "\<And>j. p = Some j \<Longrightarrow> settled_ticket q j"
  shows "settled_ticket q m"
proof (cases p)
  case None
  with assms(2) show ?thesis by simp
next
  case (Some j)
  with assms(2,3) have "settled_ticket q j" "m = j \<or> earlier q m j" by auto
  then show ?thesis using queue_invD(1) [OF assms(1), of m j] by (auto simp: settled_ticket_def)
qed

lemma enqueue_inv:
  assumes inv: "queue_inv q"
  shows "queue_inv (serialize sqlite w q)"
proof -
  let ?q = "serialize sqlite w q" and ?k = "serialize_key sqlite w" and ?n = "length (tickets q)"
  let ?t = "\<lparr>tk_key = ?k, tk_prev = queue_tail q ?k, tk_status = Waiting, tk_cleared = False\<rparr>"
  have ts: "tickets ?q = tickets q @ [?t]" and tl: "queue_tail ?q = (queue_tail q)(?k \<mapsto> ?n)"
    by (simp_all add: serialize_def Let_def)
  have set: "settled_ticket q m \<Longrightarrow> settled_ticket ?q m" for m
    by (auto simp: settled_ticket_def ts nth_append)
  have earl: "earlier q m n \<Longrightarrow> earlier ?q m n" for m n
    by (auto simp: earlier_def ts nth_append)
  have beh: "behind q p m \<Longrightarrow> behind ?q p m" for p m
    by (cases p) (auto intro: set earl)
  have split: "n = ?n \<and> m < ?n \<and> tk_key (tickets q ! m) = ?k \<or> earlier q m n"
    if "earlier ?q m n" for m n
    using that by (auto simp: earlier_def ts nth_append less_Suc_eq split: if_splits)
  note old = queue_invD [OF inv]
  show ?thesis
  proof (rule queue_invI)
    show "settled_ticket ?q m" if "earlier ?q m n" "tk_status (tickets ?q ! n) \<noteq> Waiting" for m n
      using split [OF that(1)] that(2) old(1) [of m n]
      by (auto simp: ts nth_append earlier_def intro!: set split: if_splits)
    show "behind ?q (tk_prev (tickets ?q ! n)) m" if "earlier ?q m n" for m n
      using split [OF that] old(2) [of m n] old(3) [of m]
      by (auto simp: ts nth_append earlier_def intro!: beh split: if_splits)
    show "behind ?q (queue_tail ?q (tk_key (tickets ?q ! m))) m" if "m < length (tickets ?q)" for m
      using that old(3) [of m]
      by (auto simp: ts tl nth_append less_Suc_eq earlier_def intro!: beh split: if_splits)
    show "n < length (tickets ?q) \<and> tk_key (tickets ?q ! n) = k \<and> \<not> tk_cleared (tickets ?q ! n)"
      if "queue_tail ?q k = Some n" for k n
      using that old(4) [of k n] by (auto simp: tl ts nth_append split: if_splits)
  qed
qed

lemma clear_inv:
  assumes inv: "queue_inv q" and fin: "settled_ticket q n"
  shows "queue_inv (clear_slot n q)"
proof -
  let ?q = "clear_slot n q" and ?t = "(tickets q ! n)\<lparr>tk_cleared := True\<rparr>"
  have n: "n < length (tickets q)" using fin by (simp add: settled_ticket_def)
  have ts: "tickets ?q = (tickets q)[n := ?t]" by (simp add: clear_slot_def Let_def)
  have tl: "queue_tail ?q k =
      (if queue_tail q k = Some n \<and> k = tk_key (tickets q ! n) then None else queue_tail q k)" for k
    by (simp add: clear_slot_def Let_def)
  note upd = update_ticket [OF n _ _ _ ts, simplified]
  have st: "tk_status (tickets ?q ! m) = tk_status (tickets q ! m)" for m
    using n by (cases "m = n") (auto simp: ts)
  note old = queue_invD [OF inv]
  show ?thesis
  proof (rule queue_invI)
    show "settled_ticket ?q m" if "earlier ?q m j" "tk_status (tickets ?q ! j) \<noteq> Waiting" for m j
      using that old(1) [of m j] by (auto simp: upd(1) st intro: upd(4))
    show "behind ?q (tk_prev (tickets ?q ! j)) m" if "earlier ?q m j" for m j
      using that old(2) [of m j] by (auto simp: upd(1,2) intro: behind_mono [OF _ upd(1) upd(4)])
    show "behind ?q (queue_tail ?q (tk_key (tickets ?q ! m))) m" if m: "m < length (tickets ?q)" for m
    proof (cases "queue_tail q (tk_key (tickets q ! m)) = Some n")
      case True
      have "behind q (Some n) m" using old(3) [of m] m ts True by simp
      then have "settled_ticket q m" by (rule behind_settled [OF inv]) (use fin in simp)
      moreover have "tk_key (tickets q ! m) = tk_key (tickets q ! n)" using old(4) [OF True] by simp
      ultimately show ?thesis using True by (simp add: upd(3) tl upd(4))
    next
      case False
      have "m < length (tickets q)" using m ts by simp
      then have "behind ?q (queue_tail q (tk_key (tickets q ! m))) m"
        by (rule behind_mono [OF old(3) upd(1) upd(4)])
      with False show ?thesis by (simp add: upd(3) tl)
    qed
    show "j < length (tickets ?q) \<and> tk_key (tickets ?q ! j) = k \<and> \<not> tk_cleared (tickets ?q ! j)"
      if "queue_tail ?q k = Some j" for k j
      using that old(4) [of k j] n by (cases "j = n") (auto simp: tl ts split: if_splits)
  qed
qed

lemma queue_step_inv: "queue_step sqlite q q' \<Longrightarrow> queue_inv q \<Longrightarrow> queue_inv q'"
proof (induction rule: queue_step.induct)
  case (enqueue q w)
  then show ?case by (rule enqueue_inv)
next
  case (run n q)
  show ?case
  proof (rule set_status_inv [OF run.prems run(1)])
    show "settled_ticket q m" if "earlier q m n" for m
      using run.prems queue_invD(2) [OF run.prems that] by (rule behind_settled) (use run(3) in simp)
  qed (use run in simp)
next
  case (settle n q)
  show ?case
    by (rule set_status_inv [OF settle.prems settle(1)])
      (use settle(2) queue_invD(1) [OF settle.prems] in auto)
next
  case (clear q n)
  then show ?case by (simp add: clear_inv)
qed

lemma queue_reachable_inv: "queue_reachable sqlite q \<Longrightarrow> queue_inv q"
proof (induction rule: queue_reachable.induct)
  case start
  then show ?case
    by (simp add: queue_inv_def order_inv_def prev_inv_def tail_inv_def slot_inv_def
        empty_queue_def earlier_def)
next
  case (step q q')
  then show ?case by (blast intro: queue_step_inv)
qed

section \<open>Properties\<close>

text \<open>
  C21: the write queue runs one ledger transaction at a time per key: two calls on the same
  serialisation key are never running together, in any interleaving of enqueueing, starting,
  settling and cleanup callbacks. With SQLite every call has the same key, so there is one writer.
\<close>

theorem serialize_exclusive:
  assumes "queue_reachable sqlite q"
    and "m < length (tickets q)" and "n < length (tickets q)"
    and "tk_key (tickets q ! m) = tk_key (tickets q ! n)"
    and "tk_status (tickets q ! m) = Running" and "tk_status (tickets q ! n) = Running"
  shows "m = n"
proof (rule ccontr)
  assume "m \<noteq> n"
  then consider "earlier q m n" | "earlier q n m"
    using assms(2-4) by (auto simp: earlier_def neq_iff)
  then show False
    using queue_invD(1) [OF queue_reachable_inv [OF assms(1)]] assms(5,6)
    by cases (force simp: settled_ticket_def)+
qed

definition running_queue :: write_queue where
  "running_queue = set_status 0 Running (serialize False ''w'' (serialize False ''w'' empty_queue))"

lemma running_queue_reachable: "queue_reachable False running_queue"
proof -
  have "queue_reachable False (serialize False ''w'' (serialize False ''w'' empty_queue))"
    by (intro queue_reachable.step [OF _ queue_step.enqueue] queue_reachable.start)
  then show ?thesis
    unfolding running_queue_def
    by (rule queue_reachable.step)
      (rule queue_step.run, auto simp: serialize_def Let_def empty_queue_def)
qed

theorem serialize_exclusive_witness:
  "{m. m < 2 \<and> tk_status (tickets running_queue ! m) = Running} = {0}"
proof -
  have ts: "length (tickets running_queue) = 2" "tk_status (tickets running_queue ! 0) = Running"
    by (simp_all add: running_queue_def set_status_def serialize_def Let_def empty_queue_def)
  have key: "tk_key (tickets running_queue ! m) = tk_key (tickets running_queue ! 0)" if "m < 2" for m
    using less_2_cases [OF that]
    by (elim disjE) (simp_all add: running_queue_def set_status_def serialize_def Let_def empty_queue_def)
  have "m = 0" if "m < 2" "tk_status (tickets running_queue ! m) = Running" for m
    by (rule serialize_exclusive [OF running_queue_reachable]) (use that ts key [OF that(1)] in simp_all)
  then show ?thesis using ts by auto
qed

text \<open>
  The queue map does not grow without bound: it never has an entry for a call whose cleanup
  callback has run, so when every call has been cleaned up the map is empty.
\<close>

theorem serialize_no_leak:
  assumes "queue_reachable sqlite q" and "\<forall>n < length (tickets q). tk_cleared (tickets q ! n)"
  shows "queue_tail q = Map.empty"
proof
  fix k
  show "queue_tail q k = None"
    using queue_reachable_inv [OF assms(1)] assms(2)
    by (cases "queue_tail q k") (auto simp: queue_inv_def slot_inv_def)
qed

end
