(* ===== verification/Signed_Link.thy ===== *)
theory Signed_Link
  imports Prelude
begin

text \<open>
  \<open>common/signed-link.ts\<close> and \<open>common/loopback.ts\<close>.

  A link token is \<open>body.signature\<close>, both in base64url. The base64url codec of Node's \<open>Buffer\<close> is
  modelled on bytes; the HMAC (\<open>node:crypto\<close>) and the JSON text of the claims are arguments
  (\<open>hmac\<close>, \<open>stringify\<close>, \<open>parse\<close>). The parsed claims keep what the code looks at: the audience, the
  expiry when it is a number, and the rest of the payload.
\<close>

section \<open>Definitions\<close>

text \<open>The alphabet is \<open>A-Z a-z 0-9 - _\<close>; the decoder also takes \<open>+\<close> and \<open>/\<close>.\<close>

definition b64_char :: "nat \<Rightarrow> char" where
  "b64_char n =
     (if n < 26 then char_of (n + 65) else if n < 52 then char_of (n + 71)
      else if n < 62 then char_of (n - 4) else if n = 62 then CHR ''-'' else CHR ''_'')"

definition b64_value :: "char \<Rightarrow> nat option" where
  "b64_value c =
     (let n = of_char c :: nat
      in if 65 \<le> n \<and> n \<le> 90 then Some (n - 65)
         else if 97 \<le> n \<and> n \<le> 122 then Some (n - 71)
         else if 48 \<le> n \<and> n \<le> 57 then Some (n + 4)
         else if n = 45 \<or> n = 43 then Some 62
         else if n = 95 \<or> n = 47 then Some 63
         else None)"

fun b64_encode :: "nat list \<Rightarrow> string" where
  "b64_encode [] = []"
| "b64_encode [a] = [b64_char (a div 4), b64_char (a mod 4 * 16)]"
| "b64_encode [a, b] =
     [b64_char (a div 4), b64_char (a mod 4 * 16 + b div 16), b64_char (b mod 16 * 4)]"
| "b64_encode (a # b # c # rest) =
     b64_char (a div 4) # b64_char (a mod 4 * 16 + b div 16)
     # b64_char (b mod 16 * 4 + c div 64) # b64_char (c mod 64) # b64_encode rest"

fun b64_bytes :: "nat list \<Rightarrow> nat list" where
  "b64_bytes (p # q # r # s # rest) =
     (p * 4 + q div 16) # (q mod 16 * 16 + r div 4) # (r mod 4 * 64 + s) # b64_bytes rest"
| "b64_bytes [p, q, r] = [p * 4 + q div 16, q mod 16 * 16 + r div 4]"
| "b64_bytes [p, q] = [p * 4 + q div 16]"
| "b64_bytes [p] = []"
| "b64_bytes [] = []"

text \<open>Characters outside the alphabet are skipped.\<close>

definition b64_decode :: "string \<Rightarrow> nat list" where
  "b64_decode s = b64_bytes (List.map_filter b64_value s)"

definition to_bytes :: "string \<Rightarrow> nat list" where
  "to_bytes s = map of_char s"

definition of_bytes :: "nat list \<Rightarrow> string" where
  "of_bytes bs = map char_of bs"

record 'p link_claims =
  lc_aud :: "string option"
  lc_exp :: "int option"
  lc_payload :: 'p

datatype link_error = LinkNotValid | LinkExpired

definition sign :: "(string \<Rightarrow> string \<Rightarrow> string) \<Rightarrow> string \<Rightarrow> string \<Rightarrow> string" where
  "sign hmac secret body = b64_encode (to_bytes (hmac secret body))"

definition link_matches :: "string \<Rightarrow> string \<Rightarrow> bool" where
  "link_matches expected actual = (length expected = length actual \<and> expected = actual)"

definition signLink ::
  "(string \<Rightarrow> string \<Rightarrow> string) \<Rightarrow> ('p link_claims \<Rightarrow> string) \<Rightarrow> string \<Rightarrow> string \<Rightarrow> 'p \<Rightarrow> int \<Rightarrow> int \<Rightarrow> string" where
  "signLink hmac stringify secret aud payload ttlMs now =
     (let body = b64_encode (to_bytes (stringify
            \<lparr>lc_aud = Some aud, lc_exp = Some (now + ttlMs), lc_payload = payload\<rparr>))
      in body @ ''.'' @ sign hmac secret body)"

definition verifyLink ::
  "(string \<Rightarrow> string \<Rightarrow> string) \<Rightarrow> (string \<Rightarrow> 'p link_claims option) \<Rightarrow> string \<Rightarrow> string \<Rightarrow> string \<Rightarrow> int
     \<Rightarrow> (link_error, 'p link_claims) result" where
  "verifyLink hmac parse secret token audience now =
     (case split_on CHR ''.'' token of
        body # signature # _ \<Rightarrow>
          if body = [] \<or> signature = [] \<or> \<not> link_matches (sign hmac secret body) signature
          then Inl LinkNotValid
          else (case parse (of_bytes (b64_decode body)) of
                  None \<Rightarrow> Inl LinkNotValid
                | Some claims \<Rightarrow>
                    if lc_aud claims \<noteq> Some audience then Inl LinkNotValid
                    else (case lc_exp claims of
                            None \<Rightarrow> Inl LinkExpired
                          | Some e \<Rightarrow> if e \<le> now then Inl LinkExpired else Inr claims))
      | _ \<Rightarrow> Inl LinkNotValid)"

text \<open>
  \<open>isLoopbackHostname\<close>. \<open>dotted_127\<close> is the regular expression
  \<open>^127\.\d{1,3}\.\d{1,3}\.\d{1,3}$\<close>. In \<open>isLoopbackUrl\<close> the URL parser is the argument
  \<open>hostname_of\<close>, \<open>None\<close> where \<open>new URL\<close> throws.
\<close>

definition short_digits :: "string \<Rightarrow> bool" where
  "short_digits s = (all_digits s \<and> length s \<le> 3)"

definition dotted_127 :: "string \<Rightarrow> bool" where
  "dotted_127 host =
     (case split_on CHR ''.'' host of
        [a, b, c, d] \<Rightarrow> a = ''127'' \<and> short_digits b \<and> short_digits c \<and> short_digits d
      | _ \<Rightarrow> False)"

definition strip_brackets :: "string \<Rightarrow> string" where
  "strip_brackets s =
     (let t = (case s of c # cs \<Rightarrow> if c = CHR ''['' then cs else s | [] \<Rightarrow> [])
      in if t \<noteq> [] \<and> last t = CHR '']'' then butlast t else t)"

definition isLoopbackHostname :: "string \<Rightarrow> bool" where
  "isLoopbackHostname hostname =
     (let host = strip_brackets (to_lower hostname)
      in host = ''localhost'' \<or> ends_with host ''.localhost''
         \<or> host = ''::1'' \<or> host = ''0:0:0:0:0:0:0:1''
         \<or> dotted_127 host)"

definition isLoopbackUrl :: "(string \<Rightarrow> string option) \<Rightarrow> string \<Rightarrow> bool" where
  "isLoopbackUrl hostname_of url =
     (case hostname_of url of None \<Rightarrow> False | Some hostname \<Rightarrow> isLoopbackHostname hostname)"

section \<open>Lemmas\<close>

lemma b64_value_char [simp]: "n < 64 \<Longrightarrow> b64_value (b64_char n) = Some n"
  by (auto simp: b64_char_def b64_value_def Let_def)

lemma b64_char_no_dot [simp]: "n < 64 \<Longrightarrow> b64_char n \<noteq> CHR ''.''" "n < 64 \<Longrightarrow> CHR ''.'' \<noteq> b64_char n"
proof -
  have "b64_value CHR ''.'' = None" by (simp add: b64_value_def)
  then show "n < 64 \<Longrightarrow> b64_char n \<noteq> CHR ''.''" "n < 64 \<Longrightarrow> CHR ''.'' \<noteq> b64_char n"
    by (metis b64_value_char option.distinct(1))+
qed

lemma byte_parts:
  fixes a b :: nat
  assumes "a < 256" and "b < 256"
  shows "a div 4 < 64" "a mod 4 * 16 < 64" "a mod 4 * 16 + b div 16 < 64" "a mod 16 * 4 < 64"
    "a mod 16 * 4 + b div 64 < 64" "a mod 64 < 64"
  using assms by auto

lemma byte_join:
  fixes a b :: nat
  assumes "b < 256"
  shows "(a mod 4 * 16 + b div 16) div 16 = a mod 4" "(a mod 4 * 16 + b div 16) mod 16 = b div 16"
    "(a mod 16 * 4 + b div 64) div 4 = a mod 16" "(a mod 16 * 4 + b div 64) mod 4 = b div 64"
  using assms by (auto simp: div_mult_self3)

lemma b64_roundtrip_bytes: "list_all (\<lambda>b. b < 256) bs \<Longrightarrow> b64_decode (b64_encode bs) = bs"
  by (induction bs rule: b64_encode.induct)
    (auto simp: b64_decode_def map_filter_simps byte_parts byte_join)

lemma b64_encode_no_dot: "list_all (\<lambda>b. b < 256) bs \<Longrightarrow> CHR ''.'' \<notin> set (b64_encode bs)"
  by (induction bs rule: b64_encode.induct) (auto simp: byte_parts)

lemma b64_encode_Nil [simp]: "b64_encode bs = [] \<longleftrightarrow> bs = []"
  by (cases bs rule: b64_encode.cases) auto

lemma to_bytes_small [simp]: "list_all (\<lambda>b. b < 256) (to_bytes s)"
  by (simp add: to_bytes_def list_all_iff)

lemma of_to_bytes [simp]: "of_bytes (to_bytes s) = s"
  by (induction s) (auto simp: of_bytes_def to_bytes_def)

lemma to_bytes_Nil [simp]: "to_bytes s = [] \<longleftrightarrow> s = []"
  by (simp add: to_bytes_def)

lemma verify_signed:
  assumes "parse (stringify c) = Some c"
    and "c = \<lparr>lc_aud = Some aud, lc_exp = Some (now + ttlMs), lc_payload = payload\<rparr>"
    and "stringify c \<noteq> []" and "\<And>body. hmac secret body \<noteq> []"
  shows "verifyLink hmac parse secret (signLink hmac stringify secret aud payload ttlMs now) audience later =
    (if audience \<noteq> aud then Inl LinkNotValid
     else if now + ttlMs \<le> later then Inl LinkExpired else Inr c)"
proof -
  define body where "body = b64_encode (to_bytes (stringify c))"
  have nodot: "CHR ''.'' \<notin> set body" "CHR ''.'' \<notin> set (sign hmac secret body)"
    by (simp_all add: body_def sign_def b64_encode_no_dot)
  have "signLink hmac stringify secret aud payload ttlMs now = body @ CHR ''.'' # sign hmac secret body"
    by (simp add: signLink_def body_def assms(2) Let_def)
  moreover have "split_on CHR ''.'' (body @ CHR ''.'' # sign hmac secret body) = [body, sign hmac secret body]"
    using nodot by (simp add: split_on_first split_on_free)
  moreover have "body \<noteq> []" "sign hmac secret body \<noteq> []"
    using assms(3,4) by (simp_all add: body_def sign_def)
  moreover have "of_bytes (b64_decode body) = stringify c"
    by (simp add: body_def b64_roundtrip_bytes)
  ultimately show ?thesis
    using assms(1,2) by (simp add: verifyLink_def link_matches_def)
qed

section \<open>Properties\<close>

text \<open>
  A signed link round trip. A token made by \<open>signLink\<close> is accepted by \<open>verifyLink\<close> exactly for
  its own audience and strictly before its expiry, and yields the payload that was signed; for
  another audience it is refused as not valid, from its expiry on as expired. Assumed are that
  parsing the JSON text gives the claims back and that the digest is not empty.
\<close>

theorem signed_link_roundtrip:
  assumes "parse (stringify c) = Some c"
    and "c = \<lparr>lc_aud = Some aud, lc_exp = Some (now + ttlMs), lc_payload = payload\<rparr>"
    and "stringify c \<noteq> []" and "\<And>body. hmac secret body \<noteq> []"
  shows "verifyLink hmac parse secret (signLink hmac stringify secret aud payload ttlMs now) audience later =
    (if audience \<noteq> aud then Inl LinkNotValid
     else if now + ttlMs \<le> later then Inl LinkExpired else Inr c)"
  using assms by (rule verify_signed)

text \<open>
  C23: nothing but a correctly signed body is accepted. If \<open>verifyLink\<close> returns claims, the token
  starts with a non-empty body followed by a dot and the signature of that body under the secret,
  the claims are what that body parses to, and they name the audience and an expiry in the future.
\<close>

theorem signed_link_authentic:
  assumes "verifyLink hmac parse secret token audience now = Inr claims"
  shows "\<exists>body rest. token = body @ ''.'' @ sign hmac secret body @ rest \<and> body \<noteq> []
    \<and> (rest = [] \<or> hd rest = CHR ''.'')
    \<and> parse (of_bytes (b64_decode body)) = Some claims
    \<and> lc_aud claims = Some audience \<and> (\<exists>e. lc_exp claims = Some e \<and> now < e)"
proof -
  obtain body signature ps where split: "split_on CHR ''.'' token = body # signature # ps"
    using assms by (cases "split_on CHR ''.'' token" rule: remdups_adj.cases) (simp_all add: verifyLink_def)
  have ok: "body \<noteq> []" "sign hmac secret body = signature"
      "parse (of_bytes (b64_decode body)) = Some claims" "lc_aud claims = Some audience"
      "\<exists>e. lc_exp claims = Some e \<and> now < e"
    using assms by (simp_all add: verifyLink_def split link_matches_def split: option.splits if_splits)
  obtain t where t: "token = body @ CHR ''.'' # t" "split_on CHR ''.'' t = signature # ps"
    using split_on_Cons [OF split] by auto
  obtain r where r: "t = signature @ r" "r = [] \<or> (\<exists>u. r = CHR ''.'' # u)"
    using split_on_Cons [OF t(2)] by blast
  then have "r = [] \<or> hd r = CHR ''.''" by auto
  moreover have "token = body @ ''.'' @ sign hmac secret body @ r" by (simp add: t(1) r(1) ok(2))
  ultimately show ?thesis using ok(1,3-5) by blast
qed

theorem signed_link_authentic_witness:
  "\<exists>body rest. ''eA.ZA'' = body @ ''.'' @ sign (\<lambda>s b. ''d'') ''s'' body @ rest \<and> body \<noteq> []"
proof -
  have "verifyLink (\<lambda>s b. ''d'') (\<lambda>t. Some \<lparr>lc_aud = Some ''a'', lc_exp = Some 15, lc_payload = ()\<rparr>)
      ''s'' ''eA.ZA'' ''a'' 14 = Inr \<lparr>lc_aud = Some ''a'', lc_exp = Some 15, lc_payload = ()\<rparr>"
    by (simp add: verifyLink_def link_matches_def sign_def to_bytes_def b64_char_def char_of_def bit_0)
  from signed_link_authentic [OF this] show ?thesis by blast
qed

end
