(* ===== verification/Payment.thy ===== *)
theory Payment
  imports Money Db Signed_Link
begin

text \<open>
  The payment providers: \<open>billing/payment-provider.ts\<close> (the interface),
  \<open>stripe-payment.provider.ts\<close>, \<open>manual-payment.provider.ts\<close>, \<open>disabled-payment.provider.ts\<close> and the
  choice between them in \<open>billing.module.ts\<close>.

  A provider is a record of its methods (\<open>payment_provider\<close>). The Stripe client library is an argument
  (\<open>stripe_client\<close>): what its calls return. Random ids, the clock and the JSON of the claims are
  arguments too. The locale \<open>provider_contract\<close> is the contract of the interface that the
  billing service relies on; it is interpreted on all three providers.
\<close>

section \<open>The interface\<close>

record checkout_request =
  cr_workspaceId :: string
  cr_amountMicros :: int
  cr_customerRef :: "string option"
  cr_email :: "string option"
  cr_successUrl :: string
  cr_cancelUrl :: string

record checkout_session =
  cs_url :: string
  cs_ref :: string

record ledger_event =
  ev_workspaceId :: string
  ev_kind :: transaction_kind
  ev_amountMicros :: int
  ev_reference :: string
  ev_idempotencyKey :: string
  ev_description :: "string option"
  ev_customerRef :: "string option"

record saved_charge =
  sc_workspaceId :: string
  sc_customerRef :: string
  sc_amountMicros :: int
  sc_idempotencyKey :: string
  sc_description :: "string option"

datatype provider_error =
    MissingSignature
  | InvalidSignature
  | PurchasesDisabled
  | BadChargeAmount money_error
  | NoSessionUrl string
  | StripeFailure string
  | BadLink link_error

text \<open>
  \<open>pp_completeCheckout\<close> is there exactly on an instance of \<open>ManualPaymentProvider\<close>.
\<close>

record payment_provider =
  pp_name :: string
  pp_supportsCheckout :: bool
  pp_supportsSavedPaymentMethods :: bool
  pp_createCheckout :: "checkout_request \<Rightarrow> (provider_error, checkout_session) result"
  pp_handleWebhook :: "string \<Rightarrow> string option \<Rightarrow> (provider_error, ledger_event list) result"
  pp_chargeSaved :: "saved_charge \<Rightarrow> (provider_error, ledger_event option) result"
  pp_completeCheckout :: "(string \<Rightarrow> (provider_error, ledger_event \<times> string) result) option"

definition as_provider_error :: "('e \<Rightarrow> provider_error) \<Rightarrow> ('e, 'a) result \<Rightarrow> (provider_error, 'a) result" where
  "as_provider_error f r = (case r of Inl e \<Rightarrow> Inl (f e) | Inr x \<Rightarrow> Inr x)"

section \<open>Stripe\<close>

text \<open>The Stripe objects, as far as the provider reads them. A reference is an id or an expanded object.\<close>

datatype id_ref = Plain string | Expanded string

record stripe_session =
  ss_id :: string
  ss_url :: "string option"
  ss_client_reference_id :: "string option"
  ss_metadata :: "string \<rightharpoonup> string"
  ss_payment_status :: string
  ss_amount_total :: "int option"
  ss_payment_intent :: "id_ref option"
  ss_customer :: "id_ref option"

record stripe_intent =
  pi_id :: string
  pi_status :: string
  pi_amount :: int
  pi_amount_received :: int
  pi_metadata :: "string \<rightharpoonup> string"
  pi_customer :: "id_ref option"

record stripe_charge =
  ch_id :: string
  ch_amount_refunded :: int
  ch_metadata :: "string \<rightharpoonup> string"
  ch_customer :: "id_ref option"

datatype stripe_event =
    CheckoutCompleted stripe_session
  | IntentSucceeded stripe_intent
  | ChargeRefunded stripe_charge
  | OtherEvent string

record session_params =
  sp_client_reference_id :: string
  sp_customer :: "string option"
  sp_customer_email :: "string option"
  sp_customer_creation :: "string option"
  sp_success_url :: string
  sp_cancel_url :: string
  sp_metadata :: "string \<rightharpoonup> string"
  sp_setup_future_usage :: string
  sp_intent_metadata :: "string \<rightharpoonup> string"
  sp_currency :: string
  sp_unit_amount :: int
  sp_product_description :: string

record intent_params =
  ip_amount :: int
  ip_currency :: string
  ip_customer :: string
  ip_payment_method :: string
  ip_metadata :: "string \<rightharpoonup> string"

record stripe_customer =
  cu_deleted :: bool
  cu_default_payment_method :: "id_ref option"

record stripe_client =
  st_sessions_create :: "session_params \<Rightarrow> (string, stripe_session) result"
  st_construct_event :: "string \<Rightarrow> string \<Rightarrow> string \<Rightarrow> (string, stripe_event) result"
  st_intents_create :: "intent_params \<Rightarrow> string \<Rightarrow> (string, stripe_intent) result"
  st_customers_retrieve :: "string \<Rightarrow> (string, stripe_customer) result"
  st_methods_list :: "string \<Rightarrow> (string, string list) result"

record stripe_settings =
  set_webhookSecret :: string
  set_currency :: string

definition AUTO_TOPUP_METADATA_KEY :: string where "AUTO_TOPUP_METADATA_KEY = ''cr_auto_topup''"

definition WORKSPACE_METADATA_KEY :: string where "WORKSPACE_METADATA_KEY = ''cr_workspace_id''"

definition HANDLED_EVENTS :: "string list" where
  "HANDLED_EVENTS = [''checkout.session.completed'', ''payment_intent.succeeded'', ''charge.refunded'']"

fun event_type :: "stripe_event \<Rightarrow> string" where
  "event_type (CheckoutCompleted _) = ''checkout.session.completed''"
| "event_type (IntentSucceeded _) = ''payment_intent.succeeded''"
| "event_type (ChargeRefunded _) = ''charge.refunded''"
| "event_type (OtherEvent t) = t"

fun idOf :: "id_ref option \<Rightarrow> string option" where
  "idOf None = None"
| "idOf (Some (Plain s)) = (if s = [] then None else Some s)"
| "idOf (Some (Expanded s)) = Some s"

definition usd_text :: "string \<Rightarrow> int \<Rightarrow> string" where
  "usd_text what micros = what @ microsToUsdString micros"

definition stripe_createCheckout ::
  "stripe_client \<Rightarrow> stripe_settings \<Rightarrow> checkout_request \<Rightarrow> (provider_error, checkout_session) result" where
  "stripe_createCheckout st s r =
     res_bind (as_provider_error BadChargeAmount (microsToCents (cr_amountMicros r))) (\<lambda>cents.
     res_bind (as_provider_error StripeFailure (st_sessions_create st
       \<lparr>sp_client_reference_id = cr_workspaceId r,
        sp_customer = cr_customerRef r,
        sp_customer_email = (if truthy (cr_customerRef r) then None else cr_email r),
        sp_customer_creation = (if truthy (cr_customerRef r) then None else Some ''always''),
        sp_success_url = cr_successUrl r, sp_cancel_url = cr_cancelUrl r,
        sp_metadata = [WORKSPACE_METADATA_KEY \<mapsto> cr_workspaceId r],
        sp_setup_future_usage = ''off_session'',
        sp_intent_metadata = [WORKSPACE_METADATA_KEY \<mapsto> cr_workspaceId r],
        sp_currency = set_currency s, sp_unit_amount = cents,
        sp_product_description =
          usd_text ''$'' (cr_amountMicros r) @ '' of prepaid credits''\<rparr>)) (\<lambda>session.
     case ss_url session of
       None \<Rightarrow> Inl (NoSessionUrl (ss_id session))
     | Some url \<Rightarrow>
         if url = [] then Inl (NoSessionUrl (ss_id session))
         else Inr \<lparr>cs_url = url, cs_ref = ss_id session\<rparr>))"

definition fromCheckout :: "stripe_session \<Rightarrow> ledger_event list" where
  "fromCheckout session =
     (let workspaceId = (case ss_client_reference_id session of
            Some w \<Rightarrow> Some w | None \<Rightarrow> ss_metadata session WORKSPACE_METADATA_KEY);
          total = (case ss_amount_total session of None \<Rightarrow> 0 | Some n \<Rightarrow> n)
      in if \<not> truthy workspaceId \<or> ss_payment_status session \<noteq> ''paid'' \<or> total = 0 then []
         else let paymentIntent = (case idOf (ss_payment_intent session) of
                    Some i \<Rightarrow> i | None \<Rightarrow> ss_id session)
              in [\<lparr>ev_workspaceId = the workspaceId, ev_kind = Purchase,
                   ev_amountMicros = centsToMicros total, ev_reference = paymentIntent,
                   ev_idempotencyKey = ''stripe:payment:'' @ paymentIntent,
                   ev_description = Some (usd_text ''Credit purchase of $'' (centsToMicros total)),
                   ev_customerRef = idOf (ss_customer session)\<rparr>])"

text \<open>\<open>amount_received || amount\<close>\<close>

definition settled_amount :: "stripe_intent \<Rightarrow> int" where
  "settled_amount intent =
     centsToMicros (if pi_amount_received intent \<noteq> 0 then pi_amount_received intent else pi_amount intent)"

definition fromAutoTopUp :: "stripe_intent \<Rightarrow> ledger_event list" where
  "fromAutoTopUp intent =
     (if pi_metadata intent AUTO_TOPUP_METADATA_KEY \<noteq> Some ''true'' then []
      else if \<not> truthy (pi_metadata intent WORKSPACE_METADATA_KEY) then []
      else [\<lparr>ev_workspaceId = the (pi_metadata intent WORKSPACE_METADATA_KEY), ev_kind = Auto_topup,
             ev_amountMicros = settled_amount intent, ev_reference = pi_id intent,
             ev_idempotencyKey = ''stripe:payment:'' @ pi_id intent,
             ev_description = Some (usd_text ''Automatic top-up of $'' (settled_amount intent)),
             ev_customerRef = idOf (pi_customer intent)\<rparr>])"

definition fromRefund :: "stripe_charge \<Rightarrow> ledger_event list" where
  "fromRefund charge =
     (let workspaceId = ch_metadata charge WORKSPACE_METADATA_KEY;
          amountMicros = centsToMicros (ch_amount_refunded charge)
      in if \<not> truthy workspaceId \<or> ch_amount_refunded charge = 0 then []
         else [\<lparr>ev_workspaceId = the workspaceId, ev_kind = Refund, ev_amountMicros = - amountMicros,
                ev_reference = ch_id charge,
                ev_idempotencyKey = ''stripe:refund:'' @ ch_id charge @ '':'' @ show_int (ch_amount_refunded charge),
                ev_description = Some (usd_text ''Refund of $'' amountMicros),
                ev_customerRef = idOf (ch_customer charge)\<rparr>])"

fun translate_event :: "stripe_event \<Rightarrow> ledger_event list" where
  "translate_event (CheckoutCompleted session) = fromCheckout session"
| "translate_event (IntentSucceeded intent) = fromAutoTopUp intent"
| "translate_event (ChargeRefunded charge) = fromRefund charge"
| "translate_event (OtherEvent _) = []"

definition stripe_handleWebhook ::
  "stripe_client \<Rightarrow> stripe_settings \<Rightarrow> string \<Rightarrow> string option \<Rightarrow> (provider_error, ledger_event list) result" where
  "stripe_handleWebhook st s rawBody signature =
     (if \<not> truthy signature then Inl MissingSignature
      else case st_construct_event st rawBody (the signature) (set_webhookSecret s) of
             Inl _ \<Rightarrow> Inl InvalidSignature
           | Inr event \<Rightarrow>
               if event_type event \<notin> set HANDLED_EVENTS then Inr []
               else Inr (translate_event event))"

definition defaultPaymentMethod ::
  "stripe_client \<Rightarrow> string \<Rightarrow> (provider_error, string option) result" where
  "defaultPaymentMethod st customerRef =
     res_bind (as_provider_error StripeFailure (st_customers_retrieve st customerRef)) (\<lambda>customer.
       if cu_deleted customer then Inr None
       else let saved = idOf (cu_default_payment_method customer)
            in if truthy saved then Inr saved
               else res_bind (as_provider_error StripeFailure (st_methods_list st customerRef)) (\<lambda>methods.
                 Inr (case methods of [] \<Rightarrow> None | m # _ \<Rightarrow> Some m)))"

definition stripe_chargeSaved ::
  "stripe_client \<Rightarrow> stripe_settings \<Rightarrow> saved_charge \<Rightarrow> (provider_error, ledger_event option) result" where
  "stripe_chargeSaved st s charge =
     res_bind (defaultPaymentMethod st (sc_customerRef charge)) (\<lambda>paymentMethod.
       if \<not> truthy paymentMethod then Inr None
       else
     res_bind (as_provider_error BadChargeAmount (microsToCents (sc_amountMicros charge))) (\<lambda>cents.
     res_bind (as_provider_error StripeFailure (st_intents_create st
       \<lparr>ip_amount = cents, ip_currency = set_currency s, ip_customer = sc_customerRef charge,
        ip_payment_method = the paymentMethod,
        ip_metadata = [AUTO_TOPUP_METADATA_KEY \<mapsto> ''true'', WORKSPACE_METADATA_KEY \<mapsto> sc_workspaceId charge]\<rparr>
       (sc_idempotencyKey charge))) (\<lambda>intent.
     if pi_status intent \<noteq> ''succeeded'' then Inr None
     else Inr (Some
       \<lparr>ev_workspaceId = sc_workspaceId charge, ev_kind = Auto_topup,
        ev_amountMicros = settled_amount intent, ev_reference = pi_id intent,
        ev_idempotencyKey = sc_idempotencyKey charge,
        ev_description = (case sc_description charge of Some t \<Rightarrow> Some t
          | None \<Rightarrow> Some (usd_text ''Automatic top-up of $'' (sc_amountMicros charge))),
        ev_customerRef = Some (sc_customerRef charge)\<rparr>))))"

definition stripe_provider :: "stripe_client \<Rightarrow> stripe_settings \<Rightarrow> payment_provider" where
  "stripe_provider st s =
     \<lparr>pp_name = ''stripe'', pp_supportsCheckout = True, pp_supportsSavedPaymentMethods = True,
      pp_createCheckout = stripe_createCheckout st s, pp_handleWebhook = stripe_handleWebhook st s,
      pp_chargeSaved = stripe_chargeSaved st s, pp_completeCheckout = None\<rparr>"

section \<open>The manual and the disabled provider\<close>

definition MANUAL_CHECKOUT_AUDIENCE :: string where
  "MANUAL_CHECKOUT_AUDIENCE = ''billing:manual-checkout''"

definition CHECKOUT_TTL_MS :: int where "CHECKOUT_TTL_MS = 60 * 60 * 1000"

record manual_claims =
  mc_workspaceId :: string
  mc_cents :: int
  mc_ref :: string
  mc_successUrl :: string

text \<open>
  What the manual provider uses of its surroundings: the signing key and functions, the base URL
  with the token as a query parameter, \<open>randomUUID()\<close> and the clock.
\<close>

record manual_env =
  me_secret :: string
  me_hmac :: "string \<Rightarrow> string \<Rightarrow> string"
  me_stringify :: "manual_claims link_claims \<Rightarrow> string"
  me_parse :: "string \<Rightarrow> manual_claims link_claims option"
  me_completeUrl :: "string \<Rightarrow> string"
  me_uuid :: string
  me_now :: int

definition manual_createCheckout ::
  "manual_env \<Rightarrow> checkout_request \<Rightarrow> (provider_error, checkout_session) result" where
  "manual_createCheckout env r =
     res_bind (as_provider_error BadChargeAmount (microsToCents (cr_amountMicros r))) (\<lambda>cents.
       let ref = ''manual_cs_'' @ me_uuid env;
           token = signLink (me_hmac env) (me_stringify env) (me_secret env) MANUAL_CHECKOUT_AUDIENCE
             \<lparr>mc_workspaceId = cr_workspaceId r, mc_cents = cents, mc_ref = ref,
              mc_successUrl = cr_successUrl r\<rparr> CHECKOUT_TTL_MS (me_now env)
       in Inr \<lparr>cs_url = me_completeUrl env token, cs_ref = ref\<rparr>)"

definition manual_event :: "manual_claims \<Rightarrow> ledger_event" where
  "manual_event c =
     \<lparr>ev_workspaceId = mc_workspaceId c, ev_kind = Purchase,
      ev_amountMicros = centsToMicros (mc_cents c), ev_reference = mc_ref c,
      ev_idempotencyKey = ''manual:'' @ mc_ref c,
      ev_description = Some (usd_text ''Manual top-up of $'' (centsToMicros (mc_cents c))),
      ev_customerRef = Some (''manual_cus_'' @ mc_workspaceId c)\<rparr>"

definition manual_completeCheckout ::
  "manual_env \<Rightarrow> string \<Rightarrow> (provider_error, ledger_event \<times> string) result" where
  "manual_completeCheckout env token =
     res_bind (as_provider_error BadLink
       (verifyLink (me_hmac env) (me_parse env) (me_secret env) token MANUAL_CHECKOUT_AUDIENCE (me_now env)))
       (\<lambda>claims. Inr (manual_event (lc_payload claims), mc_successUrl (lc_payload claims)))"

definition manual_chargeSaved ::
  "manual_env \<Rightarrow> saved_charge \<Rightarrow> (provider_error, ledger_event option) result" where
  "manual_chargeSaved env charge = Inr (Some
     \<lparr>ev_workspaceId = sc_workspaceId charge, ev_kind = Auto_topup,
      ev_amountMicros = sc_amountMicros charge, ev_reference = ''manual_pi_'' @ me_uuid env,
      ev_idempotencyKey = sc_idempotencyKey charge,
      ev_description = (case sc_description charge of Some t \<Rightarrow> Some t
        | None \<Rightarrow> Some (usd_text ''Automatic top-up of $'' (sc_amountMicros charge))),
      ev_customerRef = Some (sc_customerRef charge)\<rparr>)"

definition manual_provider :: "manual_env \<Rightarrow> payment_provider" where
  "manual_provider env =
     \<lparr>pp_name = ''manual'', pp_supportsCheckout = True, pp_supportsSavedPaymentMethods = True,
      pp_createCheckout = manual_createCheckout env, pp_handleWebhook = (\<lambda>_ _. Inr []),
      pp_chargeSaved = manual_chargeSaved env, pp_completeCheckout = Some (manual_completeCheckout env)\<rparr>"

definition disabled_provider :: payment_provider where
  "disabled_provider =
     \<lparr>pp_name = ''disabled'', pp_supportsCheckout = False, pp_supportsSavedPaymentMethods = False,
      pp_createCheckout = (\<lambda>_. Inl PurchasesDisabled), pp_handleWebhook = (\<lambda>_ _. Inr []),
      pp_chargeSaved = (\<lambda>_. Inl PurchasesDisabled), pp_completeCheckout = None\<rparr>"

section \<open>The choice of the provider\<close>

datatype provider_setting = Auto_setting | Stripe_setting | Manual_setting | Disabled_setting

datatype choice_error = StripeNotConfigured | ManualInProduction | ManualOnPublicDeployment string

record provider_config =
  pc_provider :: provider_setting
  pc_stripe :: "stripe_settings option"
  pc_publicBaseUrl :: string

definition createPaymentProvider ::
  "(string \<Rightarrow> string option) \<Rightarrow> stripe_client \<Rightarrow> manual_env \<Rightarrow> provider_config \<Rightarrow> string option
     \<Rightarrow> (choice_error, payment_provider) result" where
  "createPaymentProvider hostname_of st env c NODE_ENV =
     (case (pc_provider c, pc_stripe c) of
        (Disabled_setting, _) \<Rightarrow> Inr disabled_provider
      | (Stripe_setting, None) \<Rightarrow> Inl StripeNotConfigured
      | (Stripe_setting, Some s) \<Rightarrow> Inr (stripe_provider st s)
      | (Auto_setting, Some s) \<Rightarrow> Inr (stripe_provider st s)
      | _ \<Rightarrow>
          if NODE_ENV = Some ''production'' then Inl ManualInProduction
          else if \<not> isLoopbackUrl hostname_of (pc_publicBaseUrl c)
          then Inl (ManualOnPublicDeployment (pc_publicBaseUrl c))
          else Inr (manual_provider env))"

section \<open>The contract of the interface\<close>

text \<open>
  What the billing services rely on: a charge of a saved card is reported under the caller's key,
  for the caller's workspace and as an automatic top-up; a provider that says it cannot sell or
  cannot charge never does; a webhook delivery without a signature yields no events.
\<close>

locale provider_contract =
  fixes p :: payment_provider
  assumes charge_key: "pp_chargeSaved p c = Inr (Some e) \<Longrightarrow>
      ev_idempotencyKey e = sc_idempotencyKey c \<and> ev_workspaceId e = sc_workspaceId c
      \<and> ev_kind e = Auto_topup \<and> ev_customerRef e = Some (sc_customerRef c)"
    and no_saved: "\<not> pp_supportsSavedPaymentMethods p \<Longrightarrow> pp_chargeSaved p c \<noteq> Inr (Some e)"
    and no_checkout: "\<not> pp_supportsCheckout p \<Longrightarrow> pp_createCheckout p r \<noteq> Inr s"
    and unsigned: "pp_handleWebhook p body None = Inr es \<Longrightarrow> es = []"

lemma as_provider_error_Inr [res_simps]: "as_provider_error f r = Inr x \<longleftrightarrow> r = Inr x"
  by (cases r) (auto simp: as_provider_error_def)

lemma stripe_chargeSaved_event:
  assumes "stripe_chargeSaved st s c = Inr (Some e)"
  shows "ev_idempotencyKey e = sc_idempotencyKey c \<and> ev_workspaceId e = sc_workspaceId c
      \<and> ev_kind e = Auto_topup \<and> ev_customerRef e = Some (sc_customerRef c)"
  using assms by (auto simp: stripe_chargeSaved_def res_simps split: if_splits)

interpretation stripe: provider_contract "stripe_provider st s" for st s
  by unfold_locales
    (simp_all add: stripe_provider_def stripe_chargeSaved_event stripe_handleWebhook_def)

interpretation manual: provider_contract "manual_provider env" for env
  by unfold_locales (auto simp: manual_provider_def manual_chargeSaved_def)

interpretation disabled: provider_contract disabled_provider
  by unfold_locales (simp_all add: disabled_provider_def)

lemma createPaymentProvider_contract:
  assumes "createPaymentProvider hostname_of st env c NODE_ENV = Inr p"
  shows "provider_contract p"
  using assms stripe.provider_contract_axioms manual.provider_contract_axioms disabled.provider_contract_axioms
  by (auto simp: createPaymentProvider_def split: provider_setting.splits option.splits if_splits)

section \<open>Properties\<close>

text \<open>
  Credit cannot be minted on a reachable deployment. The provider that confirms a top-up from a
  link (the only one with \<open>completeCheckout\<close>) is bound only outside production and on a base URL
  whose host is a loopback address, and never when Stripe is configured under \<open>auto\<close> or the
  setting is \<open>stripe\<close> or \<open>disabled\<close>.
\<close>

theorem manual_only_local:
  assumes "createPaymentProvider hostname_of st env c NODE_ENV = Inr p"
    and "pp_completeCheckout p \<noteq> None"
  shows "NODE_ENV \<noteq> Some ''production''
    \<and> (\<exists>host. hostname_of (pc_publicBaseUrl c) = Some host \<and> isLoopbackHostname host)
    \<and> (pc_provider c = Manual_setting \<or> pc_provider c = Auto_setting \<and> pc_stripe c = None)"
  using assms
  by (auto simp: createPaymentProvider_def stripe_provider_def disabled_provider_def isLoopbackUrl_def
      split: provider_setting.splits option.splits if_splits)

definition example_manual_env :: manual_env where
  "example_manual_env =
     \<lparr>me_secret = ''s'', me_hmac = (\<lambda>_ _. ''d''), me_stringify = (\<lambda>_. ''x''),
      me_parse = (\<lambda>_. Some \<lparr>lc_aud = Some MANUAL_CHECKOUT_AUDIENCE, lc_exp = Some (5 + CHECKOUT_TTL_MS),
        lc_payload = \<lparr>mc_workspaceId = ''w'', mc_cents = 500, mc_ref = ''manual_cs_u'', mc_successUrl = ''ok''\<rparr>\<rparr>),
      me_completeUrl = id, me_uuid = ''u'', me_now = 5\<rparr>"

definition example_intent :: stripe_intent where
  "example_intent =
     \<lparr>pi_id = ''pi_1'', pi_status = ''succeeded'', pi_amount = 500, pi_amount_received = 500,
      pi_metadata = [AUTO_TOPUP_METADATA_KEY \<mapsto> ''true'', WORKSPACE_METADATA_KEY \<mapsto> ''w''],
      pi_customer = Some (Plain ''cus_1'')\<rparr>"

definition example_stripe :: stripe_client where
  "example_stripe =
     \<lparr>st_sessions_create = (\<lambda>_. Inl ''offline''),
      st_construct_event = (\<lambda>_ _ _. Inr (IntentSucceeded example_intent)),
      st_intents_create = (\<lambda>_ _. Inr example_intent),
      st_customers_retrieve = (\<lambda>_. Inr \<lparr>cu_deleted = False, cu_default_payment_method = Some (Plain ''pm_1'')\<rparr>),
      st_methods_list = (\<lambda>_. Inr [])\<rparr>"

lemma split_on_dots:
  "split_on CHR ''.'' ''127.0.0.1'' = [''127'', ''0'', ''0'', ''1'']"
  by simp

lemma loopback_example: "isLoopbackHostname ''127.0.0.1''"
  by (simp add: isLoopbackHostname_def strip_brackets_def to_lower_def lower_char_def dotted_127_def
      short_digits_def all_digits_def is_digit_def)

text \<open>
  The manual checkout is exact. Completing the token of a checkout before its hour is over
  yields a purchase of exactly the amount the checkout was created for, in the same workspace,
  under the key of that checkout, with the success URL it was created with; afterwards the link
  has expired. Assumed are that the JSON text of the claims parses back and the digest is not empty.
\<close>

theorem manual_checkout_roundtrip:
  assumes "microsToCents (cr_amountMicros r) = Inr cents"
    and "c = \<lparr>lc_aud = Some MANUAL_CHECKOUT_AUDIENCE, lc_exp = Some (me_now env + CHECKOUT_TTL_MS),
        lc_payload = \<lparr>mc_workspaceId = cr_workspaceId r, mc_cents = cents,
          mc_ref = ''manual_cs_'' @ me_uuid env, mc_successUrl = cr_successUrl r\<rparr>\<rparr>"
    and "me_parse env (me_stringify env c) = Some c" and "me_stringify env c \<noteq> []"
    and "\<And>body. me_hmac env (me_secret env) body \<noteq> []"
  shows "\<exists>token. manual_createCheckout env r
        = Inr \<lparr>cs_url = me_completeUrl env token, cs_ref = ''manual_cs_'' @ me_uuid env\<rparr>
    \<and> (\<forall>later. manual_completeCheckout (env\<lparr>me_now := later\<rparr>) token =
         (if me_now env + CHECKOUT_TTL_MS \<le> later then Inl (BadLink LinkExpired)
          else Inr (\<lparr>ev_workspaceId = cr_workspaceId r, ev_kind = Purchase,
              ev_amountMicros = cr_amountMicros r, ev_reference = ''manual_cs_'' @ me_uuid env,
              ev_idempotencyKey = ''manual:manual_cs_'' @ me_uuid env,
              ev_description = Some (''Manual top-up of $'' @ microsToUsdString (cr_amountMicros r)),
              ev_customerRef = Some (''manual_cus_'' @ cr_workspaceId r)\<rparr>, cr_successUrl r)))"
proof -
  let ?token = "signLink (me_hmac env) (me_stringify env) (me_secret env) MANUAL_CHECKOUT_AUDIENCE
    (lc_payload c) CHECKOUT_TTL_MS (me_now env)"
  have exact: "centsToMicros cents = cr_amountMicros r"
    using assms(1) by (auto simp: microsToCents_def centsToMicros_def split: if_splits)
  have verify: "verifyLink (me_hmac env) (me_parse env) (me_secret env) ?token MANUAL_CHECKOUT_AUDIENCE later =
      (if me_now env + CHECKOUT_TTL_MS \<le> later then Inl LinkExpired else Inr c)" for later
    using verify_signed [of "me_parse env" "me_stringify env" c MANUAL_CHECKOUT_AUDIENCE "me_now env"
        CHECKOUT_TTL_MS "lc_payload c" "me_hmac env" "me_secret env" MANUAL_CHECKOUT_AUDIENCE later] assms(2-5)
    by simp
  have "manual_createCheckout env r =
      Inr \<lparr>cs_url = me_completeUrl env ?token, cs_ref = ''manual_cs_'' @ me_uuid env\<rparr>"
    using assms(1,2) by (simp add: manual_createCheckout_def as_provider_error_def Let_def)
  moreover have "manual_completeCheckout (env\<lparr>me_now := later\<rparr>) ?token =
      (if me_now env + CHECKOUT_TTL_MS \<le> later then Inl (BadLink LinkExpired)
       else Inr (manual_event (lc_payload c), cr_successUrl r))" for later
    using verify [of later] assms(2) by (simp add: manual_completeCheckout_def as_provider_error_def)
  ultimately show ?thesis
    using assms(2) by (intro exI [of _ ?token]) (simp add: manual_event_def usd_text_def exact)
qed

end
