(* ===== verification/Billing.thy ===== *)
theory Billing
  imports Ledger Payment
begin

text \<open>
  \<open>billing/billing.service.ts\<close>, \<open>auto-top-up.service.ts\<close> and \<open>credits.gateway.ts\<close>: provider events become
  ledger entries, workspaces are topped up automatically, and generations are debited.

  The database is passed explicitly; row ids and clocks are arguments. \<open>apply_event\<close> is an
  interpretation of \<open>idempotent_step\<close>, so a redelivered webhook changes nothing. \<open>billing_step\<close> runs
  the operations in any order, \<open>claim_step\<close> the claims of concurrent automatic top-ups.
\<close>

section \<open>Definitions\<close>

record billing_config =
  bc_minTopUpMicros :: int
  bc_maxTopUpMicros :: int
  bc_checkoutReturnUrl :: string
  bc_autoTopUpCooldown :: int
  bc_allowOverdraftMicros :: int

datatype billing_error =
    NoWorkspace
  | NotFound
  | BelowMinimum int
  | AboveMaximum int
  | BadAmount money_error
  | NeedsThresholdAndAmount
  | NegativeThreshold
  | CannotChargeSavedCard string
  | ProviderError provider_error
  | LedgerError ledger_error

record auto_topup_settings =
  at_enabled :: bool
  at_thresholdMicros :: "int option"
  at_amountMicros :: "int option"

record credits_view =
  cv_workspaceId :: string
  cv_balance :: credits_balance
  cv_minTopUpMicros :: int
  cv_maxTopUpMicros :: int
  cv_autoTopUp :: auto_topup_settings
  cv_purchasesAvailable :: bool
  cv_autoTopUpAvailable :: bool
  cv_lastAutoTopUpAt :: "int option"

definition requireWorkspace :: "db \<Rightarrow> string \<Rightarrow> (billing_error, workspace) result" where
  "requireWorkspace d w = (case workspaces d w of None \<Rightarrow> Inl NoWorkspace | Some ws \<Rightarrow> Inr ws)"

definition creditsView ::
  "billing_config \<Rightarrow> payment_provider \<Rightarrow> db \<Rightarrow> string \<Rightarrow> (billing_error, credits_view) result" where
  "creditsView cfg p d w =
     res_bind (requireWorkspace d w) (\<lambda>ws. Inr
       \<lparr>cv_workspaceId = w,
        cv_balance = toBalance (bc_allowOverdraftMicros cfg) (ws_balanceMicros ws),
        cv_minTopUpMicros = bc_minTopUpMicros cfg, cv_maxTopUpMicros = bc_maxTopUpMicros cfg,
        cv_autoTopUp = \<lparr>at_enabled = ws_autoTopUpEnabled ws,
          at_thresholdMicros = ws_autoTopUpThresholdMicros ws, at_amountMicros = ws_autoTopUpAmountMicros ws\<rparr>,
        cv_purchasesAvailable = pp_supportsCheckout p,
        cv_autoTopUpAvailable = pp_supportsSavedPaymentMethods p,
        cv_lastAutoTopUpAt = ws_autoTopUpLastAt ws\<rparr>)"

definition assertTopUpAmount :: "billing_config \<Rightarrow> int \<Rightarrow> (billing_error, unit) result" where
  "assertTopUpAmount cfg amount =
     (if amount < bc_minTopUpMicros cfg then Inl (BelowMinimum (bc_minTopUpMicros cfg))
      else if amount > bc_maxTopUpMicros cfg then Inl (AboveMaximum (bc_maxTopUpMicros cfg))
      else case microsToCents amount of Inl e \<Rightarrow> Inl (BadAmount e) | Inr _ \<Rightarrow> Inr ())"

text \<open>\<open>set_param url name value\<close> is \<open>URL.searchParams.set\<close>.\<close>

definition createCheckout ::
  "(string \<Rightarrow> string \<Rightarrow> string \<Rightarrow> string) \<Rightarrow> billing_config \<Rightarrow> payment_provider \<Rightarrow> db \<Rightarrow> string \<Rightarrow> int
     \<Rightarrow> string option \<Rightarrow> (billing_error, checkout_session) result" where
  "createCheckout set_param cfg p d w amount email =
     res_bind (requireWorkspace d w) (\<lambda>ws.
     res_bind (assertTopUpAmount cfg amount) (\<lambda>_.
     case pp_createCheckout p
       \<lparr>cr_workspaceId = w, cr_amountMicros = amount, cr_customerRef = ws_stripeCustomerId ws,
        cr_email = email,
        cr_successUrl = set_param (bc_checkoutReturnUrl cfg) ''topup'' ''success'',
        cr_cancelUrl = set_param (bc_checkoutReturnUrl cfg) ''topup'' ''cancelled''\<rparr> of
       Inl e \<Rightarrow> Inl (ProviderError e)
     | Inr session \<Rightarrow> Inr session))"

definition rememberCustomer :: "string \<Rightarrow> string \<Rightarrow> db \<Rightarrow> db" where
  "rememberCustomer w customerRef d =
     update_workspace w (\<lambda>ws. if ws_stripeCustomerId ws = None
       then ws\<lparr>ws_stripeCustomerId := Some customerRef\<rparr> else ws) d"

definition event_input :: "ledger_event \<Rightarrow> ledger_input" where
  "event_input ev =
     \<lparr>in_workspaceId = ev_workspaceId ev, in_kind = ev_kind ev, in_amountMicros = ev_amountMicros ev,
      in_idempotencyKey = ev_idempotencyKey ev, in_reference = Some (ev_reference ev),
      in_description = ev_description ev\<rparr>"

text \<open>The body of the loop of \<open>apply\<close>; the pair is the row id and the clock of the ledger row.\<close>

definition learn_customer :: "ledger_event \<Rightarrow> db \<Rightarrow> db" where
  "learn_customer ev d =
     (if truthy (ev_customerRef ev) then rememberCustomer (ev_workspaceId ev) (the (ev_customerRef ev)) d else d)"

definition apply_event ::
  "db \<Rightarrow> ledger_event \<times> string \<times> int \<Rightarrow> (ledger_error, ledger_entry) result \<times> db" where
  "apply_event d c =
     (case c of (ev, uuid, now) \<Rightarrow> ledger_record (learn_customer ev d) (event_input ev) uuid now)"

definition stamped :: "(nat \<Rightarrow> string \<times> int) \<Rightarrow> ledger_event list \<Rightarrow> (ledger_event \<times> string \<times> int) list" where
  "stamped ids evs = map (\<lambda>(n, ev). (ev, ids n)) (List.enumerate 0 evs)"

definition apply_events ::
  "db \<Rightarrow> (nat \<Rightarrow> string \<times> int) \<Rightarrow> ledger_event list \<Rightarrow> (billing_error, ledger_entry list) result \<times> db" where
  "apply_events d ids evs =
     (case run_all apply_event d (stamped ids evs) of
        (Inl e, d') \<Rightarrow> (Inl (LedgerError e), d')
      | (Inr es, d') \<Rightarrow> (Inr es, d'))"

definition handleWebhook ::
  "payment_provider \<Rightarrow> db \<Rightarrow> string \<Rightarrow> string option \<Rightarrow> (nat \<Rightarrow> string \<times> int)
     \<Rightarrow> (billing_error, ledger_entry list) result \<times> db" where
  "handleWebhook p d rawBody signature ids =
     (case pp_handleWebhook p rawBody signature of
        Inl e \<Rightarrow> (Inl (ProviderError e), d)
      | Inr evs \<Rightarrow> apply_events d ids evs)"

definition completeManualCheckout ::
  "payment_provider \<Rightarrow> db \<Rightarrow> string \<Rightarrow> (nat \<Rightarrow> string \<times> int) \<Rightarrow> (billing_error, string) result \<times> db" where
  "completeManualCheckout p d token ids =
     (case pp_completeCheckout p of
        None \<Rightarrow> (Inl NotFound, d)
      | Some finish \<Rightarrow>
          (case finish token of
             Inl e \<Rightarrow> (Inl (ProviderError e), d)
           | Inr (ev, successUrl) \<Rightarrow>
               (case apply_events d ids [ev] of
                  (Inl e, d') \<Rightarrow> (Inl e, d')
                | (Inr _, d') \<Rightarrow> (Inr successUrl, d'))))"

definition claimAutoTopUp :: "billing_config \<Rightarrow> db \<Rightarrow> string \<Rightarrow> int \<Rightarrow> int option \<times> db" where
  "claimAutoTopUp cfg d w now =
     (case workspaces d w of
        None \<Rightarrow> (None, d)
      | Some ws \<Rightarrow>
          if (case ws_autoTopUpLastAt ws of None \<Rightarrow> True | Some t \<Rightarrow> t \<le> now - bc_autoTopUpCooldown cfg)
          then (Some now, update_workspace w (\<lambda>ws. ws\<lparr>ws_autoTopUpLastAt := Some now\<rparr>) d)
          else (None, d))"

definition check_settings ::
  "billing_config \<Rightarrow> payment_provider \<Rightarrow> auto_topup_settings \<Rightarrow> (billing_error, unit) result" where
  "check_settings cfg p s =
     (if \<not> at_enabled s then Inr ()
      else case (at_thresholdMicros s, at_amountMicros s) of
             (Some threshold, Some amount) \<Rightarrow>
               if threshold < 0 then Inl NegativeThreshold
               else res_bind (assertTopUpAmount cfg amount) (\<lambda>_.
                 guard (pp_supportsSavedPaymentMethods p) (CannotChargeSavedCard (pp_name p)))
           | _ \<Rightarrow> Inl NeedsThresholdAndAmount)"

definition setAutoTopUp ::
  "billing_config \<Rightarrow> payment_provider \<Rightarrow> db \<Rightarrow> string \<Rightarrow> auto_topup_settings
     \<Rightarrow> (billing_error, credits_view) result \<times> db" where
  "setAutoTopUp cfg p d w s =
     (case res_bind (requireWorkspace d w) (\<lambda>_. check_settings cfg p s) of
        Inl e \<Rightarrow> (Inl e, d)
      | Inr _ \<Rightarrow>
          let d' = update_workspace w (\<lambda>ws. ws\<lparr>
                ws_autoTopUpEnabled := at_enabled s,
                ws_autoTopUpThresholdMicros := (if at_enabled s then at_thresholdMicros s else None),
                ws_autoTopUpAmountMicros := (if at_enabled s then at_amountMicros s else None)\<rparr>) d
          in (creditsView cfg p d' w, d'))"

text \<open>\<open>AutoTopUpService.consider\<close>: the checks, the claim, and the charge with its \<open>catch\<close>.\<close>

datatype topup_reason = Topup_disabled | Above_threshold | Cooling_down | No_payment_method | Topup_failed

datatype topup_outcome = NotCharged topup_reason | Charged int

definition consider_checks :: "payment_provider \<Rightarrow> db \<Rightarrow> string \<Rightarrow> (topup_reason, int \<times> string) result" where
  "consider_checks p d w =
     (case workspaces d w of
        None \<Rightarrow> Inl Topup_disabled
      | Some ws \<Rightarrow>
          (case (ws_autoTopUpThresholdMicros ws, ws_autoTopUpAmountMicros ws) of
             (Some threshold, Some amount) \<Rightarrow>
               if \<not> ws_autoTopUpEnabled ws \<or> \<not> pp_supportsSavedPaymentMethods p then Inl Topup_disabled
               else if ws_balanceMicros ws \<ge> threshold then Inl Above_threshold
               else if \<not> truthy (ws_stripeCustomerId ws) then Inl No_payment_method
               else Inr (amount, the (ws_stripeCustomerId ws))
           | _ \<Rightarrow> Inl Topup_disabled))"

definition topup_key :: "string \<Rightarrow> int \<Rightarrow> string" where
  "topup_key w claim = ''autotopup:'' @ w @ '':'' @ show_int claim"

definition consider_charge ::
  "payment_provider \<Rightarrow> db \<Rightarrow> string \<Rightarrow> int \<Rightarrow> string \<Rightarrow> int \<Rightarrow> (nat \<Rightarrow> string \<times> int) \<Rightarrow> topup_outcome \<times> db" where
  "consider_charge p d w amount customerRef claim ids =
     (case pp_chargeSaved p
        \<lparr>sc_workspaceId = w, sc_customerRef = customerRef, sc_amountMicros = amount,
         sc_idempotencyKey = topup_key w claim,
         sc_description = Some (usd_text ''Automatic top-up of $'' amount)\<rparr> of
        Inl _ \<Rightarrow> (NotCharged Topup_failed, d)
      | Inr None \<Rightarrow> (NotCharged No_payment_method, d)
      | Inr (Some ev) \<Rightarrow>
          (case apply_events d ids [ev] of
             (Inl _, d') \<Rightarrow> (NotCharged Topup_failed, d')
           | (Inr _, d') \<Rightarrow> (Charged amount, d')))"

definition consider_topup ::
  "billing_config \<Rightarrow> payment_provider \<Rightarrow> db \<Rightarrow> string \<Rightarrow> int \<Rightarrow> (nat \<Rightarrow> string \<times> int) \<Rightarrow> topup_outcome \<times> db" where
  "consider_topup cfg p d w now ids =
     (case consider_checks p d w of
        Inl r \<Rightarrow> (NotCharged r, d)
      | Inr (amount, customerRef) \<Rightarrow>
          (case claimAutoTopUp cfg d w now of
             (claim, d1) \<Rightarrow>
               if claim = None \<or> claim = Some 0 then (NotCharged Cooling_down, d1)
               else consider_charge p d1 w amount customerRef (the claim) ids))"

text \<open>
  \<open>LedgerCreditsGateway.debit\<close>. The result says whether the debit started an automatic top-up; the
  top-up itself is a later, separate step.
\<close>

record credits_debit =
  cd_workspaceId :: string
  cd_generationId :: string
  cd_amountMicros :: int

definition gateway_debit ::
  "db \<Rightarrow> credits_debit \<Rightarrow> string \<Rightarrow> int \<Rightarrow> (ledger_error, bool) result \<times> db" where
  "gateway_debit d i uuid now =
     (case debitGeneration d (cd_workspaceId i) (cd_generationId i) (cd_amountMicros i) uuid now of
        (Inl e, d') \<Rightarrow> (Inl e, d')
      | (Inr None, d') \<Rightarrow> (Inr False, d')
      | (Inr (Some entry), d') \<Rightarrow> (Inr (\<not> le_replayed entry), d'))"

text \<open>All operations of the billing services that write, in any order.\<close>

inductive billing_step :: "billing_config \<Rightarrow> payment_provider \<Rightarrow> db \<Rightarrow> db \<Rightarrow> bool" for cfg p where
  webhook: "handleWebhook p d body signature ids = (r, d') \<Longrightarrow> billing_step cfg p d d'"
| manual: "completeManualCheckout p d token ids = (r, d') \<Longrightarrow> billing_step cfg p d d'"
| settings: "setAutoTopUp cfg p d w s = (r, d') \<Longrightarrow> billing_step cfg p d d'"
| topup: "consider_topup cfg p d w now ids = (r, d') \<Longrightarrow> billing_step cfg p d d'"
| debit: "gateway_debit d i uuid now = (r, d') \<Longrightarrow> billing_step cfg p d d'"

inductive billing_run :: "billing_config \<Rightarrow> payment_provider \<Rightarrow> db \<Rightarrow> db \<Rightarrow> bool" for cfg p where
  none: "billing_run cfg p d d"
| step: "billing_run cfg p d d1 \<Longrightarrow> billing_step cfg p d1 d2 \<Longrightarrow> billing_run cfg p d d2"

text \<open>
  The claims of concurrent top-ups: \<open>claim_log\<close> lists the claims that were granted. Between them any
  write may happen that leaves the claim column alone.
\<close>

record claim_state =
  cl_db :: db
  claim_log :: "(string \<times> int) list"

definition last_claims :: "db \<Rightarrow> string \<Rightarrow> int option option" where
  "last_claims d = ws_view ws_autoTopUpLastAt d"

inductive claim_step :: "billing_config \<Rightarrow> claim_state \<Rightarrow> claim_state \<Rightarrow> bool" for cfg where
  granted: "claimAutoTopUp cfg (cl_db s) w now = (Some t, d') \<Longrightarrow>
    claim_step cfg s \<lparr>cl_db = d', claim_log = claim_log s @ [(w, t)]\<rparr>"
| refused: "claimAutoTopUp cfg (cl_db s) w now = (None, d') \<Longrightarrow> claim_step cfg s (s\<lparr>cl_db := d'\<rparr>)"
| other: "last_claims d' = last_claims (cl_db s) \<Longrightarrow> claim_step cfg s (s\<lparr>cl_db := d'\<rparr>)"

inductive claim_reachable :: "billing_config \<Rightarrow> db \<Rightarrow> claim_state \<Rightarrow> bool" for cfg d0 where
  start: "claim_reachable cfg d0 \<lparr>cl_db = d0, claim_log = []\<rparr>"
| step: "claim_reachable cfg d0 s \<Longrightarrow> claim_step cfg s t \<Longrightarrow> claim_reachable cfg d0 t"

section \<open>Applying events\<close>

definition customer_known :: "db \<Rightarrow> ledger_event \<Rightarrow> bool" where
  "customer_known d ev =
     (truthy (ev_customerRef ev) \<longrightarrow> ws_view ws_stripeCustomerId d (ev_workspaceId ev) \<noteq> Some None)"

definition event_settled :: "db \<Rightarrow> ledger_event \<Rightarrow> bool" where
  "event_settled d ev = (ledger_settled d (event_input ev) \<and> customer_known d ev)"

lemma view_rememberCustomer:
  "ws_view ws_stripeCustomerId (rememberCustomer w c d) v =
     (if v = w \<and> ws_view ws_stripeCustomerId d w = Some None then Some (Some c)
      else ws_view ws_stripeCustomerId d v)"
  by (cases "workspaces d w") (auto simp: ws_view_def rememberCustomer_def db_simps)

lemma view_learn_customer:
  "ws_view ws_stripeCustomerId d v \<noteq> Some None \<Longrightarrow> ws_view ws_stripeCustomerId (learn_customer ev d) v \<noteq> Some None"
  by (auto simp: learn_customer_def view_rememberCustomer)

lemma learn_customer_known: "customer_known (learn_customer ev d) ev"
  by (auto simp: customer_known_def learn_customer_def view_rememberCustomer)

lemma learn_customer_idle: "customer_known d ev \<Longrightarrow> learn_customer ev d = d"
proof (cases "truthy (ev_customerRef ev)")
  case True
  assume "customer_known d ev"
  with True have "ws_view ws_stripeCustomerId d (ev_workspaceId ev) \<noteq> Some None" by (simp add: customer_known_def)
  then show ?thesis
    unfolding learn_customer_def rememberCustomer_def using True
    by (auto intro!: update_workspace_idle simp: ws_view_def)
qed (simp add: learn_customer_def)

lemma learn_customer_frame [db_simps]:
  "transactions (learn_customer ev d) = transactions d"
  "find_by_key (learn_customer ev d) k = find_by_key d k"
  "generations (learn_customer ev d) = generations d"
  "api_keys (learn_customer ev d) = api_keys d"
  "owners (learn_customer ev d) = owners d"
  "balance_in (learn_customer ev d) w = balance_in d w"
  by (auto simp: learn_customer_def rememberCustomer_def db_simps find_by_key_def balance_in_def split: option.splits)

lemma learn_customer_inv: "ledger_inv d \<Longrightarrow> ledger_inv (learn_customer ev d)"
  by (auto simp: learn_customer_def rememberCustomer_def intro!: ledger_inv_update_workspace)

lemma learn_customer_settled: "ledger_settled (learn_customer ev d) i \<longleftrightarrow> ledger_settled d i"
  by (simp add: ledger_settled_def db_simps)

interpretation ap: idempotent_step apply_event "\<lambda>d c. event_settled d (fst c)" ledger_inv
proof
  fix d d' r and c :: "ledger_event \<times> string \<times> int"
  obtain ev uuid now where c: "c = (ev, uuid, now)" by (cases c)
  assume "apply_event d c = (Inr r, d')"
  then have rec: "ledger_record (learn_customer ev d) (event_input ev) uuid now = (Inr r, d')"
    by (simp add: apply_event_def c)
  then have "ledger_settled d' (event_input ev)"
    by (auto simp: ledger_settled_def ledger_record_find dest: ledger_record_sign)
  moreover have "customer_known d' ev"
    using learn_customer_known [of ev d] ledger_record_view [OF rec, of ws_stripeCustomerId]
    by (simp add: customer_known_def)
  ultimately show "event_settled d' (fst c)" by (simp add: event_settled_def c)
next
  fix d d' r and c e :: "ledger_event \<times> string \<times> int"
  obtain ev uuid now where e: "e = (ev, uuid, now)" by (cases e)
  assume set: "event_settled d (fst c)" and "apply_event d e = (r, d')"
  then have rec: "ledger_record (learn_customer ev d) (event_input ev) uuid now = (r, d')"
    by (simp add: apply_event_def e)
  have "ledger_settled d' (event_input (fst c))"
    using set ledger_record_grows [OF rec] by (auto simp: event_settled_def ledger_settled_def db_simps)
  moreover have "customer_known d' (fst c)"
    using set view_learn_customer ledger_record_view [OF rec, of ws_stripeCustomerId]
    by (simp add: event_settled_def customer_known_def)
  ultimately show "event_settled d' (fst c)" by (simp add: event_settled_def)
next
  fix d and c :: "ledger_event \<times> string \<times> int"
  assume "event_settled d (fst c)"
  then show "\<exists>r. apply_event d c = (Inr r, d)"
    by (cases c) (auto simp: event_settled_def apply_event_def learn_customer_idle ledger_settled_def
        ledger_record_replays)
next
  fix d d' r and c :: "ledger_event \<times> string \<times> int"
  assume "ledger_inv d" and "apply_event d c = (r, d')"
  then show "ledger_inv d'"
    by (cases c) (auto simp: apply_event_def intro: ledger_record_inv learn_customer_inv)
qed

lemma apply_event_view:
  assumes "apply_event d c = (r, d')"
    and "\<And>ws b. v (ws\<lparr>ws_balanceMicros := b\<rparr>) = v ws"
    and "\<And>ws c. v (ws\<lparr>ws_stripeCustomerId := c\<rparr>) = v ws"
  shows "ws_view v d' = ws_view v d"
proof -
  obtain ev uuid now where c: "c = (ev, uuid, now)" by (cases c)
  have "ws_view v d' = ws_view v (learn_customer ev d)"
    by (rule ledger_record_view) (use assms(1,2) c in \<open>simp_all add: apply_event_def\<close>)
  also have "\<dots> = ws_view v d"
    by (auto simp: learn_customer_def rememberCustomer_def intro!: ws_view_update assms(3))
  finally show ?thesis .
qed

lemma apply_events_inv: "apply_events d ids evs = (r, d') \<Longrightarrow> ledger_inv d \<Longrightarrow> ledger_inv d'"
  by (auto simp: apply_events_def intro: ap.run_all_inv split: prod.splits sum.splits)

lemma apply_events_view:
  assumes "apply_events d ids evs = (r, d')"
    and "\<And>ws b. v (ws\<lparr>ws_balanceMicros := b\<rparr>) = v ws"
    and "\<And>ws c. v (ws\<lparr>ws_stripeCustomerId := c\<rparr>) = v ws"
  shows "ws_view v d' = ws_view v d"
proof -
  obtain r' where "run_all apply_event d (stamped ids evs) = (r', d')"
    using assms(1) by (auto simp: apply_events_def split: prod.splits sum.splits)
  then show ?thesis
    using run_all_keeps [of apply_event "ws_view v"] apply_event_view [OF _ assms(2,3)] by metis
qed

lemma apply_events_Nil [simp]: "apply_events d ids [] = (Inr [], d)"
  by (simp add: apply_events_def stamped_def)

lemma fst_stamped [simp]: "map fst (stamped ids evs) = evs"
  by (simp add: stamped_def comp_def case_prod_beta)

lemma apply_events_redelivery:
  assumes "apply_events d ids evs = (Inr es, d')"
  shows "\<exists>es'. apply_events d' ids' evs = (Inr es', d')"
proof -
  have ok: "run_all apply_event d (stamped ids evs) = (Inr es, d')"
    using assms by (auto simp: apply_events_def split: prod.splits sum.splits)
  have "\<forall>c \<in> set (stamped ids' evs). event_settled d' (fst c)"
  proof
    fix c
    assume "c \<in> set (stamped ids' evs)"
    then have "fst c \<in> fst ` set (stamped ids evs)" by (metis fst_stamped image_eqI list.set_map)
    then obtain b where "b \<in> set (stamped ids evs)" "fst b = fst c" by (auto simp del: fst_stamped)
    then show "event_settled d' (fst c)" using ap.run_all_settles [OF ok] by metis
  qed
  then obtain es' where "run_all apply_event d' (stamped ids' evs) = (Inr es', d')"
    using ap.run_all_idle by blast
  then show ?thesis by (simp add: apply_events_def)
qed

lemma apply_single:
  "apply_events d ids [ev] =
     (case apply_event d (ev, ids 0) of
        (Inl e, d') \<Rightarrow> (Inl (LedgerError e), d') | (Inr entry, d') \<Rightarrow> (Inr [entry], d'))"
  by (auto simp: apply_events_def stamped_def split: prod.splits sum.splits)

lemma apply_single_fresh:
  assumes "assertSign (event_input ev) = Inr ()" and "MAY_OVERDRAW (ev_kind ev) \<or> 0 \<le> ev_amountMicros ev"
    and "ev_idempotencyKey ev \<notin> tx_idempotencyKey ` set (transactions d)"
    and "fst (ids 0) \<notin> tx_id ` set (transactions d)"
    and "workspaces d (ev_workspaceId ev) \<noteq> None"
  obtains entry d' where "apply_events d ids [ev] = (Inr [entry], d')"
    and "transactions d' = transactions d @ [transaction_of (event_input ev) (fst (ids 0)) (snd (ids 0))]"
    and "balance_in d' (ev_workspaceId ev) = balance_in d (ev_workspaceId ev) + ev_amountMicros ev"
    and "workspaces d' (ev_workspaceId ev) \<noteq> None"
proof -
  obtain uuid now where ids: "ids 0 = (uuid, now)" by (cases "ids 0")
  let ?d = "learn_customer ev d" and ?i = "event_input ev"
  have dom: "ws_view id ?d (ev_workspaceId ev) \<noteq> None"
    using assms(5) by (auto simp: learn_customer_def rememberCustomer_def ws_view_def db_simps)
  then obtain ws where ws: "workspaces ?d (ev_workspaceId ev) = Some ws" by (auto simp: ws_view_def)
  have "ledger_record ?d ?i uuid now =
     (Inr \<lparr>le_transaction = transaction_of ?i uuid now, le_balanceMicros = ws_balanceMicros ws + ev_amountMicros ev,
           le_replayed = False\<rparr>,
      insert_transaction (transaction_of ?i uuid now) (update_workspace (ev_workspaceId ev)
        (\<lambda>w. w\<lparr>ws_balanceMicros := ws_balanceMicros w + ev_amountMicros ev\<rparr>) ?d))"
    using ledger_record_fresh [of ?i ?d uuid now] assms(1-4) ws ids
    by (auto simp: db_simps event_input_def MAY_OVERDRAW_def)
  moreover have "balance_in d (ev_workspaceId ev) = ws_balanceMicros ws"
    using learn_customer_frame(6) [of ev d "ev_workspaceId ev"] ws by (simp add: balance_in_def)
  ultimately show thesis
    using ws that by (auto simp: apply_single apply_event_def ids db_simps balance_in_def)
qed

section \<open>What every operation keeps\<close>

definition topup_columns :: "workspace \<Rightarrow> bool \<times> int option \<times> int option" where
  "topup_columns ws = (ws_autoTopUpEnabled ws, ws_autoTopUpThresholdMicros ws, ws_autoTopUpAmountMicros ws)"

definition chargeable :: "billing_config \<Rightarrow> int \<Rightarrow> bool" where
  "chargeable cfg amount =
     (bc_minTopUpMicros cfg \<le> amount \<and> amount \<le> bc_maxTopUpMicros cfg
      \<and> 0 < amount \<and> amount mod MICROS_PER_CENT = 0)"

fun settings_ok :: "billing_config \<Rightarrow> bool \<times> int option \<times> int option \<Rightarrow> bool" where
  "settings_ok cfg (True, Some threshold, Some amount) = (0 \<le> threshold \<and> chargeable cfg amount)"
| "settings_ok cfg (False, None, None) = True"
| "settings_ok cfg _ = False"

text \<open>
  The state of billing: the ledger invariant, and automatic top-up is either off with no settings
  or on with a threshold and an amount that can be charged.
\<close>

definition billing_inv :: "billing_config \<Rightarrow> db \<Rightarrow> bool" where
  "billing_inv cfg d =
     (ledger_inv d \<and> (\<forall>w c. ws_view topup_columns d w = Some c \<longrightarrow> settings_ok cfg c))"

lemma billing_inv_frame:
  "billing_inv cfg d \<Longrightarrow> ledger_inv d' \<Longrightarrow> ws_view topup_columns d' = ws_view topup_columns d \<Longrightarrow>
     billing_inv cfg d'"
  by (simp add: billing_inv_def)

lemma assertTopUpAmount_ok: "assertTopUpAmount cfg amount = Inr u \<longleftrightarrow> chargeable cfg amount"
  by (auto simp: assertTopUpAmount_def chargeable_def microsToCents_def split: if_splits)

lemma apply_events_billing:
  assumes "apply_events d ids evs = (r, d')" and "billing_inv cfg d"
  shows "billing_inv cfg d'"
  by (rule billing_inv_frame [OF assms(2)])
    (use assms apply_events_inv apply_events_view [OF assms(1), of topup_columns]
      in \<open>auto simp: billing_inv_def topup_columns_def\<close>)

lemma update_workspace_billing:
  assumes "billing_inv cfg d" and "\<And>ws. ws_balanceMicros (f ws) = ws_balanceMicros ws"
    and "\<And>ws. topup_columns (f ws) = topup_columns ws"
  shows "billing_inv cfg (update_workspace w f d)"
  using assms(1) ledger_inv_update_workspace [OF _ assms(2)] ws_view_update [of topup_columns f, OF assms(3)]
  by (simp add: billing_inv_def)

lemma claim_billing: "claimAutoTopUp cfg' d w now = (c, d') \<Longrightarrow> billing_inv cfg d \<Longrightarrow> billing_inv cfg d'"
  by (auto simp: claimAutoTopUp_def topup_columns_def split: option.splits if_splits
      intro!: update_workspace_billing)

lemma consider_charge_billing:
  "consider_charge p d w amount c claim ids = (r, d') \<Longrightarrow> billing_inv cfg d \<Longrightarrow> billing_inv cfg d'"
  by (auto simp: consider_charge_def split: sum.splits option.splits prod.splits
      dest: apply_events_billing)

lemma consider_billing:
  assumes "consider_topup cfg p d w now ids = (r, d')" and "billing_inv cfg d"
  shows "billing_inv cfg d'"
proof (cases "consider_checks p d w")
  case (Inr ac)
  obtain claim d1 where claim: "claimAutoTopUp cfg d w now = (claim, d1)" by (cases "claimAutoTopUp cfg d w now")
  with assms(2) have "billing_inv cfg d1" by (rule claim_billing [rotated])
  with assms(1) Inr claim show ?thesis
    by (auto simp: consider_topup_def split: if_splits prod.splits dest: consider_charge_billing)
qed (use assms in \<open>simp add: consider_topup_def\<close>)

lemma check_settings_ok:
  assumes "check_settings cfg p s = Inr ()"
  shows "settings_ok cfg (at_enabled s, if at_enabled s then at_thresholdMicros s else None,
    if at_enabled s then at_amountMicros s else None)"
  using assms
  by (auto simp: check_settings_def res_simps assertTopUpAmount_ok split: option.splits if_splits)

lemma setAutoTopUp_billing:
  assumes "setAutoTopUp cfg p d w s = (r, d')" and "billing_inv cfg d"
  shows "billing_inv cfg d'"
proof (cases "res_bind (requireWorkspace d w) (\<lambda>_. check_settings cfg p s)")
  case (Inr u)
  then have ok: "check_settings cfg p s = Inr ()" by (simp add: res_simps)
  let ?f = "\<lambda>ws. ws\<lparr>ws_autoTopUpEnabled := at_enabled s,
      ws_autoTopUpThresholdMicros := (if at_enabled s then at_thresholdMicros s else None),
      ws_autoTopUpAmountMicros := (if at_enabled s then at_amountMicros s else None)\<rparr>"
  have d': "d' = update_workspace w ?f d"
    using assms(1) Inr by (simp add: setAutoTopUp_def Let_def)
  have "settings_ok cfg c" if "ws_view topup_columns d' v = Some c" for v c
  proof (cases "v = w")
    case True
    with that check_settings_ok [OF ok] show ?thesis
      by (auto simp: d' ws_view_def db_simps topup_columns_def split: if_splits)
  next
    case False
    then have "ws_view topup_columns d' v = ws_view topup_columns d v"
      by (simp add: d' ws_view_def db_simps)
    with that assms(2) show ?thesis by (cases c) (simp add: billing_inv_def)
  qed
  moreover have "ledger_inv d'"
    using assms(2) by (auto simp: d' billing_inv_def intro!: ledger_inv_update_workspace)
  ultimately show ?thesis by (simp add: billing_inv_def)
qed (use assms in \<open>simp add: setAutoTopUp_def\<close>)

lemma debit_billing:
  assumes "gateway_debit d i uuid now = (r, d')" and "billing_inv cfg d"
  shows "billing_inv cfg d'"
proof (cases "cd_amountMicros i \<le> 0")
  case True
  with assms show ?thesis by (simp add: gateway_debit_def debitGeneration_def)
next
  case False
  then obtain r' where rec: "ledger_record d (generation_input (cd_workspaceId i) (cd_generationId i)
      (cd_amountMicros i)) uuid now = (r', d')"
    using assms(1) by (auto simp: gateway_debit_def debitGeneration_def split: prod.splits sum.splits option.splits)
  show ?thesis
    by (rule billing_inv_frame [OF assms(2)])
      (use assms(2) ledger_record_inv [OF rec] ledger_record_view [OF rec, of topup_columns]
        in \<open>auto simp: billing_inv_def topup_columns_def\<close>)
qed

lemma billing_step_inv: "billing_step cfg p d d' \<Longrightarrow> billing_inv cfg d \<Longrightarrow> billing_inv cfg d'"
proof (induction rule: billing_step.induct)
  case (webhook d body signature ids r d')
  then show ?case
    by (auto simp: handleWebhook_def split: sum.splits dest: apply_events_billing)
next
  case (manual d token ids r d')
  then show ?case
    by (auto simp: completeManualCheckout_def split: option.splits sum.splits prod.splits
        dest: apply_events_billing)
qed (blast intro: setAutoTopUp_billing consider_billing debit_billing)+

section \<open>Claims\<close>

text \<open>
  The log of claims is spaced by the cooldown, workspace by workspace, and the claim column holds the
  latest claim.
\<close>

definition spaced :: "int \<Rightarrow> string \<times> int \<Rightarrow> string \<times> int \<Rightarrow> bool" where
  "spaced cooldown a b = (fst a = fst b \<longrightarrow> snd a + cooldown \<le> snd b)"

definition claim_inv :: "billing_config \<Rightarrow> claim_state \<Rightarrow> bool" where
  "claim_inv cfg s =
     (sorted_wrt (spaced (bc_autoTopUpCooldown cfg)) (claim_log s)
      \<and> (\<forall>w t. (w, t) \<in> set (claim_log s) \<longrightarrow> (\<exists>u. last_claims (cl_db s) w = Some (Some u) \<and> t \<le> u)))"

lemma claim_granted:
  assumes "claimAutoTopUp cfg d w now = (Some t, d')"
  shows "t = now" and "last_claims d' = (last_claims d)(w := Some (Some now))"
    and "last_claims d w = Some (Some u) \<Longrightarrow> u + bc_autoTopUpCooldown cfg \<le> now"
  using assms
  by (auto simp: claimAutoTopUp_def last_claims_def ws_view_def db_simps fun_eq_iff
      split: option.splits if_splits)

lemma claim_refused: "claimAutoTopUp cfg d w now = (None, d') \<Longrightarrow> d' = d"
  by (auto simp: claimAutoTopUp_def split: option.splits if_splits)

lemma claim_step_inv:
  assumes "claim_step cfg s t" and "claim_inv cfg s" and "0 \<le> bc_autoTopUpCooldown cfg"
  shows "claim_inv cfg t"
  using assms(1)
proof cases
  case (granted w now c d')
  note g = claim_granted [OF granted(2)]
  have old: "\<exists>u. last_claims (cl_db s) v = Some (Some u) \<and> x \<le> u" if "(v, x) \<in> set (claim_log s)" for v x
    using that assms(2) by (auto simp: claim_inv_def)
  have "spaced (bc_autoTopUpCooldown cfg) a (w, now)" if a: "a \<in> set (claim_log s)" for a
    using old [of "fst a" "snd a"] a g(3) by (force simp: spaced_def)
  moreover have "\<exists>u. last_claims d' v = Some (Some u) \<and> x \<le> u" if "(v, x) \<in> set (claim_log s)" for v x
    using old [OF that] g(3) assms(3) by (auto simp: g(2))
  ultimately show ?thesis
    using assms(2) g(1,2) by (auto simp: claim_inv_def granted(1) sorted_wrt_append)
next
  case (refused w now d')
  then show ?thesis using assms(2) claim_refused [OF refused(2)] by simp
next
  case (other d')
  then show ?thesis using assms(2) by (simp add: claim_inv_def)
qed

lemma claim_reachable_inv:
  assumes "claim_reachable cfg d0 s" and "0 \<le> bc_autoTopUpCooldown cfg"
  shows "claim_inv cfg s"
  using assms(1)
proof induction
  case start
  then show ?case by (simp add: claim_inv_def)
next
  case (step s t)
  then show ?case using claim_step_inv assms(2) by blast
qed

lemma consider_checks_due:
  assumes "consider_checks p d w = Inr (amount, c)"
  obtains ws threshold where "workspaces d w = Some ws" and "ws_autoTopUpEnabled ws"
    and "ws_autoTopUpThresholdMicros ws = Some threshold" and "ws_autoTopUpAmountMicros ws = Some amount"
    and "ws_balanceMicros ws < threshold" and "pp_supportsSavedPaymentMethods p"
  using assms by (auto simp: consider_checks_def split: option.splits if_splits)

section \<open>What a provider's client gets\<close>

context provider_contract
begin

lemma unsigned_delivery: "handleWebhook p d body None ids = (r, d') \<Longrightarrow> d' = d"
  by (auto simp: handleWebhook_def split: sum.splits dest: unsigned)

lemma charged:
  assumes "consider_topup cfg p d w now ids = (Charged amount, d')"
  obtains ws threshold t where "workspaces d w = Some ws" and "ws_autoTopUpEnabled ws"
    and "ws_autoTopUpThresholdMicros ws = Some threshold" and "ws_autoTopUpAmountMicros ws = Some amount"
    and "ws_balanceMicros ws < threshold" and "pp_supportsSavedPaymentMethods p"
    and "now \<noteq> 0" and "last_claims d' w = Some (Some now)"
    and "find_by_key d' (topup_key w now) = Some t"
    and "find_by_key d (topup_key w now) = None \<Longrightarrow>
      transactions d' = transactions d @ [t] \<and> tx_workspaceId t = w
      \<and> tx_kind t = Auto_topup
      \<and> balance_in d' w = balance_in d w + tx_amountMicros t"
proof -
  obtain cust where checks: "consider_checks p d w = Inr (amount, cust)"
    using assms by (auto simp: consider_topup_def consider_charge_def
        split: sum.splits prod.splits if_splits option.splits)
  obtain d1 where claim: "claimAutoTopUp cfg d w now = (Some now, d1)" and "now \<noteq> 0"
    and charge: "consider_charge p d1 w amount cust now ids = (Charged amount, d')"
    using assms checks
    by (auto simp: consider_topup_def split: prod.splits if_splits) (metis claim_granted(1))+
  obtain ev es where ev: "ev_idempotencyKey ev = topup_key w now" "ev_workspaceId ev = w" "ev_kind ev = Auto_topup"
    and app: "apply_events d1 ids [ev] = (Inr es, d')"
    using charge charge_key
    by (fastforce simp: consider_charge_def split: sum.splits option.splits prod.splits)
  obtain e where rec: "ledger_record (learn_customer ev d1) (event_input ev) (fst (ids 0)) (snd (ids 0)) = (Inr e, d')"
    using app by (auto simp: apply_single apply_event_def split: prod.splits sum.splits)
  have frame: "transactions d1 = transactions d" "balance_in d1 v = balance_in d v" for v
    using claim by (auto simp: claimAutoTopUp_def db_simps balance_in_def split: option.splits if_splits)
  have find: "find_by_key d' (topup_key w now) = Some (le_transaction e)"
    using ledger_record_find [OF rec] ev by (simp add: event_input_def)
  have new: "transactions d' = transactions d @ [le_transaction e] \<and> tx_workspaceId (le_transaction e) = w
      \<and> tx_kind (le_transaction e) = Auto_topup
      \<and> balance_in d' w = balance_in d w + tx_amountMicros (le_transaction e)"
    if none: "find_by_key d (topup_key w now) = None"
    using rec
  proof (cases rule: ledger_record_cases)
    case (appended entry)
    then show ?thesis
      using append_success(4,5,7) [OF appended(2)] ev frame
      by (simp add: event_input_def transaction_of_def db_simps)
  next
    case (replayed t)
    then have "find_by_key d (topup_key w now) = Some t"
      using frame ev by (simp add: db_simps event_input_def find_by_key_def)
    with none show ?thesis by simp
  qed simp
  have "ws_view ws_autoTopUpLastAt d' = ws_view ws_autoTopUpLastAt d1"
    by (rule apply_events_view [OF app]) simp_all
  then have last: "last_claims d' w = Some (Some now)"
    using claim_granted(2) [OF claim] by (simp add: last_claims_def fun_eq_iff)
  obtain ws threshold where ws: "workspaces d w = Some ws" "ws_autoTopUpEnabled ws"
      "ws_autoTopUpThresholdMicros ws = Some threshold" "ws_autoTopUpAmountMicros ws = Some amount"
      "ws_balanceMicros ws < threshold" "pp_supportsSavedPaymentMethods p"
    using checks by (rule consider_checks_due)
  show thesis by (rule that [OF ws \<open>now \<noteq> 0\<close> last find]) (rule new)
qed

end

section \<open>Properties\<close>

definition example_config :: billing_config where
  "example_config = \<lparr>bc_minTopUpMicros = 5000000, bc_maxTopUpMicros = 1000000000,
     bc_checkoutReturnUrl = ''u'', bc_autoTopUpCooldown = 60000, bc_allowOverdraftMicros = 0\<rparr>"

lemma example_choice:
  "createPaymentProvider (\<lambda>_. Some ''127.0.0.1'') example_stripe example_manual_env
     \<lparr>pc_provider = Manual_setting, pc_stripe = None, pc_publicBaseUrl = ''u''\<rparr> None
   = Inr (manual_provider example_manual_env)"
  by (simp add: createPaymentProvider_def isLoopbackUrl_def loopback_example del: split_on.simps)

lemma example_stripe_choice:
  "createPaymentProvider (\<lambda>_. None) example_stripe example_manual_env
     \<lparr>pc_provider = Stripe_setting, pc_stripe = Some \<lparr>set_webhookSecret = ''s'', set_currency = ''usd''\<rparr>,
      pc_publicBaseUrl = ''u''\<rparr> (Some ''production'')
   = Inr (stripe_provider example_stripe \<lparr>set_webhookSecret = ''s'', set_currency = ''usd''\<rparr>)"
  by (simp add: createPaymentProvider_def)

lemma one_workspace_billing: "billing_inv cfg one_workspace"
  using one_workspace_inv
  by (auto simp: billing_inv_def ws_view_def topup_columns_def one_workspace_def new_workspace_def split: if_splits)

text \<open>
  C6: in every sequence of billing operations (webhook deliveries, completed manual checkouts,
  changes of the top-up settings, automatic top-ups and debits, successful or not) the cached
  balance of each workspace stays the sum of its ledger rows, and a workspace has automatic top-up
  either off with no settings or on with a non-negative threshold and a whole-cent amount within
  the configured bounds.
\<close>

theorem billing_keeps_inv:
  assumes "billing_run cfg p d d'" and "billing_inv cfg d"
  shows "billing_inv cfg d'"
  using assms by induction (auto intro: billing_step_inv)

theorem billing_keeps_inv_witness:
  "billing_inv example_config (snd (gateway_debit one_workspace
     \<lparr>cd_workspaceId = ''w'', cd_generationId = ''g'', cd_amountMicros = 7\<rparr> ''u'' 1))"
  by (rule billing_keeps_inv [OF billing_run.step [OF billing_run.none billing_step.debit] one_workspace_billing])
    (rule prod.collapse [symmetric])

text \<open>
  C7: a redelivered webhook changes nothing. After a delivery whose events were all applied, any
  later delivery of the same events in that state succeeds and leaves the database as it is.
\<close>

theorem webhook_redelivery:
  assumes "handleWebhook p d body signature ids = (Inr es, d')"
    and "pp_handleWebhook p body' signature' = pp_handleWebhook p body signature"
  shows "\<exists>es'. handleWebhook p d' body' signature' ids' = (Inr es', d')"
  using assms apply_events_redelivery [of d ids _ es d']
  by (auto simp: handleWebhook_def split: sum.splits)

lemma example_delivery:
  "\<exists>es d'. handleWebhook (stripe_provider example_stripe \<lparr>set_webhookSecret = ''s'', set_currency = ''usd''\<rparr>)
     one_workspace ''b'' (Some ''sig'') (\<lambda>n. (''u'', 1)) = (Inr es, d') \<and> balance_in d' ''w'' = 5000000"
proof -
  let ?ev = "hd (fromAutoTopUp example_intent)"
  have evs: "pp_handleWebhook (stripe_provider example_stripe \<lparr>set_webhookSecret = ''s'', set_currency = ''usd''\<rparr>)
      ''b'' (Some ''sig'') = Inr [?ev]"
    by (simp add: stripe_provider_def stripe_handleWebhook_def example_stripe_def HANDLED_EVENTS_def
        fromAutoTopUp_def example_intent_def AUTO_TOPUP_METADATA_KEY_def WORKSPACE_METADATA_KEY_def)
  have ev: "ev_kind ?ev = Auto_topup" "ev_amountMicros ?ev = 5000000" "ev_workspaceId ?ev = ''w''"
    by (simp_all add: fromAutoTopUp_def example_intent_def AUTO_TOPUP_METADATA_KEY_def
        WORKSPACE_METADATA_KEY_def settled_amount_def centsToMicros_def MICROS_PER_CENT_def)
  show ?thesis
    by (rule apply_single_fresh [of ?ev one_workspace "\<lambda>n. (''u'', 1)"])
      (auto simp: handleWebhook_def evs ev assertSign_def event_input_def example_defs balance_in_def)
qed

theorem webhook_redelivery_witness:
  "\<exists>es d'. handleWebhook (stripe_provider example_stripe \<lparr>set_webhookSecret = ''s'', set_currency = ''usd''\<rparr>)
     d' ''b'' (Some ''sig'') (\<lambda>n. (''v'', 2)) = (Inr es, d') \<and> balance_in d' ''w'' = 5000000"
  using example_delivery webhook_redelivery [where body = "''b''" and body' = "''b''" and signature = "Some ''sig''"
      and signature' = "Some ''sig''" and ids = "\<lambda>n. (''u'', 1)" and ids' = "\<lambda>n. (''v'', 2)"] by blast

text \<open>
  With any provider the configuration can bind, a webhook delivery without a signature never
  changes the database.
\<close>

lemma unsigned_webhook:
  assumes "createPaymentProvider hostname_of st env c NODE_ENV = Inr p"
  shows "snd (handleWebhook p d body None ids) = d"
  using provider_contract.unsigned_delivery [OF createPaymentProvider_contract [OF assms]]
  by (metis prod.collapse)

text \<open>
  An automatic top-up that reports a charge was due (enabled, below the threshold, the
  provider can charge saved cards), has taken the claim, and has written exactly one new ledger
  row: an automatic top-up of this workspace under the key of the claim, by whose amount the
  balance moved.
\<close>

theorem auto_topup_charged:
  assumes "createPaymentProvider hostname_of st env c NODE_ENV = Inr p"
    and "consider_topup cfg p d w now ids = (Charged amount, d')"
    and "find_by_key d (topup_key w now) = None"
  shows "(\<exists>ws threshold. workspaces d w = Some ws \<and> ws_autoTopUpEnabled ws
      \<and> ws_autoTopUpThresholdMicros ws = Some threshold \<and> ws_balanceMicros ws < threshold
      \<and> ws_autoTopUpAmountMicros ws = Some amount)
    \<and> last_claims d' w = Some (Some now)
    \<and> (\<exists>t. transactions d' = transactions d @ [t] \<and> tx_workspaceId t = w \<and> tx_kind t = Auto_topup
        \<and> tx_idempotencyKey t = topup_key w now
        \<and> balance_in d' w = balance_in d w + tx_amountMicros t)"
  by (rule provider_contract.charged [OF createPaymentProvider_contract [OF assms(1)] assms(2)])
    (use assms(3) find_by_key_Some in blast)

definition topup_workspace :: db where
  "topup_workspace = update_workspace ''w'' (\<lambda>ws. ws\<lparr>ws_autoTopUpEnabled := True,
     ws_autoTopUpThresholdMicros := Some 1000000, ws_autoTopUpAmountMicros := Some 5000000,
     ws_stripeCustomerId := Some ''cus_1''\<rparr>) one_workspace"

lemma topup_example:
  "\<exists>d'. consider_topup example_config (manual_provider example_manual_env) topup_workspace ''w'' 7
     (\<lambda>n. (''u'', 7)) = (Charged 5000000, d')"
  by (simp add: consider_topup_def consider_checks_def claimAutoTopUp_def consider_charge_def
      manual_provider_def manual_chargeSaved_def apply_single apply_event_def learn_customer_def
      rememberCustomer_def event_input_def topup_workspace_def ledger_defs example_defs)

text \<open>
  One charge per cooldown. However the claims of concurrent automatic top-ups interleave with
  each other and with other writes, any two granted claims of one workspace are at least the
  cooldown apart, in the order they were granted.
\<close>

theorem claims_spaced:
  assumes "claim_reachable cfg d0 s" and "0 \<le> bc_autoTopUpCooldown cfg"
    and "i < j" and "j < length (claim_log s)" and "fst (claim_log s ! i) = fst (claim_log s ! j)"
  shows "snd (claim_log s ! i) + bc_autoTopUpCooldown cfg \<le> snd (claim_log s ! j)"
  using claim_reachable_inv [OF assms(1,2)] assms(3-5)
  by (auto simp: claim_inv_def spaced_def sorted_wrt_iff_nth_less)

lemma two_claims:
  "\<exists>d. claim_reachable example_config one_workspace \<lparr>cl_db = d, claim_log = [(''w'', 5), (''w'', 60005)]\<rparr>"
proof -
  let ?set = "\<lambda>t. update_workspace ''w'' (\<lambda>ws. ws\<lparr>ws_autoTopUpLastAt := Some t\<rparr>)"
  have "claim_reachable example_config one_workspace \<lparr>cl_db = ?set 5 one_workspace, claim_log = [] @ [(''w'', 5)]\<rparr>"
    using claim_step.granted [of example_config "\<lparr>cl_db = one_workspace, claim_log = []\<rparr>" "''w''" 5 5]
    by (intro claim_reachable.step [OF claim_reachable.start])
      (simp add: claimAutoTopUp_def one_workspace_def new_workspace_def)
  then have "claim_reachable example_config one_workspace
      \<lparr>cl_db = ?set 60005 (?set 5 one_workspace), claim_log = ([] @ [(''w'', 5)]) @ [(''w'', 60005)]\<rparr>"
    using claim_step.granted [of example_config "\<lparr>cl_db = ?set 5 one_workspace, claim_log = [(''w'', 5)]\<rparr>" "''w''" 60005 60005]
    by (elim claim_reachable.step)
      (simp add: claimAutoTopUp_def one_workspace_def new_workspace_def update_workspace_def example_config_def)
  then show ?thesis by auto
qed

text \<open>
  What the service asks a provider to sell is within the bounds. A started checkout was for an
  existing workspace and a positive whole-cent amount between the configured minimum and maximum,
  and the provider sells credit.
\<close>

theorem checkout_bounds:
  assumes "createPaymentProvider hostname_of st env c NODE_ENV = Inr p"
    and "createCheckout set_param cfg p d w amount email = Inr session"
  shows "workspaces d w \<noteq> None \<and> bc_minTopUpMicros cfg \<le> amount \<and> amount \<le> bc_maxTopUpMicros cfg
    \<and> 0 < amount \<and> amount mod 10000 = 0 \<and> pp_supportsCheckout p"
proof -
  have "chargeable cfg amount" and "workspaces d w \<noteq> None"
    and "\<exists>r s. pp_createCheckout p r = Inr s"
    using assms(2) by (auto simp: createCheckout_def res_simps requireWorkspace_def assertTopUpAmount_ok
        split: option.splits sum.splits)
  then show ?thesis
    using provider_contract.no_checkout [OF createPaymentProvider_contract [OF assms(1)]]
    by (auto simp: chargeable_def MICROS_PER_CENT_def)
qed

text \<open>
  C24: an automatic top-up that Stripe settles at once is credited twice. The charge is recorded
  under the key of the claim, and the delivery of \<open>payment_intent.succeeded\<close> for the same payment
  intent is recorded under the key of the payment: when both are new, both are written, and the
  balance moves by twice the amount.
\<close>

theorem auto_topup_double_credit:
  assumes "stripe_chargeSaved st s c = Inr (Some ev)"
    and "sc_idempotencyKey c = topup_key (sc_workspaceId c) claim"
    and "pi_id intent = ev_reference ev" and "settled_amount intent = ev_amountMicros ev"
    and "0 < ev_amountMicros ev"
    and "pi_metadata intent AUTO_TOPUP_METADATA_KEY = Some ''true''"
    and "pi_metadata intent WORKSPACE_METADATA_KEY = Some (sc_workspaceId c)" and "sc_workspaceId c \<noteq> []"
    and "st_construct_event st body sig (set_webhookSecret s) = Inr (IntentSucceeded intent)" and "sig \<noteq> []"
    and "workspaces d (sc_workspaceId c) \<noteq> None"
    and "topup_key (sc_workspaceId c) claim \<notin> tx_idempotencyKey ` set (transactions d)"
    and "''stripe:payment:'' @ pi_id intent \<notin> tx_idempotencyKey ` set (transactions d)"
    and "fst (ids 0) \<notin> tx_id ` set (transactions d)" and "fst (ids' 0) \<notin> tx_id ` set (transactions d)"
    and "fst (ids 0) \<noteq> fst (ids' 0)"
  shows "\<exists>es d1 es' d2. apply_events d ids [ev] = (Inr es, d1)
    \<and> handleWebhook (stripe_provider st s) d1 body (Some sig) ids' = (Inr es', d2)
    \<and> balance_in d2 (sc_workspaceId c) = balance_in d (sc_workspaceId c) + 2 * ev_amountMicros ev"
proof -
  let ?w = "sc_workspaceId c"
  note ev = stripe_chargeSaved_event [OF assms(1)]
  define ev' where "ev' = hd (fromAutoTopUp intent)"
  have ev': "fromAutoTopUp intent = [ev']" "ev_workspaceId ev' = ?w" "ev_kind ev' = Auto_topup"
      "ev_amountMicros ev' = ev_amountMicros ev" "ev_idempotencyKey ev' = ''stripe:payment:'' @ pi_id intent"
    using assms(4,6-8) by (simp_all add: ev'_def fromAutoTopUp_def)
  have hook: "pp_handleWebhook (stripe_provider st s) body (Some sig) = Inr [ev']"
    using assms(9,10) by (simp add: stripe_provider_def stripe_handleWebhook_def HANDLED_EVENTS_def ev'(1))
  have sign: "assertSign (event_input e) = Inr ()" if "ev_kind e = Auto_topup" "0 < ev_amountMicros e" for e
    using that by (simp add: assertSign_def event_input_def)
  obtain e1 d1 where 1: "apply_events d ids [ev] = (Inr [e1], d1)"
    and t1: "transactions d1 = transactions d @ [transaction_of (event_input ev) (fst (ids 0)) (snd (ids 0))]"
    and b1: "balance_in d1 ?w = balance_in d ?w + ev_amountMicros ev" and w1: "workspaces d1 ?w \<noteq> None"
    by (rule apply_single_fresh [of ev d ids]) (use ev sign assms in auto)
  have row: "tx_idempotencyKey (transaction_of (event_input ev) u n) = topup_key ?w claim"
      "tx_id (transaction_of (event_input ev) u n) = u" for u n
    using ev assms(2) by (simp_all add: transaction_of_def event_input_def)
  have key: "topup_key ?w claim \<noteq> ''stripe:payment:'' @ pi_id intent" by (simp add: topup_key_def)
  have fresh: "ev_idempotencyKey ev' \<notin> tx_idempotencyKey ` set (transactions d1)"
      "fst (ids' 0) \<notin> tx_id ` set (transactions d1)"
    using assms(13,15,16) key by (auto simp: ev'(5) t1 row simp del: append_Cons)
  obtain e2 d2 where 2: "apply_events d1 ids' [ev'] = (Inr [e2], d2)"
    and b2: "balance_in d2 ?w = balance_in d1 ?w + ev_amountMicros ev"
    by (rule apply_single_fresh [of ev' d1 ids', OF _ _ fresh])
      (use w1 assms(5) in \<open>simp_all add: ev'(2-4) sign\<close>)
  show ?thesis using 1 2 b1 b2 by (simp add: handleWebhook_def hook)
qed

definition example_charge :: saved_charge where
  "example_charge = \<lparr>sc_workspaceId = ''w'', sc_customerRef = ''cus_1'', sc_amountMicros = 5000000,
     sc_idempotencyKey = topup_key ''w'' 7, sc_description = None\<rparr>"

definition example_event :: ledger_event where
  "example_event = \<lparr>ev_workspaceId = ''w'', ev_kind = Auto_topup, ev_amountMicros = 5000000,
     ev_reference = ''pi_1'', ev_idempotencyKey = topup_key ''w'' 7,
     ev_description = Some (usd_text ''Automatic top-up of $'' 5000000), ev_customerRef = Some ''cus_1''\<rparr>"

lemma example_charged:
  "stripe_chargeSaved example_stripe \<lparr>set_webhookSecret = ''s'', set_currency = ''usd''\<rparr> example_charge
     = Inr (Some example_event)"
  by (simp add: stripe_chargeSaved_def defaultPaymentMethod_def as_provider_error_def example_stripe_def
      example_charge_def example_event_def microsToCents_def MICROS_PER_CENT_def example_intent_def
      settled_amount_def centsToMicros_def)

theorem auto_topup_double_credit_witness:
  "\<exists>es d1 es' d2. apply_events one_workspace (\<lambda>_. (''u'', 1)) [example_event] = (Inr es, d1)
    \<and> handleWebhook (stripe_provider example_stripe \<lparr>set_webhookSecret = ''s'', set_currency = ''usd''\<rparr>)
        d1 ''b'' (Some ''sig'') (\<lambda>_. (''v'', 2)) = (Inr es', d2)
    \<and> balance_in d2 ''w'' = 10000000"
  using auto_topup_double_credit [OF example_charged, of 7 example_intent "''b''" "''sig''" one_workspace
      "\<lambda>_. (''u'', 1)" "\<lambda>_. (''v'', 2)"]
  by (simp add: example_charge_def example_event_def example_intent_def example_stripe_def settled_amount_def
      centsToMicros_def MICROS_PER_CENT_def AUTO_TOPUP_METADATA_KEY_def WORKSPACE_METADATA_KEY_def
      one_workspace_def new_workspace_def balance_in_def)

text \<open>
  C25: two partial refunds of one charge remove more than was refunded. Stripe reports the running
  total in \<open>amount_refunded\<close>, and each delivery is recorded with the whole total as its amount: after
  the totals \<open>a < b\<close> the balance has gone down by \<open>a + b\<close> although only \<open>b\<close> was refunded.
\<close>

theorem refund_total_counted_twice:
  assumes "0 < a" and "a < b" and "w \<noteq> []"
    and "charge = (\<lambda>n. \<lparr>ch_id = i, ch_amount_refunded = n, ch_metadata = [WORKSPACE_METADATA_KEY \<mapsto> w],
        ch_customer = None\<rparr>)"
    and "workspaces d w \<noteq> None"
    and "\<And>n. ''stripe:refund:'' @ i @ '':'' @ show_int n \<notin> tx_idempotencyKey ` set (transactions d)"
    and "fst (ids 0) \<notin> tx_id ` set (transactions d)" and "fst (ids' 0) \<notin> tx_id ` set (transactions d)"
    and "fst (ids 0) \<noteq> fst (ids' 0)"
  shows "\<exists>es d1 es' d2. apply_events d ids (translate_event (ChargeRefunded (charge a))) = (Inr es, d1)
    \<and> apply_events d1 ids' (translate_event (ChargeRefunded (charge b))) = (Inr es', d2)
    \<and> balance_in d2 w = balance_in d w - centsToMicros (a + b)"
proof -
  define ev where "ev n = hd (fromRefund (charge n))" for n
  have ev: "fromRefund (charge n) = [ev n]" "ev_workspaceId (ev n) = w" "ev_kind (ev n) = Refund"
      "ev_amountMicros (ev n) = - centsToMicros n"
      "ev_idempotencyKey (ev n) = ''stripe:refund:'' @ i @ '':'' @ show_int n" if "0 < n" for n
    using that assms(3) by (simp_all add: ev_def fromRefund_def assms(4) Let_def)
  have sign: "assertSign (event_input (ev n)) = Inr ()" if "0 < n" for n
    using that by (simp add: assertSign_def event_input_def ev centsToMicros_def MICROS_PER_CENT_def)
  have b: "0 < b" using assms(1,2) by simp
  obtain e1 d1 where 1: "apply_events d ids [ev a] = (Inr [e1], d1)"
    and t1: "transactions d1 = transactions d @ [transaction_of (event_input (ev a)) (fst (ids 0)) (snd (ids 0))]"
    and b1: "balance_in d1 w = balance_in d w - centsToMicros a" and w1: "workspaces d1 w \<noteq> None"
    by (rule apply_single_fresh [of "ev a" d ids, OF sign [OF assms(1)]])
      (use assms(5-7) in \<open>simp_all add: ev(2-5) [OF assms(1)] MAY_OVERDRAW_def\<close>)
  have key: "''stripe:refund:'' @ i @ '':'' @ show_int a \<noteq> ''stripe:refund:'' @ i @ '':'' @ show_int b"
    using assms(2) show_int_inj by auto
  have row: "tx_idempotencyKey (transaction_of (event_input (ev a)) u n) = ''stripe:refund:'' @ i @ '':'' @ show_int a"
      "tx_id (transaction_of (event_input (ev a)) u n) = u" for u n
    using ev(5) [OF assms(1)] by (simp_all add: transaction_of_def event_input_def)
  have fresh: "ev_idempotencyKey (ev b) \<notin> tx_idempotencyKey ` set (transactions d1)"
      "fst (ids' 0) \<notin> tx_id ` set (transactions d1)"
    using assms(6) [of b] assms(8,9) key by (auto simp: ev(5) [OF b] t1 row simp del: append_Cons)
  obtain e2 d2 where 2: "apply_events d1 ids' [ev b] = (Inr [e2], d2)"
    and b2: "balance_in d2 w = balance_in d1 w - centsToMicros b"
    by (rule apply_single_fresh [of "ev b" d1 ids', OF sign [OF b] _ fresh])
      (use w1 in \<open>simp_all add: ev(2-4) [OF b] MAY_OVERDRAW_def\<close>)
  show ?thesis
    using 1 2 b1 b2 by (simp add: ev(1) [OF assms(1)] ev(1) [OF b] centsToMicros_def algebra_simps)
qed

theorem refund_total_counted_twice_witness:
  "\<exists>(d1 :: db) es' d2. apply_events d1 (\<lambda>_. (''v'', 2)) (translate_event (ChargeRefunded
      \<lparr>ch_id = ''ch'', ch_amount_refunded = 300, ch_metadata = [WORKSPACE_METADATA_KEY \<mapsto> ''w''], ch_customer = None\<rparr>))
      = (Inr es', d2) \<and> balance_in d2 ''w'' = - 5000000"
  using refund_total_counted_twice [OF _ _ _ refl, of 200 300 "''w''" one_workspace "''ch''"
      "\<lambda>_. (''u'', 1)" "\<lambda>_. (''v'', 2)"]
  by (simp add: one_workspace_def new_workspace_def balance_in_def centsToMicros_def MICROS_PER_CENT_def) blast

end
