(* ===== verification/Api_Keys.thy ===== *)
theory Api_Keys
  imports Db Signed_Link
begin

text \<open>
  The \<open>/v1\<close> credentials: \<open>api-keys/api-key-token.ts\<close>, \<open>api-keys/api-key.service.ts\<close> and the guard
  \<open>api/v1/api-key.guard.ts\<close>.

  SHA-256 is the argument \<open>sha256\<close> (the hex digest of a string); random bytes, row ids and clocks are
  arguments. \<open>save_key\<close> is the repository's \<open>save\<close>: after it the row equals the entity that was
  passed, whatever was written to the row since the entity was loaded.
\<close>

section \<open>Tokens\<close>

definition API_KEY_PREFIX :: string where "API_KEY_PREFIX = ''sk-tee-v1-''"

definition API_KEY_ENTROPY_BYTES :: nat where "API_KEY_ENTROPY_BYTES = 32"

definition API_KEY_DISPLAY_PREFIX_LENGTH :: nat where "API_KEY_DISPLAY_PREFIX_LENGTH = 12"

record minted_key =
  mk_secret :: string
  mk_keyHash :: string
  mk_prefix :: string

definition displayPrefixOf :: "string \<Rightarrow> string" where
  "displayPrefixOf secret = take API_KEY_DISPLAY_PREFIX_LENGTH secret"

definition mintApiKey :: "(string \<Rightarrow> string) \<Rightarrow> nat list \<Rightarrow> minted_key" where
  "mintApiKey sha256 bytes =
     (let secret = API_KEY_PREFIX @ b64_encode bytes
      in \<lparr>mk_secret = secret, mk_keyHash = sha256 secret, mk_prefix = displayPrefixOf secret\<rparr>)"

definition is_token_char :: "char \<Rightarrow> bool" where
  "is_token_char c =
     (let n = of_char c :: nat
      in (65 \<le> n \<and> n \<le> 90) \<or> (97 \<le> n \<and> n \<le> 122) \<or> (48 \<le> n \<and> n \<le> 57) \<or> n = 45 \<or> n = 95)"

definition looksLikeApiKey :: "string \<Rightarrow> bool" where
  "looksLikeApiKey value =
     (starts_with value API_KEY_PREFIX
      \<and> (let rest = drop (length API_KEY_PREFIX) value in length rest = 43 \<and> list_all is_token_char rest))"

text \<open>\<open>/^Bearer\s+(\S+)$/i\<close> on the trimmed header.\<close>

definition bearerTokenOf :: "string option \<Rightarrow> string option" where
  "bearerTokenOf header =
     (if \<not> truthy header then None
      else let h = trim (the header); rest = drop 6 h; token = dropWhile is_space rest
           in if to_lower (take 6 h) = ''bearer'' \<and> rest \<noteq> [] \<and> is_space (hd rest)
                 \<and> token \<noteq> [] \<and> list_all (\<lambda>c. \<not> is_space c) token
              then Some token else None)"

section \<open>The service\<close>

record create_key_input =
  ci_workspaceId :: string
  ci_createdByUserId :: string
  ci_name :: string
  ci_modelScope :: "string list option"
  ci_spendLimitMicros :: "int option"
  ci_requestsPerMinute :: "int option"
  ci_tokensPerMinute :: "int option"
  ci_expiresAt :: "int option"
  ci_purpose :: "string option"

text \<open>In an update the outer \<open>None\<close> is a field that is left alone, \<open>Some None\<close> writes \<open>null\<close>.\<close>

record update_key_input =
  ui_name :: "string option"
  ui_modelScope :: "string list option option"
  ui_spendLimitMicros :: "int option option"
  ui_requestsPerMinute :: "int option option"
  ui_tokensPerMinute :: "int option option"
  ui_expiresAt :: "int option option"

datatype key_rejection = Invalid_api_key | Api_key_revoked | Api_key_expired

record authenticated_key =
  auth_key :: api_key
  auth_workspace :: workspace

definition normaliseScope :: "string list option \<Rightarrow> string list option" where
  "normaliseScope scope =
     (case scope of None \<Rightarrow> None | Some s \<Rightarrow> if s = [] then None else Some (rev (remdups (rev s))))"

definition save_key :: "api_key \<Rightarrow> db \<Rightarrow> db" where
  "save_key k d =
     (if key_id k \<in> key_id ` set (api_keys d)
      then update_api_key (key_id k) (\<lambda>_. k) d
      else d\<lparr>api_keys := api_keys d @ [k]\<rparr>)"

definition keys_desc :: "api_key list \<Rightarrow> api_key list" where
  "keys_desc ks = sort_key (\<lambda>k. - key_createdAt k) ks"

definition list_keys :: "db \<Rightarrow> string \<Rightarrow> api_key list" where
  "list_keys d w = keys_desc (filter (\<lambda>k. key_workspaceId k = w) (api_keys d))"

definition create_key ::
  "(string \<Rightarrow> string) \<Rightarrow> db \<Rightarrow> create_key_input \<Rightarrow> string \<Rightarrow> nat list \<Rightarrow> int \<Rightarrow> (api_key \<times> string) \<times> db" where
  "create_key sha256 d i uuid bytes now =
     (let minted = mintApiKey sha256 bytes;
          key = \<lparr>key_id = uuid, key_workspaceId = ci_workspaceId i, key_name = ci_name i,
                 key_keyHash = mk_keyHash minted, key_prefix = mk_prefix minted,
                 key_purpose = ci_purpose i, key_modelScope = normaliseScope (ci_modelScope i),
                 key_spendLimitMicros = ci_spendLimitMicros i, key_spentTotalMicros = 0,
                 key_requestsPerMinute = ci_requestsPerMinute i, key_tokensPerMinute = ci_tokensPerMinute i,
                 key_expiresAt = ci_expiresAt i, key_lastUsedAt = None, key_revokedAt = None,
                 key_createdByUserId = Some (ci_createdByUserId i), key_createdAt = now\<rparr>
      in ((key, mk_secret minted), save_key key d))"

definition countLive :: "db \<Rightarrow> string \<Rightarrow> nat" where
  "countLive d w = length (filter (\<lambda>k. key_workspaceId k = w \<and> key_revokedAt k = None) (api_keys d))"

definition listLiveByPurpose :: "db \<Rightarrow> string \<Rightarrow> string \<Rightarrow> string \<Rightarrow> api_key list" where
  "listLiveByPurpose d w purpose user =
     keys_desc (filter (\<lambda>k. key_workspaceId k = w \<and> key_purpose k = Some purpose
       \<and> key_createdByUserId k = Some user \<and> key_revokedAt k = None) (api_keys d))"

definition findInWorkspace :: "db \<Rightarrow> string \<Rightarrow> string \<Rightarrow> api_key option" where
  "findInWorkspace d i w = List.find (\<lambda>k. key_id k = i \<and> key_workspaceId k = w) (api_keys d)"

definition assign :: "'a option \<Rightarrow> 'a \<Rightarrow> 'a" where
  "assign v old = (case v of None \<Rightarrow> old | Some new \<Rightarrow> new)"

definition update_key :: "db \<Rightarrow> api_key \<Rightarrow> update_key_input \<Rightarrow> api_key \<times> db" where
  "update_key d k i =
     (let k' = k\<lparr>key_name := assign (ui_name i) (key_name k),
            key_modelScope := assign (map_option normaliseScope (ui_modelScope i)) (key_modelScope k),
            key_spendLimitMicros := assign (ui_spendLimitMicros i) (key_spendLimitMicros k),
            key_requestsPerMinute := assign (ui_requestsPerMinute i) (key_requestsPerMinute k),
            key_tokensPerMinute := assign (ui_tokensPerMinute i) (key_tokensPerMinute k),
            key_expiresAt := assign (ui_expiresAt i) (key_expiresAt k)\<rparr>
      in (k', save_key k' d))"

definition revoke_key :: "db \<Rightarrow> api_key \<Rightarrow> int \<Rightarrow> api_key \<times> db" where
  "revoke_key d k now =
     (let k' = k\<lparr>key_revokedAt := (case key_revokedAt k of None \<Rightarrow> Some now | Some t \<Rightarrow> Some t)\<rparr>
      in (k', save_key k' d))"

definition find_by_hash :: "db \<Rightarrow> string \<Rightarrow> api_key option" where
  "find_by_hash d h = List.find (\<lambda>k. key_keyHash k = h) (api_keys d)"

definition authenticate ::
  "(string \<Rightarrow> string) \<Rightarrow> db \<Rightarrow> string \<Rightarrow> int \<Rightarrow> (key_rejection, authenticated_key) result" where
  "authenticate sha256 d secret now =
     (if \<not> looksLikeApiKey secret then Inl Invalid_api_key
      else case find_by_hash d (sha256 secret) of
             None \<Rightarrow> Inl Invalid_api_key
           | Some key \<Rightarrow>
               if key_revokedAt key \<noteq> None then Inl Api_key_revoked
               else if (case key_expiresAt key of None \<Rightarrow> False | Some t \<Rightarrow> t \<le> now) then Inl Api_key_expired
               else (case workspaces d (key_workspaceId key) of
                       None \<Rightarrow> Inl Invalid_api_key
                     | Some ws \<Rightarrow> Inr \<lparr>auth_key = key, auth_workspace = ws\<rparr>))"

definition markUsed :: "string \<Rightarrow> int \<Rightarrow> db \<Rightarrow> db" where
  "markUsed i usedAt d = update_api_key i (\<lambda>k. k\<lparr>key_lastUsedAt := Some usedAt\<rparr>) d"

definition recordSpend :: "string \<Rightarrow> int \<Rightarrow> db \<Rightarrow> db" where
  "recordSpend i cost d =
     (if cost \<le> 0 then d
      else update_api_key i (\<lambda>k. k\<lparr>key_spentTotalMicros := key_spentTotalMicros k + cost\<rparr>) d)"

text \<open>
  \<open>ApiKeyGuard.canActivate\<close>: the key the request carries, and the database with its last use.
\<close>

definition canActivate ::
  "(string \<Rightarrow> string) \<Rightarrow> db \<Rightarrow> string option \<Rightarrow> int \<Rightarrow> int \<Rightarrow> (key_rejection, authenticated_key) result \<times> db" where
  "canActivate sha256 d authorization now usedAt =
     (case bearerTokenOf authorization of
        None \<Rightarrow> (Inl Invalid_api_key, d)
      | Some secret \<Rightarrow>
          (case authenticate sha256 d secret now of
             Inl e \<Rightarrow> (Inl e, d)
           | Inr auth \<Rightarrow> (Inr auth, markUsed (key_id (auth_key auth)) usedAt d)))"

text \<open>
  The writes to the keys table, in any order. \<open>update\<close> and \<open>revoke\<close> save an entity that was loaded
  before; here it is the row as it is at the time of the save.
\<close>

inductive key_run :: "(string \<Rightarrow> string) \<Rightarrow> db \<Rightarrow> db \<Rightarrow> bool" for sha256 d where
  none: "key_run sha256 d d"
| used: "key_run sha256 d d1 \<Longrightarrow> key_run sha256 d (markUsed i t d1)"
| spent: "key_run sha256 d d1 \<Longrightarrow> key_run sha256 d (recordSpend i cost d1)"
| updated: "key_run sha256 d d1 \<Longrightarrow> k \<in> set (api_keys d1) \<Longrightarrow> key_run sha256 d (snd (update_key d1 k u))"
| revoked: "key_run sha256 d d1 \<Longrightarrow> k \<in> set (api_keys d1) \<Longrightarrow> key_run sha256 d (snd (revoke_key d1 k t))"
| created: "key_run sha256 d d1 \<Longrightarrow> uuid \<notin> key_id ` set (api_keys d1) \<Longrightarrow>
    key_keyHash (fst (fst (create_key sha256 d1 c uuid bytes t))) \<notin> key_keyHash ` set (api_keys d1) \<Longrightarrow>
    key_run sha256 d (snd (create_key sha256 d1 c uuid bytes t))"

section \<open>Tokens are well formed\<close>

lemma token_char_b64 [simp]: "n < 64 \<Longrightarrow> is_token_char (b64_char n)"
  by (auto simp: is_token_char_def b64_char_def Let_def)

lemma b64_token_chars: "list_all (\<lambda>b. b < 256) bs \<Longrightarrow> list_all is_token_char (b64_encode bs)"
  by (induction bs rule: b64_encode.induct) (auto simp: byte_parts)

lemma b64_length: "length (b64_encode bs) = (4 * length bs + 2) div 3"
  by (induction bs rule: b64_encode.induct) auto

lemma minted_looks_like_key:
  assumes "length bytes = API_KEY_ENTROPY_BYTES" and "list_all (\<lambda>b. b < 256) bytes"
  shows "looksLikeApiKey (mk_secret (mintApiKey sha256 bytes))"
  using assms b64_token_chars [OF assms(2)]
  by (simp add: looksLikeApiKey_def mintApiKey_def b64_length API_KEY_ENTROPY_BYTES_def Let_def)

lemma space_is_space [simp]: "is_space CHR '' ''" by (simp add: is_space_def)

lemma bearer_of_token:
  assumes "token \<noteq> []" and "list_all (\<lambda>c. \<not> is_space c) token"
  shows "bearerTokenOf (Some (''Bearer '' @ token)) = Some token"
proof -
  have "trim (''Bearer '' @ token) = ''Bearer '' @ token"
    by (rule trim_id) (use assms in \<open>simp_all add: list_all_iff, simp add: is_space_def\<close>)
  moreover have "dropWhile is_space token = token"
    using assms by (cases token) auto
  moreover have "to_lower ''Bearer'' = ''bearer''"
    by (simp add: to_lower_def lower_char_def char_of_def bit_0)
  moreover have "\<exists>x \<in> set token. \<not> is_space x" using assms by (cases token) auto
  ultimately show ?thesis
    using assms by (simp add: bearerTokenOf_def Let_def)
qed

section \<open>Rows\<close>

definition keys_ok :: "db \<Rightarrow> bool" where
  "keys_ok d = (distinct (map key_id (api_keys d)) \<and> distinct (map key_keyHash (api_keys d)))"

lemma find_by_hash_Some:
  "find_by_hash d h = Some k \<Longrightarrow> k \<in> set (api_keys d) \<and> key_keyHash k = h"
  unfolding find_by_hash_def by (rule find_Some_key)

lemma find_by_hash_append:
  assumes "h \<notin> key_keyHash ` set (api_keys d)" and "key_keyHash k = h"
  shows "find_by_hash (d\<lparr>api_keys := api_keys d @ [k]\<rparr>) h = Some k"
proof -
  have "List.find (\<lambda>k. key_keyHash k = h) (api_keys d) = None" by (rule find_None_key [THEN iffD2, OF assms(1)])
  then show ?thesis using assms(2) by (simp add: find_by_hash_def find_key_append)
qed

lemma find_map_key:
  assumes "\<And>k. P (f k) \<longleftrightarrow> P k"
  shows "List.find P (map f ks) = map_option f (List.find P ks)"
  using assms by (induction ks) auto

lemma find_by_hash_update:
  assumes "\<And>k. key_keyHash (f k) = key_keyHash k"
  shows "find_by_hash (update_api_key i f d) h =
    map_option (\<lambda>k. if key_id k = i then f k else k) (find_by_hash d h)"
  unfolding find_by_hash_def db_simps using assms by (subst find_map_key) auto

text \<open>
  A write that replaces rows by ones with the same id and digest keeps the keys well formed and
  keeps a revoked key revoked.
\<close>

definition revoked_in :: "db \<Rightarrow> string \<Rightarrow> int \<Rightarrow> bool" where
  "revoked_in d h t = (\<exists>k. find_by_hash d h = Some k \<and> key_revokedAt k = Some t)"

lemma keys_ok_update:
  assumes "keys_ok d" and "\<And>k. k \<in> set (api_keys d) \<Longrightarrow> key_id k = i \<Longrightarrow>
      key_id (f k) = key_id k \<and> key_keyHash (f k) = key_keyHash k"
  shows "keys_ok (update_api_key i f d)"
proof -
  have "map key_id (api_keys (update_api_key i f d)) = map key_id (api_keys d)"
      "map key_keyHash (api_keys (update_api_key i f d)) = map key_keyHash (api_keys d)"
    using assms(2) by (auto simp: db_simps)
  with assms(1) show ?thesis unfolding keys_ok_def by metis
qed

lemma revoked_in_update:
  assumes "revoked_in d h t" and "\<And>k. k \<in> set (api_keys d) \<Longrightarrow> key_id k = i \<Longrightarrow>
      key_keyHash (f k) = key_keyHash k \<and> (key_revokedAt k = Some t \<longrightarrow> key_revokedAt (f k) = Some t)"
  shows "revoked_in (update_api_key i f d) h t"
proof -
  let ?g = "\<lambda>k. if key_id k = i then f k else k"
  have find: "List.find (\<lambda>k. key_keyHash k = h) (map ?g ks) = map_option ?g (List.find (\<lambda>k. key_keyHash k = h) ks)"
    if "set ks \<subseteq> set (api_keys d)" for ks
    using that assms(2) by (induction ks) auto
  from assms(1) obtain k where k: "find_by_hash d h = Some k" "key_revokedAt k = Some t"
    by (auto simp: revoked_in_def)
  then have "find_by_hash (update_api_key i f d) h = Some (?g k)" "k \<in> set (api_keys d)"
    using find [of "api_keys d"] find_by_hash_Some [OF k(1)] by (simp_all add: find_by_hash_def db_simps)
  with k(2) assms(2) [of k] show ?thesis by (auto simp: revoked_in_def)
qed

lemma save_loaded:
  assumes "keys_ok d" and "k \<in> set (api_keys d)" and "key_id k' = key_id k" and "key_keyHash k' = key_keyHash k"
    and "\<And>t. key_revokedAt k = Some t \<Longrightarrow> key_revokedAt k' = Some t"
  shows "keys_ok (save_key k' d)" and "revoked_in d h t \<Longrightarrow> revoked_in (save_key k' d) h t"
proof -
  have save: "save_key k' d = update_api_key (key_id k) (\<lambda>_. k') d"
    using assms(2,3) by (simp add: save_key_def)
  have same: "r = k" if "r \<in> set (api_keys d)" "key_id r = key_id k" for r
    using that assms(1,2) by (auto simp: keys_ok_def intro: distinct_key_unique)
  show "keys_ok (save_key k' d)"
    unfolding save using assms(1) by (rule keys_ok_update) (use same assms(3,4) in auto)
  show "revoked_in (save_key k' d) h t" if "revoked_in d h t"
    unfolding save using that by (rule revoked_in_update) (use same assms(4,5) in auto)
qed

lemma key_run_keeps:
  assumes "key_run sha256 d d'" and "keys_ok d"
  shows "keys_ok d' \<and> (revoked_in d h t \<longrightarrow> revoked_in d' h t)"
  using assms(1)
proof induction
  case none
  then show ?case using assms(2) by simp
next
  case (used d1 i n)
  then show ?case
    by (auto simp: markUsed_def intro!: keys_ok_update intro: revoked_in_update)
next
  case (spent d1 i cost)
  then show ?case
    by (auto simp: recordSpend_def intro!: keys_ok_update intro: revoked_in_update)
next
  case (updated d1 k u)
  then show ?case
    using save_loaded [of d1 k "fst (update_key d1 k u)"] by (simp add: update_key_def Let_def)
next
  case (revoked d1 k n)
  then show ?case
    using save_loaded [of d1 k "fst (revoke_key d1 k n)"]
    by (simp add: revoke_key_def Let_def split: option.splits)
next
  case (created d1 uuid c bytes n)
  let ?k = "fst (fst (create_key sha256 d1 c uuid bytes n))"
  have "snd (create_key sha256 d1 c uuid bytes n) = d1\<lparr>api_keys := api_keys d1 @ [?k]\<rparr>" "key_id ?k = uuid"
    using created.hyps(2) by (auto simp: create_key_def save_key_def Let_def)
  then show ?case
    using created by (auto simp: keys_ok_def revoked_in_def find_by_hash_def find_key_append)
qed

lemma row_pair:
  assumes "map key_id ks' = map key_id ks" and "map key_keyHash ks' = map key_keyHash ks" and "x \<in> set ks'"
  shows "\<exists>y \<in> set ks. key_id y = key_id x \<and> key_keyHash y = key_keyHash x"
proof -
  obtain n where n: "n < length ks'" "x = ks' ! n" using assms(3) by (auto simp: in_set_conv_nth)
  have len: "length ks' = length ks" using assms(1) by (metis length_map)
  with n have "key_id (ks ! n) = key_id x" "key_keyHash (ks ! n) = key_keyHash x"
    using assms(1,2) by (metis nth_map)+
  with n len show ?thesis by (auto intro: bexI [of _ "ks ! n"])
qed

section \<open>Properties\<close>

text \<open>
  A created key works. The secret that \<open>create\<close> returns, presented as a bearer token before the
  key expires, authenticates as that key in its workspace, and the presentation is marked as its
  last use. Assumed are 32 random bytes, a row id and a digest that no other key has, and that the
  workspace exists.
\<close>

theorem created_key_authenticates:
  assumes "length bytes = API_KEY_ENTROPY_BYTES" and "list_all (\<lambda>b. b < 256) bytes"
    and "create_key sha256 d i uuid bytes now = ((key, secret), d')"
    and "uuid \<notin> key_id ` set (api_keys d)" and "sha256 secret \<notin> key_keyHash ` set (api_keys d)"
    and "workspaces d (ci_workspaceId i) = Some ws"
    and "\<And>t. ci_expiresAt i = Some t \<Longrightarrow> later < t"
  shows "canActivate sha256 d' (Some (''Bearer '' @ secret)) later usedAt =
    (Inr \<lparr>auth_key = key, auth_workspace = ws\<rparr>, markUsed uuid usedAt d')"
proof -
  have secret: "secret = API_KEY_PREFIX @ b64_encode bytes"
    and key: "key_id key = uuid" "key_keyHash key = sha256 secret" "key_workspaceId key = ci_workspaceId i"
      "key_revokedAt key = None" "key_expiresAt key = ci_expiresAt i" "d' = save_key key d"
    using assms(3) by (auto simp: create_key_def mintApiKey_def Let_def)
  have looks: "looksLikeApiKey secret"
    using minted_looks_like_key [OF assms(1,2), of sha256] by (simp add: mintApiKey_def Let_def secret)
  have nospace: "list_all (\<lambda>c. \<not> is_space c) secret"
    using b64_token_chars [OF assms(2)]
    by (auto simp: secret list_all_iff API_KEY_PREFIX_def is_token_char_def is_space_def Let_def)
  have bearer: "bearerTokenOf (Some (''Bearer '' @ secret)) = Some secret"
    by (rule bearer_of_token [OF _ nospace]) (simp add: secret API_KEY_PREFIX_def)
  have "d' = d\<lparr>api_keys := api_keys d @ [key]\<rparr>" using key assms(4) by (simp add: save_key_def)
  then have "find_by_hash d' (sha256 secret) = Some key" "workspaces d' = workspaces d"
    using find_by_hash_append [OF assms(5), of key] key(2) by simp_all
  then have "authenticate sha256 d' secret later = Inr \<lparr>auth_key = key, auth_workspace = ws\<rparr>"
    using looks key assms(6,7) by (fastforce simp: authenticate_def split: option.splits)
  with bearer key(1) show ?thesis by (simp add: canActivate_def)
qed

definition example_bytes :: "nat list" where "example_bytes = replicate 32 7"

definition example_input :: create_key_input where
  "example_input = \<lparr>ci_workspaceId = ''w'', ci_createdByUserId = ''u'', ci_name = ''n'', ci_modelScope = None,
     ci_spendLimitMicros = None, ci_requestsPerMinute = None, ci_tokensPerMinute = None,
     ci_expiresAt = Some 100, ci_purpose = None\<rparr>"

definition key_db :: db where
  "key_db = \<lparr>workspaces = [''w'' \<mapsto> \<lparr>ws_balanceMicros = 0, ws_stripeCustomerId = None, ws_autoTopUpEnabled = False,
      ws_autoTopUpThresholdMicros = None, ws_autoTopUpAmountMicros = None,
      ws_autoTopUpLastAt = None, ws_firstRequestAt = None, ws_createdAt = 0\<rparr>],
     transactions = [], generations = [], api_keys = [], owners = Map.empty\<rparr>"


definition example_key :: api_key where
  "example_key = fst (fst (create_key (\<lambda>_. ''h'') key_db example_input ''k'' example_bytes 5))"

lemma example_key_fields:
  "key_id example_key = ''k''" "key_keyHash example_key = ''h''" "key_revokedAt example_key = None"
  "key_spentTotalMicros example_key = 0" "key_expiresAt example_key = Some 100" "key_workspaceId example_key = ''w''"
  by (simp_all add: example_key_def create_key_def mintApiKey_def example_input_def Let_def)


text \<open>
  C26: saving an entity that was loaded earlier undoes what was written to its row since. An
  \<open>update\<close> of a key loaded before a generation was billed to it takes the spending back out of the
  key's running total, and an \<open>update\<close> of a key loaded before it was revoked makes its secret
  usable again.
\<close>

theorem stale_update_undoes:
  assumes "keys_ok d" and "k \<in> set (api_keys d)" and "key_revokedAt k = None"
  shows "map_option key_spentTotalMicros
      (find_by_hash (snd (update_key (recordSpend (key_id k) cost d) k u)) (key_keyHash k))
      = Some (key_spentTotalMicros k)
    \<and> map_option key_revokedAt
      (find_by_hash (snd (update_key (snd (revoke_key d k now)) k u)) (key_keyHash k)) = Some None"
proof -
  let ?k = "fst (update_key d k u)"
  have k': "key_id ?k = key_id k" "key_keyHash ?k = key_keyHash k" "key_revokedAt ?k = None"
      "key_spentTotalMicros ?k = key_spentTotalMicros k" "snd (update_key d' k u) = save_key ?k d'" for d'
    using assms(3) by (simp_all add: update_key_def Let_def)
  have find: "find_by_hash (save_key ?k d') (key_keyHash k) = Some ?k"
    if ids: "map key_id (api_keys d') = map key_id (api_keys d)"
      and hashes: "map key_keyHash (api_keys d') = map key_keyHash (api_keys d)" for d'
  proof -
    have "key_id k \<in> set (map key_id (api_keys d'))" unfolding ids using assms(2) by simp
    then have "key_id k \<in> key_id ` set (api_keys d')" by simp
    then have rows: "api_keys (save_key ?k d') = map (\<lambda>r. if key_id r = key_id k then ?k else r) (api_keys d')"
      by (simp add: save_key_def k'(1) db_simps)
    have mem: "?k \<in> set (api_keys (save_key ?k d'))"
      using \<open>key_id k \<in> key_id ` _\<close> by (force simp: rows)
    have "key_id x = key_id k" if x: "x \<in> set (api_keys d')" "key_keyHash x = key_keyHash k" for x
    proof -
      obtain y where y: "y \<in> set (api_keys d)" "key_id y = key_id x" "key_keyHash y = key_keyHash x"
        using row_pair [OF ids hashes x(1)] by blast
      then have "y = k"
        using assms(1,2) x(2) distinct_key_unique [of key_keyHash "api_keys d" y k] by (simp add: keys_ok_def)
      with y(2) show ?thesis by simp
    qed
    then have "x = ?k" if "x \<in> set (api_keys (save_key ?k d'))" "key_keyHash x = key_keyHash k" for x
      using that by (auto simp: rows split: if_splits)
    with mem k'(2) show ?thesis
      by (cases "find_by_hash (save_key ?k d') (key_keyHash k)")
        (auto simp: find_by_hash_def find_None_iff dest: find_Some_key)
  qed
  have same: "r = k" if "r \<in> set (api_keys d)" "key_id r = key_id k" for r
    using that assms(1,2) distinct_key_unique [of key_id "api_keys d" r k] by (simp add: keys_ok_def)
  have "map key_id (api_keys (recordSpend (key_id k) cost d)) = map key_id (api_keys d)"
      "map key_keyHash (api_keys (recordSpend (key_id k) cost d)) = map key_keyHash (api_keys d)"
    by (auto simp: recordSpend_def db_simps)
  from find [OF this] have 1: "find_by_hash (save_key ?k (recordSpend (key_id k) cost d)) (key_keyHash k) = Some ?k" .
  have "snd (revoke_key d k now) = update_api_key (key_id k) (\<lambda>_. k\<lparr>key_revokedAt := Some now\<rparr>) d"
    using assms(2,3) by (simp add: revoke_key_def save_key_def Let_def)
  then have "map key_id (api_keys (snd (revoke_key d k now))) = map key_id (api_keys d)"
      "map key_keyHash (api_keys (snd (revoke_key d k now))) = map key_keyHash (api_keys d)"
    using same by (auto simp: db_simps)
  from find [OF this] have 2: "find_by_hash (save_key ?k (snd (revoke_key d k now))) (key_keyHash k) = Some ?k" .
  show ?thesis using 1 2 k'(3,4) by (simp only: k'(5) option.map)
qed

theorem stale_update_undoes_witness:
  "map_option key_revokedAt (find_by_hash (snd (update_key (snd (revoke_key (key_db\<lparr>api_keys := [example_key]\<rparr>)
       example_key 2)) example_key \<lparr>ui_name = Some ''x'', ui_modelScope = None, ui_spendLimitMicros = None,
       ui_requestsPerMinute = None, ui_tokensPerMinute = None, ui_expiresAt = None\<rparr>)) ''h'') = Some None"
  using stale_update_undoes [of "key_db\<lparr>api_keys := [example_key]\<rparr>" example_key]
  by (simp add: keys_ok_def example_key_fields)

end
