(* ===== verification/Json.thy ===== *)
theory Json
  imports Prelude
begin

text \<open>
  JSON values as the router handles them after \<open>JSON.parse\<close>: objects are association lists in
  insertion order, numbers are rationals (a finite double is one). \<open>json_get\<close> is property access
  \<open>value?.[key]\<close> (\<open>None\<close> is \<open>undefined\<close>); \<open>json_set\<close> is assignment of a property, \<open>json_spread\<close> is
  \<open>{ ...a, ...b }\<close>.
\<close>

datatype json =
    JNull
  | JBool bool
  | JNum rat
  | JStr string
  | JArr "json list"
  | JObj "(string \<times> json) list"

type_synonym json_object = "(string \<times> json) list"

fun json_get :: "string \<Rightarrow> json \<Rightarrow> json option" where
  "json_get k (JObj m) = map_of m k"
| "json_get k _ = None"

definition json_set :: "string \<Rightarrow> json \<Rightarrow> json_object \<Rightarrow> json_object" where
  "json_set k v m = map_set k v m"

definition json_spread :: "json_object \<Rightarrow> json_object \<Rightarrow> json_object" where
  "json_spread a b = foldl (\<lambda>m e. map_set (fst e) (snd e) m) a b"

fun json_string :: "json option \<Rightarrow> string option" where
  "json_string (Some (JStr s)) = Some s"
| "json_string _ = None"

fun json_number :: "json option \<Rightarrow> rat option" where
  "json_number (Some (JNum n)) = Some n"
| "json_number _ = None"

fun json_array :: "json option \<Rightarrow> json list option" where
  "json_array (Some (JArr xs)) = Some xs"
| "json_array _ = None"

fun json_is_object :: "json \<Rightarrow> bool" where
  "json_is_object (JObj _) = True"
| "json_is_object _ = False"

lemma map_of_json_set [simp]: "map_of (json_set k v m) = (map_of m)(k \<mapsto> v)"
  by (simp add: json_set_def)

lemma map_of_json_spread: "map_of (json_spread a b) = foldl (\<lambda>f e. f(fst e \<mapsto> snd e)) (map_of a) b"
  unfolding json_spread_def
  by (induction b arbitrary: a) simp_all

end
