(* ===== verification/Pricing.thy ===== *)
theory Pricing
  imports Json "HOL-Library.Char_ord" "HOL-Library.List_Lexorder"
begin

text \<open>
  The pure helpers of the meter: \<open>metering/pricing.ts\<close>, \<open>metering/token-estimator.ts\<close> and
  \<open>metering/ulid.ts\<close>. The price of a request is an integer ceiling: below the safe-integer bound the
  double division of the source rounds to a value with the same ceiling.
\<close>

section \<open>Definitions\<close>

record token_usage =
  us_promptTokens :: int
  us_completionTokens :: int

record model_pricing =
  pr_promptPer1mMicros :: int
  pr_completionPer1mMicros :: int

definition PER_MILLION :: int where "PER_MILLION = 1000000"

definition cost_numerator :: "token_usage \<Rightarrow> model_pricing \<Rightarrow> int" where
  "cost_numerator u p =
     max 0 (us_promptTokens u) * pr_promptPer1mMicros p
     + max 0 (us_completionTokens u) * pr_completionPer1mMicros p"

definition ceil_div :: "int \<Rightarrow> int \<Rightarrow> int" where
  "ceil_div a b = - ((- a) div b)"

definition computeCostMicros :: "token_usage \<Rightarrow> model_pricing \<Rightarrow> int" where
  "computeCostMicros u p = ceil_div (cost_numerator u p) PER_MILLION"

definition MIN_RATE_TOKENS :: int where "MIN_RATE_TOKENS = 4"

definition MIN_RATE_WINDOW_MS :: int where "MIN_RATE_WINDOW_MS = 25"

text \<open>\<open>toFixed(3)\<close> of a non-negative quotient: the nearest thousandth, the larger one on a tie.\<close>

definition to_fixed3 :: "rat \<Rightarrow> rat" where
  "to_fixed3 q = of_int \<lfloor>q * 1000 + 1 / 2\<rfloor> / 1000"

definition tokensPerSecond :: "int \<Rightarrow> int option \<Rightarrow> rat option" where
  "tokensPerSecond completionTokens generationMs =
     (case generationMs of
        None \<Rightarrow> None
      | Some ms \<Rightarrow>
          if ms < MIN_RATE_WINDOW_MS then None
          else if completionTokens < MIN_RATE_TOKENS then None
          else Some (to_fixed3 (of_int (completionTokens * 1000) / of_int ms)))"

text \<open>
  \<open>estimateTokens\<close>. \<open>run_class\<close> tells which alternative of the regular expression
  \<open>[A-Za-z]+|[0-9]+|[^\sA-Za-z0-9]+\<close> a character belongs to; \<open>text_runs\<close> are the matches, left to right.
\<close>

datatype char_class = Letter | Digit | Symbol | Space

definition run_class :: "char \<Rightarrow> char_class" where
  "run_class c =
     (let n = of_char c :: nat
      in if (65 \<le> n \<and> n \<le> 90) \<or> (97 \<le> n \<and> n \<le> 122) then Letter
         else if is_digit c then Digit
         else if is_space c then Space
         else Symbol)"

function text_runs :: "string \<Rightarrow> string list" where
  "text_runs [] = []"
| "text_runs (c # cs) =
     (if run_class c = Space then text_runs cs
      else (c # takeWhile (\<lambda>x. run_class x = run_class c) cs)
           # text_runs (dropWhile (\<lambda>x. run_class x = run_class c) cs))"
  by pat_completeness auto
termination
  by (relation "measure length") (auto simp: le_imp_less_Suc length_dropWhile_le)

definition CHARS_PER_TOKEN :: nat where "CHARS_PER_TOKEN = 4"

definition estimateTokens :: "string \<Rightarrow> nat" where
  "estimateTokens text =
     sum_list (map (\<lambda>run. (length run + (CHARS_PER_TOKEN - 1)) div CHARS_PER_TOKEN) (text_runs text))"

definition MESSAGE_OVERHEAD_TOKENS :: nat where "MESSAGE_OVERHEAD_TOKENS = 4"

fun estimateContent :: "json option \<Rightarrow> nat" where
  "estimateContent (Some (JStr s)) = estimateTokens s"
| "estimateContent (Some (JArr parts)) = sum_list (map (\<lambda>p. estimateContent (Some p)) parts)"
| "estimateContent (Some (JObj m)) =
     (case map_of m ''text'' of Some (JStr s) \<Rightarrow> estimateTokens s | _ \<Rightarrow> 0)"
| "estimateContent _ = 0"

definition estimatePromptTokens :: "json_object \<Rightarrow> nat" where
  "estimatePromptTokens body =
     (case map_of body ''messages'' of
        Some (JArr messages) \<Rightarrow>
          sum_list (map (\<lambda>m. MESSAGE_OVERHEAD_TOKENS + estimateContent (json_get ''content'' m)) messages)
      | _ \<Rightarrow> estimateContent (map_of body ''prompt'') + estimateContent (map_of body ''input''))"

text \<open>\<open>ulid\<close>: ten digits of time and sixteen of randomness in Crockford's base 32.\<close>

definition CROCKFORD :: string where "CROCKFORD = ''0123456789ABCDEFGHJKMNPQRSTVWXYZ''"

definition TIME_CHARS :: nat where "TIME_CHARS = 10"

definition RANDOM_CHARS :: nat where "RANDOM_CHARS = 16"

fun time_chars :: "nat \<Rightarrow> nat \<Rightarrow> string" where
  "time_chars 0 remaining = []"
| "time_chars (Suc n) remaining = time_chars n (remaining div 32) @ [CROCKFORD ! (remaining mod 32)]"

definition ulid :: "nat \<Rightarrow> nat list \<Rightarrow> string" where
  "ulid now bytes = time_chars TIME_CHARS now @ map (\<lambda>b. CROCKFORD ! (b mod 32)) bytes"

definition generationId :: "nat \<Rightarrow> nat list \<Rightarrow> string" where
  "generationId now bytes = ''gen-'' @ ulid now bytes"

section \<open>Lemmas\<close>

lemma ceil_div_bounds:
  assumes "0 < b"
  shows "a \<le> ceil_div a b * b" and "(ceil_div a b - 1) * b < a"
proof -
  have "(- a) div b * b + (- a) mod b = - a" by (rule div_mult_mod_eq)
  moreover have "0 \<le> (- a) mod b" "(- a) mod b < b" using assms by simp_all
  ultimately show "a \<le> ceil_div a b * b" "(ceil_div a b - 1) * b < a"
    unfolding ceil_div_def left_diff_distrib mult_minus_left by linarith+
qed

lemma text_runs_append_space:
  assumes "run_class s = Space"
  shows "text_runs (a @ s # b) = text_runs a @ text_runs b"
  using assms
proof (induction a rule: text_runs.induct)
  case (2 c cs)
  let ?P = "\<lambda>x. run_class x = run_class c"
  show ?case
  proof (cases "run_class c = Space")
    case False
    then have s: "\<not> ?P s" using 2 by auto
    have "takeWhile ?P (cs @ s # b) = takeWhile ?P cs"
      "dropWhile ?P (cs @ s # b) = dropWhile ?P cs @ s # b"
      using s by (induction cs) auto
    then show ?thesis using 2 False by simp
  qed (use 2 in simp)
qed simp

lemma run_class_Space: "run_class c = Space \<longleftrightarrow> is_space c"
  by (auto simp: run_class_def is_space_def is_digit_def Let_def)

lemma text_runs_Nil: "text_runs t = [] \<longleftrightarrow> list_all is_space t"
  by (induction t rule: text_runs.induct) (auto simp: run_class_Space)

lemma text_runs_nonempty: "r \<in> set (text_runs t) \<Longrightarrow> r \<noteq> []"
  by (induction t rule: text_runs.induct) (auto split: if_splits)

lemma crockford_less: "i < j \<Longrightarrow> j < 32 \<Longrightarrow> CROCKFORD ! i < CROCKFORD ! j"
proof -
  have "sorted_wrt (<) CROCKFORD"
    by (simp add: CROCKFORD_def less_char_def)
  moreover have "length CROCKFORD = 32" by (simp add: CROCKFORD_def)
  ultimately show "i < j \<Longrightarrow> j < 32 \<Longrightarrow> CROCKFORD ! i < CROCKFORD ! j"
    by (simp add: sorted_wrt_iff_nth_less)
qed

lemma length_time_chars [simp]: "length (time_chars n t) = n"
  by (induction n arbitrary: t) simp_all

lemma lex_append_left: "xs < ys \<Longrightarrow> length xs = length ys \<Longrightarrow> xs @ us < ys @ (vs :: 'a :: linorder list)"
  by (induction xs ys rule: list_induct2') auto

lemma lex_append_right: "us < vs \<Longrightarrow> xs @ us < xs @ (vs :: 'a :: linorder list)"
  by (induction xs) auto

lemma time_chars_mono: "t < u \<Longrightarrow> u < 32 ^ n \<Longrightarrow> time_chars n t < time_chars n u"
proof (induction n arbitrary: t u)
  case (Suc n)
  have u: "u div 32 < 32 ^ n" using Suc.prems(2) by (auto simp: less_mult_imp_div_less mult.commute)
  show ?case
  proof (cases "t div 32 < u div 32")
    case True
    then show ?thesis using Suc.IH [OF True u] by (simp add: lex_append_left)
  next
    case False
    with Suc.prems(1) have eq: "t div 32 = u div 32"
      by (meson div_le_mono le_neq_implies_less less_imp_le_nat)
    then have "t mod 32 < u mod 32" using Suc.prems(1) by (metis div_mod_decomp nat_add_left_cancel_less)
    then have "[CROCKFORD ! (t mod 32)] < [CROCKFORD ! (u mod 32)]" using crockford_less by simp
    then show ?thesis by (simp add: eq lex_append_right)
  qed
qed simp

section \<open>Properties\<close>

text \<open>
  The price of a request is its exact value rounded up to the next micro-USD: it covers the
  priced tokens and exceeds their value by less than one micro-USD, and it is positive as soon as
  any token with a positive price was used.
\<close>

theorem cost_rounds_up:
  assumes "0 \<le> pr_promptPer1mMicros p" and "0 \<le> pr_completionPer1mMicros p"
  shows "max 0 (us_promptTokens u) * pr_promptPer1mMicros p
        + max 0 (us_completionTokens u) * pr_completionPer1mMicros p \<le> computeCostMicros u p * 1000000
    \<and> (computeCostMicros u p - 1) * 1000000 < max 0 (us_promptTokens u) * pr_promptPer1mMicros p
        + max 0 (us_completionTokens u) * pr_completionPer1mMicros p
    \<and> 0 \<le> computeCostMicros u p
    \<and> (0 < us_promptTokens u \<and> 0 < pr_promptPer1mMicros p
       \<or> 0 < us_completionTokens u \<and> 0 < pr_completionPer1mMicros p \<longrightarrow> 0 < computeCostMicros u p)"
proof -
  let ?n = "cost_numerator u p" and ?c = "computeCostMicros u p"
  have b: "?n \<le> ?c * 1000000" "(?c - 1) * 1000000 < ?n"
    using ceil_div_bounds [of PER_MILLION ?n] by (simp_all add: computeCostMicros_def PER_MILLION_def)
  have "0 \<le> max 0 (us_promptTokens u) * pr_promptPer1mMicros p"
      "0 \<le> max 0 (us_completionTokens u) * pr_completionPer1mMicros p"
    using assms by simp_all
  moreover have "0 < us_promptTokens u \<Longrightarrow> 0 < pr_promptPer1mMicros p \<Longrightarrow>
      0 < max 0 (us_promptTokens u) * pr_promptPer1mMicros p"
    "0 < us_completionTokens u \<Longrightarrow> 0 < pr_completionPer1mMicros p \<Longrightarrow>
      0 < max 0 (us_completionTokens u) * pr_completionPer1mMicros p" by simp_all
  ultimately show ?thesis using b unfolding cost_numerator_def by linarith
qed

text \<open>
  Generation ids sort by creation time: the id of a later millisecond is lexicographically
  greater whatever the random parts are, for every time the ten time digits can hold.
\<close>

theorem ulid_sorts_by_time:
  assumes "t < u" and "u < 32 ^ TIME_CHARS"
  shows "generationId t bs < generationId u cs"
  using lex_append_left [OF time_chars_mono [OF assms]] by (simp add: generationId_def ulid_def)

text \<open>
  The token estimate of a text is the sum of the estimates of its words: splitting at any
  white-space character loses nothing, and it is zero exactly for a text of only white space.
\<close>

theorem estimate_splits:
  assumes "is_space s"
  shows "estimateTokens (a @ s # b) = estimateTokens a + estimateTokens b
    \<and> (estimateTokens a = 0 \<longleftrightarrow> list_all is_space a)"
proof -
  have "estimateTokens (a @ s # b) = estimateTokens a + estimateTokens b"
    using assms by (simp add: estimateTokens_def text_runs_append_space run_class_Space)
  moreover have "0 < (length r + (CHARS_PER_TOKEN - 1)) div CHARS_PER_TOKEN" if "r \<in> set (text_runs a)" for r
    using text_runs_nonempty [OF that] by (cases r) (auto simp: CHARS_PER_TOKEN_def)
  then have "estimateTokens a = 0 \<longleftrightarrow> text_runs a = []"
    unfolding estimateTokens_def by (cases "text_runs a") auto
  ultimately show ?thesis by (simp add: text_runs_Nil)
qed

end
