(* ===== verification/Metering.thy ===== *)
theory Metering
  imports Billing Api_Keys Pricing
begin

text \<open>
  The meter: \<open>metering/metering.service.ts\<close>, \<open>metering/credits.gateway.ts\<close>,
  \<open>metering/workspace-owner.service.ts\<close>, \<open>metering/evidence-coverage.service.ts\<close> and the lookup of
  \<open>invites/invite-attribution.service.ts\<close> it uses.

  \<open>meter_request\<close> takes the debit of the injected \<open>CreditsGateway\<close> as an argument; the locale
  \<open>credits_gateway\<close> is the contract of that interface, the meter's invariant is proved inside it, and
  it is interpreted on \<open>gateway_debit\<close>, the \<open>LedgerCreditsGateway\<close> of the billing component. The inserts
  are modelled with their primary key; referential integrity is not.
\<close>

section \<open>Workspace owners\<close>

definition CACHE_LIMIT :: nat where "CACHE_LIMIT = 1000"

type_synonym owner_cache = "(string \<times> string) list"

definition remember_owner :: "string \<Rightarrow> string \<Rightarrow> owner_cache \<Rightarrow> owner_cache" where
  "remember_owner w u c =
     (let c' = (if length c \<ge> CACHE_LIMIT then (case c of [] \<Rightarrow> [] | (oldest, _) # _ \<Rightarrow> map_delete oldest c) else c)
      in map_set w u c')"

definition ownerOf :: "db \<Rightarrow> owner_cache \<Rightarrow> string \<Rightarrow> string option \<times> owner_cache" where
  "ownerOf d c w =
     (case map_of c w of
        Some u \<Rightarrow> (Some u, c)
      | None \<Rightarrow> (case owners d w of None \<Rightarrow> (None, c) | Some u \<Rightarrow> (Some u, remember_owner w u c)))"

definition forget_owner :: "string \<Rightarrow> owner_cache \<Rightarrow> owner_cache" where
  "forget_owner w c = map_delete w c"

section \<open>Evidence coverage\<close>

record evidence_coverage =
  cov_snapshotId :: string
  cov_evidenceDigest :: string

record snapshot_row =
  sn_id :: string
  sn_endpointId :: string
  sn_evidenceDigest :: string
  sn_issuedAt :: int

type_synonym coverage_cache = "(string \<times> int \<times> evidence_coverage option) list"

definition CACHE_TTL_MS :: int where "CACHE_TTL_MS = 10000"

definition latest_snapshot :: "snapshot_row list \<Rightarrow> string \<Rightarrow> snapshot_row option" where
  "latest_snapshot rows e =
     (case sort_key (\<lambda>r. - sn_issuedAt r) (filter (\<lambda>r. sn_endpointId r = e) rows) of
        [] \<Rightarrow> None | r # _ \<Rightarrow> Some r)"

definition coverage_of :: "int \<Rightarrow> snapshot_row list \<Rightarrow> string \<Rightarrow> int \<Rightarrow> evidence_coverage option" where
  "coverage_of freshnessWindow rows e now =
     (case latest_snapshot rows e of
        None \<Rightarrow> None
      | Some r \<Rightarrow>
          if now - sn_issuedAt r \<le> freshnessWindow
          then Some \<lparr>cov_snapshotId = sn_id r, cov_evidenceDigest = sn_evidenceDigest r\<rparr> else None)"

definition currentFor ::
  "int \<Rightarrow> snapshot_row list \<Rightarrow> coverage_cache \<Rightarrow> string \<Rightarrow> int \<Rightarrow> evidence_coverage option \<times> coverage_cache" where
  "currentFor freshnessWindow rows c e now =
     (let fresh = (let coverage = coverage_of freshnessWindow rows e now
            in (coverage, map_set e (now, coverage) c))
      in case map_of c e of
           Some (cachedAt, coverage) \<Rightarrow> if now - cachedAt < CACHE_TTL_MS then (coverage, c) else fresh
         | None \<Rightarrow> fresh)"

section \<open>The meter\<close>

record invite_attribution =
  ia_campaign :: "string option"
  ia_hadInviteGrant :: bool

text \<open>A redemption row, with the campaign of its code when the code is still there.\<close>

definition forWorkspace :: "(string \<times> string option) list \<Rightarrow> string \<Rightarrow> invite_attribution" where
  "forWorkspace redemptions w =
     (case map_of redemptions w of
        None \<Rightarrow> \<lparr>ia_campaign = None, ia_hadInviteGrant = False\<rparr>
      | Some campaign \<Rightarrow> \<lparr>ia_campaign = campaign, ia_hadInviteGrant = True\<rparr>)"

record first_request_event =
  fr_distinctId :: string
  fr_workspaceId :: string
  fr_timestamp :: int
  fr_campaign :: "string option"
  fr_hadInviteGrant :: bool
  fr_modelSlug :: string
  fr_client :: string
  fr_hoursSinceSignup :: int

definition MS_PER_HOUR :: int where "MS_PER_HOUR = 3600000"

record meter_state =
  mt_db :: db
  mt_owners :: owner_cache
  mt_events :: "first_request_event list"

type_synonym 'e debit = "db \<Rightarrow> credits_debit \<Rightarrow> string \<Rightarrow> int \<Rightarrow> ('e, bool) result \<times> db"

text \<open>The guarded first part of \<open>record\<close>: the row, the key's total and the debit; \<open>False\<close> is the \<open>catch\<close>.\<close>

definition meter_write :: "'e debit \<Rightarrow> db \<Rightarrow> metering_record \<Rightarrow> string \<Rightarrow> int \<Rightarrow> bool \<times> db" where
  "meter_write debit d rec uuid now =
     (if gen_id rec \<in> gen_id ` set (generations d) then (False, d)
      else case debit (recordSpend (gen_apiKeyId rec) (gen_costMicros rec) (insert_generation rec d))
             \<lparr>cd_workspaceId = gen_workspaceId rec, cd_generationId = gen_id rec,
              cd_amountMicros = gen_costMicros rec\<rparr> uuid now of
             (Inl _, d') \<Rightarrow> (False, d')
           | (Inr _, d') \<Rightarrow> (True, d'))"

definition claimFirstRequest :: "db \<Rightarrow> metering_record \<Rightarrow> bool \<times> db" where
  "claimFirstRequest d rec =
     (if ws_view ws_firstRequestAt d (gen_workspaceId rec) = Some None
      then (True, update_workspace (gen_workspaceId rec)
              (\<lambda>ws. ws\<lparr>ws_firstRequestAt := Some (gen_createdAt rec)\<rparr>) d)
      else (False, d))"

definition hoursSinceSignup :: "workspace option \<Rightarrow> metering_record \<Rightarrow> int" where
  "hoursSinceSignup ws rec =
     (case ws of None \<Rightarrow> 0 | Some ws \<Rightarrow> max 0 ((gen_createdAt rec - ws_createdAt ws) div MS_PER_HOUR))"

definition reportFirstRequest ::
  "(string \<times> string option) list \<Rightarrow> meter_state \<Rightarrow> metering_record \<Rightarrow> meter_state" where
  "reportFirstRequest redemptions s rec =
     (case claimFirstRequest (mt_db s) rec of
        (False, d) \<Rightarrow> s\<lparr>mt_db := d\<rparr>
      | (True, d) \<Rightarrow>
          (case ownerOf d (mt_owners s) (gen_workspaceId rec) of
             (owner, c) \<Rightarrow>
               if \<not> truthy owner then s\<lparr>mt_db := d, mt_owners := c\<rparr>
               else let attribution = forWorkspace redemptions (gen_workspaceId rec)
                    in \<lparr>mt_db = d, mt_owners = c, mt_events = mt_events s @
                         [\<lparr>fr_distinctId = the owner, fr_workspaceId = gen_workspaceId rec,
                           fr_timestamp = gen_createdAt rec, fr_campaign = ia_campaign attribution,
                           fr_hadInviteGrant = ia_hadInviteGrant attribution, fr_modelSlug = gen_modelId rec,
                           fr_client = gen_client rec,
                           fr_hoursSinceSignup = hoursSinceSignup (workspaces d (gen_workspaceId rec)) rec\<rparr>]\<rparr>))"

definition meter_request ::
  "'e debit \<Rightarrow> (string \<times> string option) list \<Rightarrow> meter_state \<Rightarrow> metering_record \<Rightarrow> string \<Rightarrow> int \<Rightarrow> meter_state" where
  "meter_request debit redemptions s rec uuid now =
     (case meter_write debit (mt_db s) rec uuid now of
        (False, d) \<Rightarrow> s\<lparr>mt_db := d\<rparr>
      | (True, d) \<Rightarrow> reportFirstRequest redemptions (s\<lparr>mt_db := d\<rparr>) rec)"

text \<open>Any number of finished requests, each of a known workspace and with a fresh ledger row id.\<close>

inductive meter_run ::
  "'e debit \<Rightarrow> (string \<times> string option) list \<Rightarrow> meter_state \<Rightarrow> meter_state \<Rightarrow> bool"
  for debit redemptions s where
  none: "meter_run debit redemptions s s"
| served: "meter_run debit redemptions s s' \<Longrightarrow>
    gen_workspaceId rec \<in> dom (workspaces (mt_db s')) \<Longrightarrow> uuid \<notin> tx_id ` set (transactions (mt_db s')) \<Longrightarrow>
    meter_run debit redemptions s (meter_request debit redemptions s' rec uuid now)"

section \<open>The contract of the credits gateway\<close>

text \<open>
  \<open>charged d g\<close>: the generation \<open>g\<close> is on the books of \<open>d\<close>; \<open>billed d w\<close>: what the workspace has been
  billed for usage. A debit of a generation that is not on the books bills its workspace exactly
  the positive part of the amount and puts at most that generation on the books. A debit touches
  neither the other tables nor the first-request column.
\<close>

locale credits_gateway =
  fixes debit :: "'e debit"
    and charged :: "db \<Rightarrow> string \<Rightarrow> bool"
    and billed :: "db \<Rightarrow> string \<Rightarrow> int"
    and book_inv :: "db \<Rightarrow> bool"
  assumes frame: "debit d i uuid now = (r, d') \<Longrightarrow>
      generations d' = generations d \<and> api_keys d' = api_keys d \<and> owners d' = owners d
      \<and> ws_view ws_firstRequestAt d' = ws_view ws_firstRequestAt d"
    and exact: "debit d i uuid now = (r, d') \<Longrightarrow> \<not> charged d (cd_generationId i) \<Longrightarrow>
      cd_workspaceId i \<in> dom (workspaces d) \<Longrightarrow> uuid \<notin> tx_id ` set (transactions d) \<Longrightarrow>
      (\<exists>b. r = Inr b) \<and> billed d' w = billed d w + (if w = cd_workspaceId i then max 0 (cd_amountMicros i) else 0)"
    and on_books: "debit d i uuid now = (r, d') \<Longrightarrow> charged d' g \<Longrightarrow> charged d g \<or> g = cd_generationId i"
    and keeps: "debit d i uuid now = (r, d') \<Longrightarrow> book_inv d \<Longrightarrow> book_inv d'"
    and books_cong: "transactions d = transactions d' \<Longrightarrow> charged d = charged d' \<and> billed d = billed d'"
    and inv_frame: "book_inv d \<Longrightarrow> transactions d' = transactions d \<Longrightarrow>
      ws_view ws_balanceMicros d' = ws_view ws_balanceMicros d \<Longrightarrow> book_inv d'"

text \<open>
  The meter agrees with the books: each key's running total is the sum of the costs of its
  generations, each workspace has been billed the sum of the costs of its generations, and only
  metered generations are on the books.
\<close>

definition cost_of :: "metering_record \<Rightarrow> int" where
  "cost_of g = max 0 (gen_costMicros g)"

definition spent_ok :: "db \<Rightarrow> bool" where
  "spent_ok d = (\<forall>k \<in> set (api_keys d).
     key_spentTotalMicros k = sum_for gen_apiKeyId cost_of (key_id k) (generations d))"

definition meter_agrees ::
  "(db \<Rightarrow> string \<Rightarrow> bool) \<Rightarrow> (db \<Rightarrow> string \<Rightarrow> int) \<Rightarrow> (db \<Rightarrow> bool) \<Rightarrow> db \<Rightarrow> bool" where
  "meter_agrees charged billed book_inv d =
     (book_inv d \<and> spent_ok d
      \<and> (\<forall>w. billed d w = sum_for gen_workspaceId cost_of w (generations d))
      \<and> (\<forall>g. charged d g \<longrightarrow> g \<in> gen_id ` set (generations d)))"

lemma recordSpend_frame [db_simps]:
  "generations (recordSpend i c d) = generations d"
  "transactions (recordSpend i c d) = transactions d"
  "workspaces (recordSpend i c d) = workspaces d"
  "owners (recordSpend i c d) = owners d"
  by (simp_all add: recordSpend_def db_simps)

lemma spent_ok_insert:
  "spent_ok d \<Longrightarrow> spent_ok (recordSpend (gen_apiKeyId g) (gen_costMicros g) (insert_generation g d))"
  by (auto simp: spent_ok_def recordSpend_def db_simps cost_of_def)

lemma claimFirstRequest_frame:
  assumes "claimFirstRequest d rec = (b, d')"
  shows "generations d' = generations d" "api_keys d' = api_keys d" "transactions d' = transactions d"
    "owners d' = owners d" "ws_view ws_balanceMicros d' = ws_view ws_balanceMicros d"
    "dom (workspaces d') = dom (workspaces d)"
proof -
  show "generations d' = generations d" "api_keys d' = api_keys d" "transactions d' = transactions d"
      "owners d' = owners d"
    using assms by (auto simp: claimFirstRequest_def db_simps split: if_splits)
  show "ws_view ws_balanceMicros d' = ws_view ws_balanceMicros d"
    using assms by (auto simp: claimFirstRequest_def intro!: ws_view_update split: if_splits)
  show "dom (workspaces d') = dom (workspaces d)"
    using assms by (auto simp: claimFirstRequest_def db_simps dom_def split: if_splits)
qed

lemma mt_db_report: "mt_db (reportFirstRequest redemptions s rec) = snd (claimFirstRequest (mt_db s) rec)"
  by (auto simp: reportFirstRequest_def Let_def split: prod.splits bool.splits)

lemma mt_db_metering:
  "mt_db (meter_request debit redemptions s rec uuid now) =
     (let (ok, d) = meter_write debit (mt_db s) rec uuid now
      in if ok then snd (claimFirstRequest d rec) else d)"
  by (auto simp: meter_request_def mt_db_report split: prod.splits bool.splits)

text \<open>Every reported workspace has its first-request time set, so no later request reports it again.\<close>

definition events_ok :: "meter_state \<Rightarrow> bool" where
  "events_ok s = (distinct (map fr_workspaceId (mt_events s))
     \<and> (\<forall>e \<in> set (mt_events s). \<exists>t. ws_view ws_firstRequestAt (mt_db s) (fr_workspaceId e) = Some (Some t)))"

context credits_gateway
begin

abbreviation meter_inv :: "db \<Rightarrow> bool" where
  "meter_inv \<equiv> meter_agrees charged billed book_inv"

lemma meter_write_inv:
  assumes "meter_write debit d rec uuid now = (ok, d')" and "meter_inv d"
    and "gen_workspaceId rec \<in> dom (workspaces d)" and "uuid \<notin> tx_id ` set (transactions d)"
  shows "meter_inv d'"
proof (cases "gen_id rec \<in> gen_id ` set (generations d)")
  case True
  with assms(1,2) show ?thesis by (simp add: meter_write_def)
next
  case False
  let ?d = "recordSpend (gen_apiKeyId rec) (gen_costMicros rec) (insert_generation rec d)"
  let ?i = "\<lparr>cd_workspaceId = gen_workspaceId rec, cd_generationId = gen_id rec, cd_amountMicros = gen_costMicros rec\<rparr>"
  obtain r where deb: "debit ?d ?i uuid now = (r, d')"
    using assms(1) False by (auto simp: meter_write_def split: prod.splits sum.splits)
  have tx: "transactions ?d = transactions d" "workspaces ?d = workspaces d"
      "generations ?d = generations d @ [rec]"
    by (simp_all add: db_simps)
  have books: "charged ?d = charged d" "billed ?d = billed d" using books_cong [OF tx(1)] by simp_all
  have inv: "book_inv ?d" using assms(2) tx by (auto simp: meter_agrees_def ws_view_def fun_eq_iff intro: inv_frame)
  have "\<not> charged ?d (gen_id rec)" using assms(2) False by (auto simp: meter_agrees_def books)
  then have bill: "billed d' w = billed d w + (if w = gen_workspaceId rec then cost_of rec else 0)" for w
    using exact [OF deb, of w] assms(3,4) tx by (simp add: books cost_of_def)
  have gens: "generations d' = generations d @ [rec]" and keys: "api_keys d' = api_keys ?d"
    using frame [OF deb] tx(3) by simp_all
  have "spent_ok d'"
    using spent_ok_insert [of d rec] assms(2) keys gens tx(3) by (simp add: spent_ok_def meter_agrees_def)
  moreover have "g \<in> gen_id ` set (generations d')" if "charged d' g" for g
    using on_books [OF deb that] assms(2) by (auto simp: gens books meter_agrees_def)
  ultimately show ?thesis
    using assms(2) bill keeps [OF deb inv] by (simp add: meter_agrees_def gens)
qed

lemma claim_inv:
  assumes "claimFirstRequest d rec = (b, d')" and "meter_inv d"
  shows "meter_inv d'"
proof -
  note f = claimFirstRequest_frame [OF assms(1)]
  have "book_inv d'" using inv_frame [of d d'] assms(2) f(3,5) by (simp add: meter_agrees_def)
  then show ?thesis
    using assms(2) f books_cong [OF f(3)] by (simp add: meter_agrees_def spent_ok_def)
qed

lemma meter_write_first:
  assumes "meter_write debit d rec uuid now = (ok, d')"
  shows "ws_view ws_firstRequestAt d' = ws_view ws_firstRequestAt d"
proof (cases "gen_id rec \<in> gen_id ` set (generations d)")
  case False
  let ?d = "recordSpend (gen_apiKeyId rec) (gen_costMicros rec) (insert_generation rec d)"
  obtain r i where "debit ?d i uuid now = (r, d')"
    using assms False by (auto simp: meter_write_def split: prod.splits sum.splits)
  moreover have "ws_view ws_firstRequestAt ?d = ws_view ws_firstRequestAt d"
    by (simp add: ws_view_def fun_eq_iff db_simps)
  ultimately show ?thesis using frame by metis
qed (use assms in \<open>simp add: meter_write_def\<close>)

lemma report_events_ok:
  assumes "events_ok s"
  shows "events_ok (reportFirstRequest redemptions s rec)"
proof (cases "ws_view ws_firstRequestAt (mt_db s) (gen_workspaceId rec) = Some None")
  case True
  let ?d = "update_workspace (gen_workspaceId rec) (\<lambda>ws. ws\<lparr>ws_firstRequestAt := Some (gen_createdAt rec)\<rparr>) (mt_db s)"
  have new: "ws_view ws_firstRequestAt ?d v =
      (if v = gen_workspaceId rec then Some (Some (gen_createdAt rec)) else ws_view ws_firstRequestAt (mt_db s) v)" for v
    using True by (auto simp: ws_view_def db_simps)
  have "gen_workspaceId rec \<notin> fr_workspaceId ` set (mt_events s)"
    using assms True by (auto simp: events_ok_def)
  then show ?thesis
    using assms True
    by (auto simp: reportFirstRequest_def claimFirstRequest_def events_ok_def new Let_def split: prod.splits)
qed (use assms in \<open>simp add: reportFirstRequest_def claimFirstRequest_def\<close>)

lemma run_events_ok: "meter_run debit redemptions s s' \<Longrightarrow> events_ok s \<Longrightarrow> events_ok s'"
proof (induction rule: meter_run.induct)
  case (served s' rec uuid now)
  obtain ok d where w: "meter_write debit (mt_db s') rec uuid now = (ok, d)"
    by (cases "meter_write debit (mt_db s') rec uuid now")
  have "events_ok (s'\<lparr>mt_db := d\<rparr>)"
    using served meter_write_first [OF w] by (simp add: events_ok_def)
  then show ?case using w report_events_ok by (auto simp: meter_request_def split: bool.splits)
qed simp

lemma run_inv: "meter_run debit redemptions s s' \<Longrightarrow> meter_inv (mt_db s) \<Longrightarrow> meter_inv (mt_db s')"
proof (induction rule: meter_run.induct)
  case (served s' rec uuid now)
  obtain ok d where w: "meter_write debit (mt_db s') rec uuid now = (ok, d)"
    by (cases "meter_write debit (mt_db s') rec uuid now")
  have "meter_inv d" by (rule meter_write_inv [OF w]) (use served in auto)
  then show ?case using w claim_inv [of d rec] by (auto simp: mt_db_metering) (metis prod.collapse)
qed simp

end

section \<open>The ledger is a credits gateway\<close>

definition generation_charged :: "db \<Rightarrow> string \<Rightarrow> bool" where
  "generation_charged d g = (find_by_key d (''generation:'' @ g) \<noteq> None)"

definition usage_billed :: "db \<Rightarrow> string \<Rightarrow> int" where
  "usage_billed d w =
     - sum_for tx_workspaceId (\<lambda>t. if tx_kind t = Usage then tx_amountMicros t else 0) w (transactions d)"

lemma gateway_debit_cases:
  assumes "gateway_debit d i uuid now = (r, d')"
  obtains (free) "cd_amountMicros i \<le> 0" and "r = Inr False" and "d' = d"
  | (recorded) r' where "0 < cd_amountMicros i"
      and "ledger_record d (generation_input (cd_workspaceId i) (cd_generationId i) (cd_amountMicros i)) uuid now = (r', d')"
      and "(\<exists>b. r = Inr b) \<longleftrightarrow> (\<exists>e. r' = Inr e)"
proof (cases "cd_amountMicros i \<le> 0")
  case True
  with assms show thesis by (intro free) (simp_all add: gateway_debit_def debitGeneration_def)
next
  case False
  obtain r' d1 where rec: "ledger_record d (generation_input (cd_workspaceId i) (cd_generationId i)
      (cd_amountMicros i)) uuid now = (r', d1)" by fastforce
  with assms False have "d1 = d'" "(\<exists>b. r = Inr b) \<longleftrightarrow> (\<exists>e. r' = Inr e)"
    by (auto simp: gateway_debit_def debitGeneration_def split: sum.splits)
  with rec False show thesis by (intro recorded [of r']) auto
qed

lemma generation_input_simps [simp]:
  "in_idempotencyKey (generation_input w g a) = ''generation:'' @ g"
  "in_workspaceId (generation_input w g a) = w" "in_kind (generation_input w g a) = Usage"
  "in_amountMicros (generation_input w g a) = - a"
  by (simp_all add: generation_input_def)

lemma ledger_record_tables:
  assumes "ledger_record d i uuid now = (r, d')"
  shows "generations d' = generations d \<and> api_keys d' = api_keys d \<and> owners d' = owners d"
  using assms
proof (cases rule: ledger_record_cases)
  case (appended entry)
  then obtain d1 where "move_balance d i = Some d1"
    and "d' = insert_transaction (transaction_of i uuid now) d1"
    by (auto simp: ledger_append_def Let_def split: option.splits if_splits)
  then show ?thesis by (auto simp: db_simps elim!: move_balance_Some)
qed simp_all

lemma debit_bills:
  assumes "0 < a" and "find_by_key d (''generation:'' @ g) = None" and "w \<in> dom (workspaces d)"
    and "uuid \<notin> tx_id ` set (transactions d)"
    and "ledger_record d (generation_input w g a) uuid now = (r, d')"
  shows "(\<exists>e. r = Inr e) \<and> transactions d' = transactions d @ [transaction_of (generation_input w g a) uuid now]"
proof -
  have "assertSign (generation_input w g a) = Inr ()" using assms(1) by (simp add: assertSign_def)
  moreover have "in_idempotencyKey (generation_input w g a) \<notin> tx_idempotencyKey ` set (transactions d)"
    using assms(2) find_by_key_None by simp
  ultimately show ?thesis
    using ledger_record_fresh [of "generation_input w g a" d uuid now] assms(3-5)
    by (auto simp: db_simps)
qed

interpretation lcg: credits_gateway gateway_debit generation_charged usage_billed ledger_inv
proof
  fix d i uuid now r d'
  assume "gateway_debit d i uuid now = (r, d')"
  then show "generations d' = generations d \<and> api_keys d' = api_keys d \<and> owners d' = owners d
      \<and> ws_view ws_firstRequestAt d' = ws_view ws_firstRequestAt d"
  proof (cases rule: gateway_debit_cases)
    case (recorded r')
    then show ?thesis using ledger_record_tables ledger_record_view [OF recorded(2), of ws_firstRequestAt] by auto
  qed simp
next
  fix d i uuid now r d' w
  assume deb: "gateway_debit d i uuid now = (r, d')" and new: "\<not> generation_charged d (cd_generationId i)"
    and dom: "cd_workspaceId i \<in> dom (workspaces d)" "uuid \<notin> tx_id ` set (transactions d)"
  from deb show "(\<exists>b. r = Inr b) \<and> usage_billed d' w =
      usage_billed d w + (if w = cd_workspaceId i then max 0 (cd_amountMicros i) else 0)"
  proof (cases rule: gateway_debit_cases)
    case (recorded r')
    then show ?thesis
      using debit_bills [OF recorded(1) _ dom recorded(2)] new
      by (auto simp: generation_charged_def usage_billed_def transaction_of_def)
  qed auto
next
  fix d i uuid now r d' g
  assume deb: "gateway_debit d i uuid now = (r, d')" and "generation_charged d' g"
  then show "generation_charged d g \<or> g = cd_generationId i"
  proof (cases rule: gateway_debit_cases)
    case (recorded r')
    from recorded(2) show ?thesis
    proof (cases rule: ledger_record_cases)
      case (appended entry)
      then show ?thesis
        using append_success(4) [OF appended(2)] \<open>generation_charged d' g\<close>
        by (auto simp: generation_charged_def find_by_key_def find_key_append transaction_of_def
            split: option.splits if_splits)
    qed (use \<open>generation_charged d' g\<close> in simp_all)
  qed simp
next
  fix d i uuid now r d'
  assume "gateway_debit d i uuid now = (r, d')" and "ledger_inv d"
  then show "ledger_inv d'" by (cases rule: gateway_debit_cases) (auto intro: ledger_record_inv)
next
  fix d d' :: db
  assume "transactions d = transactions d'"
  then show "generation_charged d = generation_charged d' \<and> usage_billed d = usage_billed d'"
    by (simp add: generation_charged_def usage_billed_def find_by_key_def fun_eq_iff)
next
  fix d d' :: db
  assume inv: "ledger_inv d" and tx: "transactions d' = transactions d"
    and bal: "ws_view ws_balanceMicros d' = ws_view ws_balanceMicros d"
  have view: "map_option ws_balanceMicros (workspaces d' w) = map_option ws_balanceMicros (workspaces d w)" for w
    using bal by (auto simp: ws_view_def fun_eq_iff)
  have "dom (workspaces d') = dom (workspaces d)" using view by (auto simp: dom_def) (metis option.map_disc_iff not_Some_eq)+
  moreover have "balance_in d' w = balance_in d w" for w
    using view [of w] by (auto simp: balance_in_def split: option.splits)
  ultimately show "ledger_inv d'" using ledger_inv_frame [OF inv tx] by blast
qed

section \<open>Properties\<close>

text \<open>
  What was metered is what was billed. However many requests finish, including repeated ones,
  free ones and ones whose debit fails, the running total of every API key stays the sum of the
  costs of its generations, the usage rows of every workspace stay the sum of the costs of its
  generations, only metered generations are in the ledger, and each cached balance is the sum of
  its rows.
\<close>

theorem metering_accounts:
  assumes "meter_run gateway_debit redemptions s s'"
    and "meter_agrees generation_charged usage_billed ledger_inv (mt_db s)"
  shows "meter_agrees generation_charged usage_billed ledger_inv (mt_db s')"
  using assms by (rule lcg.run_inv)

definition example_generation :: metering_record where
  "example_generation =
     \<lparr>gen_id = ''g'', gen_workspaceId = ''w'', gen_apiKeyId = ''k'', gen_modelId = ''m'', gen_endpointId = None,
      gen_externalEndpointId = None, gen_evidenceSnapshotId = None, gen_evidenceDigest = None,
      gen_promptTokens = 3, gen_completionTokens = 4, gen_costMicros = 7, gen_promptPer1mMicros = 1000000,
      gen_completionPer1mMicros = 1000000, gen_streamed = False, gen_status = Ok, gen_errorCode = None,
      gen_finishReason = Some ''stop'', gen_latencyMs = 10, gen_timeToFirstTokenMs = None,
      gen_tokensPerSecond = None, gen_requestId = None, gen_clientIpHash = None, gen_client = ''other'',
      gen_createdAt = 50\<rparr>"

definition example_meter :: meter_state where
  "example_meter = \<lparr>mt_db = one_workspace\<lparr>owners := [''w'' \<mapsto> ''owner'']\<rparr>, mt_owners = [], mt_events = []\<rparr>"

lemma example_meter_run:
  "meter_run gateway_debit [] example_meter
     (meter_request gateway_debit [] example_meter example_generation ''u'' 1)"
  by (rule meter_run.served [OF meter_run.none])
    (simp_all add: example_meter_def example_generation_def example_defs)

text \<open>
  \<open>first_request_sent\<close> is reported at most once per workspace, over any sequence of finished
  requests that starts with nothing reported.
\<close>

theorem first_request_once:
  assumes "meter_run gateway_debit redemptions s s'" and "mt_events s = []"
  shows "distinct (map fr_workspaceId (mt_events s'))"
proof -
  have "events_ok s" using assms(2) by (simp add: events_ok_def)
  with lcg.run_events_ok [OF assms(1)] show ?thesis by (simp add: events_ok_def)
qed

definition owner_cache_ok :: "db \<Rightarrow> owner_cache \<Rightarrow> bool" where
  "owner_cache_ok d c =
     (distinct (map fst c) \<and> length c \<le> CACHE_LIMIT \<and> (\<forall>w u. map_of c w = Some u \<longrightarrow> owners d w = Some u))"

lemma length_map_delete_hd:
  "distinct (map fst ((k, v) # c)) \<Longrightarrow> map_delete k ((k, v) # c) = c"
  by (auto simp: map_delete_def intro!: filter_True)

lemma remember_owner_ok:
  assumes "owner_cache_ok d c" and "owners d w = Some u" and "map_of c w = None"
  shows "owner_cache_ok d (remember_owner w u c)"
proof -
  define c' where
    "c' = (if length c \<ge> CACHE_LIMIT then (case c of [] \<Rightarrow> [] | (k, _) # _ \<Rightarrow> map_delete k c) else c)"
  have dist: "distinct (map fst c)" using assms(1) by (simp add: owner_cache_ok_def)
  have c': "distinct (map fst c') \<and> length c' < CACHE_LIMIT \<and> (\<forall>v x. map_of c' v = Some x \<longrightarrow> map_of c v = Some x)"
  proof (cases "length c \<ge> CACHE_LIMIT")
    case True
    then obtain k v rest where c: "c = (k, v) # rest" by (cases c) (auto simp: CACHE_LIMIT_def)
    then have "c' = rest" using True length_map_delete_hd [of k v rest] dist by (simp add: c'_def)
    then show ?thesis
      using assms(1) dist c by (auto simp: owner_cache_ok_def dest: map_of_Some_key) (force simp: image_iff)
  next
    case False
    then show ?thesis using dist by (simp add: c'_def)
  qed
  have "remember_owner w u c = map_set w u c'" by (simp add: remember_owner_def c'_def Let_def)
  then show ?thesis
    using c' assms distinct_map_set length_map_set [of w u c'] by (auto simp: owner_cache_ok_def)
qed

text \<open>
  The owner cache answers what the database says and stays bounded: from a cache that agrees
  with the table, a lookup returns the owner in the table and leaves a cache that agrees with the
  table and holds at most a thousand workspaces.
\<close>

theorem owner_cache_correct:
  assumes "owner_cache_ok d c"
  shows "fst (ownerOf d c w) = owners d w \<and> owner_cache_ok d (snd (ownerOf d c w))
    \<and> owner_cache_ok d (forget_owner w c)"
proof -
  have "owner_cache_ok d (forget_owner w c)"
    using assms distinct_map_delete [of c w]
    by (auto simp: owner_cache_ok_def forget_owner_def map_delete_def intro: le_trans [OF length_filter_le])
  moreover have "fst (ownerOf d c w) = owners d w \<and> owner_cache_ok d (snd (ownerOf d c w))"
  proof (cases "map_of c w")
    case None
    then show ?thesis using assms remember_owner_ok [OF assms] by (simp add: ownerOf_def split: option.split)
  next
    case (Some u)
    then have "owners d w = Some u" using assms by (simp add: owner_cache_ok_def)
    then show ?thesis using assms Some by (simp add: ownerOf_def)
  qed
  ultimately show ?thesis by simp
qed

end
