(* ===== verification/Rate_Limit.thy ===== *)
theory Rate_Limit
  imports Db
begin

text \<open>
  \<open>api/v1/rate-limiter.ts\<close> and \<open>api/v1/rate-limit.service.ts\<close>: the token bucket and the four budgets
  of \<open>/v1\<close>. The map of buckets is insertion ordered, the clock is an argument, and the fractional
  budget is a rational number where the source has a double.

  The locale \<open>rate_limiter\<close> is the contract of the \<open>RateLimiter\<close> interface, stated over the budget a
  bucket would have at a time (\<open>level\<close>); the bound on what a bucket admits is proved inside it. It
  is interpreted on the in-memory limiter, where the sweep of idle buckets has to be invisible.
\<close>

section \<open>The token bucket\<close>

record rate_request =
  rq_cost :: rat
  rq_limitPerMinute :: rat

record rate_decision =
  rd_allowed :: bool
  rd_limit :: rat
  rd_remaining :: int
  rd_resetAt :: int
  rd_retryAfterSeconds :: int

record bucket =
  bk_available :: rat
  bk_updatedAt :: int

type_synonym buckets = "(string \<times> bucket) list"

definition MS_PER_MINUTE :: int where "MS_PER_MINUTE = 60000"

definition SWEEP_THRESHOLD :: nat where "SWEEP_THRESHOLD = 10000"

definition sweep :: "int \<Rightarrow> buckets \<Rightarrow> buckets" where
  "sweep now bs =
     (if length bs < SWEEP_THRESHOLD then bs
      else filter (\<lambda>e. \<not> now - bk_updatedAt (snd e) \<ge> MS_PER_MINUTE) bs)"

definition refilled :: "bucket \<Rightarrow> rat \<Rightarrow> int \<Rightarrow> bucket" where
  "refilled b limit now =
     \<lparr>bk_available = min limit (bk_available b + of_int (now - bk_updatedAt b) / of_int MS_PER_MINUTE * limit),
      bk_updatedAt = now\<rparr>"

definition refill :: "buckets \<Rightarrow> string \<Rightarrow> rat \<Rightarrow> int \<Rightarrow> bucket \<times> buckets" where
  "refill bs name limit now =
     (case map_of bs name of
        None \<Rightarrow>
          let created = \<lparr>bk_available = limit, bk_updatedAt = now\<rparr>
          in (created, map_set name created (sweep now bs))
      | Some b \<Rightarrow> (refilled b limit now, map_set name (refilled b limit now) bs))"

definition decide :: "bucket \<Rightarrow> rate_request \<Rightarrow> bool \<Rightarrow> rate_decision" where
  "decide b r allowed =
     (let deficit = max 0 (rq_cost r - bk_available b);
          msUntilAffordable = deficit / rq_limitPerMinute r * of_int MS_PER_MINUTE
      in \<lparr>rd_allowed = allowed, rd_limit = rq_limitPerMinute r,
          rd_remaining = max 0 \<lfloor>bk_available b\<rfloor>,
          rd_resetAt = bk_updatedAt b + \<lceil>msUntilAffordable\<rceil>,
          rd_retryAfterSeconds = max 1 \<lceil>msUntilAffordable / 1000\<rceil>\<rparr>)"

definition bucket_consume :: "buckets \<Rightarrow> string \<Rightarrow> rate_request \<Rightarrow> int \<Rightarrow> rate_decision \<times> buckets" where
  "bucket_consume bs name r now =
     (case refill bs name (rq_limitPerMinute r) now of
        (b, bs') \<Rightarrow>
          let allowed = bk_available b \<ge> rq_cost r;
              b' = (if allowed then b\<lparr>bk_available := bk_available b - rq_cost r\<rparr> else b)
          in (decide b' r allowed, map_set name b' bs'))"

definition bucket_debit :: "buckets \<Rightarrow> string \<Rightarrow> rate_request \<Rightarrow> int \<Rightarrow> buckets" where
  "bucket_debit bs name r now =
     (case refill bs name (rq_limitPerMinute r) now of
        (b, bs') \<Rightarrow> map_set name (b\<lparr>bk_available := max 0 (bk_available b - rq_cost r)\<rparr>) bs')"

section \<open>The service\<close>

record rate_limits =
  rl_requestsPerMinute :: rat
  rl_tokensPerMinute :: rat

datatype limit_scope = Key_requests | Workspace_requests | Key_tokens | Workspace_tokens

type_synonym 's consume = "'s \<Rightarrow> string \<Rightarrow> rate_request \<Rightarrow> int \<Rightarrow> rate_decision \<times> 's"
type_synonym 's limiter_debit = "'s \<Rightarrow> string \<Rightarrow> rate_request \<Rightarrow> int \<Rightarrow> 's"

definition request_limit :: "rate_limits \<Rightarrow> api_key \<Rightarrow> rat" where
  "request_limit cfg k =
     (case key_requestsPerMinute k of None \<Rightarrow> rl_requestsPerMinute cfg | Some n \<Rightarrow> of_int n)"

definition tokenLimitFor :: "rate_limits \<Rightarrow> api_key \<Rightarrow> rat" where
  "tokenLimitFor cfg k =
     (case key_tokensPerMinute k of None \<Rightarrow> rl_tokensPerMinute cfg | Some n \<Rightarrow> of_int n)"

definition tighter :: "rate_decision \<Rightarrow> rate_decision \<Rightarrow> rate_decision" where
  "tighter a b = (if rd_remaining a \<le> rd_remaining b then a else b)"

record rate_headers =
  hd_limit :: rat
  hd_remaining :: int
  hd_reset :: int

definition headersFor :: "rate_decision \<Rightarrow> rate_headers" where
  "headersFor d = \<lparr>hd_limit = rd_limit d, hd_remaining = rd_remaining d,
     hd_reset = \<lceil>(of_int (rd_resetAt d) :: rat) / 1000\<rceil>\<rparr>"

text \<open>A refusal names the scope and carries the headers and \<open>Retry-After\<close>.\<close>

type_synonym rate_refusal = "limit_scope \<times> rate_headers \<times> int"

definition rateLimited :: "limit_scope \<Rightarrow> rate_decision \<Rightarrow> rate_refusal" where
  "rateLimited scope d = (scope, headersFor d, rd_retryAfterSeconds d)"

text \<open>\<open>clock n\<close> is the time of the \<open>n\<close>-th call of the limiter.\<close>

definition admit ::
  "'s consume \<Rightarrow> rate_limits \<Rightarrow> 's \<Rightarrow> api_key \<Rightarrow> (nat \<Rightarrow> int) \<Rightarrow> (rate_refusal, rate_headers) result \<times> 's" where
  "admit consume cfg s k clock =
     (case consume s (''req:key:'' @ key_id k) \<lparr>rq_cost = 1, rq_limitPerMinute = request_limit cfg k\<rparr> (clock 0) of
        (keyDecision, s1) \<Rightarrow>
     if \<not> rd_allowed keyDecision then (Inl (rateLimited Key_requests keyDecision), s1) else
     (case consume s1 (''req:ws:'' @ key_workspaceId k)
          \<lparr>rq_cost = 1, rq_limitPerMinute = rl_requestsPerMinute cfg\<rparr> (clock 1) of
        (workspaceDecision, s2) \<Rightarrow>
     if \<not> rd_allowed workspaceDecision then (Inl (rateLimited Workspace_requests workspaceDecision), s2) else
     (case consume s2 (''tok:key:'' @ key_id k) \<lparr>rq_cost = 0, rq_limitPerMinute = tokenLimitFor cfg k\<rparr> (clock 2) of
        (keyTokens, s3) \<Rightarrow>
     if rd_remaining keyTokens \<le> 0 then (Inl (rateLimited Key_tokens keyTokens), s3) else
     (case consume s3 (''tok:ws:'' @ key_workspaceId k)
          \<lparr>rq_cost = 0, rq_limitPerMinute = rl_tokensPerMinute cfg\<rparr> (clock 3) of
        (workspaceTokens, s4) \<Rightarrow>
     if rd_remaining workspaceTokens \<le> 0 then (Inl (rateLimited Workspace_tokens workspaceTokens), s4) else
     (Inr (headersFor (tighter keyDecision workspaceDecision)), s4)))))"

definition settle ::
  "'s limiter_debit \<Rightarrow> rate_limits \<Rightarrow> 's \<Rightarrow> api_key \<Rightarrow> int \<Rightarrow> (nat \<Rightarrow> int) \<Rightarrow> 's" where
  "settle debit cfg s k totalTokens clock =
     (if totalTokens \<le> 0 then s
      else let s1 = debit s (''tok:key:'' @ key_id k)
                 \<lparr>rq_cost = of_int totalTokens, rq_limitPerMinute = tokenLimitFor cfg k\<rparr> (clock 0)
           in debit s1 (''tok:ws:'' @ key_workspaceId k)
                \<lparr>rq_cost = of_int totalTokens, rq_limitPerMinute = rl_tokensPerMinute cfg\<rparr> (clock 1))"

text \<open>What one bucket admits over a sequence of calls on any buckets.\<close>

fun admitted :: "'s consume \<Rightarrow> string \<Rightarrow> 's \<Rightarrow> (string \<times> rate_request \<times> int) list \<Rightarrow> rat \<times> 's" where
  "admitted consume n s [] = (0, s)"
| "admitted consume n s ((b, r, t) # calls) =
     (case consume s b r t of
        (d, s') \<Rightarrow>
          (case admitted consume n s' calls of
             (x, s'') \<Rightarrow> ((if b = n \<and> rd_allowed d then rq_cost r else 0) + x, s'')))"

definition well_formed_calls :: "string \<Rightarrow> rat \<Rightarrow> int \<Rightarrow> int \<Rightarrow> (string \<times> rate_request \<times> int) list \<Rightarrow> bool" where
  "well_formed_calls n limit t0 t1 calls =
     (sorted (map (\<lambda>(b, r, t). t) calls)
      \<and> (\<forall>(b, r, t) \<in> set calls. t0 \<le> t \<and> t \<le> t1 \<and> 0 \<le> rq_cost r \<and> 0 < rq_limitPerMinute r
          \<and> (b = n \<longrightarrow> rq_limitPerMinute r = limit)))"

section \<open>The contract of a rate limiter\<close>

locale rate_limiter =
  fixes consume :: "'s consume" and debit :: "'s limiter_debit"
    and inv :: "'s \<Rightarrow> int \<Rightarrow> bool" and level :: "'s \<Rightarrow> string \<Rightarrow> rat \<Rightarrow> int \<Rightarrow> rat"
  assumes inv_mono: "inv s t \<Longrightarrow> t \<le> t' \<Longrightarrow> inv s t'"
    and level_range: "inv s t \<Longrightarrow> 0 < l \<Longrightarrow> 0 \<le> level s n l t \<and> level s n l t \<le> l"
    and level_grows: "inv s t \<Longrightarrow> 0 < l \<Longrightarrow> t \<le> t' \<Longrightarrow>
      level s n l t' = min l (level s n l t + of_int (t' - t) / 60000 * l)"
    and consume_inv: "consume s n r t = (d, s') \<Longrightarrow> inv s t \<Longrightarrow> 0 < rq_limitPerMinute r \<Longrightarrow> 0 \<le> rq_cost r \<Longrightarrow> inv s' t"
    and consume_level: "consume s n r t = (d, s') \<Longrightarrow> inv s t \<Longrightarrow> 0 < rq_limitPerMinute r \<Longrightarrow> 0 \<le> rq_cost r \<Longrightarrow>
      (rd_allowed d \<longleftrightarrow> rq_cost r \<le> level s n (rq_limitPerMinute r) t)
      \<and> level s' n (rq_limitPerMinute r) t =
          level s n (rq_limitPerMinute r) t - (if rd_allowed d then rq_cost r else 0)
      \<and> rd_remaining d = \<lfloor>level s' n (rq_limitPerMinute r) t\<rfloor>"
    and consume_other: "consume s n r t = (d, s') \<Longrightarrow> inv s t \<Longrightarrow> 0 < rq_limitPerMinute r \<Longrightarrow> 0 \<le> rq_cost r \<Longrightarrow>
      m \<noteq> n \<Longrightarrow> 0 < l \<Longrightarrow> t \<le> t' \<Longrightarrow> level s' m l t' = level s m l t'"
    and debit_inv: "inv s t \<Longrightarrow> 0 < rq_limitPerMinute r \<Longrightarrow> 0 \<le> rq_cost r \<Longrightarrow> inv (debit s n r t) t"
    and debit_level: "inv s t \<Longrightarrow> 0 < rq_limitPerMinute r \<Longrightarrow> 0 \<le> rq_cost r \<Longrightarrow>
      level (debit s n r t) n (rq_limitPerMinute r) t = max 0 (level s n (rq_limitPerMinute r) t - rq_cost r)"
    and debit_other: "inv s t \<Longrightarrow> 0 < rq_limitPerMinute r \<Longrightarrow> 0 \<le> rq_cost r \<Longrightarrow>
      m \<noteq> n \<Longrightarrow> 0 < l \<Longrightarrow> t \<le> t' \<Longrightarrow> level (debit s n r t) m l t' = level s m l t'"
begin

lemma admitted_bound:
  assumes "admitted consume n s calls = (x, s')" and "inv s t0" and "0 < limit" and "t0 \<le> t1"
    and "well_formed_calls n limit t0 t1 calls"
  shows "x \<le> level s n limit t0 + of_int (t1 - t0) / 60000 * limit"
  using assms
proof (induction calls arbitrary: s x t0)
  case Nil
  then show ?case using level_range [OF Nil(2,3), of n] by simp
next
  case (Cons c calls)
  obtain b r t where c: "c = (b, r, t)" by (cases c)
  obtain d s1 where con: "consume s b r t = (d, s1)" by (cases "consume s b r t")
  obtain y where rest: "admitted consume n s1 calls = (y, s')"
    and x: "x = (if b = n \<and> rd_allowed d then rq_cost r else 0) + y"
    using Cons.prems(1) by (auto simp: c con split: prod.splits)
  have t: "t0 \<le> t" "t \<le> t1" and r: "0 \<le> rq_cost r" "0 < rq_limitPerMinute r" "b = n \<Longrightarrow> rq_limitPerMinute r = limit"
    and wf: "well_formed_calls n limit t t1 calls"
    using Cons.prems(5) by (auto simp: well_formed_calls_def c)
  have inv: "inv s t" "inv s1 t"
    using inv_mono [OF Cons.prems(2) t(1)] consume_inv [OF con] r by auto
  have "y \<le> level s1 n limit t + of_int (t1 - t) / 60000 * limit"
    by (rule Cons.IH [OF rest inv(2) Cons.prems(3) t(2) wf])
  moreover have "level s1 n limit t + (if b = n \<and> rd_allowed d then rq_cost r else 0) \<le> level s n limit t"
    using consume_level [OF con inv(1) r(2,1)] consume_other [OF con inv(1) r(2,1), of n limit t] r(3) Cons.prems(3)
    by (cases "b = n") auto
  moreover have "level s n limit t \<le> level s n limit t0 + of_int (t - t0) / 60000 * limit"
    using level_grows [OF Cons.prems(2,3) t(1), of n] by simp
  moreover have "of_int (t - t0) / 60000 * limit + of_int (t1 - t) / 60000 * limit = of_int (t1 - t0) / 60000 * limit"
    by (simp add: field_simps)
  ultimately show ?case using x by linarith
qed

end

section \<open>The in-memory limiter meets the contract\<close>

definition bucket_level :: "buckets \<Rightarrow> string \<Rightarrow> rat \<Rightarrow> int \<Rightarrow> rat" where
  "bucket_level bs n l t = (case map_of bs n of None \<Rightarrow> l | Some b \<Rightarrow> bk_available (refilled b l t))"

definition buckets_ok :: "buckets \<Rightarrow> int \<Rightarrow> bool" where
  "buckets_ok bs t =
     (distinct (map fst bs) \<and> (\<forall>e \<in> set bs. 0 \<le> bk_available (snd e) \<and> bk_updatedAt (snd e) \<le> t))"

lemma buckets_ok_of: "buckets_ok bs t \<Longrightarrow> map_of bs n = Some b \<Longrightarrow> 0 \<le> bk_available b \<and> bk_updatedAt b \<le> t"
  by (auto simp: buckets_ok_def dest!: map_of_SomeD)

lemma refill_rate: "u \<le> t \<Longrightarrow> 0 < l \<Longrightarrow> 0 \<le> (of_int (t - u) / 60000 * l :: rat)"
  by (intro mult_nonneg_nonneg divide_nonneg_nonneg) simp_all

lemma bucket_level_range:
  assumes "buckets_ok bs t" and "0 < l"
  shows "0 \<le> bucket_level bs n l t \<and> bucket_level bs n l t \<le> l"
proof (cases "map_of bs n")
  case (Some b)
  then show ?thesis
    using buckets_ok_of [OF assms(1) Some] refill_rate [of "bk_updatedAt b" t l] assms(2)
    by (simp add: bucket_level_def refilled_def MS_PER_MINUTE_def)
qed (use assms(2) in \<open>simp add: bucket_level_def\<close>)

lemma bucket_level_grows:
  assumes "0 < l" and "t \<le> t'"
  shows "bucket_level bs n l t' = min l (bucket_level bs n l t + of_int (t' - t) / 60000 * l)"
proof (cases "map_of bs n")
  case None
  then show ?thesis using refill_rate [OF assms(2,1)] by (simp add: bucket_level_def)
next
  case (Some b)
  define x where "x = (of_int (t - bk_updatedAt b) / 60000 * l :: rat)"
  define y where "y = (of_int (t' - t) / 60000 * l :: rat)"
  have xy: "of_int (t' - bk_updatedAt b) / 60000 * l = x + y" by (simp add: x_def y_def field_simps)
  have y: "0 \<le> y" unfolding y_def by (rule refill_rate [OF assms(2,1)])
  have "bucket_level bs n l t' = min l (bk_available b + (x + y))"
    unfolding xy [symmetric] using Some by (simp add: bucket_level_def refilled_def MS_PER_MINUTE_def)
  moreover have "bucket_level bs n l t = min l (bk_available b + x)"
    unfolding x_def using Some by (simp add: bucket_level_def refilled_def MS_PER_MINUTE_def)
  moreover have "min l (a + (x + y)) = min l (min l (a + x) + y)" for a
    using y by (simp add: min_def)
  ultimately show ?thesis by (simp add: y_def)
qed

lemma map_of_filter_distinct:
  "distinct (map fst bs) \<Longrightarrow>
     map_of (filter P bs) n = (case map_of bs n of None \<Rightarrow> None | Some b \<Rightarrow> if P (n, b) then Some b else None)"
proof (induction bs)
  case (Cons e bs)
  then show ?case
  proof (cases "fst e = n")
    case True
    with Cons.prems have "n \<notin> fst ` set bs" by auto
    then have "map_of bs n = None" "map_of (filter P bs) n = None" by (auto simp: map_of_eq_None_iff)
    with True show ?thesis by (cases e) auto
  qed auto
qed simp

text \<open>A swept bucket had been idle for a minute, so it was full: reading it again gives the limit.\<close>

lemma sweep_level:
  assumes "buckets_ok bs now" and "0 < l" and "now \<le> t"
  shows "bucket_level (sweep now bs) n l t = bucket_level bs n l t"
proof (cases "map_of bs n")
  case None
  then show ?thesis
    using assms(1) by (simp add: bucket_level_def sweep_def map_of_filter_distinct buckets_ok_def)
next
  case (Some b)
  have full: "bk_available (refilled b l t) = l" if "now - bk_updatedAt b \<ge> MS_PER_MINUTE"
  proof -
    have "60000 \<le> t - bk_updatedAt b" using that assms(3) by (simp add: MS_PER_MINUTE_def)
    then have "(60000 :: rat) \<le> of_int (t - bk_updatedAt b)" by (metis of_int_le_iff of_int_numeral)
    then have "1 \<le> (of_int (t - bk_updatedAt b) / 60000 :: rat)" by simp
    then have "l \<le> of_int (t - bk_updatedAt b) / 60000 * l"
      using assms(2) mult_right_mono [of 1 "of_int (t - bk_updatedAt b) / 60000" l] by simp
    then show ?thesis using buckets_ok_of [OF assms(1) Some] by (simp add: refilled_def MS_PER_MINUTE_def)
  qed
  show ?thesis
    using assms(1) Some full
    by (auto simp: bucket_level_def sweep_def map_of_filter_distinct buckets_ok_def split: if_splits)
qed

lemma sweep_ok: "buckets_ok bs t \<Longrightarrow> buckets_ok (sweep now bs) t"
  by (auto simp: buckets_ok_def sweep_def distinct_map_filter)

lemma set_ok:
  assumes "buckets_ok bs t" and "0 \<le> bk_available b" and "bk_updatedAt b \<le> t"
  shows "buckets_ok (map_set n b bs) t"
proof -
  have "e \<in> set (map_set n b bs) \<Longrightarrow> e \<in> set bs \<or> e = (n, b)" for e
    by (induction n b bs rule: map_set.induct) (auto split: if_splits)
  then show ?thesis using assms distinct_map_set by (fastforce simp: buckets_ok_def)
qed

lemma refill_props:
  assumes "refill bs n l t = (b, bs')" and "buckets_ok bs t" and "0 < l"
  shows "bk_available b = bucket_level bs n l t" and "bk_updatedAt b = t" and "buckets_ok bs' t"
    and "m \<noteq> n \<Longrightarrow> 0 < k \<Longrightarrow> t \<le> t' \<Longrightarrow> bucket_level bs' m k t' = bucket_level bs m k t'"
proof -
  show "bk_available b = bucket_level bs n l t" "bk_updatedAt b = t"
    using assms(1) by (auto simp: refill_def bucket_level_def refilled_def Let_def split: option.splits)
  then have "0 \<le> bk_available b" "bk_updatedAt b \<le> t" using bucket_level_range [OF assms(2,3)] by simp_all
  then show "buckets_ok bs' t"
    using assms(1,2) by (auto simp: refill_def Let_def split: option.splits intro!: set_ok sweep_ok)
  show "bucket_level bs' m k t' = bucket_level bs m k t'" if "m \<noteq> n" "0 < k" "t \<le> t'"
  proof (cases "map_of bs n")
    case None
    then have "bucket_level bs' m k t' = bucket_level (sweep t bs) m k t'"
      using assms(1) that(1) by (auto simp: refill_def Let_def bucket_level_def)
    then show ?thesis using sweep_level [OF assms(2) that(2,3)] by simp
  next
    case (Some c)
    then show ?thesis using assms(1) that(1) by (auto simp: refill_def bucket_level_def)
  qed
qed

lemma level_after_set:
  "bk_updatedAt b = t \<Longrightarrow> bk_available b \<le> l \<Longrightarrow> bucket_level (map_set n b bs) n l t = bk_available b"
  "m \<noteq> n \<Longrightarrow> bucket_level (map_set n b bs) m l t = bucket_level bs m l t"
  by (simp_all add: bucket_level_def refilled_def)

interpretation tb: rate_limiter bucket_consume bucket_debit buckets_ok bucket_level
proof
  fix bs t t' assume "buckets_ok bs t" and "t \<le> t'"
  then show "buckets_ok bs t'" by (auto simp: buckets_ok_def)
next
  fix bs t l n assume "buckets_ok bs t" and "(0 :: rat) < l"
  then show "0 \<le> bucket_level bs n l t \<and> bucket_level bs n l t \<le> l" by (rule bucket_level_range)
next
  fix bs t t' l n assume "buckets_ok bs t" and "(0 :: rat) < l" and "t \<le> t'"
  then show "bucket_level bs n l t' = min l (bucket_level bs n l t + of_int (t' - t) / 60000 * l)"
    by (intro bucket_level_grows)
next
  fix bs n r t d bs'
  assume con: "bucket_consume bs n r t = (d, bs')" and ok: "buckets_ok bs t"
    and r: "0 < rq_limitPerMinute r" "0 \<le> rq_cost r"
  obtain b bs1 where ref: "refill bs n (rq_limitPerMinute r) t = (b, bs1)" by fastforce
  note rp = refill_props [OF ref ok r(1)]
  define b' where "b' = (if rq_cost r \<le> bk_available b then b\<lparr>bk_available := bk_available b - rq_cost r\<rparr> else b)"
  have res: "bs' = map_set n b' bs1" "d = decide b' r (rq_cost r \<le> bk_available b)"
    using con ref by (auto simp: bucket_consume_def b'_def Let_def)
  have range: "0 \<le> bk_available b" "bk_available b \<le> rq_limitPerMinute r"
    using bucket_level_range [OF ok r(1), of n] rp(1) by simp_all
  then have b': "0 \<le> bk_available b'" "bk_available b' \<le> rq_limitPerMinute r" "bk_updatedAt b' = t"
    using r(2) rp(2) by (auto simp: b'_def)
  then show "buckets_ok bs' t" using rp(3) by (simp add: res(1) set_ok)
  show "(rd_allowed d \<longleftrightarrow> rq_cost r \<le> bucket_level bs n (rq_limitPerMinute r) t)
      \<and> bucket_level bs' n (rq_limitPerMinute r) t =
          bucket_level bs n (rq_limitPerMinute r) t - (if rd_allowed d then rq_cost r else 0)
      \<and> rd_remaining d = \<lfloor>bucket_level bs' n (rq_limitPerMinute r) t\<rfloor>"
    using b' rp(1) by (auto simp: res level_after_set decide_def Let_def b'_def)
  show "bucket_level bs' m l t' = bucket_level bs m l t'" if "m \<noteq> n" "0 < l" "t \<le> t'" for m l t'
    using rp(4) [OF that] that(1) by (simp add: res level_after_set)
next
  fix bs t n and r :: rate_request
  assume ok: "buckets_ok bs t" and r: "0 < rq_limitPerMinute r" "0 \<le> rq_cost r"
  obtain b bs1 where ref: "refill bs n (rq_limitPerMinute r) t = (b, bs1)" by fastforce
  note rp = refill_props [OF ref ok r(1)]
  define b' where "b' = b\<lparr>bk_available := max 0 (bk_available b - rq_cost r)\<rparr>"
  have res: "bucket_debit bs n r t = map_set n b' bs1" using ref by (simp add: bucket_debit_def b'_def)
  have "bk_available b \<le> rq_limitPerMinute r" using bucket_level_range [OF ok r(1), of n] rp(1) by simp
  then have b': "0 \<le> bk_available b'" "bk_available b' \<le> rq_limitPerMinute r" "bk_updatedAt b' = t"
    using r rp(2) by (auto simp: b'_def)
  then show "buckets_ok (bucket_debit bs n r t) t" using rp(3) by (simp add: res set_ok)
  show "bucket_level (bucket_debit bs n r t) n (rq_limitPerMinute r) t =
      max 0 (bucket_level bs n (rq_limitPerMinute r) t - rq_cost r)"
    using b' rp(1) by (simp add: res level_after_set) (simp add: b'_def)
  show "bucket_level (bucket_debit bs n r t) m l t' = bucket_level bs m l t'" if "m \<noteq> n" "0 < l" "t \<le> t'" for m l t'
    using rp(4) [OF that] that(1) by (simp add: res level_after_set)
qed

section \<open>Properties\<close>

text \<open>
  C16: a bucket never admits more than its burst and its rate. Over any sequence of calls in a
  stretch of time, on this and on other buckets and with the idle buckets swept whenever there are
  many, what one bucket admits is at most its budget at the start plus the limit per minute for
  the time that passed, so at most the limit times one plus the minutes passed.
\<close>

theorem rate_bound:
  assumes "admitted bucket_consume n bs calls = (x, bs')" and "buckets_ok bs t0" and "0 < limit"
    and "t0 \<le> t1" and "well_formed_calls n limit t0 t1 calls"
  shows "x \<le> limit * (1 + of_int (t1 - t0) / 60000)"
proof -
  have "x \<le> bucket_level bs n limit t0 + of_int (t1 - t0) / 60000 * limit"
    by (rule tb.admitted_bound [OF assms])
  moreover have "bucket_level bs n limit t0 \<le> limit" using bucket_level_range [OF assms(2,3)] by blast
  ultimately show ?thesis by (simp add: field_simps)
qed

lemma two_admitted:
  "admitted bucket_consume ''b'' [] [(''b'', \<lparr>rq_cost = 1, rq_limitPerMinute = 1\<rparr>, 0),
      (''b'', \<lparr>rq_cost = 1, rq_limitPerMinute = 1\<rparr>, 60000)] =
    (2, [(''b'', \<lparr>bk_available = 0, bk_updatedAt = 60000\<rparr>)])"
  by (simp add: bucket_consume_def refill_def refilled_def sweep_def SWEEP_THRESHOLD_def MS_PER_MINUTE_def
      decide_def Let_def)

theorem rate_bound_witness: "(2 :: rat) \<le> 1 * (1 + of_int (60000 - 0) / 60000)"
  by (rule rate_bound [OF two_admitted]) (simp_all add: buckets_ok_def well_formed_calls_def)

text \<open>
  Sweeping is invisible: dropping the idle buckets changes no budget that is read at the time
  of the sweep or later.
\<close>

theorem sweep_invisible:
  assumes "buckets_ok bs now" and "0 < l" and "now \<le> t"
  shows "bucket_level (sweep now bs) n l t = bucket_level bs n l t"
  using assms by (rule sweep_level)

definition limits_positive :: "rate_limits \<Rightarrow> api_key \<Rightarrow> bool" where
  "limits_positive cfg k =
     (0 < request_limit cfg k \<and> 0 < rl_requestsPerMinute cfg \<and> 0 < tokenLimitFor cfg k \<and> 0 < rl_tokensPerMinute cfg)"

text \<open>
  A request is let through only when all four budgets have room: at least one request in the
  key's and in the workspace's request bucket, and at least one token in the key's and in the
  workspace's token bucket, and it takes exactly one from each of the two request buckets.
\<close>

theorem admit_needs_budget:
  assumes "admit bucket_consume cfg bs k (\<lambda>_. now) = (Inr headers, bs')"
    and "buckets_ok bs now" and "limits_positive cfg k"
  shows "1 \<le> bucket_level bs (''req:key:'' @ key_id k) (request_limit cfg k) now
    \<and> 1 \<le> bucket_level bs (''req:ws:'' @ key_workspaceId k) (rl_requestsPerMinute cfg) now
    \<and> 1 \<le> bucket_level bs (''tok:key:'' @ key_id k) (tokenLimitFor cfg k) now
    \<and> 1 \<le> bucket_level bs (''tok:ws:'' @ key_workspaceId k) (rl_tokensPerMinute cfg) now
    \<and> bucket_level bs' (''req:key:'' @ key_id k) (request_limit cfg k) now
        = bucket_level bs (''req:key:'' @ key_id k) (request_limit cfg k) now - 1
    \<and> bucket_level bs' (''req:ws:'' @ key_workspaceId k) (rl_requestsPerMinute cfg) now
        = bucket_level bs (''req:ws:'' @ key_workspaceId k) (rl_requestsPerMinute cfg) now - 1"
proof -
  let ?n1 = "''req:key:'' @ key_id k" and ?n2 = "''req:ws:'' @ key_workspaceId k"
    and ?n3 = "''tok:key:'' @ key_id k" and ?n4 = "''tok:ws:'' @ key_workspaceId k"
  define r1 where "r1 = \<lparr>rq_cost = 1, rq_limitPerMinute = request_limit cfg k\<rparr>"
  define r2 where "r2 = \<lparr>rq_cost = 1, rq_limitPerMinute = rl_requestsPerMinute cfg\<rparr>"
  define r3 where "r3 = \<lparr>rq_cost = 0, rq_limitPerMinute = tokenLimitFor cfg k\<rparr>"
  define r4 where "r4 = \<lparr>rq_cost = 0, rq_limitPerMinute = rl_tokensPerMinute cfg\<rparr>"
  note rs = r1_def r2_def r3_def r4_def
  obtain d1 s1 where 1: "bucket_consume bs ?n1 r1 now = (d1, s1)" by fastforce
  obtain d2 s2 where 2: "bucket_consume s1 ?n2 r2 now = (d2, s2)" by fastforce
  obtain d3 s3 where 3: "bucket_consume s2 ?n3 r3 now = (d3, s3)" by fastforce
  obtain d4 s4 where 4: "bucket_consume s3 ?n4 r4 now = (d4, s4)" by fastforce
  have ok: "rd_allowed d1" "rd_allowed d2" "1 \<le> rd_remaining d3" "1 \<le> rd_remaining d4" "bs' = s4"
    using assms(1) 1 2 3 4 by (auto simp: admit_def rs split: if_splits)
  have pos: "0 < rq_limitPerMinute r1" "0 < rq_limitPerMinute r2" "0 < rq_limitPerMinute r3" "0 < rq_limitPerMinute r4"
    and cost: "0 \<le> rq_cost r1" "0 \<le> rq_cost r2" "0 \<le> rq_cost r3" "0 \<le> rq_cost r4"
    using assms(3) by (simp_all add: rs limits_positive_def)
  note i0 = assms(2)
  note i1 = tb.consume_inv [OF 1 i0 pos(1) cost(1)]
  note i2 = tb.consume_inv [OF 2 i1 pos(2) cost(2)]
  note i3 = tb.consume_inv [OF 3 i2 pos(3) cost(3)]
  note l1 = tb.consume_level [OF 1 i0 pos(1) cost(1)] and l2 = tb.consume_level [OF 2 i1 pos(2) cost(2)]
    and l3 = tb.consume_level [OF 3 i2 pos(3) cost(3)] and l4 = tb.consume_level [OF 4 i3 pos(4) cost(4)]
  note o1 = tb.consume_other [OF 1 i0 pos(1) cost(1)] and o2 = tb.consume_other [OF 2 i1 pos(2) cost(2)]
    and o3 = tb.consume_other [OF 3 i2 pos(3) cost(3)] and o4 = tb.consume_other [OF 4 i3 pos(4) cost(4)]
  have "1 \<le> bucket_level s3 ?n3 (rq_limitPerMinute r3) now" "1 \<le> bucket_level s4 ?n4 (rq_limitPerMinute r4) now"
    using ok(3,4) l3 l4 by (simp_all add: le_floor_iff)
  then show ?thesis
    using l1 l2 l3 l4 ok pos o1 [of ?n2] o1 [of ?n3] o1 [of ?n4] o2 [of ?n1] o2 [of ?n3] o2 [of ?n4]
      o3 [of ?n1] o3 [of ?n2] o3 [of ?n4] o4 [of ?n1] o4 [of ?n2]
    by (auto simp: rs)
qed

definition rate_key :: api_key where
  "rate_key = \<lparr>key_id = ''k'', key_workspaceId = ''w'', key_name = ''n'', key_keyHash = ''h'', key_prefix = ''p'',
     key_purpose = None, key_modelScope = None, key_spendLimitMicros = None, key_spentTotalMicros = 0,
     key_requestsPerMinute = Some 2, key_tokensPerMinute = None, key_expiresAt = None, key_lastUsedAt = None,
     key_revokedAt = None, key_createdByUserId = None, key_createdAt = 0\<rparr>"

definition rate_config :: rate_limits where
  "rate_config = \<lparr>rl_requestsPerMinute = 60, rl_tokensPerMinute = 1000\<rparr>"

lemmas rate_defs = admit_def request_limit_def tokenLimitFor_def rate_key_def rate_config_def
  bucket_consume_def refill_def refilled_def sweep_def SWEEP_THRESHOLD_def MS_PER_MINUTE_def decide_def Let_def

lemma rate_admitted: "\<exists>h. fst (admit bucket_consume rate_config [] rate_key (\<lambda>_. 7)) = Inr h"
  by (simp add: rate_defs)

end
