(* ===== verification/Sse.thy ===== *)
theory Sse
  imports Prelude
begin

text \<open>
  \<open>api/v1/sse.ts\<close>: splitting a buffer into complete server-sent events, reading the \<open>data:\<close> payload of
  an event and writing one. \<open>feed\<close> is the loop of \<open>relayStream\<close> that prepends the partial tail to the
  next chunk; the events do not depend on how the bytes were cut into chunks.
\<close>

section \<open>Definitions\<close>

abbreviation NL :: char where "NL \<equiv> CHR 0x0A"

definition EVENT_SEPARATOR :: string where "EVENT_SEPARATOR = [NL, NL]"

text \<open>The buffer cut behind the first blank line, if there is one.\<close>

fun break_event :: "string \<Rightarrow> (string \<times> string) option" where
  "break_event (a # b # cs) =
     (if a = NL \<and> b = NL then Some ([a, b], cs)
      else map_option (\<lambda>(e, r). (a # e, r)) (break_event (b # cs)))"
| "break_event _ = None"

lemma break_event_split: "break_event s = Some (e, r) \<Longrightarrow> s = e @ r \<and> e \<noteq> []"
  by (induction s arbitrary: e rule: break_event.induct) (auto split: if_splits)

function splitSseEvents :: "string \<Rightarrow> string list \<times> string" where
  "splitSseEvents buffer =
     (case break_event buffer of
        None \<Rightarrow> ([], buffer)
      | Some (event, rest) \<Rightarrow> (case splitSseEvents rest of (events, r) \<Rightarrow> (event # events, r)))"
  by pat_completeness auto
termination
  by (relation "measure length") (auto dest!: break_event_split)

declare splitSseEvents.simps [simp del]

fun join_lines :: "string list \<Rightarrow> string" where
  "join_lines [] = []"
| "join_lines [l] = l"
| "join_lines (l # ls) = l @ NL # join_lines ls"

definition strip_space :: "string \<Rightarrow> string" where
  "strip_space s = (case s of c # cs \<Rightarrow> if c = CHR '' '' then cs else s | [] \<Rightarrow> [])"

definition dataPayloadOf :: "string \<Rightarrow> string option" where
  "dataPayloadOf event =
     (let lines = filter (\<lambda>l. starts_with l ''data:'') (split_on NL event)
      in if lines = [] then None
         else Some (join_lines (map (\<lambda>l. strip_space (drop (length ''data:'') l)) lines)))"

definition formatDataEvent :: "string \<Rightarrow> string" where
  "formatDataEvent payload = ''data: '' @ payload @ EVENT_SEPARATOR"

definition SSE_HEARTBEAT :: string where "SSE_HEARTBEAT = '': ping'' @ EVENT_SEPARATOR"

definition SSE_DONE :: string where "SSE_DONE = formatDataEvent ''[DONE]''"

text \<open>The reading loop of \<open>relayStream\<close>: the events of each chunk, and the buffer that is left.\<close>

fun feed :: "string \<Rightarrow> string list \<Rightarrow> string list \<times> string" where
  "feed buffer [] = ([], buffer)"
| "feed buffer (chunk # chunks) =
     (case splitSseEvents (buffer @ chunk) of
        (events, rest) \<Rightarrow> (case feed rest chunks of (more, r) \<Rightarrow> (events @ more, r)))"

section \<open>Lemmas\<close>

lemma break_event_append: "break_event s = Some (e, r) \<Longrightarrow> break_event (s @ t) = Some (e, r @ t)"
  by (induction s arbitrary: e rule: break_event.induct) (auto split: if_splits)

lemma split_None: "break_event s = None \<Longrightarrow> splitSseEvents s = ([], s)"
  by (simp add: splitSseEvents.simps)

lemma split_Some:
  "break_event s = Some (e, r) \<Longrightarrow> splitSseEvents s = (e # fst (splitSseEvents r), snd (splitSseEvents r))"
  by (simp add: splitSseEvents.simps [of s] split: prod.split)

lemma split_append:
  "splitSseEvents (a @ b) =
     (fst (splitSseEvents a) @ fst (splitSseEvents (snd (splitSseEvents a) @ b)),
      snd (splitSseEvents (snd (splitSseEvents a) @ b)))"
proof (induction a rule: splitSseEvents.induct)
  case (1 a)
  show ?case
  proof (cases "break_event a")
    case None
    then show ?thesis by (simp add: split_None)
  next
    case (Some er)
    obtain e r where er: "er = (e, r)" by (cases er)
    then show ?thesis
      using 1 [OF Some, of e r] Some by (simp add: split_Some break_event_append [of a e r b])
  qed
qed

lemma split_concat: "concat (fst (splitSseEvents s)) @ snd (splitSseEvents s) = s"
proof (induction s rule: splitSseEvents.induct)
  case (1 s)
  show ?case
  proof (cases "break_event s")
    case None
    then show ?thesis by (simp add: split_None)
  next
    case (Some er)
    then show ?thesis using 1 [OF Some] by (cases er) (auto simp: split_Some dest: break_event_split)
  qed
qed

lemma split_rest: "break_event (snd (splitSseEvents s)) = None"
proof (induction s rule: splitSseEvents.induct)
  case (1 s)
  then show ?case by (cases "break_event s") (auto simp: split_None split_Some)
qed

lemma break_event_data:
  assumes "NL \<notin> set p"
  shows "break_event (p @ NL # NL # s) = Some (p @ [NL, NL], s)"
  using assms
proof (induction p)
  case (Cons c p)
  then show ?case by (cases "p @ NL # NL # s") auto
qed simp

lemma split_formatted:
  "NL \<notin> set p \<Longrightarrow> splitSseEvents (formatDataEvent p @ s) =
     (formatDataEvent p # fst (splitSseEvents s), snd (splitSseEvents s))"
  using break_event_data [of "''data: '' @ p" s] split_Some
  by (simp add: formatDataEvent_def EVENT_SEPARATOR_def)

lemma payload_formatted:
  assumes "NL \<notin> set p"
  shows "dataPayloadOf (formatDataEvent p) = Some p"
proof -
  have "split_on NL (''data: '' @ p @ [NL, NL]) = [''data: '' @ p, [], []]"
    using split_on_first [of NL "''data: '' @ p" "[NL]"] assms by simp
  then show ?thesis
    by (simp add: dataPayloadOf_def formatDataEvent_def EVENT_SEPARATOR_def starts_with_def strip_space_def)
qed

text \<open>
  The events the relay handles do not depend on the chunking. Feeding the chunks one after the
  other yields exactly the events and the tail of splitting the whole stream at once, nothing is
  lost or duplicated, and the tail holds no complete event.
\<close>

lemma sse_chunking:
  assumes "break_event buffer = None"
  shows "feed buffer chunks = splitSseEvents (buffer @ concat chunks)
    \<and> concat (fst (feed buffer chunks)) @ snd (feed buffer chunks) = buffer @ concat chunks
    \<and> break_event (snd (feed buffer chunks)) = None"
proof -
  have "feed buffer chunks = splitSseEvents (buffer @ concat chunks)"
    using assms
  proof (induction chunks arbitrary: buffer)
    case Nil
    then show ?case by (simp add: split_None)
  next
    case (Cons c cs)
    have "feed (snd (splitSseEvents (buffer @ c))) cs = splitSseEvents (snd (splitSseEvents (buffer @ c)) @ concat cs)"
      using Cons.IH split_rest by blast
    then show ?case
      using split_append [of "buffer @ c" "concat cs"] by (simp add: case_prod_beta)
  qed
  then show ?thesis using split_concat split_rest by simp
qed

section \<open>Properties\<close>

text \<open>
  What the relay writes reads back. A payload without line feeds, written as an event in front
  of anything else, is split off as exactly one event whose payload is the one that was written.
\<close>

theorem sse_roundtrip:
  assumes "NL \<notin> set payload"
  shows "fst (splitSseEvents (formatDataEvent payload @ s)) = formatDataEvent payload # fst (splitSseEvents s)
    \<and> dataPayloadOf (formatDataEvent payload) = Some payload"
  using assms by (simp add: split_formatted payload_formatted)

end
