(* ===== verification/Status_Projection.thy ===== *)
theory Status_Projection
  imports Js_Date
begin

text \<open>
  \<open>external-endpoints/status-projection.ts\<close>: what a verdict of the egress sidecar does to the row of an
  external endpoint, and when a verdict stops counting. The row of \<open>external_endpoints\<close> extends the
  record of the columns a verdict may write, so that \<open>{ ...row, ...patch }\<close> is the record extension.

  Times are integers in milliseconds; a report's \<open>checkedAt\<close> is the time its text parses to. A
  character is a byte of the code page 1252, where the ellipsis is \<open>0x85\<close>.
\<close>

section \<open>Rows and verdicts\<close>

datatype endpoint_status = Pending | Verified | Denied | Disabled

record status_patch =
  st_status :: endpoint_status
  st_lastCheckedAt :: "int option"
  st_lastStage :: "string option"
  st_lastReason :: "string option"
  st_measurementSeen :: "string option"
  st_measurementSource :: "string option"
  st_measurementInRegistry :: "bool option"
  st_evidenceDigestSeen :: "string option"
  st_pinnedCertFingerprint :: "string option"
  st_observedCertFingerprint :: "string option"
  st_lastSuccessAt :: "int option"
  st_lastFailureAt :: "int option"
  st_notServingSince :: "int option"
  st_consecutiveFailures :: int
  st_upstreamUnreachable :: "bool option"

record endpoint_row = status_patch +
  er_id :: string
  er_name :: string
  er_baseUrl :: string
  er_hostname :: string
  er_listenPort :: nat
  er_enabled :: bool
  er_pinnedEvidenceDigest :: "string option"
  er_apiKeyCiphertext :: string
  er_apiKeyPrefix :: string
  er_createdByUserId :: "string option"
  er_createdAt :: int
  er_updatedAt :: int

datatype event_kind =
    Registered | Verified_event | Denied_event | Digest_changed | Digest_pinned | Digest_unpinned
  | Measurement_changed | Disabled_event | Key_rotated | Outage | Recovered | Verdict_expired

record projected_event =
  pe_kind :: event_kind
  pe_stage :: "string option"
  pe_reason :: "string option"
  pe_measurement :: "string option"
  pe_evidenceDigest :: "string option"

record projected_verdict =
  pv_patch :: status_patch
  pv_events :: "projected_event list"
  pv_statusChanged :: bool
  pv_patchChanged :: bool

datatype refusal = Digest_not_pinned | Measurement_not_trusted | Digest_mismatch

fun refusal_name :: "refusal \<Rightarrow> string" where
  "refusal_name Digest_not_pinned = ''digest-not-pinned''"
| "refusal_name Measurement_not_trusted = ''measurement-not-trusted''"
| "refusal_name Digest_mismatch = ''digest-mismatch''"

record attested_root =
  ar_measurement :: "string option"
  ar_measurementSource :: "string option"
  ar_inRegistry :: "bool option"

record sidecar_report =
  sr_checkedAt :: "int option"
  sr_verified :: bool
  sr_stage :: "string option"
  sr_reason :: "string option"
  sr_refusal :: "refusal option"
  sr_unreachable :: "bool option"
  sr_attestedRoot :: "attested_root option"
  sr_certFingerprint :: "string option"
  sr_evidenceDigest :: "string option"

record sidecar_verdict =
  sv_endpoint :: string
  sv_admitted :: bool
  sv_reason :: "string option"
  sv_report :: "sidecar_report option"

section \<open>The projection\<close>

abbreviation ELLIPSIS :: char where "ELLIPSIS \<equiv> CHR 0x85"

definition clip :: "string option \<Rightarrow> nat \<Rightarrow> string option" where
  "clip value len =
     (if \<not> truthy value then None
      else let s = the value in if length s \<le> len then Some s else Some (take (len - 1) s @ [ELLIPSIS]))"

definition statusOf :: "sidecar_verdict \<Rightarrow> endpoint_status" where
  "statusOf v =
     (if sv_admitted v then Verified
      else case sv_report v of
             None \<Rightarrow> Pending
           | Some r \<Rightarrow> if sr_refusal r = Some Digest_not_pinned then Pending else Denied)"

record projection_clock =
  cl_now :: int
  cl_attestWindowMs :: int

record reported_check =
  rc_at :: int
  rc_stamped :: bool

definition checkOf :: "sidecar_report option \<Rightarrow> int \<Rightarrow> reported_check option" where
  "checkOf report now =
     (case report of
        None \<Rightarrow> None
      | Some r \<Rightarrow> (case sr_checkedAt r of
          Some t \<Rightarrow> Some \<lparr>rc_at = t, rc_stamped = True\<rparr>
        | None \<Rightarrow> Some \<lparr>rc_at = now, rc_stamped = False\<rparr>))"

definition expired_reason :: "int \<Rightarrow> string" where
  "expired_reason t =
     ''Verdict expired: the egress sidecar is answering, but the verdict it keeps repeating was formed at ''
     @ toISOString t @ '' and has not been re-attested since. ''
     @ ''Every model on this endpoint is refused until it is.''"

definition expiredAdmission :: "sidecar_verdict \<Rightarrow> reported_check option \<Rightarrow> projection_clock \<Rightarrow> string option" where
  "expiredAdmission v check clock =
     (if cl_attestWindowMs clock \<le> 0 \<or> \<not> sv_admitted v then None
      else case check of
             None \<Rightarrow> None
           | Some c \<Rightarrow>
               if cl_now clock - rc_at c < cl_attestWindowMs clock then None
               else clip (Some (expired_reason (rc_at c))) 255)"

text \<open>The four columns of the run: last success, last failure, since when, and how many in a row.\<close>

definition runOf ::
  "'a status_patch_scheme \<Rightarrow> endpoint_status \<Rightarrow> reported_check option \<Rightarrow> int option \<times> int option \<times> int option \<times> int" where
  "runOf row status check =
     (case check of
        None \<Rightarrow> (st_lastSuccessAt row, st_lastFailureAt row, st_notServingSince row, st_consecutiveFailures row)
      | Some c \<Rightarrow>
          if status = Verified then (Some (rc_at c), st_lastFailureAt row, None, 0)
          else
            let since = (case st_notServingSince row of Some t \<Rightarrow> Some t | None \<Rightarrow> Some (rc_at c))
            in if status = Pending then (st_lastSuccessAt row, st_lastFailureAt row, since, st_consecutiveFailures row)
               else (st_lastSuccessAt row, Some (rc_at c), since,
                     st_consecutiveFailures row
                       + (if rc_stamped c \<and> st_lastCheckedAt row \<noteq> Some (rc_at c) then 1 else 0)))"

definition or_else :: "'a option \<Rightarrow> 'a option \<Rightarrow> 'a option" where
  "or_else a b = (case a of Some x \<Rightarrow> Some x | None \<Rightarrow> b)"

definition patch_of :: "'a status_patch_scheme \<Rightarrow> sidecar_verdict \<Rightarrow> projection_clock \<Rightarrow> status_patch" where
  "patch_of row v clock =
     (let report = sv_report v;
          check = checkOf report (cl_now clock);
          expired = expiredAdmission v check clock;
          status = (if expired \<noteq> None then Pending else statusOf v);
          measurement = Option.bind (Option.bind report sr_attestedRoot) ar_measurement
      in case runOf row status check of (lastSuccessAt, lastFailureAt, notServingSince, consecutiveFailures) \<Rightarrow>
         \<lparr>st_status = status,
          st_lastCheckedAt = or_else (map_option rc_at check) (st_lastCheckedAt row),
          st_lastStage = (if expired \<noteq> None then None
             else or_else (map_option refusal_name (Option.bind report sr_refusal)) (Option.bind report sr_stage)),
          st_lastReason = or_else expired (clip (or_else (sv_reason v) (Option.bind report sr_reason)) 255),
          st_measurementSeen = measurement,
          st_measurementSource = Option.bind (Option.bind report sr_attestedRoot) ar_measurementSource,
          st_measurementInRegistry = (if truthy measurement
             then or_else (Option.bind (Option.bind report sr_attestedRoot) ar_inRegistry) (Some False) else None),
          st_evidenceDigestSeen = Option.bind report sr_evidenceDigest,
          st_pinnedCertFingerprint = (if status = Verified then Option.bind report sr_certFingerprint else None),
          st_observedCertFingerprint = (case report of
             Some r \<Rightarrow> if sr_verified r then sr_certFingerprint r else None | None \<Rightarrow> None),
          st_lastSuccessAt = lastSuccessAt, st_lastFailureAt = lastFailureAt,
          st_notServingSince = notServingSince, st_consecutiveFailures = consecutiveFailures,
          st_upstreamUnreachable = (case report of
             Some r \<Rightarrow> or_else (sr_unreachable r) (Some False) | None \<Rightarrow> st_upstreamUnreachable row)\<rparr>)"

definition events_of ::
  "'a status_patch_scheme \<Rightarrow> status_patch \<Rightarrow> bool \<Rightarrow> projected_event list" where
  "events_of row patch expired =
     (let event = (\<lambda>kind. \<lparr>pe_kind = kind, pe_stage = st_lastStage patch, pe_reason = st_lastReason patch,
            pe_measurement = st_measurementSeen patch, pe_evidenceDigest = st_evidenceDigestSeen patch\<rparr>);
          statusChanged = (st_status row \<noteq> st_status patch)
      in (if statusChanged \<and> expired then [event Verdict_expired]
          else if statusChanged \<and> st_status patch \<noteq> Pending
               then [event (if st_status patch = Verified then Verified_event else Denied_event)] else [])
         @ (if truthy (st_evidenceDigestSeen patch) \<and> truthy (st_evidenceDigestSeen row)
               \<and> st_evidenceDigestSeen row \<noteq> st_evidenceDigestSeen patch then [event Digest_changed] else [])
         @ (if truthy (st_measurementSeen patch) \<and> truthy (st_measurementSeen row)
               \<and> st_measurementSeen row \<noteq> st_measurementSeen patch then [event Measurement_changed] else []))"

definition projectVerdict :: "'a status_patch_scheme \<Rightarrow> sidecar_verdict \<Rightarrow> projection_clock \<Rightarrow> projected_verdict" where
  "projectVerdict row v clock =
     (let patch = patch_of row v clock;
          expired = expiredAdmission v (checkOf (sv_report v) (cl_now clock)) clock
      in \<lparr>pv_patch = patch, pv_events = events_of row patch (expired \<noteq> None),
          pv_statusChanged = (st_status row \<noteq> st_status patch),
          pv_patchChanged = (status_patch.truncate row \<noteq> patch)\<rparr>)"

section \<open>When a verdict stops counting\<close>

definition VERDICT_GRACE_POLLS :: int where "VERDICT_GRACE_POLLS = 12"

definition VERDICT_GRACE_FLOOR_MS :: int where "VERDICT_GRACE_FLOOR_MS = 30000"

definition verdictGraceMs :: "int \<Rightarrow> int" where
  "verdictGraceMs statusPollIntervalMs = max VERDICT_GRACE_FLOOR_MS (statusPollIntervalMs * VERDICT_GRACE_POLLS)"

definition VERDICT_ATTEST_INTERVALS :: int where "VERDICT_ATTEST_INTERVALS = 3"

definition verdictAttestWindowMs :: "int \<Rightarrow> int" where
  "verdictAttestWindowMs reattestIntervalMs = reattestIntervalMs * VERDICT_ATTEST_INTERVALS"

record verdict_clock =
  vc_confirmedAt :: "int option"
  vc_graceMs :: int
  vc_now :: int

definition lapse_reason :: "int option \<Rightarrow> string option" where
  "lapse_reason confirmedAt = clip (Some
     (''Verdict expired: the egress sidecar has not confirmed it since ''
      @ (case confirmedAt of Some t \<Rightarrow> toISOString t | None \<Rightarrow> ''this router started'')
      @ ''. Every model on this endpoint is refused until it does.'')) 255"

definition expireVerdict :: "'a status_patch_scheme \<Rightarrow> verdict_clock \<Rightarrow> projected_verdict option" where
  "expireVerdict row clock =
     (if st_status row \<noteq> Verified then None
      else if (case vc_confirmedAt clock of Some t \<Rightarrow> vc_now clock - t < vc_graceMs clock | None \<Rightarrow> False) then None
      else let reason = lapse_reason (vc_confirmedAt clock)
           in Some
             \<lparr>pv_patch =
                \<lparr>st_status = Pending, st_lastCheckedAt = None, st_lastStage = None, st_lastReason = reason,
                 st_measurementSeen = None, st_measurementSource = None, st_measurementInRegistry = None,
                 st_evidenceDigestSeen = None, st_pinnedCertFingerprint = None, st_observedCertFingerprint = None,
                 st_lastSuccessAt = st_lastSuccessAt row, st_lastFailureAt = st_lastFailureAt row,
                 st_notServingSince = Some (vc_now clock), st_consecutiveFailures = 0, st_upstreamUnreachable = None\<rparr>,
              pv_events = [\<lparr>pe_kind = Verdict_expired, pe_stage = None, pe_reason = reason, pe_measurement = None,
                 pe_evidenceDigest = st_evidenceDigestSeen row\<rparr>],
              pv_statusChanged = True, pv_patchChanged = True\<rparr>)"

definition with_patch :: "endpoint_row \<Rightarrow> status_patch \<Rightarrow> endpoint_row" where
  "with_patch row patch = status_patch.extend patch (status_patch.more row)"

section \<open>Lemmas\<close>

lemma or_else_simps [simp]:
  "or_else (Some x) b = Some x" "or_else None b = b" "or_else a None = a"
  by (simp_all add: or_else_def split: option.split)

lemma clip_bound: "clip v n = Some s \<Longrightarrow> 0 < n \<Longrightarrow> length s \<le> n \<and> s \<noteq> []"
  by (auto simp: clip_def truthy_iff Let_def split: if_splits)

lemma expired_iff:
  "expiredAdmission v check clock \<noteq> None \<longleftrightarrow>
     0 < cl_attestWindowMs clock \<and> sv_admitted v
     \<and> (\<exists>c. check = Some c \<and> cl_attestWindowMs clock \<le> cl_now clock - rc_at c)"
  by (auto simp: expiredAdmission_def clip_def truthy_iff expired_reason_def Let_def split: option.splits)

lemma status_patched:
  "st_status (patch_of row v clock) =
     (if expiredAdmission v (checkOf (sv_report v) (cl_now clock)) clock \<noteq> None then Pending else statusOf v)"
  by (simp add: patch_of_def Let_def split: prod.split)

text \<open>A verdict that admits, and whose own check is not too old.\<close>

definition live_admission :: "sidecar_verdict \<Rightarrow> projection_clock \<Rightarrow> bool" where
  "live_admission v clock \<longleftrightarrow> sv_admitted v \<and>
     (0 < cl_attestWindowMs clock \<longrightarrow>
        (case Option.bind (sv_report v) sr_checkedAt of
           Some t \<Rightarrow> cl_now clock - t < cl_attestWindowMs clock | None \<Rightarrow> True))"

lemma status_Verified: "st_status (patch_of row v clock) = Verified \<longleftrightarrow> live_admission v clock"
proof -
  have "expiredAdmission v (checkOf (sv_report v) (cl_now clock)) clock \<noteq> None \<longleftrightarrow>
      sv_admitted v \<and> \<not> live_admission v clock"
    unfolding expired_iff live_admission_def checkOf_def by (cases "sv_report v") (auto split: option.split)
  then show ?thesis
    unfolding status_patched by (auto simp: statusOf_def live_admission_def split: option.split)
qed

lemma patched_fields [simp]:
  "st_status (with_patch row p) = st_status p" "er_id (with_patch row p) = er_id row"
  "er_name (with_patch row p) = er_name row" "er_enabled (with_patch row p) = er_enabled row"
  "status_patch.truncate (with_patch row p) = p"
  by (cases row; simp add: with_patch_def status_patch.defs)+

text \<open>What the projection reads of the row it is about, and that reading its own result changes nothing.\<close>

definition run_columns :: "'a status_patch_scheme \<Rightarrow> int option \<times> int option \<times> int option \<times> int" where
  "run_columns row = (st_lastSuccessAt row, st_lastFailureAt row, st_notServingSince row, st_consecutiveFailures row)"

lemma runOf_stable:
  assumes "run_columns x = runOf row status check"
    and "\<And>c. check = Some c \<Longrightarrow> st_lastCheckedAt x = Some (rc_at c)"
  shows "runOf x status check = runOf row status check"
  using assms
  by (cases check; cases status) (auto simp: runOf_def run_columns_def Let_def split: option.splits)

lemma patch_columns:
  "run_columns (patch_of row v clock) = runOf row (st_status (patch_of row v clock)) (checkOf (sv_report v) (cl_now clock))"
  "st_lastCheckedAt (patch_of row v clock) = or_else (map_option rc_at (checkOf (sv_report v) (cl_now clock))) (st_lastCheckedAt row)"
  "st_upstreamUnreachable (patch_of row v clock) =
     (case sv_report v of Some r \<Rightarrow> or_else (sr_unreachable r) (Some False) | None \<Rightarrow> st_upstreamUnreachable row)"
  "st_evidenceDigestSeen (patch_of row v clock) = Option.bind (sv_report v) sr_evidenceDigest"
  "st_measurementSeen (patch_of row v clock) = Option.bind (Option.bind (sv_report v) sr_attestedRoot) ar_measurement"
  unfolding patch_of_def run_columns_def Let_def by (simp_all split: prod.split)

lemma patch_of_eqI:
  assumes "\<And>status. runOf x status (checkOf (sv_report v) (cl_now c')) = runOf y status (checkOf (sv_report v) (cl_now c))
      \<or> status \<noteq> st_status (patch_of y v c)"
    and "checkOf (sv_report v) (cl_now c') = checkOf (sv_report v) (cl_now c)"
    and "expiredAdmission v (checkOf (sv_report v) (cl_now c)) c' = expiredAdmission v (checkOf (sv_report v) (cl_now c)) c"
    and "or_else (map_option rc_at (checkOf (sv_report v) (cl_now c))) (st_lastCheckedAt x) =
         or_else (map_option rc_at (checkOf (sv_report v) (cl_now c))) (st_lastCheckedAt y)"
    and "sv_report v = None \<Longrightarrow> st_upstreamUnreachable x = st_upstreamUnreachable y"
  shows "patch_of x v c' = patch_of y v c"
proof -
  have run: "runOf x (if expiredAdmission v (checkOf (sv_report v) (cl_now c)) c \<noteq> None then Pending else statusOf v)
        (checkOf (sv_report v) (cl_now c)) =
      runOf y (if expiredAdmission v (checkOf (sv_report v) (cl_now c)) c \<noteq> None then Pending else statusOf v)
        (checkOf (sv_report v) (cl_now c))"
    using assms(1) [of "st_status (patch_of y v c)"] assms(2) by (simp add: status_patched)
  have reach: "(case sv_report v of None \<Rightarrow> st_upstreamUnreachable x | Some r \<Rightarrow> or_else (sr_unreachable r) (Some False)) =
      (case sv_report v of None \<Rightarrow> st_upstreamUnreachable y | Some r \<Rightarrow> or_else (sr_unreachable r) (Some False))"
    using assms(5) by (simp split: option.split)
  show ?thesis by (simp only: patch_of_def Let_def assms(2,3,4) run reach)
qed

lemma patch_of_stable:
  assumes "checkOf (sv_report v) (cl_now clock') = checkOf (sv_report v) (cl_now clock)"
    and "expiredAdmission v (checkOf (sv_report v) (cl_now clock)) clock' =
         expiredAdmission v (checkOf (sv_report v) (cl_now clock)) clock"
    and "status_patch.truncate x = patch_of row v clock"
  shows "patch_of x v clock' = patch_of row v clock"
proof (rule patch_of_eqI [OF _ assms(1,2)])
  let ?p = "patch_of row v clock" and ?c = "checkOf (sv_report v) (cl_now clock)"
  have x: "run_columns x = run_columns ?p" "st_lastCheckedAt x = st_lastCheckedAt ?p"
    "st_upstreamUnreachable x = st_upstreamUnreachable ?p"
    unfolding assms(3) [symmetric] by (simp_all add: status_patch.defs run_columns_def)
  show "runOf x status (checkOf (sv_report v) (cl_now clock')) = runOf row status ?c \<or> status \<noteq> st_status ?p" for status
    using runOf_stable [of x row "st_status ?p" ?c] x patch_columns(1,2) [of row v clock] assms(1) by auto
  show "or_else (map_option rc_at ?c) (st_lastCheckedAt x) = or_else (map_option rc_at ?c) (st_lastCheckedAt row)"
    using x(2) patch_columns(2) [of row v clock] by (cases ?c) simp_all
  show "sv_report v = None \<Longrightarrow> st_upstreamUnreachable x = st_upstreamUnreachable row"
    using x(3) patch_columns(3) [of row v clock] by simp
qed

section \<open>Properties\<close>

text \<open>
  An endpoint is \<open>verified\<close> exactly when the sidecar admits it and, where the verdict carries the
  time of its check, that check is younger than the attestation window. Only then is a certificate
  pinned, and a reason always fits its column.
\<close>

theorem projection_admits:
  fixes row :: endpoint_row
  shows "case pv_patch (projectVerdict row v clock) of p \<Rightarrow> (st_status p = Verified \<longleftrightarrow> live_admission v clock)
    \<and> (st_pinnedCertFingerprint p \<noteq> None \<longrightarrow> live_admission v clock)
    \<and> (\<forall>r. st_lastReason p = Some r \<longrightarrow> r \<noteq> [] \<and> length r \<le> 255)"
proof -
  define p where "p = pv_patch (projectVerdict row v clock)"
  have "st_pinnedCertFingerprint p = (if st_status p = Verified then Option.bind (sv_report v) sr_certFingerprint else None)"
    "st_lastReason p = or_else (expiredAdmission v (checkOf (sv_report v) (cl_now clock)) clock)
       (clip (or_else (sv_reason v) (Option.bind (sv_report v) sr_reason)) 255)"
    unfolding p_def projectVerdict_def patch_of_def Let_def by (simp_all split: prod.split)
  moreover have "expiredAdmission v (checkOf (sv_report v) (cl_now clock)) clock = Some r \<Longrightarrow> r \<noteq> [] \<and> length r \<le> 255" for r
    using clip_bound [of _ 255 r] by (auto simp: expiredAdmission_def split: if_splits option.splits)
  moreover have "st_status p = Verified \<longleftrightarrow> live_admission v clock"
    by (simp add: p_def projectVerdict_def Let_def status_Verified)
  ultimately show ?thesis
    using clip_bound [of _ 255] by (auto simp: p_def [symmetric] or_else_def split: option.splits if_splits)
qed

text \<open>
  A repetition is not an event. Reading the same verdict again, while it is as current as it was,
  changes no column of the row it already updated and appends nothing to the timeline.
\<close>

theorem projection_repeats_quietly:
  assumes row'_def: "row' = with_patch row (pv_patch (projectVerdict row v clock))"
    and stamped: "\<And>r. sv_report v = Some r \<Longrightarrow> sr_checkedAt r \<noteq> None"
    and current: "live_admission v clock' \<longleftrightarrow> live_admission v clock"
    and window: "cl_attestWindowMs clock' = cl_attestWindowMs clock"
  shows "pv_patchChanged (projectVerdict row' v clock') = False
    \<and> pv_statusChanged (projectVerdict row' v clock') = False \<and> pv_events (projectVerdict row' v clock') = []"
proof -
  have check: "checkOf (sv_report v) (cl_now clock') = checkOf (sv_report v) (cl_now clock)"
    using stamped by (auto simp: checkOf_def split: option.split)
  have "expiredAdmission v (checkOf (sv_report v) (cl_now clock)) clock' =
      expiredAdmission v (checkOf (sv_report v) (cl_now clock)) clock"
    using current window stamped
    by (auto simp: expiredAdmission_def live_admission_def checkOf_def split: option.splits)
  from patch_of_stable [OF check this, of row' row]
  have patch: "patch_of row' v clock' = patch_of row v clock"
    by (simp add: row'_def projectVerdict_def Let_def)
  have "status_patch.truncate row' = patch_of row v clock"
    by (simp add: row'_def projectVerdict_def Let_def)
  moreover from this have "st_status row' = st_status (patch_of row v clock)"
    "st_evidenceDigestSeen row' = st_evidenceDigestSeen (patch_of row v clock)"
    "st_measurementSeen row' = st_measurementSeen (patch_of row v clock)"
    by (metis status_patch.simps(1) status_patch.truncate_def,
        metis status_patch.simps(8) status_patch.truncate_def,
        metis status_patch.simps(5) status_patch.truncate_def)
  ultimately show ?thesis by (simp add: projectVerdict_def patch events_of_def Let_def)
qed

end
