(* ===== verification/Catalog.thy ===== *)
theory Catalog
  imports Status_Projection "HOL-Library.List_Lexorder"
begin

text \<open>
  The two catalogues: \<open>catalog/catalog.service.ts\<close>, which projects the configuration into the tables
  at boot, and \<open>external-endpoints/external-catalog.service.ts\<close>, which is rebuilt from the rows on every
  status pass and every admin mutation; with \<open>catalog/served-capabilities.ts\<close> and the entity of
  \<open>db/entities/model.entity.ts\<close>.

  A table is a list of rows, \<open>save\<close> replaces the row with the same primary key or appends one. The
  uniqueness of endpoint names in the configuration is not modelled. \<open>uuid\<close> supplies the new row ids.
\<close>

section \<open>Routes and capabilities\<close>

datatype route_kind = Chat | Completions | Embeddings

text \<open>A declared capability is one of the three routes.\<close>

datatype served_capability = Route route_kind | Tools | Streaming

definition servedCapabilities :: "route_kind list \<Rightarrow> served_capability list" where
  "servedCapabilities declared =
     (let generates = Chat \<in> set declared \<or> Completions \<in> set declared
      in (if Chat \<in> set declared then [Route Chat] else [])
         @ (if generates then [Route Completions] else [])
         @ (if Embeddings \<in> set declared then [Route Embeddings] else [])
         @ (if Chat \<in> set declared then [Tools] else [])
         @ (if generates then [Streaming] else []))"

definition servesRoute :: "route_kind list \<Rightarrow> route_kind \<Rightarrow> bool" where
  "servesRoute declared route = (Route route \<in> set (servedCapabilities declared))"

definition bridgesCompletions :: "route_kind list \<Rightarrow> bool" where
  "bridgesCompletions declared = (Chat \<in> set declared \<and> Completions \<notin> set declared)"

section \<open>Tables\<close>

datatype model_origin = Config_origin | External_origin

record model_row =
  mr_id :: string
  mr_name :: string
  mr_litellmModel :: string
  mr_origin :: model_origin
  mr_endpointId :: "string option"
  mr_externalEndpointId :: "string option"
  mr_contextLength :: int
  mr_capabilities :: "route_kind list"
  mr_promptPer1mMicros :: int
  mr_completionPer1mMicros :: int
  mr_enabled :: bool
  mr_updatedAt :: int

definition modelOriginIsExclusive :: "model_row \<Rightarrow> bool" where
  "modelOriginIsExclusive row =
     (if mr_origin row = Config_origin then mr_endpointId row \<noteq> None \<and> mr_externalEndpointId row = None
      else mr_endpointId row = None \<and> mr_externalEndpointId row \<noteq> None)"

type_synonym declared_image = "string \<times> string"

record config_endpoint_row =
  ce_id :: string
  ce_name :: string
  ce_hostname :: string
  ce_evidenceUrl :: "string option"
  ce_declaredImages :: "declared_image list option"
  ce_enabled :: bool
  ce_updatedAt :: int

text \<open>\<open>save\<close>: an upsert by primary key.\<close>

fun save_row :: "('r \<Rightarrow> string) \<Rightarrow> 'r \<Rightarrow> 'r list \<Rightarrow> 'r list" where
  "save_row key r [] = [r]"
| "save_row key r (x # xs) = (if key x = key r then r # xs else x # save_row key r xs)"

section \<open>The configured catalogue\<close>

record config_endpoint =
  cfe_name :: string
  cfe_hostname :: string
  cfe_evidenceUrl :: "string option"
  cfe_declaredImages :: "declared_image list option"
  cfe_enabled :: bool

record config_model =
  cfm_id :: string
  cfm_name :: string
  cfm_litellmModel :: string
  cfm_endpoint :: string
  cfm_contextLength :: int
  cfm_capabilities :: "route_kind list"
  cfm_promptPer1mMicros :: int
  cfm_completionPer1mMicros :: int
  cfm_enabled :: bool

record catalog_endpoint =
  ct_id :: string
  ct_name :: string
  ct_hostname :: string
  ct_declaredImages :: "declared_image list option"

record catalog_model =
  cm_id :: string
  cm_name :: string
  cm_litellmModel :: string
  cm_contextLength :: int
  cm_capabilities :: "route_kind list"
  cm_promptPer1mMicros :: int
  cm_completionPer1mMicros :: int
  cm_endpoint :: catalog_endpoint
  cm_updatedAt :: int

text \<open>The in-memory maps, in insertion order, and the two tables.\<close>

record catalog_state =
  cs_models :: "(string \<times> catalog_model) list"
  cs_endpoints :: "(string \<times> catalog_endpoint) list"
  cs_endpointRows :: "config_endpoint_row list"
  cs_modelRows :: "model_row list"

datatype catalog_error = Unknown_endpoint string string

definition in_scope :: "string list option \<Rightarrow> string \<Rightarrow> bool" where
  "in_scope scope m = (case scope of None \<Rightarrow> True | Some ids \<Rightarrow> m \<in> set ids)"

definition catalog_list :: "catalog_state \<Rightarrow> string list option \<Rightarrow> catalog_model list" where
  "catalog_list s scope = filter (\<lambda>m. in_scope scope (cm_id m)) (map snd (cs_models s))"

definition catalog_find :: "catalog_state \<Rightarrow> string \<Rightarrow> catalog_model option" where
  "catalog_find s m = map_of (cs_models s) m"

definition endpointById :: "catalog_state \<Rightarrow> string \<Rightarrow> catalog_endpoint option" where
  "endpointById s i = List.find (\<lambda>e. ct_id e = i) (map snd (cs_endpoints s))"

fun check_endpoints :: "config_endpoint list \<Rightarrow> config_model list \<Rightarrow> (catalog_error, unit) result" where
  "check_endpoints es [] = Inr ()"
| "check_endpoints es (m # ms) =
     (if cfm_endpoint m \<notin> cfe_name ` set es then Inl (Unknown_endpoint (cfm_id m) (cfm_endpoint m))
      else check_endpoints es ms)"

definition project_endpoint ::
  "(string \<Rightarrow> string option) \<Rightarrow> string \<Rightarrow> int \<Rightarrow> config_endpoint \<Rightarrow> catalog_state \<Rightarrow> catalog_state" where
  "project_endpoint idByName uuid now e s =
     (let i = (case idByName (cfe_name e) of Some i \<Rightarrow> i | None \<Rightarrow> uuid)
      in s\<lparr>cs_endpointRows := save_row ce_id
              \<lparr>ce_id = i, ce_name = cfe_name e, ce_hostname = cfe_hostname e, ce_evidenceUrl = cfe_evidenceUrl e,
               ce_declaredImages = cfe_declaredImages e, ce_enabled = True, ce_updatedAt = now\<rparr> (cs_endpointRows s),
           cs_endpoints := map_set (cfe_name e)
              \<lparr>ct_id = i, ct_name = cfe_name e, ct_hostname = cfe_hostname e,
               ct_declaredImages = cfe_declaredImages e\<rparr> (cs_endpoints s)\<rparr>)"

fun project_endpoints ::
  "(string \<Rightarrow> string option) \<Rightarrow> (nat \<Rightarrow> string) \<Rightarrow> nat \<Rightarrow> int \<Rightarrow> config_endpoint list \<Rightarrow> catalog_state \<Rightarrow> catalog_state" where
  "project_endpoints idByName uuid i now [] s = s"
| "project_endpoints idByName uuid i now (e # es) s =
     project_endpoints idByName uuid (Suc i) now es (project_endpoint idByName (uuid i) now e s)"

definition config_model_row :: "int \<Rightarrow> config_model \<Rightarrow> catalog_endpoint \<Rightarrow> model_row" where
  "config_model_row now m endpoint =
     \<lparr>mr_id = cfm_id m, mr_name = cfm_name m, mr_litellmModel = cfm_litellmModel m, mr_origin = Config_origin,
      mr_endpointId = Some (ct_id endpoint), mr_externalEndpointId = None,
      mr_contextLength = cfm_contextLength m, mr_capabilities = cfm_capabilities m,
      mr_promptPer1mMicros = cfm_promptPer1mMicros m,
      mr_completionPer1mMicros = cfm_completionPer1mMicros m, mr_enabled = True, mr_updatedAt = now\<rparr>"

definition project_model :: "int \<Rightarrow> config_model \<Rightarrow> catalog_state \<Rightarrow> catalog_state" where
  "project_model now m s =
     (case map_of (cs_endpoints s) (cfm_endpoint m) of
        None \<Rightarrow> s
      | Some endpoint \<Rightarrow>
          s\<lparr>cs_modelRows := save_row mr_id (config_model_row now m endpoint) (cs_modelRows s),
            cs_models := map_set (cfm_id m)
              \<lparr>cm_id = cfm_id m, cm_name = cfm_name m, cm_litellmModel = cfm_litellmModel m,
               cm_contextLength = cfm_contextLength m, cm_capabilities = cfm_capabilities m,
               cm_promptPer1mMicros = cfm_promptPer1mMicros m,
               cm_completionPer1mMicros = cfm_completionPer1mMicros m,
               cm_endpoint = endpoint, cm_updatedAt = now\<rparr> (cs_models s)\<rparr>)"

definition retire_config_models :: "string list \<Rightarrow> int \<Rightarrow> model_row list \<Rightarrow> model_row list" where
  "retire_config_models keptIds now rows =
     map (\<lambda>r. if mr_origin r = Config_origin \<and> mr_id r \<notin> set keptIds \<and> mr_enabled r
              then r\<lparr>mr_enabled := False, mr_updatedAt := now\<rparr> else r) rows"

definition retireEndpoints :: "string list \<Rightarrow> int \<Rightarrow> config_endpoint_row list \<Rightarrow> config_endpoint_row list" where
  "retireEndpoints keptIds now rows =
     map (\<lambda>r. if ce_id r \<notin> set keptIds \<and> ce_enabled r then r\<lparr>ce_enabled := False, ce_updatedAt := now\<rparr> else r) rows"

definition project ::
  "(nat \<Rightarrow> string) \<Rightarrow> int \<Rightarrow> config_endpoint list \<Rightarrow> config_model list \<Rightarrow> catalog_state
    \<Rightarrow> (catalog_error, catalog_state) result" where
  "project uuid now endpoints models s =
     (let enabledEndpoints = filter cfe_enabled endpoints; enabledModels = filter cfm_enabled models
      in res_bind (check_endpoints enabledEndpoints enabledModels) (\<lambda>_.
         let existing = filter (\<lambda>r. ce_name r \<in> cfe_name ` set enabledEndpoints) (cs_endpointRows s);
             idByName = map_of (rev (map (\<lambda>r. (ce_name r, ce_id r)) existing));
             s1 = project_endpoints idByName uuid 0 now enabledEndpoints (s\<lparr>cs_models := [], cs_endpoints := []\<rparr>);
             s2 = fold (project_model now) enabledModels s1
         in Inr (s2\<lparr>cs_modelRows := retire_config_models (map fst (cs_models s2)) now (cs_modelRows s2),
                    cs_endpointRows := retireEndpoints (map (\<lambda>e. ct_id (snd e)) (cs_endpoints s2)) now (cs_endpointRows s2)\<rparr>)))"

section \<open>The external catalogue\<close>

record external_endpoint =
  xe_id :: string
  xe_name :: string
  xe_hostname :: string
  xe_baseUrl :: string
  xe_listenPort :: nat
  xe_apiKeyCiphertext :: string
  xe_measurementSeen :: "string option"
  xe_evidenceDigestSeen :: "string option"

record external_catalog_model =
  xm_id :: string
  xm_name :: string
  xm_upstreamModel :: string
  xm_contextLength :: int
  xm_capabilities :: "route_kind list"
  xm_promptPer1mMicros :: int
  xm_completionPer1mMicros :: int
  xm_endpoint :: external_endpoint
  xm_updatedAt :: int

record unadmitted_model =
  um_id :: string
  um_endpointName :: string
  um_status :: endpoint_status
  um_stage :: "string option"
  um_reason :: "string option"

record catalogue_upstream =
  cu_id :: string
  cu_name :: string
  cu_hostname :: string
  cu_status :: endpoint_status
  cu_lastCheckedAt :: "int option"
  cu_notServingSince :: "int option"
  cu_measurementSeen :: "string option"
  cu_evidenceDigestSeen :: "string option"
  cu_evidenceDigestSeenHex :: "string option"

record catalogue_entry =
  cx_id :: string
  cx_name :: string
  cx_contextLength :: int
  cx_capabilities :: "route_kind list"
  cx_promptPer1mMicros :: int
  cx_completionPer1mMicros :: int
  cx_available :: bool
  cx_upstream :: catalogue_upstream

record external_catalog =
  xc_models :: "(string \<times> external_catalog_model) list"
  xc_unadmitted :: "(string \<times> unadmitted_model) list"
  xc_catalogue :: "catalogue_entry list"
  xc_admitting :: "string list"

definition empty_external_catalog :: external_catalog where
  "empty_external_catalog = \<lparr>xc_models = [], xc_unadmitted = [], xc_catalogue = [], xc_admitting = []\<rparr>"

definition external_list :: "external_catalog \<Rightarrow> string list option \<Rightarrow> external_catalog_model list" where
  "external_list c scope = filter (\<lambda>m. in_scope scope (xm_id m)) (map snd (xc_models c))"

definition external_find :: "external_catalog \<Rightarrow> string \<Rightarrow> external_catalog_model option" where
  "external_find c m = map_of (xc_models c) m"

definition findUnadmitted :: "external_catalog \<Rightarrow> string \<Rightarrow> unadmitted_model option" where
  "findUnadmitted c m = map_of (xc_unadmitted c) m"

definition routableEndpoints :: "external_catalog \<Rightarrow> nat" where
  "routableEndpoints c = length (remdups (xc_admitting c))"

text \<open>\<open>hex\<close> stands for \<open>evidenceDigestHex\<close>, \<open>None\<close> when it throws.\<close>

definition digestHexOrNull :: "(string \<Rightarrow> string option) \<Rightarrow> string option \<Rightarrow> string option" where
  "digestHexOrNull hex digest = (if truthy digest then hex (the digest) else None)"

definition catalogueEntryOf :: "(string \<Rightarrow> string option) \<Rightarrow> model_row \<Rightarrow> endpoint_row \<Rightarrow> catalogue_entry" where
  "catalogueEntryOf hex row e =
     \<lparr>cx_id = mr_id row, cx_name = mr_name row, cx_contextLength = mr_contextLength row,
      cx_capabilities = mr_capabilities row, cx_promptPer1mMicros = mr_promptPer1mMicros row,
      cx_completionPer1mMicros = mr_completionPer1mMicros row, cx_available = (st_status e = Verified),
      cx_upstream = \<lparr>cu_id = er_id e, cu_name = er_name e, cu_hostname = er_hostname e, cu_status = st_status e,
        cu_lastCheckedAt = st_lastCheckedAt e, cu_notServingSince = st_notServingSince e,
        cu_measurementSeen = st_measurementSeen e, cu_evidenceDigestSeen = st_evidenceDigestSeen e,
        cu_evidenceDigestSeenHex = digestHexOrNull hex (st_evidenceDigestSeen e)\<rparr>\<rparr>"

definition unadmitted_of :: "model_row \<Rightarrow> endpoint_row \<Rightarrow> unadmitted_model" where
  "unadmitted_of row e =
     \<lparr>um_id = mr_id row, um_endpointName = er_name e, um_status = st_status e,
      um_stage = st_lastStage e, um_reason = st_lastReason e\<rparr>"

definition external_model_of :: "model_row \<Rightarrow> endpoint_row \<Rightarrow> external_catalog_model" where
  "external_model_of row e =
     \<lparr>xm_id = mr_id row, xm_name = mr_name row, xm_upstreamModel = mr_litellmModel row,
      xm_contextLength = mr_contextLength row, xm_capabilities = mr_capabilities row,
      xm_promptPer1mMicros = mr_promptPer1mMicros row, xm_completionPer1mMicros = mr_completionPer1mMicros row,
      xm_endpoint = \<lparr>xe_id = er_id e, xe_name = er_name e, xe_hostname = er_hostname e, xe_baseUrl = er_baseUrl e,
        xe_listenPort = er_listenPort e, xe_apiKeyCiphertext = er_apiKeyCiphertext e,
        xe_measurementSeen = st_measurementSeen e, xe_evidenceDigestSeen = st_evidenceDigestSeen e\<rparr>,
      xm_updatedAt = mr_updatedAt row\<rparr>"

definition endpoint_for :: "(string \<times> endpoint_row) list \<Rightarrow> model_row \<Rightarrow> endpoint_row option" where
  "endpoint_for endpoints row =
     (if truthy (mr_externalEndpointId row) then map_of endpoints (the (mr_externalEndpointId row)) else None)"

definition rebuild_row ::
  "(string \<Rightarrow> string option) \<Rightarrow> (string \<times> endpoint_row) list \<Rightarrow> model_row \<Rightarrow> external_catalog \<Rightarrow> external_catalog" where
  "rebuild_row hex endpoints row c =
     (case endpoint_for endpoints row of
        None \<Rightarrow> c
      | Some e \<Rightarrow>
          let c' = c\<lparr>xc_catalogue := xc_catalogue c @ [catalogueEntryOf hex row e]\<rparr>
          in if st_status e \<noteq> Verified
             then c'\<lparr>xc_unadmitted := map_set (mr_id row) (unadmitted_of row e) (xc_unadmitted c')\<rparr>
             else c'\<lparr>xc_models := map_set (mr_id row) (external_model_of row e) (xc_models c')\<rparr>)"

definition enabled_by_id :: "endpoint_row list \<Rightarrow> (string \<times> endpoint_row) list" where
  "enabled_by_id rows = map (\<lambda>e. (er_id e, e)) (filter er_enabled rows)"

definition rebuild :: "(string \<Rightarrow> string option) \<Rightarrow> model_row list \<Rightarrow> endpoint_row list \<Rightarrow> external_catalog" where
  "rebuild hex models rows =
     (let candidates = sort_key mr_id (filter (\<lambda>r. mr_origin r = External_origin \<and> mr_enabled r) models);
          endpoints = enabled_by_id rows;
          c = fold (rebuild_row hex endpoints) candidates empty_external_catalog
      in c\<lparr>xc_admitting := map er_id (filter (\<lambda>e. st_status e = Verified) (map snd endpoints))\<rparr>)"

section \<open>Lemmas\<close>

text \<open>Exactly the declared routes are served, plus completions for a chat model; what is not declared is bridged.\<close>

lemma servesRoute_iff:
  "servesRoute declared r \<longleftrightarrow> r \<in> set declared \<or> (r = Completions \<and> bridgesCompletions declared)"
  by (cases r) (auto simp: servesRoute_def servedCapabilities_def bridgesCompletions_def Let_def)

definition admitted_by :: "(string \<times> endpoint_row) list \<Rightarrow> model_row \<Rightarrow> bool" where
  "admitted_by es row \<longleftrightarrow> (\<exists>e. endpoint_for es row = Some e \<and> st_status e = Verified)"

definition refused_by :: "(string \<times> endpoint_row) list \<Rightarrow> model_row \<Rightarrow> bool" where
  "refused_by es row \<longleftrightarrow> (\<exists>e. endpoint_for es row = Some e \<and> st_status e \<noteq> Verified)"

lemma rebuild_row_models:
  "xc_models (rebuild_row hex es row c) = (if admitted_by es row
     then map_set (mr_id row) (external_model_of row (the (endpoint_for es row))) (xc_models c) else xc_models c)"
  by (auto simp: rebuild_row_def admitted_by_def Let_def split: option.splits)

lemma rebuild_row_unadmitted:
  "xc_unadmitted (rebuild_row hex es row c) = (if refused_by es row
     then map_set (mr_id row) (unadmitted_of row (the (endpoint_for es row))) (xc_unadmitted c) else xc_unadmitted c)"
  by (auto simp: rebuild_row_def refused_by_def Let_def split: option.splits)

text \<open>Filling a map from rows with distinct keys: the entry of a key is that of its row.\<close>

lemma fold_map_set:
  assumes "\<And>row c. g (f row c) = (if P row then map_set (key row) (v row) (g c) else g c)"
    and "distinct (map key rs)"
  shows "map_of (g (fold f rs c)) k =
    (case List.find (\<lambda>row. key row = k \<and> P row) rs of Some row \<Rightarrow> Some (v row) | None \<Rightarrow> map_of (g c) k)"
  using assms(2)
proof (induction rs arbitrary: c)
  case (Cons r rs)
  have "key r = k \<Longrightarrow> List.find (\<lambda>row. key row = k \<and> P row) rs = None"
    using Cons.prems by (auto simp: find_None_iff) (metis imageI)
  then show ?case using Cons by (auto simp: assms(1) split: option.split)
qed simp

lemma find_distinct_key:
  assumes "distinct (map key rs)"
  shows "List.find (\<lambda>row. key row = k \<and> P row) rs = Some row \<longleftrightarrow> row \<in> set rs \<and> key row = k \<and> P row"
  using assms by (induction rs) (auto simp: image_iff)

abbreviation candidates :: "model_row list \<Rightarrow> model_row list" where
  "candidates models \<equiv> sort_key mr_id (filter (\<lambda>r. mr_origin r = External_origin \<and> mr_enabled r) models)"

lemma distinct_candidates: "distinct (map mr_id models) \<Longrightarrow> distinct (map mr_id (candidates models))"
  by (metis (no_types, lifting) distinct_map distinct_sort distinct_filter filter_is_subset inj_on_subset set_filter set_sort)

lemma external_find_iff:
  assumes "distinct (map mr_id models)"
  shows "external_find (rebuild hex models rows) m = Some x \<longleftrightarrow>
    (\<exists>row \<in> set models. mr_origin row = External_origin \<and> mr_enabled row \<and> mr_id row = m
       \<and> admitted_by (enabled_by_id rows) row
       \<and> x = external_model_of row (the (endpoint_for (enabled_by_id rows) row)))"
  using distinct_candidates [OF assms]
  unfolding external_find_def rebuild_def Let_def
  by (auto simp: fold_map_set [where g = xc_models and key = mr_id and P = "admitted_by (enabled_by_id rows)"
        and v = "\<lambda>row. external_model_of row (the (endpoint_for (enabled_by_id rows) row))", OF rebuild_row_models] find_distinct_key
      empty_external_catalog_def find_None_iff split: option.splits) (metis assms distinct_key_unique)+

lemma findUnadmitted_iff:
  assumes "distinct (map mr_id models)"
  shows "findUnadmitted (rebuild hex models rows) m = Some x \<longleftrightarrow>
    (\<exists>row \<in> set models. mr_origin row = External_origin \<and> mr_enabled row \<and> mr_id row = m
       \<and> refused_by (enabled_by_id rows) row
       \<and> x = unadmitted_of row (the (endpoint_for (enabled_by_id rows) row)))"
  using distinct_candidates [OF assms]
  unfolding findUnadmitted_def rebuild_def Let_def
  by (auto simp: fold_map_set [where g = xc_unadmitted and key = mr_id and P = "refused_by (enabled_by_id rows)"
        and v = "\<lambda>row. unadmitted_of row (the (endpoint_for (enabled_by_id rows) row))", OF rebuild_row_unadmitted] find_distinct_key
      empty_external_catalog_def find_None_iff split: option.splits) (metis assms distinct_key_unique)+

lemma endpoint_for_Some:
  "endpoint_for (enabled_by_id rows) row = Some e \<Longrightarrow>
     e \<in> set rows \<and> er_enabled e \<and> mr_externalEndpointId row = Some (er_id e)"
  by (auto simp: endpoint_for_def enabled_by_id_def truthy_iff dest!: map_of_SomeD split: if_splits)

text \<open>The boot projection of the configuration.\<close>

lemma save_row_keys: "key ` set (save_row key r rows) = insert (key r) (key ` set rows)"
  by (induction rows) auto

lemma save_row_distinct: "distinct (map key rows) \<Longrightarrow> distinct (map key (save_row key r rows))"
proof (induction rows)
  case (Cons x rows)
  then show ?case using save_row_keys [of key r rows] by auto
qed simp

lemma save_row_set:
  "distinct (map key rows) \<Longrightarrow> set (save_row key r rows) = insert r {x \<in> set rows. key x \<noteq> key r}"
  by (induction rows) (auto simp: image_iff)

lemma project_endpoints_frame:
  "cs_models (project_endpoints f uuid i now es s) = cs_models s"
  "cs_modelRows (project_endpoints f uuid i now es s) = cs_modelRows s"
  "fst ` set (cs_endpoints (project_endpoints f uuid i now es s)) = fst ` set (cs_endpoints s) \<union> cfe_name ` set es"
  by (induction es arbitrary: i s) (auto simp: project_endpoint_def Let_def keys_map_set)

lemma check_endpoints_iff: "check_endpoints es ms = Inr u \<longleftrightarrow> cfm_endpoint ` set ms \<subseteq> cfe_name ` set es"
  by (induction ms) auto

lemma check_endpoints_Inl: "check_endpoints es ms = Inl (Unknown_endpoint m e) \<Longrightarrow> e \<notin> cfe_name ` set es"
  by (induction ms) (auto split: if_splits)

definition config_row_ok :: "string set \<Rightarrow> model_row \<Rightarrow> bool" where
  "config_row_ok ids r \<longleftrightarrow> mr_id r \<in> ids \<and> mr_origin r = Config_origin \<and> mr_enabled r \<and> modelOriginIsExclusive r"

lemma project_model_effect:
  assumes "cfm_endpoint m \<in> fst ` set (cs_endpoints s)" "distinct (map mr_id (cs_modelRows s))"
  shows "cs_endpoints (project_model now m s) = cs_endpoints s
    \<and> fst ` set (cs_models (project_model now m s)) = insert (cfm_id m) (fst ` set (cs_models s))
    \<and> distinct (map mr_id (cs_modelRows (project_model now m s)))
    \<and> (\<exists>r. mr_id r = cfm_id m \<and> config_row_ok {cfm_id m} r
         \<and> set (cs_modelRows (project_model now m s)) = insert r {x \<in> set (cs_modelRows s). mr_id x \<noteq> cfm_id m})"
proof -
  obtain e where e: "map_of (cs_endpoints s) (cfm_endpoint m) = Some e"
    using assms(1) by (metis map_of_eq_None_iff not_Some_eq)
  have "config_row_ok {cfm_id m} (config_model_row now m e)" "mr_id (config_model_row now m e) = cfm_id m"
    by (simp_all add: config_row_ok_def modelOriginIsExclusive_def config_model_row_def)
  moreover from this have "set (save_row mr_id (config_model_row now m e) (cs_modelRows s)) =
      insert (config_model_row now m e) {x \<in> set (cs_modelRows s). mr_id x \<noteq> cfm_id m}"
    using save_row_set [OF assms(2)] by simp
  ultimately show ?thesis
    using assms(2) by (auto simp: project_model_def e keys_map_set save_row_distinct)
qed

lemma project_models_effect:
  assumes "cfm_endpoint ` set ms \<subseteq> fst ` set (cs_endpoints s)" "distinct (map mr_id (cs_modelRows s))"
  shows "fst ` set (cs_models (fold (project_model now) ms s)) = fst ` set (cs_models s) \<union> cfm_id ` set ms
    \<and> cs_endpoints (fold (project_model now) ms s) = cs_endpoints s
    \<and> (\<forall>r. mr_id r \<notin> cfm_id ` set ms \<longrightarrow>
         (r \<in> set (cs_modelRows (fold (project_model now) ms s)) \<longleftrightarrow> r \<in> set (cs_modelRows s)))
    \<and> (\<forall>r \<in> set (cs_modelRows (fold (project_model now) ms s)). mr_id r \<in> cfm_id ` set ms \<longrightarrow>
         config_row_ok (cfm_id ` set ms) r)"
  using assms
proof (induction ms arbitrary: s)
  case (Cons m ms)
  let ?s = "project_model now m s"
  note step = project_model_effect [of m s now]
  have "cfm_endpoint m \<in> fst ` set (cs_endpoints s)" using Cons.prems by simp
  with step Cons.prems(2) obtain r where r: "cs_endpoints ?s = cs_endpoints s"
    "fst ` set (cs_models ?s) = insert (cfm_id m) (fst ` set (cs_models s))" "distinct (map mr_id (cs_modelRows ?s))"
    "mr_id r = cfm_id m" "config_row_ok {cfm_id m} r"
    "set (cs_modelRows ?s) = insert r {x \<in> set (cs_modelRows s). mr_id x \<noteq> cfm_id m}"
    by blast
  have IH: "cfm_endpoint ` set ms \<subseteq> fst ` set (cs_endpoints ?s)" using Cons.prems r(1) by auto
  note IH = Cons.IH [OF IH r(3)]
  have old: "config_row_ok (cfm_id ` set (m # ms)) x"
    if "x \<in> set (cs_modelRows (fold (project_model now) ms ?s))" "mr_id x \<in> cfm_id ` set (m # ms)" for x
    using IH r(4-6) that by (cases "mr_id x \<in> cfm_id ` set ms") (auto simp: config_row_ok_def)
  have kept: "x \<in> set (cs_modelRows (fold (project_model now) ms ?s)) \<longleftrightarrow> x \<in> set (cs_modelRows s)"
    if "mr_id x \<notin> cfm_id ` set (m # ms)" for x
    using IH r(4,6) that by auto
  show ?case using IH r(1,2) old kept by auto
qed simp

section \<open>Properties\<close>

text \<open>
  The boot projection makes the catalogue what the configuration says. It refuses a configuration
  whose models name an endpoint that is not declared; otherwise a model can be looked up exactly
  when it is configured and enabled, every configured model is an enabled row of exclusive origin,
  every other configured row is retired, and the rows of external models are left as they are.
\<close>

theorem project_matches_config:
  fixes models :: "config_model list"
  assumes "distinct (map mr_id (cs_modelRows s))"
  shows "case project uuid now endpoints models s of
      Inl (Unknown_endpoint m e) \<Rightarrow> e \<notin> cfe_name ` set (filter cfe_enabled endpoints)
    | Inr s' \<Rightarrow>
        (catalog_find s' m \<noteq> None \<longleftrightarrow> m \<in> cfm_id ` set (filter cfm_enabled models))
        \<and> (\<forall>r \<in> set (cs_modelRows s'). mr_id r \<in> cfm_id ` set (filter cfm_enabled models) \<longrightarrow>
             mr_origin r = Config_origin \<and> mr_enabled r \<and> modelOriginIsExclusive r)
        \<and> (\<forall>r \<in> set (cs_modelRows s'). mr_origin r = Config_origin \<and> mr_enabled r \<longrightarrow>
             mr_id r \<in> cfm_id ` set (filter cfm_enabled models))
        \<and> (\<forall>r \<in> set (cs_modelRows s). mr_origin r = External_origin
             \<and> mr_id r \<notin> cfm_id ` set (filter cfm_enabled models) \<longrightarrow> r \<in> set (cs_modelRows s'))"
proof (cases "project uuid now endpoints models s")
  case (Inl err)
  then have "check_endpoints (filter cfe_enabled endpoints) (filter cfm_enabled models) = Inl err"
    by (simp add: project_def Let_def res_bind_eq_Inl)
  then show ?thesis
    using Inl check_endpoints_Inl by (cases err) fastforce
next
  case (Inr s')
  define ms where "ms = filter cfm_enabled models"
  define es where "es = filter cfe_enabled endpoints"
  define s1 where "s1 = project_endpoints
     (map_of (rev (map (\<lambda>r. (ce_name r, ce_id r)) (filter (\<lambda>r. ce_name r \<in> cfe_name ` set es) (cs_endpointRows s)))))
     uuid 0 now es (s\<lparr>cs_models := [], cs_endpoints := []\<rparr>)"
  define s2 where "s2 = fold (project_model now) ms s1"
  have ok: "cfm_endpoint ` set ms \<subseteq> cfe_name ` set es" and
    s': "s' = s2\<lparr>cs_modelRows := retire_config_models (map fst (cs_models s2)) now (cs_modelRows s2),
      cs_endpointRows := retireEndpoints (map (\<lambda>e. ct_id (snd e)) (cs_endpoints s2)) now (cs_endpointRows s2)\<rparr>"
    using Inr by (auto simp: project_def Let_def res_bind_eq_Inr check_endpoints_iff ms_def es_def s1_def s2_def)
  have s1: "cs_models s1 = []" "cs_modelRows s1 = cs_modelRows s" "fst ` set (cs_endpoints s1) = cfe_name ` set es"
    by (simp_all add: s1_def project_endpoints_frame)
  have eff: "fst ` set (cs_models s2) = cfm_id ` set ms"
    "\<And>r. mr_id r \<notin> cfm_id ` set ms \<Longrightarrow> r \<in> set (cs_modelRows s2) \<longleftrightarrow> r \<in> set (cs_modelRows s)"
    "\<And>r. r \<in> set (cs_modelRows s2) \<Longrightarrow> mr_id r \<in> cfm_id ` set ms \<Longrightarrow> config_row_ok (cfm_id ` set ms) r"
    using project_models_effect [of ms s1 now] ok s1 assms by (simp_all add: s2_def)
  have keep: "set (map fst (cs_models s2)) = cfm_id ` set ms" using eff(1) by simp
  have rows: "r' \<in> set (cs_modelRows s') \<longleftrightarrow> (\<exists>r \<in> set (cs_modelRows s2).
      r' = (if mr_origin r = Config_origin \<and> mr_id r \<notin> cfm_id ` set ms \<and> mr_enabled r
            then r\<lparr>mr_enabled := False, mr_updatedAt := now\<rparr> else r))" for r'
    unfolding s' retire_config_models_def keep by auto
  have "catalog_find s' m \<noteq> None \<longleftrightarrow> m \<in> cfm_id ` set ms"
    unfolding catalog_find_def s' using eff(1) by (simp add: map_of_eq_None_iff)
  moreover have "mr_origin r = Config_origin \<and> mr_enabled r \<and> modelOriginIsExclusive r"
    if "r \<in> set (cs_modelRows s')" "mr_id r \<in> cfm_id ` set ms" for r
    using that eff(3) unfolding rows by (auto simp: config_row_ok_def split: if_splits)
  moreover have "mr_id r \<in> cfm_id ` set ms"
    if "r \<in> set (cs_modelRows s')" "mr_origin r = Config_origin" "mr_enabled r" for r
  proof -
    note prems = that
    obtain r0 where "r = (if mr_origin r0 = Config_origin \<and> mr_id r0 \<notin> cfm_id ` set ms \<and> mr_enabled r0
        then r0\<lparr>mr_enabled := False, mr_updatedAt := now\<rparr> else r0)"
      using prems(1) unfolding rows by blast
    then show ?thesis using prems(2,3) by (simp split: if_splits)
  qed
  moreover have "r \<in> set (cs_modelRows s')"
    if "r \<in> set (cs_modelRows s)" "mr_origin r = External_origin" "mr_id r \<notin> cfm_id ` set ms" for r
    using that eff(2) [of r] unfolding rows by (auto intro!: bexI [of _ r])
  ultimately show ?thesis using Inr by (auto simp: ms_def)
qed

end
