(* ===== verification/Openai_Error.thy ===== *)
theory Openai_Error
  imports Json
begin

text \<open>
  \<open>api/v1/openai-error.ts\<close>, the error contract of \<open>/v1\<close>, and \<open>api/v1/model-demand.ts\<close>, which reads the
  demand for a model off such an error. A character is a byte of the code page 1252, in which the
  ellipsis is \<open>0x85\<close>, so that the length of a string is the number of its characters. What a handler
  can throw is a \<open>thrown\<close>: an error of the contract or any other exception.
\<close>

section \<open>Errors\<close>

datatype openai_error_type =
    Invalid_request_error | Authentication_error | Insufficient_credits_error | Permission_error
  | Rate_limit_error | Upstream_error | Gatekeeper_error | Server_error

fun type_name :: "openai_error_type \<Rightarrow> string" where
  "type_name Invalid_request_error = ''invalid_request_error''"
| "type_name Authentication_error = ''authentication_error''"
| "type_name Insufficient_credits_error = ''insufficient_credits''"
| "type_name Permission_error = ''permission_error''"
| "type_name Rate_limit_error = ''rate_limit_error''"
| "type_name Upstream_error = ''upstream_error''"
| "type_name Gatekeeper_error = ''gatekeeper_error''"
| "type_name Server_error = ''server_error''"

type_synonym headers = "(string \<times> string) list"

record openai_error =
  err_status :: int
  err_type :: openai_error_type
  err_code :: string
  err_message :: string
  err_param :: "string option"
  err_headers :: headers

abbreviation QUOTE :: char where "QUOTE \<equiv> CHR 0x22"

definition quoted :: "string \<Rightarrow> string" where "quoted s = QUOTE # s @ [QUOTE]"

definition toBody :: "openai_error \<Rightarrow> json" where
  "toBody e = JObj [(''error'', JObj (
     [(''message'', JStr (err_message e)), (''type'', JStr (type_name (err_type e))), (''code'', JStr (err_code e))]
     @ (if truthy (err_param e) then [(''param'', JStr (the (err_param e)))] else [])))]"

text \<open>The constructor with the optional fields left out.\<close>

definition plain_error :: "int \<Rightarrow> openai_error_type \<Rightarrow> string \<Rightarrow> string \<Rightarrow> openai_error" where
  "plain_error status type code message =
     \<lparr>err_status = status, err_type = type, err_code = code, err_message = message,
      err_param = None, err_headers = []\<rparr>"

definition invalidJson :: openai_error where
  "invalidJson = plain_error 400 Invalid_request_error ''invalid_json'' ''Request body is not valid JSON.''"

definition missingField :: "string \<Rightarrow> openai_error" where
  "missingField param =
     (plain_error 400 Invalid_request_error ''missing_field'' (''Missing required field '' @ quoted param @ ''.''))
       \<lparr>err_param := Some param\<rparr>"

definition unsupportedParameter :: "string \<Rightarrow> string \<Rightarrow> openai_error" where
  "unsupportedParameter param message =
     (plain_error 400 Invalid_request_error ''unsupported_parameter'' message)\<lparr>err_param := Some param\<rparr>"

definition contextLengthExceeded :: "string \<Rightarrow> openai_error" where
  "contextLengthExceeded message =
     (plain_error 400 Invalid_request_error ''context_length_exceeded'' message)\<lparr>err_param := Some ''messages''\<rparr>"

definition upstreamRejectedRequest :: "string \<Rightarrow> int \<Rightarrow> int \<Rightarrow> string \<Rightarrow> string option \<Rightarrow> openai_error" where
  "upstreamRejectedRequest who status upstreamStatus detail param =
     (plain_error status Invalid_request_error ''upstream_invalid_request''
       (if detail \<noteq> []
        then who @ '' rejected this request as invalid ('' @ show_int upstreamStatus @ ''): '' @ detail
        else who @ '' rejected this request as invalid ('' @ show_int upstreamStatus @ '') and gave no reason. ''
             @ ''Retrying it unchanged will fail the same way.''))
       \<lparr>err_param := (if truthy param then param else None)\<rparr>"

definition invalidApiKey :: openai_error where
  "invalidApiKey = plain_error 401 Authentication_error ''invalid_api_key''
     (''Incorrect API key provided. Send it as '' @ quoted (''Authorization: Bearer sk-tee-v1-'' @ [CHR 0x85]) @ ''.'')"

definition apiKeyRevoked :: openai_error where
  "apiKeyRevoked = plain_error 401 Authentication_error ''api_key_revoked'' ''This API key has been revoked.''"

definition apiKeyExpired :: openai_error where
  "apiKeyExpired = plain_error 401 Authentication_error ''api_key_expired'' ''This API key has expired.''"

definition insufficientCredits :: openai_error where
  "insufficientCredits = plain_error 402 Insufficient_credits_error ''insufficient_credits''
     ''The workspace has no credit left. Top up to keep routing requests.''"

definition keySpendLimitReached :: openai_error where
  "keySpendLimitReached = plain_error 402 Insufficient_credits_error ''key_spend_limit_reached''
     ''This API key has reached its spend limit.''"

definition modelNotInKeyScope :: "string \<Rightarrow> openai_error" where
  "modelNotInKeyScope model =
     (plain_error 403 Permission_error ''model_not_in_key_scope''
       (''This API key is not scoped to model '' @ quoted model @ ''.''))\<lparr>err_param := Some ''model''\<rparr>"

definition modelNotFound :: "string \<Rightarrow> openai_error" where
  "modelNotFound model =
     (plain_error 404 Invalid_request_error ''model_not_found''
       (''The model '' @ quoted model @ '' does not exist or is not available to this key.''))
       \<lparr>err_param := Some ''model''\<rparr>"

definition notFound :: openai_error where
  "notFound = plain_error 404 Invalid_request_error ''not_found'' ''Unknown endpoint.''"

text \<open>\<open>toFixed(1)\<close> picks the closest tenth, the larger one when two are as close.\<close>

definition mebibytes :: "nat \<Rightarrow> string" where
  "mebibytes bytes =
     (let unit = 1024 * 1024
      in (if bytes mod unit = 0 then show_nat (bytes div unit)
          else let tenths = (bytes * 20 + unit) div (2 * unit)
               in show_nat (tenths div 10) @ ''.'' @ show_nat (tenths mod 10)) @ '' MiB'')"

definition requestTooLarge :: "nat option \<Rightarrow> openai_error" where
  "requestTooLarge limitBytes =
     plain_error 413 Invalid_request_error ''request_too_large''
       (case limitBytes of
          Some n \<Rightarrow> if n \<noteq> 0 then ''Request body is larger than the '' @ mebibytes n @ '' this router accepts.''
                    else ''Request body is larger than this router accepts.''
        | None \<Rightarrow> ''Request body is larger than this router accepts.'')"

definition rate_limited :: "string \<Rightarrow> headers \<Rightarrow> openai_error" where
  "rate_limited message hs = (plain_error 429 Rate_limit_error ''rate_limit_exceeded'' message)\<lparr>err_headers := hs\<rparr>"

definition backendUnavailable :: "string \<Rightarrow> openai_error" where
  "backendUnavailable message = plain_error 502 Upstream_error ''backend_unavailable'' message"

definition backendError :: "string \<Rightarrow> openai_error" where
  "backendError message = plain_error 502 Upstream_error ''backend_error'' message"

definition upstreamTimeout :: "string \<Rightarrow> openai_error" where
  "upstreamTimeout message = plain_error 504 Upstream_error ''upstream_timeout'' message"

definition no_store :: headers where "no_store = [(''Cache-Control'', ''no-store'')]"

definition attestationFailed :: "string \<Rightarrow> openai_error" where
  "attestationFailed message =
     (plain_error 503 Gatekeeper_error ''attestation_failed'' message)\<lparr>err_headers := no_store\<rparr>"

definition attestationRevoked :: "string \<Rightarrow> openai_error" where
  "attestationRevoked message =
     (plain_error 503 Gatekeeper_error ''attestation_revoked'' message)\<lparr>err_headers := no_store\<rparr>"

definition internal_error :: openai_error where
  "internal_error = plain_error 500 Server_error ''internal'' ''The router failed to handle this request.''"

datatype 'x thrown = Openai openai_error | Exception 'x

fun asOpenAiError :: "'x thrown \<Rightarrow> openai_error" where
  "asOpenAiError (Openai e) = e"
| "asOpenAiError (Exception _) = internal_error"

lemmas openai_errors =
  plain_error_def invalidJson_def missingField_def unsupportedParameter_def contextLengthExceeded_def
  upstreamRejectedRequest_def invalidApiKey_def apiKeyRevoked_def apiKeyExpired_def insufficientCredits_def
  keySpendLimitReached_def modelNotInKeyScope_def modelNotFound_def notFound_def requestTooLarge_def
  rate_limited_def backendUnavailable_def backendError_def upstreamTimeout_def attestationFailed_def
  attestationRevoked_def internal_error_def

section \<open>Model demand\<close>

definition MAX_SLUG_LENGTH :: nat where "MAX_SLUG_LENGTH = 64"

definition slug_alnum :: "char \<Rightarrow> bool" where
  "slug_alnum c \<longleftrightarrow> is_digit c \<or> (97 \<le> (of_char c :: nat) \<and> (of_char c :: nat) \<le> 122)"

definition slug_inner :: "char \<Rightarrow> bool" where
  "slug_inner c \<longleftrightarrow> slug_alnum c \<or> c \<in> set ''._:/+-''"

text \<open>\<open>SLUG_SHAPE\<close>: identifier characters throughout, alphanumeric at both ends.\<close>

definition SLUG_SHAPE :: "string \<Rightarrow> bool" where
  "SLUG_SHAPE s \<longleftrightarrow> s \<noteq> [] \<and> slug_alnum (hd s) \<and> slug_alnum (last s) \<and> list_all slug_inner s"

definition UNPARSEABLE_SLUG :: string where "UNPARSEABLE_SLUG = ''unparseable''"

definition requestedModelSlug :: "json_object \<Rightarrow> string option" where
  "requestedModelSlug body =
     (case json_string (map_of body ''model'') of
        None \<Rightarrow> None
      | Some requested \<Rightarrow>
          let trimmed = to_lower (trim requested)
          in if trimmed = [] then None
             else if length trimmed \<le> MAX_SLUG_LENGTH \<and> SLUG_SHAPE trimmed then Some trimmed
             else Some UNPARSEABLE_SLUG)"

datatype demand_result = Served | Unknown_model | Out_of_key_scope | Not_verified | Unsupported_route

definition resultOf :: "'x thrown \<Rightarrow> demand_result option" where
  "resultOf e =
     (case e of
        Exception _ \<Rightarrow> None
      | Openai e \<Rightarrow>
          if err_code e = ''model_not_found'' then Some Unknown_model
          else if err_code e = ''model_not_in_key_scope'' then Some Out_of_key_scope
          else if err_code e = ''attestation_failed'' \<or> err_code e = ''attestation_revoked'' then Some Not_verified
          else if err_code e = ''unsupported_parameter''
               then (if err_param e = Some ''model'' then Some Unsupported_route else None)
          else None)"

section \<open>Lemmas\<close>

text \<open>Whatever leaves the deployment as a model slug is bounded and has an identifier's shape.\<close>

lemma slug_bounded:
  "requestedModelSlug body = Some s \<Longrightarrow> length s \<le> MAX_SLUG_LENGTH \<and> SLUG_SHAPE s"
  by (auto simp: requestedModelSlug_def Let_def UNPARSEABLE_SLUG_def SLUG_SHAPE_def slug_alnum_def
      slug_inner_def MAX_SLUG_LENGTH_def split: option.splits if_splits)

lemma slug_reads_model_only:
  "map_of body ''model'' = map_of body' ''model'' \<Longrightarrow> requestedModelSlug body = requestedModelSlug body'"
  by (simp add: requestedModelSlug_def)

end
