(* ===== verification/Gateway_Types.thy ===== *)
theory Gateway_Types
  imports Catalog Metering Rate_Limit Openai_Error
begin

text \<open>
  \<open>api/v1/gateway.types.ts\<close> and \<open>api/v1/routed-model.ts\<close>: what admission resolves and the forwarding
  path carries. A number of the catalogue is an integer, the
  workspace of an authenticated key is named by the key's \<open>workspaceId\<close>.
\<close>

section \<open>Routes\<close>

fun UPSTREAM_PATHS :: "route_kind \<Rightarrow> string" where
  "UPSTREAM_PATHS Chat = ''/v1/chat/completions''"
| "UPSTREAM_PATHS Completions = ''/v1/completions''"
| "UPSTREAM_PATHS Embeddings = ''/v1/embeddings''"

fun kind_name :: "route_kind \<Rightarrow> string" where
  "kind_name Chat = ''chat''"
| "kind_name Completions = ''completions''"
| "kind_name Embeddings = ''embeddings''"

section \<open>Models\<close>

record routed_endpoint =
  ep_id :: string
  ep_name :: string
  ep_hostname :: string

record external_route =
  xr_baseUrl :: string
  xr_apiKeyCiphertext :: string
  xr_evidenceDigestSeen :: "string option"
  xr_measurementSeen :: "string option"

record routed_model =
  rm_id :: string
  rm_name :: string
  rm_upstreamModel :: string
  rm_contextLength :: int
  rm_capabilities :: "route_kind list"
  rm_promptPer1mMicros :: int
  rm_completionPer1mMicros :: int
  rm_origin :: model_origin
  rm_endpoint :: routed_endpoint
  rm_external :: "external_route option"
  rm_updatedAt :: int

definition routedConfigModel :: "catalog_model \<Rightarrow> routed_model" where
  "routedConfigModel m =
     \<lparr>rm_id = cm_id m, rm_name = cm_name m, rm_upstreamModel = cm_litellmModel m,
      rm_contextLength = cm_contextLength m, rm_capabilities = cm_capabilities m,
      rm_promptPer1mMicros = cm_promptPer1mMicros m, rm_completionPer1mMicros = cm_completionPer1mMicros m,
      rm_origin = Config_origin,
      rm_endpoint = \<lparr>ep_id = ct_id (cm_endpoint m), ep_name = ct_name (cm_endpoint m),
        ep_hostname = ct_hostname (cm_endpoint m)\<rparr>,
      rm_external = None, rm_updatedAt = cm_updatedAt m\<rparr>"

definition routedExternalModel :: "external_catalog_model \<Rightarrow> routed_model" where
  "routedExternalModel m =
     \<lparr>rm_id = xm_id m, rm_name = xm_name m, rm_upstreamModel = xm_upstreamModel m,
      rm_contextLength = xm_contextLength m, rm_capabilities = xm_capabilities m,
      rm_promptPer1mMicros = xm_promptPer1mMicros m, rm_completionPer1mMicros = xm_completionPer1mMicros m,
      rm_origin = External_origin,
      rm_endpoint = \<lparr>ep_id = xe_id (xm_endpoint m), ep_name = xe_name (xm_endpoint m),
        ep_hostname = xe_hostname (xm_endpoint m)\<rparr>,
      rm_external = Some
        \<lparr>xr_baseUrl = ''http://127.0.0.1:'' @ show_nat (xe_listenPort (xm_endpoint m)),
         xr_apiKeyCiphertext = xe_apiKeyCiphertext (xm_endpoint m),
         xr_evidenceDigestSeen = xe_evidenceDigestSeen (xm_endpoint m),
         xr_measurementSeen = xe_measurementSeen (xm_endpoint m)\<rparr>,
      rm_updatedAt = xm_updatedAt m\<rparr>"

section \<open>Requests\<close>

record gateway_context =
  gc_kind :: route_kind
  gc_generationId :: string
  gc_model :: routed_model
  gc_auth :: authenticated_key
  gc_body :: json_object
  gc_stream :: bool
  gc_upstreamPath :: string
  gc_bridged :: bool
  gc_suppressUsageChunk :: bool
  gc_coverage :: "evidence_coverage option"
  gc_evidenceDigest :: "string option"
  gc_rateLimitHeaders :: rate_headers
  gc_requestId :: "string option"
  gc_clientIp :: "string option"
  gc_client :: string
  gc_startedAt :: int

record generation_outcome =
  go_promptTokens :: int
  go_completionTokens :: int
  go_status :: generation_status
  go_errorCode :: "string option"
  go_finishReason :: "string option"
  go_timeToFirstTokenMs :: "int option"

section \<open>Lemmas\<close>

lemma routed_origin [simp]:
  "rm_external (routedConfigModel c) = None" "rm_external (routedExternalModel x) \<noteq> None"
  "rm_id (routedConfigModel c) = cm_id c" "rm_id (routedExternalModel x) = xm_id x"
  "rm_capabilities (routedConfigModel c) = cm_capabilities c"
  "rm_capabilities (routedExternalModel x) = xm_capabilities x"
  by (simp_all add: routedConfigModel_def routedExternalModel_def)

end
