(* ===== verification/Wire.thy ===== *)
theory Wire
  imports Gateway_Types
begin

text \<open>
  \<open>api/v1/response-shaping.ts\<close> and \<open>api/v1/completions-bridge.ts\<close>: reading and rewriting what the
  upstream answers, and serving the legacy completions route from a chat model.

  A value that \<open>JSON.parse\<close> returned is a \<open>json\<close>; a function that mutates its argument returns the
  new value. \<open>own_entries\<close> is what an object spread copies, which for an array are its elements
  under their indices.
\<close>

section \<open>Shaping\<close>

record usage_extension =
  ue_costMicros :: int
  ue_endpoint :: string
  ue_evidenceDigest :: "string option"

fun asRecord :: "json option \<Rightarrow> json_object option" where
  "asRecord (Some (JObj m)) = Some m"
| "asRecord _ = None"

text \<open>\<open>a?.key\<close> for a value that may be absent.\<close>

definition prop_of :: "string \<Rightarrow> json_object option \<Rightarrow> json option" where
  "prop_of k r = (case r of None \<Rightarrow> None | Some m \<Rightarrow> map_of m k)"

text \<open>\<open>a ?? b\<close>: the second value where the first is \<open>null\<close> or \<open>undefined\<close>.\<close>

definition nullish :: "json option \<Rightarrow> bool" where
  "nullish v \<longleftrightarrow> v = None \<or> v = Some JNull"

definition coalesce :: "json option \<Rightarrow> json option \<Rightarrow> json option" where
  "coalesce a b = (if nullish a then b else a)"

fun isPresent :: "json option \<Rightarrow> bool" where
  "isPresent (Some (JStr s)) = (s \<noteq> [])"
| "isPresent (Some (JArr xs)) = (xs \<noteq> [])"
| "isPresent v = (asRecord v \<noteq> None)"

definition asCount :: "json option \<Rightarrow> int option" where
  "asCount v = map_option (\<lambda>n. max 0 (if 0 \<le> n then \<lfloor>n\<rfloor> else \<lceil>n\<rceil>)) (json_number v)"

definition readUsage :: "json \<Rightarrow> token_usage option" where
  "readUsage payload =
     (case asRecord (prop_of ''usage'' (asRecord (Some payload))) of
        None \<Rightarrow> None
      | Some usage \<Rightarrow>
          let promptTokens = asCount (map_of usage ''prompt_tokens'');
              completionTokens = asCount (map_of usage ''completion_tokens'')
          in if promptTokens = None \<and> completionTokens = None then None
             else Some \<lparr>us_promptTokens = case_option 0 id promptTokens,
                        us_completionTokens = case_option 0 id completionTokens\<rparr>)"

definition choices_in :: "json \<Rightarrow> json list option" where
  "choices_in chunk = json_array (prop_of ''choices'' (asRecord (Some chunk)))"

text \<open>\<open>asRecord(record?.delta) ?? asRecord(record?.message)\<close>.\<close>

definition delta_in :: "json \<Rightarrow> json_object option" where
  "delta_in choice =
     (let r = asRecord (Some choice)
      in case asRecord (prop_of ''delta'' r) of Some d \<Rightarrow> Some d | None \<Rightarrow> asRecord (prop_of ''message'' r))"

definition choice_text :: "json \<Rightarrow> string" where
  "choice_text choice =
     (case json_string (coalesce (prop_of ''content'' (delta_in choice)) (prop_of ''text'' (asRecord (Some choice)))) of
        Some s \<Rightarrow> s | None \<Rightarrow> [])"

definition deltaTextOf :: "json \<Rightarrow> string" where
  "deltaTextOf chunk = (case choices_in chunk of None \<Rightarrow> [] | Some cs \<Rightarrow> concat (map choice_text cs))"

definition hasAssistantOutput :: "json \<Rightarrow> bool" where
  "hasAssistantOutput chunk =
     (case choices_in chunk of
        None \<Rightarrow> False
      | Some cs \<Rightarrow> list_ex (\<lambda>choice.
          let d = delta_in choice
          in isPresent (prop_of ''content'' d) \<or> isPresent (prop_of ''text'' (asRecord (Some choice)))
             \<or> isPresent (prop_of ''refusal'' d) \<or> isPresent (prop_of ''reasoning_content'' d)
             \<or> isPresent (prop_of ''reasoning'' d) \<or> isPresent (prop_of ''tool_calls'' d)
             \<or> isPresent (prop_of ''function_call'' d)) cs)"

fun first_reason :: "json list \<Rightarrow> string option" where
  "first_reason [] = None"
| "first_reason (c # cs) =
     (case json_string (prop_of ''finish_reason'' (asRecord (Some c))) of
        Some reason \<Rightarrow> Some reason | None \<Rightarrow> first_reason cs)"

definition finishReasonOf :: "json \<Rightarrow> string option" where
  "finishReasonOf chunk = (case choices_in chunk of None \<Rightarrow> None | Some cs \<Rightarrow> first_reason cs)"

definition json_of_string :: "string option \<Rightarrow> json" where
  "json_of_string v = (case v of None \<Rightarrow> JNull | Some s \<Rightarrow> JStr s)"

definition extend_usage :: "usage_extension \<Rightarrow> json_object \<Rightarrow> json_object" where
  "extend_usage ext usage =
     (let total = case_option 0 id (asCount (map_of usage ''prompt_tokens''))
                + case_option 0 id (asCount (map_of usage ''completion_tokens''));
          u1 = (if nullish (map_of usage ''total_tokens'')
                then json_set ''total_tokens'' (JNum (of_int total)) usage else usage);
          u2 = json_set ''cost_micros'' (JNum (of_int (ue_costMicros ext))) u1;
          u3 = json_set ''endpoint'' (JStr (ue_endpoint ext)) u2
      in json_set ''evidence_digest'' (json_of_string (ue_evidenceDigest ext)) u3)"

definition shapeResponse :: "json_object \<Rightarrow> gateway_context \<Rightarrow> usage_extension option \<Rightarrow> json_object" where
  "shapeResponse payload ctx extension =
     (let p1 = (if map_of payload ''id'' \<noteq> None
                then json_set ''id'' (JStr (gc_generationId ctx)) payload else payload);
          p2 = (if map_of p1 ''model'' \<noteq> None
                then json_set ''model'' (JStr (rm_id (gc_model ctx))) p1 else p1)
      in case (asRecord (map_of p2 ''usage''), extension) of
           (Some usage, Some ext) \<Rightarrow> json_set ''usage'' (JObj (extend_usage ext usage)) p2
         | _ \<Rightarrow> p2)"

definition pricing_of :: "routed_model \<Rightarrow> model_pricing" where
  "pricing_of m = \<lparr>pr_promptPer1mMicros = rm_promptPer1mMicros m, pr_completionPer1mMicros = rm_completionPer1mMicros m\<rparr>"

definition extensionFor :: "gateway_context \<Rightarrow> token_usage \<Rightarrow> usage_extension" where
  "extensionFor ctx counts =
     \<lparr>ue_costMicros = computeCostMicros counts (pricing_of (gc_model ctx)),
      ue_endpoint = ep_name (rm_endpoint (gc_model ctx)), ue_evidenceDigest = gc_evidenceDigest ctx\<rparr>"

section \<open>The completions bridge\<close>

definition asked_for :: "string \<Rightarrow> json option \<Rightarrow> bool" where
  "asked_for param v =
     (if param = ''suffix'' then (case json_string v of Some s \<Rightarrow> s \<noteq> [] | None \<Rightarrow> False)
      else if param = ''echo'' then v = Some (JBool True)
      else if param = ''logprobs'' then (case json_number v of Some n \<Rightarrow> n > 0 | None \<Rightarrow> False)
      else if param = ''best_of'' then (case json_number v of Some n \<Rightarrow> n > 1 | None \<Rightarrow> False)
      else False)"

definition UNTRANSLATABLE :: "(string \<times> string) list" where
  "UNTRANSLATABLE =
     [(''suffix'', ''infilling needs the backend'' @ [CHR 0x27] @ ''s own completions route; declare ''
         @ quoted ''completions'' @ '' on the model to use it''),
      (''echo'', ''the chat route cannot echo the prompt back''),
      (''logprobs'', ''the chat route reports log probabilities in a different shape''),
      (''best_of'', ''the router meters one completion per request'')]"

definition is_jstr :: "json \<Rightarrow> bool" where
  "is_jstr v = (json_string (Some v) \<noteq> None)"

definition promptTextOf :: "json option \<Rightarrow> (openai_error, string) result" where
  "promptTextOf prompt =
     (case prompt of
        Some (JStr s) \<Rightarrow> Inr s
      | Some (JArr xs) \<Rightarrow>
          (case xs of
             [JStr s] \<Rightarrow> Inr s
           | _ \<Rightarrow> Inl (unsupportedParameter ''prompt''
               (if list_all is_jstr xs
                then ''Only one prompt per request is supported; the router meters one completion per request.''
                else ''A pre-tokenised prompt is not supported: send the text, not token ids.'')))
      | _ \<Rightarrow> Inl (missingField ''prompt''))"

fun check_translatable :: "(string \<times> string) list \<Rightarrow> json_object \<Rightarrow> (openai_error, unit) result" where
  "check_translatable [] body = Inr ()"
| "check_translatable ((param, because) # rest) body =
     (if asked_for param (map_of body param)
      then Inl (unsupportedParameter param
             (quoted param @ '' is not supported on /v1/completions for this model: '' @ because @ ''.''))
      else check_translatable rest body)"

definition chatBodyForPrompt :: "json_object \<Rightarrow> (openai_error, json_object) result" where
  "chatBodyForPrompt body =
     res_bind (promptTextOf (map_of body ''prompt'')) (\<lambda>prompt.
     res_bind (check_translatable UNTRANSLATABLE body) (\<lambda>_.
       Inr (foldl (\<lambda>m key. map_delete key m)
              (json_set ''messages'' (JArr [JObj [(''role'', JStr ''user''), (''content'', JStr prompt)]]) body)
              (''prompt'' # map fst UNTRANSLATABLE))))"

definition own_entries :: "json \<Rightarrow> json_object" where
  "own_entries v =
     (case v of JObj m \<Rightarrow> m | JArr xs \<Rightarrow> zip (map show_nat [0..<length xs]) xs | _ \<Rightarrow> [])"

definition choicesOf :: "json_object \<Rightarrow> json list" where
  "choicesOf payload = (case json_array (map_of payload ''choices'') of None \<Rightarrow> [] | Some cs \<Rightarrow> cs)"

definition textOf :: "json option \<Rightarrow> string" where
  "textOf part = (case json_string (prop_of ''content'' (asRecord part)) of Some s \<Rightarrow> s | None \<Rightarrow> [])"

text \<open>One legacy choice; \<open>part\<close> names the field the text is in (\<open>message\<close> or \<open>delta\<close>).\<close>

definition legacy_choice :: "string \<Rightarrow> json \<Rightarrow> nat \<Rightarrow> json" where
  "legacy_choice part choice index =
     JObj [(''index'', case json_number (json_get ''index'' choice) of
              Some n \<Rightarrow> JNum n | None \<Rightarrow> JNum (of_nat index)),
           (''text'', JStr (textOf (json_get part choice))),
           (''logprobs'', JNull),
           (''finish_reason'', case json_get ''finish_reason'' choice of Some r \<Rightarrow> r | None \<Rightarrow> JNull)]"

definition legacy_body :: "string \<Rightarrow> json_object \<Rightarrow> json_object" where
  "legacy_body part payload =
     json_set ''choices'' (JArr (map2 (legacy_choice part) (choicesOf payload) [0..<length (choicesOf payload)]))
       (json_set ''object'' (JStr ''text_completion'') payload)"

definition textCompletionOf :: "json_object \<Rightarrow> json_object" where
  "textCompletionOf payload = legacy_body ''message'' payload"

definition textCompletionChunkOf :: "json_object \<Rightarrow> json_object" where
  "textCompletionChunkOf chunk = legacy_body ''delta'' chunk"

section \<open>Lemmas\<close>

lemma map_of_extend_usage:
  "map_of (extend_usage ext usage) = (map_of usage)
     (''total_tokens'' := (if nullish (map_of usage ''total_tokens'')
        then Some (JNum (of_int (case_option 0 id (asCount (map_of usage ''prompt_tokens''))
                               + case_option 0 id (asCount (map_of usage ''completion_tokens'')))))
        else map_of usage ''total_tokens''),
      ''cost_micros'' \<mapsto> JNum (of_int (ue_costMicros ext)), ''endpoint'' \<mapsto> JStr (ue_endpoint ext),
      ''evidence_digest'' \<mapsto> json_of_string (ue_evidenceDigest ext))"
  by (auto simp: extend_usage_def Let_def fun_eq_iff)

lemma map_of_deletes: "map_of (foldl (\<lambda>m key. map_delete key m) m ks) k = (if k \<in> set ks then None else map_of m k)"
  by (induction ks arbitrary: m) auto

lemma check_translatable_iff:
  "check_translatable ps body = Inr u \<longleftrightarrow> (\<forall>(param, because) \<in> set ps. \<not> asked_for param (map_of body param))"
  by (induction ps body rule: check_translatable.induct) auto

lemma choices_legacy:
  "choices_in (JObj (legacy_body part payload)) =
     Some (map2 (legacy_choice part) (choicesOf payload) [0..<length (choicesOf payload)])"
  by (simp add: choices_in_def prop_of_def legacy_body_def)

lemma choice_text_legacy: "choice_text (legacy_choice part c i) = textOf (json_get part c)"
  by (simp add: choice_text_def legacy_choice_def delta_in_def prop_of_def coalesce_def nullish_def)

lemma concat_legacy:
  "concat (map choice_text (map2 (legacy_choice part) cs [i..<i + length cs])) = concat (map (\<lambda>c. textOf (json_get part c)) cs)"
proof (induction cs arbitrary: i)
  case (Cons c cs)
  have "[i..<i + length (c # cs)] = i # [Suc i..<Suc i + length cs]"
    by (simp add: upt_conv_Cons del: upt_Suc)
  then show ?case using Cons.IH [of "Suc i"] by (simp add: choice_text_legacy del: upt_Suc)
qed simp

lemma deltaText_legacy:
  "deltaTextOf (JObj (legacy_body part payload)) = concat (map (\<lambda>c. textOf (json_get part c)) (choicesOf payload))"
  using concat_legacy [of part "choicesOf payload" 0] by (simp add: deltaTextOf_def choices_legacy)

lemma readUsage_legacy [simp]: "readUsage (JObj (legacy_body part payload)) = readUsage (JObj payload)"
  by (simp add: readUsage_def prop_of_def legacy_body_def)

text \<open>A choice whose text is where a chat answer has it: in the message or delta, not beside it.\<close>

definition chat_choice :: "string \<Rightarrow> json \<Rightarrow> bool" where
  "chat_choice part c \<longleftrightarrow> json_get ''text'' c = None
     \<and> (part = ''delta'' \<or> part = ''message'' \<and> json_get ''delta'' c = None)
     \<and> (part = ''delta'' \<longrightarrow> json_get ''message'' c = None)"

lemma delta_chat: "chat_choice part c \<Longrightarrow> delta_in c = asRecord (json_get part c)"
  by (cases c) (auto simp: chat_choice_def delta_in_def prop_of_def split: option.split)

lemma json_string_coalesce: "json_string (coalesce v None) = json_string v"
  by (cases v rule: json_string.cases) (simp_all add: coalesce_def nullish_def)

lemma choice_text_chat:
  assumes "chat_choice part c"
  shows "choice_text c = textOf (json_get part c)"
proof -
  have "prop_of ''text'' (asRecord (Some c)) = None"
    using assms by (cases c) (simp_all add: chat_choice_def prop_of_def)
  then show ?thesis by (simp add: choice_text_def delta_chat [OF assms] json_string_coalesce textOf_def)
qed

lemma promptTextOf_Inr: "promptTextOf v = Inr p \<longleftrightarrow> v \<in> {Some (JStr p), Some (JArr [JStr p])}"
  by (auto simp: promptTextOf_def split: option.splits json.splits list.splits)

lemma promptTextOf_Inl: "promptTextOf v = Inl e \<Longrightarrow> err_status e = 400 \<and> err_type e = Invalid_request_error"
  by (auto simp: promptTextOf_def openai_errors split: option.splits json.splits list.splits)

lemma check_translatable_Inl:
  "check_translatable ps body = Inl e \<Longrightarrow> err_status e = 400 \<and> err_type e = Invalid_request_error"
  by (induction ps body rule: check_translatable.induct) (auto simp: openai_errors split: if_splits)

lemma legacy_names: "map fst UNTRANSLATABLE = [''suffix'', ''echo'', ''logprobs'', ''best_of'']"
  by (simp add: UNTRANSLATABLE_def)

text \<open>When the bridge translates: one text prompt, and none of the legacy parameters asks for anything.\<close>

definition translatable :: "json_object \<Rightarrow> string \<Rightarrow> bool" where
  "translatable body p \<longleftrightarrow> map_of body ''prompt'' \<in> {Some (JStr p), Some (JArr [JStr p])}
     \<and> list_all (\<lambda>param. \<not> asked_for param (map_of body param)) [''suffix'', ''echo'', ''logprobs'', ''best_of'']"

lemma check_legacy:
  "check_translatable UNTRANSLATABLE body = Inr u \<longleftrightarrow>
     list_all (\<lambda>param. \<not> asked_for param (map_of body param)) [''suffix'', ''echo'', ''logprobs'', ''best_of'']"
proof -
  have "check_translatable UNTRANSLATABLE body = Inr u \<longleftrightarrow>
      list_all (\<lambda>param. \<not> asked_for param (map_of body param)) (map fst UNTRANSLATABLE)"
    by (force simp: check_translatable_iff list_all_iff)
  then show ?thesis by (simp only: legacy_names)
qed

lemma chatBody_Inr:
  "chatBodyForPrompt body = Inr chat \<longleftrightarrow> (\<exists>p. translatable body p \<and>
     chat = foldl (\<lambda>m key. map_delete key m)
        (json_set ''messages'' (JArr [JObj [(''role'', JStr ''user''), (''content'', JStr p)]]) body)
        (''prompt'' # map fst UNTRANSLATABLE))"
  unfolding chatBodyForPrompt_def translatable_def res_bind_eq_Inr promptTextOf_Inr check_legacy by auto

lemma chatBody_Inl:
  "chatBodyForPrompt body = Inl e \<Longrightarrow> err_status e = 400 \<and> err_type e = Invalid_request_error"
  unfolding chatBodyForPrompt_def res_bind_eq_Inl using promptTextOf_Inl check_translatable_Inl by blast

section \<open>Properties\<close>

text \<open>
  Shaping rewrites what belongs to the router and nothing else. The keys of the payload and their
  order stay; \<open>id\<close> and \<open>model\<close>, where the upstream sent them, become the generation id and the
  router's model id; every other field but \<open>usage\<close> is the upstream's; a \<open>usage\<close> object gets the cost,
  the endpoint and the evidence digest, a total where it had none, and keeps its other fields.
\<close>

theorem shape_rewrites_identity:
  "map fst (shapeResponse payload ctx ext) = map fst payload
   \<and> map_of (shapeResponse payload ctx ext) ''id'' = map_option (\<lambda>_. JStr (gc_generationId ctx)) (map_of payload ''id'')
   \<and> map_of (shapeResponse payload ctx ext) ''model'' = map_option (\<lambda>_. JStr (rm_id (gc_model ctx))) (map_of payload ''model'')
   \<and> (k \<notin> {''id'', ''model'', ''usage''} \<longrightarrow> map_of (shapeResponse payload ctx ext) k = map_of payload k)
   \<and> map_of (shapeResponse payload ctx ext) ''usage'' =
       (case (map_of payload ''usage'', ext) of
          (Some (JObj usage), Some e) \<Rightarrow> Some (JObj (extend_usage e usage)) | (v, _) \<Rightarrow> v)
   \<and> map_of (extend_usage e usage) ''cost_micros'' = Some (JNum (of_int (ue_costMicros e)))
   \<and> (k \<notin> {''total_tokens'', ''cost_micros'', ''endpoint'', ''evidence_digest''} \<longrightarrow>
        map_of (extend_usage e usage) k = map_of usage k)"
proof -
  have keys: "map fst (json_set k v m) = map fst m" if "map_of m k \<noteq> None" for k v and m :: json_object
    using that unfolding json_set_def by (induction m) auto
  show ?thesis
    by (auto simp: shapeResponse_def Let_def keys map_of_extend_usage
        split: option.split json.split elim!: asRecord.elims)
qed

text \<open>
  The bridge translates a legacy request or refuses it, and never drops what was asked for. The
  translation succeeds exactly when there is one text prompt and none of \<open>suffix\<close>, \<open>echo\<close>, \<open>logprobs\<close>
  and \<open>best_of\<close> asks for anything; then the chat body holds the prompt as its one user message,
  none of the legacy fields, and every other field of the request unchanged. A refusal is a 400.
\<close>

theorem bridge_request:
  "case chatBodyForPrompt body of
     Inr chat \<Rightarrow> \<exists>p. translatable body p
       \<and> map_of chat ''messages'' = Some (JArr [JObj [(''role'', JStr ''user''), (''content'', JStr p)]])
       \<and> (\<forall>k. map_of chat k = (if k \<in> {''prompt'', ''suffix'', ''echo'', ''logprobs'', ''best_of''} then None
              else if k = ''messages'' then map_of chat ''messages'' else map_of body k))
   | Inl e \<Rightarrow> (\<nexists>p. translatable body p) \<and> err_status e = 400 \<and> err_type e = Invalid_request_error"
proof (cases "chatBodyForPrompt body")
  case (Inl e)
  then have "\<nexists>p. translatable body p" using chatBody_Inr by (metis Inl_Inr_False)
  then show ?thesis using Inl chatBody_Inl by simp
next
  case (Inr chat)
  then obtain p where p: "translatable body p" and chat: "chat = foldl (\<lambda>m key. map_delete key m)
      (json_set ''messages'' (JArr [JObj [(''role'', JStr ''user''), (''content'', JStr p)]]) body)
      (''prompt'' # map fst UNTRANSLATABLE)"
    using chatBody_Inr by blast
  have "map_of chat k = (if k \<in> {''prompt'', ''suffix'', ''echo'', ''logprobs'', ''best_of''} then None
      else if k = ''messages'' then Some (JArr [JObj [(''role'', JStr ''user''), (''content'', JStr p)]])
      else map_of body k)" for k
    unfolding chat map_of_deletes legacy_names by simp
  then show ?thesis using Inr p by auto
qed

text \<open>
  The legacy answer says what the chat answer said. For a whole answer or a stream chunk in the
  shape of the chat route, the text of the translated one is the text of the original, the usage it
  reports is the same, and every choice is kept.
\<close>

theorem bridge_response:
  assumes "map_of payload ''choices'' = Some (JArr cs)"
  shows "(list_all (chat_choice ''message'') cs \<longrightarrow>
        deltaTextOf (JObj (textCompletionOf payload)) = deltaTextOf (JObj payload))
    \<and> (list_all (chat_choice ''delta'') cs \<longrightarrow>
        deltaTextOf (JObj (textCompletionChunkOf payload)) = deltaTextOf (JObj payload))
    \<and> readUsage (JObj (textCompletionOf payload)) = readUsage (JObj payload)
    \<and> readUsage (JObj (textCompletionChunkOf payload)) = readUsage (JObj payload)
    \<and> length (choicesOf (textCompletionOf payload)) = length cs
    \<and> length (choicesOf (textCompletionChunkOf payload)) = length cs"
proof -
  have cs: "choicesOf payload = cs" using assms by (simp add: choicesOf_def)
  have same_text: "deltaTextOf (JObj (legacy_body part payload)) = deltaTextOf (JObj payload)"
    if "list_all (chat_choice part) cs" for part
  proof -
    have "map (\<lambda>c. textOf (json_get part c)) cs = map choice_text cs"
      using that by (auto simp: list_all_iff choice_text_chat)
    then show ?thesis
      using assms by (simp only: deltaText_legacy cs) (simp add: deltaTextOf_def choices_in_def prop_of_def)
  qed
  have "length (choicesOf (legacy_body part payload)) = length cs" for part
    by (simp only: legacy_body_def cs) (simp add: choicesOf_def)
  then show ?thesis using same_text by (simp add: textCompletionOf_def textCompletionChunkOf_def)
qed

end
