(* ===== verification/Upstream.thy ===== *)
theory Upstream
  imports Wire
begin

text \<open>
  The two forward legs: \<open>api/v1/upstream-fetch.ts\<close> (the POST and its retry), \<open>api/v1/upstream-failure.ts\<close>
  (reading and mapping an upstream's error), \<open>api/v1/litellm.client.ts\<close> and
  \<open>api/v1/external-upstream.client.ts\<close>.

  The network is an argument: \<open>fetch n\<close> is what the \<open>n\<close>-th attempt of a call gives, with the state of the
  two abort signals when it failed. \<open>parse\<close> and \<open>stringify\<close> stand for \<open>JSON.parse\<close> and \<open>JSON.stringify\<close>,
  \<open>unseal\<close> for the secret envelope and the list of verdicts for the sidecar's answer; nothing is
  assumed of them. A body is a list of UTF-8 code units; \<open>None\<close> is a body that could not be read.
\<close>

section \<open>The POST and its retry\<close>

record upstream_response =
  up_status :: int
  up_headers :: headers
  up_text :: "string option"

record fetch_error =
  fe_isError :: bool
  fe_name :: string
  fe_message :: string
  fe_causeCode :: "string option"

text \<open>A rejected attempt carries \<open>call.signal.aborted\<close> and \<open>expired\<close> as the \<open>catch\<close> block reads them.\<close>

datatype fetch_result = Fetched upstream_response | Rejected fetch_error bool bool

datatype transport_error =
    Never_attempted
  | Client_aborted fetch_error
  | Upstream_timeout nat
  | Upstream_unavailable fetch_error

definition MAX_ATTEMPTS :: nat where "MAX_ATTEMPTS = 2"

definition CONNECTION_ERROR_CODES :: "string list" where
  "CONNECTION_ERROR_CODES = [''ECONNREFUSED'', ''ECONNRESET'', ''EHOSTUNREACH'', ''ENETUNREACH'', ''ENOTFOUND'',
     ''EAI_AGAIN'', ''UND_ERR_CONNECT_TIMEOUT'', ''UND_ERR_SOCKET'']"

definition isConnectionError :: "fetch_error \<Rightarrow> bool" where
  "isConnectionError e \<longleftrightarrow>
     fe_isError e \<and> fe_name e = ''AbortError''
     \<or> (case fe_causeCode e of Some code \<Rightarrow> code \<in> set CONNECTION_ERROR_CODES | None \<Rightarrow> False)"

text \<open>The loop; the second component counts the requests that were sent.\<close>

function post_loop ::
  "(nat \<Rightarrow> fetch_result) \<Rightarrow> nat \<Rightarrow> nat \<Rightarrow> transport_error \<Rightarrow> (transport_error, upstream_response) result \<times> nat" where
  "post_loop fetch timeout attempt lastError =
     (if attempt > MAX_ATTEMPTS then (Inl lastError, attempt - 1)
      else case fetch attempt of
        Fetched r \<Rightarrow> (Inr r, attempt)
      | Rejected e aborted expired \<Rightarrow>
          if aborted then (Inl (Client_aborted e), attempt)
          else if expired then (Inl (Upstream_timeout timeout), attempt)
          else if \<not> isConnectionError e \<or> attempt = MAX_ATTEMPTS then (Inl (Upstream_unavailable e), attempt)
          else post_loop fetch timeout (attempt + 1) (Upstream_unavailable e))"
  by pat_completeness auto
termination
  by (relation "measure (\<lambda>(_, _, attempt, _). Suc MAX_ATTEMPTS - attempt)") auto

declare post_loop.simps [simp del]

definition postToUpstream ::
  "(nat \<Rightarrow> fetch_result) \<Rightarrow> nat \<Rightarrow> (transport_error, upstream_response) result \<times> nat" where
  "postToUpstream fetch timeout = post_loop fetch timeout 1 Never_attempted"

text \<open>
  \<open>secondsOf\<close> below a second prints \<open>toFixed(2)\<close> of a double, which rounds the binary value: \<open>15\<close> ms is
  \<open>0.01s\<close>. \<open>double_shift\<close> finds the exponent of the double closest to \<open>ms / 1000\<close>, \<open>double_mantissa\<close> its
  mantissa (ties to even).
\<close>

fun double_shift :: "nat \<Rightarrow> nat \<Rightarrow> nat \<Rightarrow> nat" where
  "double_shift 0 ms k = k"
| "double_shift (Suc fuel) ms k = (if ms * 2 ^ k \<ge> 1000 * 2 ^ 52 then k else double_shift fuel ms (k + 1))"

definition double_mantissa :: "nat \<Rightarrow> nat \<Rightarrow> nat" where
  "double_mantissa ms k =
     (let q = ms * 2 ^ k div 1000; r = ms * 2 ^ k mod 1000
      in if 2 * r > 1000 \<or> (2 * r = 1000 \<and> odd q) then q + 1 else q)"

definition hundredths :: "nat \<Rightarrow> nat" where
  "hundredths ms = (let k = double_shift 11 ms 52 in (double_mantissa ms k * 200 + 2 ^ k) div (2 * 2 ^ k))"

definition show_hundredths :: "nat \<Rightarrow> string" where
  "show_hundredths n =
     show_nat (n div 100) @ (if n mod 100 = 0 then [] else ''.'' @
       (if n mod 10 = 0 then show_nat (n mod 100 div 10) else pad_start 2 CHR ''0'' (show_nat (n mod 100))))"

definition secondsOf :: "nat \<Rightarrow> string" where
  "secondsOf ms = (if ms \<ge> 1000 then show_nat ((ms + 500) div 1000) else show_hundredths (hundredths ms)) @ ''s''"

definition timeout_message :: "nat \<Rightarrow> string" where
  "timeout_message ms = ''The model backend did not start answering within '' @ secondsOf ms @ ''.''"

section \<open>Reading an upstream's error\<close>

record upstream_error_body =
  ub_text :: string
  ub_structured :: bool
  ub_param :: "string option"
  ub_type :: "string option"
  ub_length :: nat
  ub_parsed :: json

definition MAX_BODY_CHARS :: nat where "MAX_BODY_CHARS = 1000"

definition RETRIED_BY_SDKS :: "int list" where "RETRIED_BY_SDKS = [408, 409, 425]"

definition OUR_CREDENTIAL :: "int list" where "OUR_CREDENTIAL = [401, 402, 403, 407]"

fun contains :: "string \<Rightarrow> string \<Rightarrow> bool" where
  "contains needle [] = (needle = [])"
| "contains needle (c # cs) = (starts_with (c # cs) needle \<or> contains needle cs)"

definition CONTEXT_LENGTH :: "string \<Rightarrow> bool" where
  "CONTEXT_LENGTH s = list_ex (\<lambda>needle. contains needle (to_lower s))
     [''contextlength'', ''context length'', ''context_length'', ''context-length'', ''maximum context'', ''too many tokens'']"

definition non_empty_string :: "json option \<Rightarrow> string option" where
  "non_empty_string v = (case json_string v of Some s \<Rightarrow> if s = [] then None else Some s | None \<Rightarrow> None)"

text \<open>\<open>body?.error?.key ?? body?.key\<close>; property access on a value that is not an object is \<open>undefined\<close>.\<close>

definition error_field :: "string \<Rightarrow> json \<Rightarrow> json option" where
  "error_field k body =
     coalesce (case json_get ''error'' body of None \<Rightarrow> None | Some e \<Rightarrow> json_get k e) (json_get k body)"

definition readUpstreamError :: "(string \<Rightarrow> json option) \<Rightarrow> upstream_response \<Rightarrow> upstream_error_body" where
  "readUpstreamError parse upstream =
     (case up_text upstream of
        None \<Rightarrow> \<lparr>ub_text = [], ub_structured = False, ub_param = None, ub_type = None, ub_length = 0, ub_parsed = JNull\<rparr>
      | Some raw \<Rightarrow>
          let text = take MAX_BODY_CHARS raw
          in (case parse text of
                None \<Rightarrow> \<lparr>ub_text = text, ub_structured = False, ub_param = None, ub_type = None,
                          ub_length = length raw, ub_parsed = JNull\<rparr>
              | Some body \<Rightarrow>
                  let message = non_empty_string (error_field ''message'' body)
                  in \<lparr>ub_text = (case message of Some m \<Rightarrow> m | None \<Rightarrow> text), ub_structured = (message \<noteq> None),
                      ub_param = non_empty_string (error_field ''param'' body),
                      ub_type = non_empty_string (error_field ''type'' body),
                      ub_length = length raw, ub_parsed = body\<rparr>))"

definition label_char :: "char \<Rightarrow> bool" where
  "label_char c \<longleftrightarrow> slug_alnum (lower_char c) \<or> c \<in> set ''_.[]-''"

definition LOGGABLE_LABEL :: "string \<Rightarrow> bool" where
  "LOGGABLE_LABEL s \<longleftrightarrow> 1 \<le> length s \<and> length s \<le> 120 \<and> list_all label_char s"

definition label :: "string option \<Rightarrow> bool" where
  "label v = (case v of None \<Rightarrow> False | Some s \<Rightarrow> LOGGABLE_LABEL s)"

definition describeUpstreamError :: "upstream_error_body \<Rightarrow> string" where
  "describeUpstreamError body =
     (if ub_length body = 0 then ''no body''
      else join_with '', ''
             ((if label (ub_type body) then [''type='' @ the (ub_type body)] else [])
              @ (if label (ub_param body) then [''param='' @ the (ub_param body)] else [])
              @ [show_nat (ub_length body) @ '' chars'']
              @ (if ub_structured body then [] else [''unstructured'']))
           @ '' (not logged)'')"

text \<open>Header names are case-insensitive; they are held in lower case here.\<close>

definition upstreamFailureOf :: "string \<Rightarrow> upstream_response \<Rightarrow> upstream_error_body \<Rightarrow> openai_error" where
  "upstreamFailureOf who upstream body =
     (let status = up_status upstream
      in if status = 429 then
           rate_limited (who @ '' is at capacity.'')
             [(''Retry-After'', case map_of (up_headers upstream) ''retry-after'' of Some v \<Rightarrow> v | None \<Rightarrow> ''1'')]
         else if CONTEXT_LENGTH (ub_text body) then contextLengthExceeded (ub_text body)
         else if status \<ge> 500 \<or> status = 404 then backendUnavailable (who @ '' answered '' @ show_int status @ ''.'')
         else if status \<in> set OUR_CREDENTIAL then
           backendError (who @ '' refused the credential the router sent ('' @ show_int status @ '').'')
         else if status < 400 then
           backendError (who @ '' answered '' @ show_int status @ '', which is not a response the router can relay.'')
         else upstreamRejectedRequest who (if status \<in> set RETRIED_BY_SDKS then 400 else status) status
                (if ub_structured body then ub_text body else []) (ub_param body))"

section \<open>The legs\<close>

record upstream_call =
  uc_url :: string
  uc_headers :: headers
  uc_body :: json_object
  uc_responseTimeoutMs :: nat

record leg_config =
  lc_baseUrl :: string
  lc_apiKey :: "string option"
  lc_connectTimeout :: nat
  lc_readTimeout :: nat

definition strip_slashes :: "string \<Rightarrow> string" where
  "strip_slashes url = rev (dropWhile (\<lambda>c. c = CHR ''/'') (rev url))"

definition accept_header :: "bool \<Rightarrow> string" where
  "accept_header stream = (if stream then ''text/event-stream'' else ''application/json'')"

text \<open>\<open>LiteLlmClient.send\<close> up to the POST.\<close>

definition litellm_call ::
  "(json \<Rightarrow> string) \<Rightarrow> leg_config \<Rightarrow> string \<Rightarrow> json_object \<Rightarrow> string \<Rightarrow> bool \<Rightarrow> upstream_call" where
  "litellm_call stringify cfg path body genId stream =
     \<lparr>uc_url = strip_slashes (lc_baseUrl cfg) @ path,
      uc_headers = [(''content-type'', ''application/json''), (''accept'', accept_header stream),
        (''x-litellm-metadata'', stringify (JObj [(''generation_id'', JStr genId)]))]
        @ (if truthy (lc_apiKey cfg) then [(''authorization'', ''Bearer '' @ the (lc_apiKey cfg))] else []),
      uc_body = body, uc_responseTimeoutMs = lc_connectTimeout cfg + lc_readTimeout cfg\<rparr>"

definition openKey :: "(string \<Rightarrow> string \<Rightarrow> string option) \<Rightarrow> string \<Rightarrow> string \<Rightarrow> (openai_error, string) result" where
  "openKey unseal endpointId ciphertext =
     (case unseal ciphertext endpointId of None \<Rightarrow> Inl internal_error | Some key \<Rightarrow> Inr key)"

text \<open>\<open>ExternalUpstreamClient.send\<close> up to the POST.\<close>

definition external_call ::
  "(string \<Rightarrow> string \<Rightarrow> string option) \<Rightarrow> leg_config \<Rightarrow> routed_endpoint \<Rightarrow> external_route \<Rightarrow> string \<Rightarrow> json_object
    \<Rightarrow> bool \<Rightarrow> (openai_error, upstream_call) result" where
  "external_call unseal cfg endpoint route path body stream =
     res_bind (openKey unseal (ep_id endpoint) (xr_apiKeyCiphertext route)) (\<lambda>key.
       Inr \<lparr>uc_url = strip_slashes (xr_baseUrl route) @ path,
            uc_headers = [(''content-type'', ''application/json''), (''accept'', accept_header stream),
              (''authorization'', ''Bearer '' @ key)],
            uc_body = body, uc_responseTimeoutMs = lc_connectTimeout cfg + lc_readTimeout cfg\<rparr>)"

definition gatekeeperDenialOf :: "int \<Rightarrow> json \<Rightarrow> (string \<times> string) option" where
  "gatekeeperDenialOf status parsed =
     (if status \<noteq> 503 then None
      else if (case json_get ''error'' parsed of None \<Rightarrow> None | Some e \<Rightarrow> json_get ''type'' e) \<noteq> Some (JStr ''gatekeeper_error'')
      then None
      else Some (case non_empty_string (json_get ''stage'' parsed) of Some s \<Rightarrow> s | None \<Rightarrow> ''policy'',
                 case non_empty_string (json_get ''reason'' parsed) of Some r \<Rightarrow> r | None \<Rightarrow> ''no valid verdict''))"

definition mapFailure :: "(string \<Rightarrow> json option) \<Rightarrow> routed_model \<Rightarrow> upstream_response \<Rightarrow> openai_error" where
  "mapFailure parse model upstream =
     (let detail = readUpstreamError parse upstream
      in case gatekeeperDenialOf (up_status upstream) (ub_parsed detail) of
           Some (stage, reason) \<Rightarrow> attestationFailed
             (''The router has no valid attestation for the endpoint serving model '' @ quoted (rm_id model)
              @ '' ('' @ stage @ '': '' @ reason @ ''). Nothing was sent to it.'')
         | None \<Rightarrow> upstreamFailureOf ''The external model endpoint'' upstream detail)"

definition mapUpstreamFailure :: "(string \<Rightarrow> json option) \<Rightarrow> upstream_response \<Rightarrow> openai_error" where
  "mapUpstreamFailure parse upstream =
     upstreamFailureOf ''The model backend'' upstream (readUpstreamError parse upstream)"

record stream_failure =
  sf_status :: generation_status
  sf_error :: openai_error

definition asUpstreamFailure :: "'x thrown \<Rightarrow> openai_error" where
  "asUpstreamFailure failure =
     (case failure of Openai e \<Rightarrow> e
      | Exception _ \<Rightarrow> backendUnavailable ''The external model endpoint stopped sending data.'')"

text \<open>\<open>verdicts\<close> is what the sidecar answers; \<open>None\<close> when it cannot be asked.\<close>

definition classifyStreamFailure :: "sidecar_verdict list option \<Rightarrow> routed_model \<Rightarrow> 'x thrown \<Rightarrow> stream_failure" where
  "classifyStreamFailure verdicts model failure =
     (let other = \<lparr>sf_status = Error, sf_error = asUpstreamFailure failure\<rparr>
      in case verdicts of
           None \<Rightarrow> other
         | Some vs \<Rightarrow>
             (case List.find (\<lambda>v. sv_endpoint v = ep_name (rm_endpoint model)) vs of
                None \<Rightarrow> other
              | Some v \<Rightarrow>
                  if sv_admitted v then other
                  else let reason = (case sv_reason v of Some r \<Rightarrow> r
                         | None \<Rightarrow> (case Option.bind (sv_report v) sr_reason of Some r \<Rightarrow> r | None \<Rightarrow> ''the endpoint is no longer admitted''));
                         stage = (case Option.bind (sv_report v) sr_stage of Some st \<Rightarrow> st | None \<Rightarrow> ''policy'')
                       in \<lparr>sf_status = Aborted, sf_error = attestationRevoked
                            (''The attestation of the endpoint serving model '' @ quoted (rm_id model)
                             @ '' was withdrawn while this generation was streaming ('' @ stage @ '': '' @ reason
                             @ ''); the connection was closed. Tokens already delivered are metered.'')\<rparr>))"

section \<open>Lemmas\<close>

text \<open>The first attempt is followed by a second one exactly when it failed like this.\<close>

fun retryable :: "fetch_result \<Rightarrow> bool" where
  "retryable (Fetched r) = False"
| "retryable (Rejected e aborted expired) \<longleftrightarrow> \<not> aborted \<and> \<not> expired \<and> isConnectionError e"

text \<open>What a single last attempt amounts to.\<close>

definition attempt_result :: "nat \<Rightarrow> fetch_result \<Rightarrow> (transport_error, upstream_response) result" where
  "attempt_result timeout f =
     (case f of Fetched r \<Rightarrow> Inr r
      | Rejected e aborted expired \<Rightarrow>
          if aborted then Inl (Client_aborted e) else if expired then Inl (Upstream_timeout timeout)
          else Inl (Upstream_unavailable e))"

lemma post_eq:
  "postToUpstream fetch timeout =
     (if retryable (fetch 1) then (attempt_result timeout (fetch 2), 2) else (attempt_result timeout (fetch 1), 1))"
proof -
  have second: "post_loop fetch timeout (Suc 1) l = (attempt_result timeout (fetch 2), 2)" for l
    by (simp add: post_loop.simps [of _ _ "Suc (Suc 0)"] MAX_ATTEMPTS_def attempt_result_def numeral_2_eq_2
        split: fetch_result.split)
  show ?thesis
    unfolding postToUpstream_def
    by (subst post_loop.simps) (cases "fetch 1", auto simp: second [simplified] MAX_ATTEMPTS_def attempt_result_def)
qed

lemma contains_iff: "contains needle s \<longleftrightarrow> (\<exists>a b. s = a @ needle @ b)"
proof (induction s)
  case (Cons c cs)
  have "starts_with (c # cs) needle \<longleftrightarrow> (\<exists>b. c # cs = needle @ b)"
    by (metis starts_with_append starts_with_def append_take_drop_id)
  then show ?case using Cons by (auto simp: Cons_eq_append_conv)
qed simp

lemma read_structured:
  "ub_structured (readUpstreamError parse upstream) \<Longrightarrow>
     \<exists>raw body. up_text upstream = Some raw \<and> parse (take MAX_BODY_CHARS raw) = Some body
       \<and> json_string (error_field ''message'' body) = Some (ub_text (readUpstreamError parse upstream))"
  by (auto simp: readUpstreamError_def non_empty_string_def Let_def split: option.splits if_splits)

lemma failure_code: "err_code (upstreamFailureOf who upstream body) \<noteq> ''attestation_failed''"
  unfolding upstreamFailureOf_def by (simp add: openai_errors Let_def)

lemma mapFailure_attested:
  "err_code (mapFailure parse model upstream) = ''attestation_failed'' \<longleftrightarrow>
     gatekeeperDenialOf (up_status upstream) (ub_parsed (readUpstreamError parse upstream)) \<noteq> None"
  by (auto simp: mapFailure_def Let_def failure_code attestationFailed_def plain_error_def split: option.split)

lemma classify_aborted:
  "sf_status (classifyStreamFailure verdicts model f) = Aborted \<longleftrightarrow>
     (\<exists>vs v. verdicts = Some vs \<and> List.find (\<lambda>v. sv_endpoint v = ep_name (rm_endpoint model)) vs = Some v
        \<and> \<not> sv_admitted v)"
  by (auto simp: classifyStreamFailure_def Let_def split: option.split)

lemma context_length_irrelevant:
  "\<not> ub_structured body \<Longrightarrow> \<not> CONTEXT_LENGTH (ub_text body) \<Longrightarrow> \<not> CONTEXT_LENGTH t \<Longrightarrow>
     upstreamFailureOf who upstream (body\<lparr>ub_text := t\<rparr>) = upstreamFailureOf who upstream body"
  by (simp add: upstreamFailureOf_def Let_def)

text \<open>The statuses of the table.\<close>

lemma failure_status:
  "err_status (upstreamFailureOf who upstream body) =
     (let s = up_status upstream
      in if s = 429 then 429 else if CONTEXT_LENGTH (ub_text body) then 400
         else if s \<ge> 500 \<or> s \<in> {401, 402, 403, 404, 407} \<or> s < 400 then 502
         else if s \<in> {408, 409, 425} then 400 else s)"
  unfolding upstreamFailureOf_def Let_def OUR_CREDENTIAL_def RETRIED_BY_SDKS_def by (simp add: openai_errors)

section \<open>Properties\<close>

text \<open>
  C27: a request is sent at most twice, and the second time only when the first attempt failed with a
  connection error while nobody had hung up and no deadline had passed. The answer is that of the
  last attempt, and an attempt that was cut off by the client or by the deadline is never repeated.
\<close>

theorem post_sent_at_most_twice:
  "case postToUpstream fetch timeout of (r, sent) \<Rightarrow>
     1 \<le> sent \<and> sent \<le> MAX_ATTEMPTS \<and> (sent = 2 \<longleftrightarrow> retryable (fetch 1))
     \<and> r = attempt_result timeout (fetch sent) \<and> r \<noteq> Inl Never_attempted"
  by (auto simp: post_eq MAX_ATTEMPTS_def attempt_result_def split: fetch_result.split)

text \<open>
  Whose fault an upstream's failure is. The caller hears a client error exactly when the upstream
  called the request invalid or said that it is too long; a refusal of the router's own credential,
  an unreachable or failing upstream is a 502 and capacity a 429; the caller never sees a status
  that asks it to authenticate or that an SDK repeats by itself. The text of a body that named no
  error message changes nothing but the detection of an overlong context.
\<close>

theorem failure_blames_right_party:
  "(case upstreamFailureOf who upstream body of e \<Rightarrow>
     (err_status e \<in> {400..<500} - {429} \<longleftrightarrow>
        up_status upstream \<noteq> 429 \<and> (CONTEXT_LENGTH (ub_text body)
          \<or> up_status upstream \<in> {400..<500} - {401, 402, 403, 404, 407}))
     \<and> (err_status e = 429 \<longleftrightarrow> up_status upstream = 429)
     \<and> (err_status e \<in> {400..<500} \<or> err_status e = 502)
     \<and> err_status e \<notin> {401, 402, 403, 404, 407, 408, 409, 425})
   \<and> (\<not> ub_structured body \<and> \<not> CONTEXT_LENGTH (ub_text body) \<and> \<not> CONTEXT_LENGTH t \<longrightarrow>
        upstreamFailureOf who upstream (body\<lparr>ub_text := t\<rparr>) = upstreamFailureOf who upstream body)"
  using context_length_irrelevant by (simp add: failure_status Let_def)

text \<open>
  What the external leg lets out and lets in. A request for an external model goes to the sidecar's
  loopback listener, carries the credential sealed for that endpoint and no generation id; the
  client is told of a failed attestation exactly when the sidecar denied the request, and of a
  withdrawn one exactly when the sidecar says that the endpoint is no longer admitted.
\<close>

theorem external_leg:
  "(case external_call unseal cfg (rm_endpoint (routedExternalModel m)) (the (rm_external (routedExternalModel m))) path body stream of
       Inl e \<Rightarrow> e = internal_error \<and> unseal (xe_apiKeyCiphertext (xm_endpoint m)) (xe_id (xm_endpoint m)) = None
     | Inr call \<Rightarrow>
         uc_url call = ''http://127.0.0.1:'' @ show_nat (xe_listenPort (xm_endpoint m)) @ path
         \<and> map_of (uc_headers call) ''authorization'' =
             map_option (\<lambda>key. ''Bearer '' @ key) (unseal (xe_apiKeyCiphertext (xm_endpoint m)) (xe_id (xm_endpoint m)))
         \<and> map_of (uc_headers call) ''x-litellm-metadata'' = None)
    \<and> (err_code (mapFailure parse (routedExternalModel m) upstream) = ''attestation_failed'' \<longleftrightarrow>
         gatekeeperDenialOf (up_status upstream) (ub_parsed (readUpstreamError parse upstream)) \<noteq> None)
    \<and> (sf_status (classifyStreamFailure verdicts (routedExternalModel m) (Exception x)) = Aborted \<longleftrightarrow>
         (\<exists>vs v. verdicts = Some vs \<and> List.find (\<lambda>v. sv_endpoint v = ep_name (rm_endpoint (routedExternalModel m))) vs = Some v
            \<and> \<not> sv_admitted v))"
proof -
  have digits: "\<not> is_digit CHR ''/''" by (simp add: is_digit_def)
  have strip: "strip_slashes (s @ show_nat n) = s @ show_nat n" for s n
  proof -
    obtain c cs where "rev (show_nat n) = c # cs" by (cases "rev (show_nat n)") auto
    moreover from this have "is_digit c"
      using show_nat_digits [of n] by (metis list.set_intros(1) list_all_iff set_rev)
    ultimately show ?thesis using digits by (auto simp: strip_slashes_def rev_swap)
  qed
  show ?thesis
  proof (intro conjI)
    show "case external_call unseal cfg (rm_endpoint (routedExternalModel m)) (the (rm_external (routedExternalModel m)))
        path body stream of
       Inl e \<Rightarrow> e = internal_error \<and> unseal (xe_apiKeyCiphertext (xm_endpoint m)) (xe_id (xm_endpoint m)) = None
     | Inr call \<Rightarrow>
         uc_url call = ''http://127.0.0.1:'' @ show_nat (xe_listenPort (xm_endpoint m)) @ path
         \<and> map_of (uc_headers call) ''authorization'' =
             map_option (\<lambda>key. ''Bearer '' @ key) (unseal (xe_apiKeyCiphertext (xm_endpoint m)) (xe_id (xm_endpoint m)))
         \<and> map_of (uc_headers call) ''x-litellm-metadata'' = None"
      using strip [of "''http://127.0.0.1:''"]
      by (simp add: routedExternalModel_def external_call_def openKey_def split: option.split)
  qed (simp_all add: mapFailure_attested classify_aborted)
qed

end
