(* ===== verification/Liveness.thy ===== *)
theory Liveness
  imports Status_Projection
begin

text \<open>
  \<open>external-endpoints/external-endpoint-liveness.ts\<close> and \<open>external-endpoint-health.ts\<close>: whether a registered
  upstream answers, when a run of failed checks is an outage, what is said about it and what
  \<open>GET /health\<close> publishes. The typographic quotes are \<open>0x93\<close>, \<open>0x94\<close> and \<open>0x92\<close> of the code page 1252.
\<close>

section \<open>Reading a row\<close>

datatype reachability = Reachable | Unreachable | Unknown

fun reachability_name :: "reachability \<Rightarrow> string" where
  "reachability_name Reachable = ''reachable''"
| "reachability_name Unreachable = ''unreachable''"
| "reachability_name Unknown = ''unknown''"

definition UNREACHABLE_STAGE_FALLBACK :: string where "UNREACHABLE_STAGE_FALLBACK = ''fetch''"

definition reachabilityOf :: "endpoint_row \<Rightarrow> reachability" where
  "reachabilityOf row =
     (if st_lastCheckedAt row = None then Unknown
      else if st_status row = Verified then Reachable
      else case st_upstreamUnreachable row of
             Some reported \<Rightarrow> if reported then Unreachable else Reachable
           | None \<Rightarrow> if st_lastStage row = Some UNREACHABLE_STAGE_FALLBACK then Unreachable else Reachable)"

record outage_thresholds =
  ot_afterFailures :: int
  ot_afterNoSuccess :: int

definition expectedToServe :: "endpoint_row \<Rightarrow> bool" where
  "expectedToServe row \<longleftrightarrow> er_enabled row \<and> er_pinnedEvidenceDigest row \<noteq> None"

definition isOutage :: "endpoint_row \<Rightarrow> outage_thresholds \<Rightarrow> int \<Rightarrow> bool" where
  "isOutage row thresholds now =
     (case st_notServingSince row of
        None \<Rightarrow> False
      | Some since \<Rightarrow>
          if \<not> expectedToServe row then False
          else if ot_afterFailures thresholds > 0 \<and> st_consecutiveFailures row \<ge> ot_afterFailures thresholds then True
          else ot_afterNoSuccess thresholds > 0 \<and> now - since \<ge> ot_afterNoSuccess thresholds)"

record endpoint_liveness =
  el_name :: string
  el_status :: endpoint_status
  el_reachability :: reachability
  el_stage :: "string option"
  el_reason :: "string option"
  el_consecutiveFailures :: int
  el_notServingSince :: "int option"
  el_lastSuccessAt :: "int option"
  el_lastCheckedAt :: "int option"
  el_outage :: bool

definition livenessOf :: "endpoint_row \<Rightarrow> outage_thresholds \<Rightarrow> int \<Rightarrow> endpoint_liveness" where
  "livenessOf row thresholds now =
     \<lparr>el_name = er_name row, el_status = st_status row, el_reachability = reachabilityOf row,
      el_stage = (if st_status row = Verified then None else st_lastStage row),
      el_reason = (if st_status row = Verified then None else st_lastReason row),
      el_consecutiveFailures = st_consecutiveFailures row, el_notServingSince = st_notServingSince row,
      el_lastSuccessAt = st_lastSuccessAt row, el_lastCheckedAt = st_lastCheckedAt row,
      el_outage = isOutage row thresholds now\<rparr>"

section \<open>The summary of \<open>/health\<close>\<close>

datatype summary_status = Sum_none | Sum_unknown | Sum_ok | Sum_degraded | Sum_outage

record endpoints_status =
  es_status :: summary_status
  es_registered :: nat
  es_serving :: nat
  es_routable :: nat
  es_failing :: nat
  es_unreachable :: nat
  es_pending :: nat
  es_since :: "string option"
  es_verdictsReadAt :: "string option"

definition statusOfSummary :: "endpoint_liveness list \<Rightarrow> int option \<Rightarrow> bool \<Rightarrow> summary_status" where
  "statusOfSummary ls verdictsReadAt unroutable =
     (if ls = [] then Sum_none
      else if unroutable \<or> list_ex el_outage ls then Sum_outage
      else if verdictsReadAt = None then Sum_unknown
      else if list_all (\<lambda>l. el_status l = Verified) ls then Sum_ok else Sum_degraded)"

fun oldest :: "int option \<Rightarrow> int list \<Rightarrow> int option" where
  "oldest acc [] = acc"
| "oldest acc (t # ts) = oldest (case acc of None \<Rightarrow> Some t | Some o1 \<Rightarrow> if t < o1 then Some t else Some o1) ts"

definition summarise :: "endpoint_liveness list \<Rightarrow> int option \<Rightarrow> nat \<Rightarrow> bool \<Rightarrow> endpoints_status" where
  "summarise ls verdictsReadAt routable behindBefore =
     (let failing = filter (\<lambda>l. el_status l = Denied) ls;
          since = oldest None (List.map_filter el_notServingSince (filter (\<lambda>l. el_status l \<noteq> Verified) ls));
          serving = length (filter (\<lambda>l. el_status l = Verified) ls)
      in \<lparr>es_status = statusOfSummary ls verdictsReadAt (routable < serving \<and> behindBefore),
          es_registered = length ls, es_serving = serving, es_routable = routable,
          es_failing = length failing,
          es_unreachable = length (filter (\<lambda>l. el_reachability l = Unreachable) failing),
          es_pending = length (filter (\<lambda>l. el_status l = Pending) ls),
          es_since = map_option toISOString since,
          es_verdictsReadAt = map_option toISOString verdictsReadAt\<rparr>)"

record endpoint_health =
  eh_verdictsReadAt :: "int option"
  eh_summary :: endpoints_status
  eh_behind :: bool

definition initial_health :: endpoint_health where
  "initial_health = \<lparr>eh_verdictsReadAt = None, eh_summary = summarise [] None 0 False, eh_behind = False\<rparr>"

definition report_health :: "endpoint_health \<Rightarrow> endpoint_liveness list \<Rightarrow> int option \<Rightarrow> nat \<Rightarrow> endpoint_health" where
  "report_health h ls verdictsReadAt routable =
     (let readAt = or_else verdictsReadAt (eh_verdictsReadAt h);
          summary = summarise ls readAt routable (eh_behind h)
      in \<lparr>eh_verdictsReadAt = readAt, eh_summary = summary,
          eh_behind = (es_routable summary < es_serving summary)\<rparr>)"

section \<open>What is said about an outage\<close>

definition durationSince :: "int option \<Rightarrow> int \<Rightarrow> string" where
  "durationSince from now =
     (case from of
        None \<Rightarrow> ''an unknown period''
      | Some t \<Rightarrow>
          let minutes = max 0 ((now - t + 30000) div 60000); hours = minutes div 60
          in if minutes < 60 then show_int minutes @ ''m''
             else if hours < 48 then show_int hours @ ''h'' @ pad_start 2 CHR ''0'' (show_int (minutes mod 60)) @ ''m''
             else show_int (hours div 24) @ ''d'')"

definition dquoted :: "string \<Rightarrow> string" where "dquoted s = CHR 0x22 # s @ [CHR 0x22]"

definition outageLine :: "endpoint_liveness \<Rightarrow> int \<Rightarrow> string" where
  "outageLine l now =
     (let parts = [show_int (el_consecutiveFailures l) @ '' consecutive failed check(s)'',
            if el_reachability l = Unreachable then ''the upstream did not answer''
            else ''reachability '' @ reachability_name (el_reachability l)]
          @ (if truthy (el_stage l) then [''stage '' @ the (el_stage l)] else [])
          @ (if truthy (el_reason l) then [''reason '' @ dquoted (the (el_reason l))] else [])
      in ''External endpoint '' @ dquoted (el_name l) @ '' has not served for ''
         @ durationSince (el_notServingSince l) now @ '': '' @ join_with '', '' parts
         @ ''. Every model on it is refused with 503 attestation_failed.'')"

definition recoveryLine :: "endpoint_liveness \<Rightarrow> int \<Rightarrow> int \<Rightarrow> string" where
  "recoveryLine l declaredAt now =
     ''External endpoint '' @ dquoted (el_name l) @ '' is serving again after '' @ durationSince (Some declaredAt) now
     @ ''; its models are routable.''"

record operator_alert =
  oa_title :: string
  oa_summary :: string
  oa_facts :: "(string \<times> string) list"
  oa_action :: string

definition curly :: "string \<Rightarrow> string" where "curly s = CHR 0x93 # s @ [CHR 0x94]"

definition outageAlert :: "endpoint_liveness \<Rightarrow> int \<Rightarrow> operator_alert" where
  "outageAlert l now =
     \<lparr>oa_title = ''External endpoint '' @ curly (el_name l) @ '' has stopped serving'',
      oa_summary = ''Every model on '' @ curly (el_name l)
        @ '' is being refused with 503 attestation_failed, and has been for ''
        @ durationSince (el_notServingSince l) now @ ''.'',
      oa_facts =
        [(''Endpoint'', el_name l), (''Not serving for'', durationSince (el_notServingSince l) now),
         (''Failed checks in a row'', show_int (el_consecutiveFailures l)),
         (''Upstream'', case el_reachability l of
            Unreachable \<Rightarrow> ''did not answer at all''
          | Reachable \<Rightarrow> ''answered, and this router refused what it answered with''
          | Unknown \<Rightarrow> ''not checked since this process started'')]
        @ (if truthy (el_stage l) then [(''Stopped at stage'', the (el_stage l))] else []),
      oa_action =
        (if el_reachability l = Unreachable
         then ''The upstream did not answer, so this is the upstream'' @ [CHR 0x92]
              @ ''s cloud rather than an approval: check that the ''
              @ ''model deployment is up and that its hostname still routes. Nothing here needs approving.''
         else ''The upstream answered and this router refused what it answered with. If it was redeployed on purpose, ''
              @ ''approve the new deployment'' @ [CHR 0x92]
              @ ''s evidence digest in the console; if it was not, that refusal is the point. ''
              @ ''The sidecar'' @ [CHR 0x92] @ ''s own wording for the refusal is on the endpoint'' @ [CHR 0x92]
              @ ''s timeline in the console.'')\<rparr>"

definition recoveryAlert :: "endpoint_liveness \<Rightarrow> int \<Rightarrow> int \<Rightarrow> operator_alert" where
  "recoveryAlert l declaredAt now =
     \<lparr>oa_title = ''External endpoint '' @ curly (el_name l) @ '' is serving again'',
      oa_summary = curly (el_name l) @ '' holds an admitting verdict again; its models are routable.'',
      oa_facts = [(''Endpoint'', el_name l), (''Was not serving for'', durationSince (Some declaredAt) now)],
      oa_action = ''No action needed. The endpoint'' @ [CHR 0x92]
        @ ''s timeline in the console holds the run that just closed.''\<rparr>"

definition outageReason :: "endpoint_liveness \<Rightarrow> int \<Rightarrow> string" where
  "outageReason l now =
     ''Not serving for '' @ durationSince (el_notServingSince l) now @ '' after ''
     @ show_int (el_consecutiveFailures l) @ '' failed check(s); '' @ reachability_name (el_reachability l) @ ''.''"

section \<open>Lemmas\<close>

text \<open>The mail about an outage does not depend on the sidecar's own sentence.\<close>

lemma outageAlert_withholds_reason: "outageAlert (l\<lparr>el_reason := r\<rparr>) now = outageAlert l now"
  by (simp add: outageAlert_def)

lemma outage_not_served: "isOutage row t now \<Longrightarrow> er_enabled row \<and> st_notServingSince row \<noteq> None"
  by (auto simp: isOutage_def expectedToServe_def split: option.splits if_splits)

lemma summary_counts:
  assumes "list_all (\<lambda>l. el_status l \<noteq> Disabled) ls"
  shows "es_serving (summarise ls r n b) + es_failing (summarise ls r n b) + es_pending (summarise ls r n b)
    = es_registered (summarise ls r n b)"
  using assms
proof (induction ls)
  case (Cons l ls)
  then show ?case by (cases "el_status l") (simp_all add: summarise_def Let_def)
qed (simp add: summarise_def)

lemma oldest_least: "oldest acc ts = Some t \<Longrightarrow> (\<forall>x \<in> set ts. t \<le> x) \<and> (\<forall>a. acc = Some a \<longrightarrow> t \<le> a)"
  by (induction ts arbitrary: acc) (fastforce split: option.splits if_splits)+

lemma outage_persists:
  "isOutage row thresholds now \<Longrightarrow> now \<le> now' \<Longrightarrow> isOutage row thresholds now'"
  by (auto simp: isOutage_def split: option.splits if_splits)

end
