(* ===== verification/Evidence_Digest.thy ===== *)
theory Evidence_Digest
  imports Signed_Link
begin

text \<open>
  \<open>libs/types/src/evidence-digest.ts\<close>, the spellings of the digest that pins a deployment, and
  \<open>external-endpoints/measurement.ts\<close>, the canonical form of a launch measurement. \<open>btoa\<close> and \<open>atob\<close> with
  the replacements around them are the base64url codec of the signed links.
\<close>

section \<open>Definitions\<close>

definition EVIDENCE_DIGEST_PREFIX :: string where "EVIDENCE_DIGEST_PREFIX = ''sha256/''"

definition EVIDENCE_DIGEST_HEX_PREFIX :: string where "EVIDENCE_DIGEST_HEX_PREFIX = ''sha256:''"

definition is_b64url :: "char \<Rightarrow> bool" where
  "is_b64url c \<longleftrightarrow> b64_value c \<noteq> None \<and> c \<noteq> CHR ''+'' \<and> c \<noteq> CHR ''/''"

text \<open>42 characters of the alphabet and one whose value has its two low bits clear; at most one \<open>=\<close>.\<close>

definition is_digest_b64 :: "string \<Rightarrow> bool" where
  "is_digest_b64 s \<longleftrightarrow> length s = 43 \<and> list_all is_b64url (take 42 s) \<and> s ! 42 \<in> set ''AEIMQUYcgkosw048''"

definition BASE64URL_SHA256 :: "string \<Rightarrow> bool" where
  "BASE64URL_SHA256 s \<longleftrightarrow> is_digest_b64 s \<or> (s \<noteq> [] \<and> last s = CHR ''='' \<and> is_digest_b64 (butlast s))"

definition hex_value :: "char \<Rightarrow> nat option" where
  "hex_value c =
     (let n = of_char c :: nat
      in if 48 \<le> n \<and> n \<le> 57 then Some (n - 48)
         else if 97 \<le> n \<and> n \<le> 102 then Some (n - 87)
         else if 65 \<le> n \<and> n \<le> 70 then Some (n - 55) else None)"

definition hex_digit :: "nat \<Rightarrow> char" where
  "hex_digit n = (if n < 10 then char_of (48 + n) else char_of (87 + n))"

definition HEX_SHA256 :: "string \<Rightarrow> bool" where
  "HEX_SHA256 s \<longleftrightarrow> length s = 64 \<and> list_all (\<lambda>c. hex_value c \<noteq> None) s"

datatype digest_error = Invalid_evidence_digest string

definition isEvidenceDigest :: "string \<Rightarrow> bool" where
  "isEvidenceDigest v \<longleftrightarrow> starts_with v EVIDENCE_DIGEST_PREFIX
     \<and> BASE64URL_SHA256 (drop (length EVIDENCE_DIGEST_PREFIX) v)"

definition stripScheme :: "string \<Rightarrow> string" where
  "stripScheme v =
     (if starts_with v EVIDENCE_DIGEST_PREFIX then drop (length EVIDENCE_DIGEST_PREFIX) v
      else if starts_with v EVIDENCE_DIGEST_HEX_PREFIX then drop (length EVIDENCE_DIGEST_HEX_PREFIX) v else v)"

fun hex_bytes :: "string \<Rightarrow> nat list" where
  "hex_bytes (a # b # s) = (the (hex_value a) * 16 + the (hex_value b)) # hex_bytes s"
| "hex_bytes _ = []"

definition hexToBase64Url :: "string \<Rightarrow> string" where
  "hexToBase64Url hex = b64_encode (hex_bytes hex)"

definition bytes_hex :: "nat list \<Rightarrow> string" where
  "bytes_hex bs = concat (map (\<lambda>b. [hex_digit (b div 16), hex_digit (b mod 16)]) bs)"

definition base64UrlToHex :: "string \<Rightarrow> string" where
  "base64UrlToHex encoded = bytes_hex (b64_decode encoded)"

definition strip_padding :: "string \<Rightarrow> string" where
  "strip_padding s = rev (dropWhile (\<lambda>c. c = CHR ''='') (rev s))"

definition normalizeEvidenceDigest :: "string \<Rightarrow> (digest_error, string) result" where
  "normalizeEvidenceDigest v =
     (let trimmed = trim v
      in if isEvidenceDigest trimmed
         then Inr (EVIDENCE_DIGEST_PREFIX @ strip_padding (drop (length EVIDENCE_DIGEST_PREFIX) trimmed))
         else let hex = stripScheme trimmed
              in if HEX_SHA256 hex then Inr (EVIDENCE_DIGEST_PREFIX @ hexToBase64Url (to_lower hex))
                 else Inl (Invalid_evidence_digest v))"

definition evidenceDigestHex :: "string \<Rightarrow> (digest_error, string) result" where
  "evidenceDigestHex v =
     res_map (\<lambda>c. base64UrlToHex (drop (length EVIDENCE_DIGEST_PREFIX) c)) (normalizeEvidenceDigest v)"

definition formatEvidenceDigestHex :: "string \<Rightarrow> (digest_error, string) result" where
  "formatEvidenceDigestHex v = res_map (\<lambda>h. EVIDENCE_DIGEST_HEX_PREFIX @ h) (evidenceDigestHex v)"

definition evidenceDigestEquals :: "string \<Rightarrow> string \<Rightarrow> (digest_error, bool) result" where
  "evidenceDigestEquals a b =
     res_bind (normalizeEvidenceDigest a) (\<lambda>x. res_map (\<lambda>y. x = y) (normalizeEvidenceDigest b))"

datatype measurement_error = Invalid_measurement string

definition CANONICAL_measurement :: "string \<Rightarrow> bool" where
  "CANONICAL_measurement s \<longleftrightarrow> length s = 64 \<and> list_all (\<lambda>c. hex_value c \<noteq> None \<and> lower_char c = c) s"

text \<open>\<open>replace(PREFIX, '')\<close> with \<open>/i\<close>: the prefix may be written in either case.\<close>

definition strip_measurement_prefix :: "string \<Rightarrow> string" where
  "strip_measurement_prefix s =
     (if starts_with (to_lower s) ''sha256:'' then drop 7 s
      else if starts_with (to_lower s) ''0x'' then drop 2 s else s)"

definition normaliseMeasurement :: "string \<Rightarrow> (measurement_error, string) result" where
  "normaliseMeasurement v =
     (let normalised = to_lower (strip_measurement_prefix (trim v))
      in if CANONICAL_measurement normalised then Inr normalised else Inl (Invalid_measurement (trim v)))"

section \<open>Lemmas\<close>

lemma hex_digit_value [simp]: "n < 16 \<Longrightarrow> hex_value (hex_digit n) = Some n"
  by (auto simp: hex_value_def hex_digit_def Let_def)

lemma hex_digit_lower [simp]: "n < 16 \<Longrightarrow> lower_char (hex_digit n) = hex_digit n"
  by (auto simp: lower_char_def hex_digit_def Let_def)

lemma hex_value_small: "hex_value c = Some n \<Longrightarrow> n < 16"
  by (auto simp: hex_value_def Let_def split: if_splits)

lemma hex_bytes_hex [simp]: "list_all (\<lambda>b. b < 256) bs \<Longrightarrow> hex_bytes (bytes_hex bs) = bs"
  by (induction bs) (auto simp: bytes_hex_def)

lemma bytes_hex_shape:
  assumes "list_all (\<lambda>b. b < 256) bs"
  shows "length (bytes_hex bs) = 2 * length bs \<and> list_all (\<lambda>c. hex_value c \<noteq> None) (bytes_hex bs)
    \<and> to_lower (bytes_hex bs) = bytes_hex bs"
  using assms by (induction bs) (auto simp: bytes_hex_def to_lower_def)

lemma hex_bytes_small: "list_all (\<lambda>c. hex_value c \<noteq> None) s \<Longrightarrow> list_all (\<lambda>b. b < 256) (hex_bytes s)"
  by (induction s rule: hex_bytes.induct) (fastforce dest: hex_value_small)+

lemma hex_bytes_length: "length (hex_bytes s) = length s div 2"
  by (induction s rule: hex_bytes.induct) auto

text \<open>Decoding and encoding again, for as many characters as 32 bytes take.\<close>

lemma b64_value_small: "b64_value c = Some n \<Longrightarrow> n < 64"
  by (auto simp: b64_value_def Let_def split: if_splits)

lemma char_code: "(of_char c :: nat) = of_char d \<Longrightarrow> c = d"
  by simp

lemma b64_char_value:
  assumes "is_b64url c" "b64_value c = Some n"
  shows "b64_char n = c"
proof -
  have special: "(of_char c :: nat) = 45 \<Longrightarrow> c = CHR ''-''" "(of_char c :: nat) = 43 \<Longrightarrow> c = CHR ''+''"
    "(of_char c :: nat) = 95 \<Longrightarrow> c = CHR ''_''" "(of_char c :: nat) = 47 \<Longrightarrow> c = CHR ''/''"
    by (rule char_code, simp)+
  have code: "m = (of_char c :: nat) \<Longrightarrow> char_of m = c" for m :: nat by simp
  show ?thesis
    using assms special
    by (auto simp: is_b64url_def b64_char_def b64_value_def Let_def intro!: code split: if_splits)
qed

definition b64_values :: "string \<Rightarrow> nat list" where
  "b64_values s = map (\<lambda>c. the (b64_value c)) s"

lemma decode_values: "list_all is_b64url s \<Longrightarrow> b64_decode s = b64_bytes (b64_values s)"
proof -
  assume "list_all is_b64url s"
  then have "List.map_filter b64_value s = b64_values s"
    by (induction s) (auto simp: b64_values_def is_b64url_def map_filter_simps)
  then show ?thesis by (simp add: b64_decode_def)
qed

lemma values_chars: "list_all is_b64url s \<Longrightarrow> map b64_char (b64_values s) = s \<and> list_all (\<lambda>n. n < 64) (b64_values s)"
  by (induction s) (auto simp: b64_values_def is_b64url_def intro: b64_char_value b64_value_small)

lemma encode_bytes:
  assumes "list_all (\<lambda>n. n < 64) vs" "length vs mod 4 = 0 \<or> length vs mod 4 = 3 \<and> last vs mod 4 = 0"
  shows "b64_encode (b64_bytes vs) = map b64_char vs"
  using assms
proof (induction vs rule: b64_bytes.induct)
  case (1 p q r s rest)
  have "length (p # q # r # s # rest) mod 4 = length rest mod 4" by simp
  then have "b64_encode (b64_bytes rest) = map b64_char rest"
    using 1 by (cases "rest = []") auto
  moreover have "(p * 4 + q div 16) div 4 = p" "(p * 4 + q div 16) mod 4 * 16 + (q mod 16 * 16 + r div 4) div 16 = q"
    "(q mod 16 * 16 + r div 4) mod 16 * 4 + (r mod 4 * 64 + s) div 64 = r" "(r mod 4 * 64 + s) mod 64 = s"
    using "1.prems" by auto
  ultimately show ?case by simp
next
  case (2 p q r)
  then have "(p * 4 + q div 16) div 4 = p" "(p * 4 + q div 16) mod 4 * 16 + (q mod 16 * 16 + r div 4) div 16 = q"
    "(q mod 16 * 16 + r div 4) mod 16 * 4 = r"
    by auto
  then show ?case by (simp only: b64_bytes.simps b64_encode.simps list.map)
qed auto

lemma bytes_of_values:
  assumes "list_all (\<lambda>n. n < 64) vs"
  shows "list_all (\<lambda>b. b < 256) (b64_bytes vs) \<and> length (b64_bytes vs) = length vs * 3 div 4"
  using assms by (induction vs rule: b64_bytes.induct) auto

lemma is_b64url_code: "is_b64url c \<longleftrightarrow> b64_value c \<noteq> None \<and> (of_char c :: nat) \<noteq> 43 \<and> (of_char c :: nat) \<noteq> 47"
  unfolding is_b64url_def by (auto intro: char_code [of c "CHR ''+''"] char_code [of c "CHR ''/''"])

lemma b64_code:
  "n < 64 \<Longrightarrow> (of_char (b64_char n) :: nat) =
     (if n < 26 then n + 65 else if n < 52 then n + 71 else if n < 62 then n - 4 else if n = 62 then 45 else 95)"
  by (simp add: b64_char_def)

lemma b64url_char [simp]: "n < 64 \<Longrightarrow> is_b64url (b64_char n)"
  by (simp add: is_b64url_code b64_code) arith

text \<open>What 32 bytes are encoded as is a digest, and the other way round.\<close>

lemma final_codes:
  "c \<in> set ''AEIMQUYcgkosw048'' \<longleftrightarrow>
     (of_char c :: nat) \<in> {65, 69, 73, 77, 81, 85, 89, 99, 103, 107, 111, 115, 119, 48, 52, 56}"
proof -
  have "c = d \<longleftrightarrow> (of_char c :: nat) = of_char d" for d by simp
  then show ?thesis by (simp del: of_char_eq_iff)
qed

lemma final_chars: "c \<in> set ''AEIMQUYcgkosw048'' \<longleftrightarrow> is_b64url c \<and> (\<exists>n. b64_value c = Some n \<and> n mod 4 = 0)"
proof -
  define k where "k = (of_char c :: nat)"
  have "is_b64url c \<and> (\<exists>n. b64_value c = Some n \<and> n mod 4 = 0) \<longleftrightarrow>
      k \<in> {65, 69, 73, 77, 81, 85, 89, 99, 103, 107, 111, 115, 119, 48, 52, 56}"
    unfolding is_b64url_code b64_value_def k_def [symmetric] Let_def
    by (cases "k \<le> 57"; cases "k \<le> 90"; cases "k \<le> 122") (simp; presburger)+
  then show ?thesis by (simp only: final_codes k_def)
qed

lemma encode_shape:
  assumes "list_all (\<lambda>b. b < 256) bs"
  shows "list_all is_b64url (b64_encode bs) \<and> length (b64_encode bs) = (4 * length bs + 2) div 3
    \<and> (length bs mod 3 = 2 \<longrightarrow> last (b64_encode bs) \<in> set ''AEIMQUYcgkosw048'')"
  using assms
proof (induction bs rule: b64_encode.induct)
  case (3 a b)
  then show ?case using final_chars [of "b64_char (b mod 16 * 4)"] by (auto simp: byte_parts)
next
  case (4 a b c rest)
  have "length (a # b # c # rest) mod 3 = length rest mod 3" by simp
  moreover have "rest \<noteq> [] \<or> length rest mod 3 \<noteq> 2" by auto
  ultimately show ?case using 4 by (auto simp: byte_parts)
qed (auto simp: byte_parts)

lemma last_of_43: "length e = 43 \<Longrightarrow> last e = e ! 42 \<and> e = take 42 e @ [e ! 42]"
  by (cases e) (auto simp: last_conv_nth take_Suc_conv_app_nth [symmetric])

lemma digest_of_bytes:
  assumes "list_all (\<lambda>b. b < 256) bs" "length bs = 32"
  shows "is_digest_b64 (b64_encode bs)"
proof -
  have len: "length (b64_encode bs) = 43" and final: "last (b64_encode bs) \<in> set ''AEIMQUYcgkosw048''"
    and all: "list_all is_b64url (b64_encode bs)"
    using encode_shape [OF assms(1)] assms(2) by simp_all
  have "list_all is_b64url (take 42 (b64_encode bs))"
    using all by (auto simp: list_all_iff dest: in_set_takeD)
  then show ?thesis
    unfolding is_digest_b64_def using len final last_of_43 [OF len] by metis
qed

lemma digest_alphabet:
  assumes "is_digest_b64 e"
  shows "list_all is_b64url e \<and> last (b64_values e) mod 4 = 0 \<and> last e \<noteq> CHR ''='' \<and> length e = 43"
proof -
  have e: "length e = 43" "list_all is_b64url (take 42 e)" "e ! 42 \<in> set ''AEIMQUYcgkosw048''"
    using assms by (auto simp: is_digest_b64_def)
  have last: "last e = e ! 42" "e = take 42 e @ [last e]" using last_of_43 [OF e(1)] by auto
  have f: "is_b64url (last e)" "the (b64_value (last e)) mod 4 = 0"
    using e(3) final_chars [of "e ! 42"] last(1) by auto
  have "list_all is_b64url e" using f(1) e(2) by (subst last(2)) simp
  moreover have "last (b64_values e) = the (b64_value (last e))"
    using e(1) by (cases e) (auto simp: b64_values_def last_map)
  ultimately show ?thesis using f e(1) by (auto simp: is_b64url_def b64_value_def)
qed

lemma decode_digest:
  assumes "is_digest_b64 e"
  shows "b64_encode (b64_decode e) = e \<and> length (b64_decode e) = 32 \<and> list_all (\<lambda>b. b < 256) (b64_decode e)"
proof -
  note a = digest_alphabet [OF assms]
  have "length (b64_values e) = 43" using a by (simp add: b64_values_def)
  then show ?thesis
    using a values_chars [of e] encode_bytes [of "b64_values e"] bytes_of_values [of "b64_values e"]
    by (simp add: decode_values)
qed

lemma hex_char_shape: "hex_value c \<noteq> None \<Longrightarrow> \<not> is_space c \<and> c \<noteq> CHR ''s''"
  by (auto simp: hex_value_def is_space_def Let_def split: if_splits)

lemma b64_not_space: "is_b64url c \<Longrightarrow> \<not> is_space c"
  by (auto simp: is_b64url_def b64_value_def is_space_def Let_def split: if_splits)

text \<open>A normalised digest is the prefix and 43 characters, whatever it was written as.\<close>

lemma normalize_shape:
  assumes "normalizeEvidenceDigest v = Inr d"
  obtains e where "d = EVIDENCE_DIGEST_PREFIX @ e" "is_digest_b64 e"
proof -
  define t where "t = trim v"
  show ?thesis
  proof (cases "isEvidenceDigest t")
    case True
    define x where "x = drop (length EVIDENCE_DIGEST_PREFIX) t"
    have "is_digest_b64 (strip_padding x)"
    proof -
      have strip: "strip_padding s = s" if "is_digest_b64 s" for s
        using digest_alphabet [OF that] by (cases s rule: rev_cases) (auto simp: strip_padding_def)
      have "strip_padding x = strip_padding (butlast x)" if "x \<noteq> []" "last x = CHR ''=''"
        using that by (cases x rule: rev_cases) (auto simp: strip_padding_def)
      then show ?thesis using True strip by (auto simp: isEvidenceDigest_def BASE64URL_SHA256_def x_def)
    qed
    moreover have "d = EVIDENCE_DIGEST_PREFIX @ strip_padding x"
      using assms True by (simp add: normalizeEvidenceDigest_def Let_def t_def x_def)
    ultimately show ?thesis using that by blast
  next
    case False
    then have hex: "HEX_SHA256 (stripScheme t)" and d: "d = EVIDENCE_DIGEST_PREFIX @ hexToBase64Url (to_lower (stripScheme t))"
      using assms by (auto simp: normalizeEvidenceDigest_def Let_def t_def split: if_splits)
    have lower: "hex_value (lower_char c) \<noteq> None" if "hex_value c \<noteq> None" for c
      using that by (auto simp: hex_value_def lower_char_def Let_def split: if_splits)
    have "list_all (\<lambda>c. hex_value c \<noteq> None) (to_lower (stripScheme t))" "length (to_lower (stripScheme t)) = 64"
      using hex lower by (auto simp: HEX_SHA256_def to_lower_def list_all_iff)
    then have "is_digest_b64 (hexToBase64Url (to_lower (stripScheme t)))"
      unfolding hexToBase64Url_def by (intro digest_of_bytes) (simp_all add: hex_bytes_small hex_bytes_length)
    then show ?thesis using that d by blast
  qed
qed

lemma normalize_canonical:
  assumes "is_digest_b64 e"
  shows "normalizeEvidenceDigest (EVIDENCE_DIGEST_PREFIX @ e) = Inr (EVIDENCE_DIGEST_PREFIX @ e)"
proof -
  note a = digest_alphabet [OF assms]
  then have "e \<noteq> []" by auto
  then have e: "e \<noteq> []" "\<not> is_space (last e)" "last e \<noteq> CHR ''=''"
    using a b64_not_space [of "last e"] last_in_set [of e] by (auto simp: list_all_iff)
  then have "trim (EVIDENCE_DIGEST_PREFIX @ e) = EVIDENCE_DIGEST_PREFIX @ e"
    by (intro trim_id) (auto simp: EVIDENCE_DIGEST_PREFIX_def is_space_def)
  moreover have "strip_padding e = e" using e by (cases e rule: rev_cases) (auto simp: strip_padding_def)
  ultimately show ?thesis
    using assms by (simp add: normalizeEvidenceDigest_def isEvidenceDigest_def BASE64URL_SHA256_def)
qed

lemma normalize_hex:
  assumes "list_all (\<lambda>b. b < 256) bs" "length bs = 32" "p = [] \<or> p = EVIDENCE_DIGEST_HEX_PREFIX"
  shows "normalizeEvidenceDigest (p @ bytes_hex bs) = Inr (EVIDENCE_DIGEST_PREFIX @ b64_encode bs)"
proof -
  note shape = bytes_hex_shape [OF assms(1)]
  define h where "h = bytes_hex bs"
  have "h \<noteq> []" using shape assms by (auto simp: h_def)
  then have h: "h \<noteq> []" "hex_value (hd h) \<noteq> None" "hex_value (last h) \<noteq> None" "HEX_SHA256 h" "to_lower h = h"
    "hex_bytes h = bs"
    using shape assms hd_in_set [of h] last_in_set [of h] by (auto simp: h_def HEX_SHA256_def list_all_iff)
  have s: "hd h \<noteq> CHR ''s''" "\<not> is_space (hd h)" "\<not> is_space (last h)"
    using hex_char_shape h(2,3) by blast+
  have no: "\<not> starts_with h EVIDENCE_DIGEST_PREFIX" "\<not> starts_with h EVIDENCE_DIGEST_HEX_PREFIX"
    using s(1) h(1) by (cases h; simp add: starts_with_def EVIDENCE_DIGEST_PREFIX_def EVIDENCE_DIGEST_HEX_PREFIX_def)+
  have no': "\<not> starts_with (EVIDENCE_DIGEST_HEX_PREFIX @ h) EVIDENCE_DIGEST_PREFIX"
    by (simp add: starts_with_def EVIDENCE_DIGEST_PREFIX_def EVIDENCE_DIGEST_HEX_PREFIX_def)
  have "trim (p @ h) = p @ h"
    using assms(3) s h(1) by (intro trim_id) (auto simp: EVIDENCE_DIGEST_HEX_PREFIX_def is_space_def)
  moreover have "\<not> isEvidenceDigest (p @ h)" "stripScheme (p @ h) = h"
    using assms(3) no no' by (auto simp: isEvidenceDigest_def stripScheme_def)
  ultimately show ?thesis
    using h(4-6) by (simp add: normalizeEvidenceDigest_def hexToBase64Url_def h_def [symmetric])
qed

section \<open>Properties\<close>

text \<open>
  Every accepted spelling of an evidence digest has one canonical form. Normalising is idempotent;
  the 64 hex digits a screen shows for a digest, with or without the scheme in front, read back as
  that digest; so two values are equal digests exactly when they name the same 32 bytes.
\<close>

theorem digest_spellings:
  assumes "normalizeEvidenceDigest v = Inr d"
  shows "normalizeEvidenceDigest d = Inr d
    \<and> (\<exists>hex. evidenceDigestHex v = Inr hex \<and> HEX_SHA256 hex \<and> to_lower hex = hex
         \<and> normalizeEvidenceDigest hex = Inr d \<and> formatEvidenceDigestHex v = Inr (''sha256:'' @ hex)
         \<and> normalizeEvidenceDigest (''sha256:'' @ hex) = Inr d)"
proof -
  obtain e where e: "d = EVIDENCE_DIGEST_PREFIX @ e" "is_digest_b64 e" using normalize_shape [OF assms] .
  note dec = decode_digest [OF e(2)]
  have "evidenceDigestHex v = Inr (bytes_hex (b64_decode e))"
    by (simp add: evidenceDigestHex_def assms e(1) base64UrlToHex_def)
  then show ?thesis
    using dec e normalize_canonical normalize_hex [of "b64_decode e" "[]"]
      normalize_hex [of "b64_decode e" EVIDENCE_DIGEST_HEX_PREFIX] bytes_hex_shape [of "b64_decode e"]
    by (auto simp: formatEvidenceDigestHex_def HEX_SHA256_def EVIDENCE_DIGEST_HEX_PREFIX_def)
qed

end
