(* ===== verification/Sidecar_Config.thy ===== *)
theory Sidecar_Config
  imports Prelude "HOL-Library.List_Lexorder" "HOL-Library.Char_ord" "HOL-Library.Multiset"
begin

text \<open>
  What the egress sidecar is told: \<open>external-endpoints/sidecar-config.ts\<close> (the document, as a value) and
  \<open>external-endpoints/listen-port.ts\<close>.

  \<open>parse_url\<close> stands for the \<open>URL\<close> constructor, \<open>None\<close> when it throws. \<open>localeCompare\<close> of two endpoint names is
  the order of their characters: a name consists of hyphens, digits and lower-case letters, which the
  collation orders that way. The YAML serialisation of the document is left out.
\<close>

section \<open>The document\<close>

record parsed_url =
  url_protocol :: string
  url_host :: string
  url_hostname :: string

record sidecar_input =
  si_name :: string
  si_baseUrl :: string
  si_listenPort :: nat
  si_pinnedEvidenceDigest :: "string option"

record sidecar_endpoint =
  se_name :: string
  se_listen :: string
  se_upstream :: string
  se_trust :: string
  se_trustedEvidence :: "string list"
  se_failMode :: string

record sidecar_config =
  sc_version :: nat
  sc_attestedRoots :: bool
  sc_trustedMeasurements :: "string list"
  sc_failMode :: string
  sc_reattestInterval :: string
  sc_verdictCacheTtl :: string
  sc_maxBundleAge :: string
  sc_adminListen :: string
  sc_endpoints :: "sidecar_endpoint list"

datatype sidecar_error = Unrenderable string string

definition TWO_FACTOR_TRUST :: string where "TWO_FACTOR_TRUST = ''measurement-and-digest''"

definition MAX_BUNDLE_AGE :: string where "MAX_BUNDLE_AGE = ''24h''"

definition VERDICT_CACHE_TTL :: string where "VERDICT_CACHE_TTL = ''60s''"

definition goDuration :: "nat \<Rightarrow> string" where
  "goDuration ms =
     (if 3600000 \<le> ms \<and> ms mod 3600000 = 0 then show_nat (ms div 3600000) @ ''h''
      else if 60000 \<le> ms \<and> ms mod 60000 = 0 then show_nat (ms div 60000) @ ''m''
      else if 1000 \<le> ms \<and> ms mod 1000 = 0 then show_nat (ms div 1000) @ ''s''
      else show_nat ms @ ''ms'')"

definition upstreamOf :: "(string \<Rightarrow> parsed_url option) \<Rightarrow> sidecar_input \<Rightarrow> (sidecar_error, string) result" where
  "upstreamOf parse_url e =
     (case parse_url (si_baseUrl e) of
        None \<Rightarrow> Inl (Unrenderable (si_name e) (CHR 0x22 # si_baseUrl e @ CHR 0x22 # '' is not a URL''))
      | Some url \<Rightarrow>
          if url_protocol url \<noteq> ''https:''
          then Inl (Unrenderable (si_name e)
                 ''its base URL is not https, so there is no TLS channel to bind the evidence to'')
          else Inr (url_protocol url @ ''//'' @ url_host url))"

definition render_endpoint ::
  "(string \<Rightarrow> parsed_url option) \<Rightarrow> sidecar_input \<Rightarrow> (sidecar_error, sidecar_endpoint) result" where
  "render_endpoint parse_url e =
     res_map (\<lambda>upstream.
       \<lparr>se_name = si_name e, se_listen = ''127.0.0.1:'' @ show_nat (si_listenPort e), se_upstream = upstream,
        se_trust = TWO_FACTOR_TRUST,
        se_trustedEvidence = (if truthy (si_pinnedEvidenceDigest e) then [the (si_pinnedEvidenceDigest e)] else []),
        se_failMode = ''closed''\<rparr>) (upstreamOf parse_url e)"

fun map_res :: "('a \<Rightarrow> ('e, 'b) result) \<Rightarrow> 'a list \<Rightarrow> ('e, 'b list) result" where
  "map_res f [] = Inr []"
| "map_res f (x # xs) = res_bind (f x) (\<lambda>y. res_map (\<lambda>ys. y # ys) (map_res f xs))"

definition buildSidecarConfig ::
  "(string \<Rightarrow> parsed_url option) \<Rightarrow> sidecar_input list \<Rightarrow> string list \<Rightarrow> string \<Rightarrow> nat
    \<Rightarrow> (sidecar_error, sidecar_config) result" where
  "buildSidecarConfig parse_url endpoints trustedMeasurements adminListen reattestIntervalMs =
     res_map (\<lambda>rendered.
       \<lparr>sc_version = 1, sc_attestedRoots = True, sc_trustedMeasurements = sort (remdups trustedMeasurements),
        sc_failMode = ''closed'', sc_reattestInterval = goDuration reattestIntervalMs,
        sc_verdictCacheTtl = VERDICT_CACHE_TTL, sc_maxBundleAge = MAX_BUNDLE_AGE,
        sc_adminListen = adminListen, sc_endpoints = rendered\<rparr>)
     (map_res (render_endpoint parse_url) (sort_key si_name endpoints))"

section \<open>Listener ports\<close>

datatype port_error = No_free_listen_port nat nat

fun port_loop :: "nat \<Rightarrow> nat \<Rightarrow> nat list \<Rightarrow> nat option" where
  "port_loop port 0 used = None"
| "port_loop port (Suc n) used = (if port \<notin> set used then Some port else port_loop (Suc port) n used)"

definition allocateListenPort :: "nat \<Rightarrow> nat \<Rightarrow> nat list \<Rightarrow> (port_error, nat) result" where
  "allocateListenPort base ports taken =
     (case port_loop base ports taken of Some port \<Rightarrow> Inr port | None \<Rightarrow> Inl (No_free_listen_port base ports))"

section \<open>Lemmas\<close>

lemma port_loop_Some:
  "port_loop base n used = Some p \<Longrightarrow>
     base \<le> p \<and> p < base + n \<and> p \<notin> set used \<and> {base..<p} \<subseteq> set used"
proof (induction base n used rule: port_loop.induct)
  case (2 port n used)
  show ?case
  proof (cases "port \<in> set used")
    case True
    then have "Suc port \<le> p \<and> p < Suc port + n \<and> p \<notin> set used \<and> {Suc port..<p} \<subseteq> set used"
      using 2 by simp
    moreover from this have "{port..<p} = insert port {Suc port..<p}" by auto
    ultimately show ?thesis using True by simp
  qed (use 2 in auto)
qed simp

lemma port_loop_None: "port_loop base n used = None \<longleftrightarrow> {base..<base + n} \<subseteq> set used"
proof (induction base n used rule: port_loop.induct)
  case (2 port n used)
  have "{port..<port + Suc n} = insert port {Suc port..<Suc port + n}" by auto
  then show ?case using 2 by auto
qed simp

lemma map_res_Inr: "map_res f xs = Inr ys \<longleftrightarrow> list_all2 (\<lambda>x y. f x = Inr y) xs ys"
  by (induction xs arbitrary: ys) (auto simp: res_bind_eq_Inr res_map_eq_Inr list_all2_Cons1)

lemma render_endpoint_Inr:
  "render_endpoint parse_url e = Inr r \<longleftrightarrow>
     (\<exists>url. parse_url (si_baseUrl e) = Some url \<and> url_protocol url = ''https:''
        \<and> r = \<lparr>se_name = si_name e, se_listen = ''127.0.0.1:'' @ show_nat (si_listenPort e),
               se_upstream = ''https://'' @ url_host url, se_trust = TWO_FACTOR_TRUST,
               se_trustedEvidence = (if truthy (si_pinnedEvidenceDigest e) then [the (si_pinnedEvidenceDigest e)] else []),
               se_failMode = ''closed''\<rparr>)"
  by (auto simp: render_endpoint_def upstreamOf_def res_map_eq_Inr split: option.splits if_splits)

text \<open>Endpoints with distinct names are listed in one order, however the query returned them.\<close>

lemma sorted_once:
  fixes xs ys :: "sidecar_input list"
  assumes "mset xs = mset ys" "distinct (map si_name xs)"
  shows "sort_key si_name xs = sort_key si_name ys"
proof (rule sort_key_inj_key_eq)
  show "mset xs = mset (sort_key si_name ys)" using assms(1) by simp
  show "inj_on si_name (set xs)" using assms(2) by (simp add: distinct_map)
qed simp

section \<open>Properties\<close>



end
