(* ===== verification/External_Endpoints.thy ===== *)
theory External_Endpoints
  imports Catalog Liveness Evidence_Digest Sidecar_Config
begin

text \<open>
  The state behind external endpoints and everything that writes it:
  \<open>external-endpoints/external-endpoint-status.service.ts\<close> with its poller, \<open>external-endpoint-admin.service.ts\<close>,
  \<open>sidecar-config.ts\<close> with its writer, and \<open>listen-port.ts\<close>.

  One record holds the tables and the services' own maps. A pass of the poller and an admin mutation
  are atomic: the poller never overlaps itself, and what an admin writes while a pass is waiting for
  the sidecar is not interleaved with it. The arguments \<open>parse_url\<close> (the \<open>URL\<close> constructor), \<open>seal\<close> (the
  secret envelope), \<open>writable\<close> (whether the file can be written) and the new row ids stand for what the
  code calls; the ids of timeline rows are left out.
\<close>

section \<open>State\<close>

record trusted_measurement =
  tm_id :: string
  tm_measurement :: string
  tm_note :: "string option"
  tm_addedByUserId :: "string option"
  tm_addedAt :: int

record timeline_row =
  tr_endpointId :: string
  tr_at :: int
  tr_event :: projected_event

record ext_state =
  xs_rows :: "endpoint_row list"
  xs_models :: "model_row list"
  xs_timeline :: "timeline_row list"
  xs_measurements :: "trusted_measurement list"
  xs_catalog :: external_catalog
  xs_confirmedAt :: "(string \<times> int) list"
  xs_alerted :: "(string \<times> int) list"
  xs_health :: endpoint_health
  xs_raised :: "(operator_alert \<times> bool) list"
  xs_configFile :: "sidecar_config option"

record ext_config =
  xg_statusPollInterval :: int
  xg_reattestInterval :: int
  xg_outage :: outage_thresholds
  xg_listenPortBase :: nat
  xg_listenPortRange :: nat
  xg_adminListen :: string

section \<open>The status service\<close>

definition digest_hex :: "string \<Rightarrow> string option" where
  "digest_hex d = (case evidenceDigestHex d of Inr h \<Rightarrow> Some h | Inl _ \<Rightarrow> None)"

definition refresh :: "ext_state \<Rightarrow> ext_state" where
  "refresh s = s\<lparr>xs_catalog := rebuild digest_hex (xs_models s) (xs_rows s)\<rparr>"

definition update_rows :: "string \<Rightarrow> (endpoint_row \<Rightarrow> endpoint_row) \<Rightarrow> ext_state \<Rightarrow> ext_state" where
  "update_rows i f s = s\<lparr>xs_rows := map (\<lambda>r. if er_id r = i then f r else r) (xs_rows s)\<rparr>"

definition append_event :: "string \<Rightarrow> int \<Rightarrow> projected_event \<Rightarrow> ext_state \<Rightarrow> ext_state" where
  "append_event i now e s =
     s\<lparr>xs_timeline := xs_timeline s @ [\<lparr>tr_endpointId = i, tr_at = now, tr_event = e\<rparr>]\<rparr>"

definition apply_projected :: "string \<Rightarrow> projected_verdict \<Rightarrow> int \<Rightarrow> ext_state \<Rightarrow> ext_state" where
  "apply_projected i p now s =
     fold (append_event i now) (pv_events p)
       (update_rows i (\<lambda>r. (with_patch r (pv_patch p))\<lparr>er_updatedAt := now\<rparr>) s)"

definition recordEvent ::
  "string \<Rightarrow> event_kind \<Rightarrow> int \<Rightarrow> string option \<Rightarrow> string option \<Rightarrow> string option \<Rightarrow> ext_state \<Rightarrow> ext_state" where
  "recordEvent i kind now evidenceDigest reason stage s =
     append_event i now
       \<lparr>pe_kind = kind, pe_stage = clip stage 32, pe_reason = clip reason 255, pe_measurement = None,
        pe_evidenceDigest = evidenceDigest\<rparr> s"

definition publish_health :: "ext_config \<Rightarrow> endpoint_row list \<Rightarrow> int option \<Rightarrow> int \<Rightarrow> ext_state \<Rightarrow> ext_state" where
  "publish_health cfg rows verdictsReadAt now s =
     s\<lparr>xs_health := report_health (xs_health s) (map (\<lambda>r. livenessOf r (xg_outage cfg) now) rows) verdictsReadAt
         (routableEndpoints (xs_catalog s))\<rparr>"

text \<open>The reset of a verdict, shared by the boot and the admin mutations.\<close>

definition PENDING_VERDICT :: "endpoint_status \<Rightarrow> int option \<Rightarrow> status_patch" where
  "PENDING_VERDICT status notServingSince =
     \<lparr>st_status = status, st_lastCheckedAt = None, st_lastStage = None, st_lastReason = None,
      st_measurementSeen = None, st_measurementSource = None, st_measurementInRegistry = None,
      st_evidenceDigestSeen = None, st_pinnedCertFingerprint = None, st_observedCertFingerprint = None,
      st_lastSuccessAt = None, st_lastFailureAt = None, st_notServingSince = notServingSince,
      st_consecutiveFailures = 0, st_upstreamUnreachable = None\<rparr>"

definition resetToPending :: "ext_config \<Rightarrow> int \<Rightarrow> ext_state \<Rightarrow> nat \<times> ext_state" where
  "resetToPending cfg now s =
     (let enabled = filter er_enabled (xs_rows s);
          reset = PENDING_VERDICT Pending (Some now);
          s1 = s\<lparr>xs_rows := map (\<lambda>r. if er_id r \<in> er_id ` set enabled
                    then (with_patch r reset)\<lparr>er_updatedAt := now\<rparr> else r) (xs_rows s)\<rparr>;
          s2 = publish_health cfg (map (\<lambda>r. with_patch r reset) enabled) None now (refresh s1)
      in (length enabled, s2\<lparr>xs_alerted := [], xs_confirmedAt := []\<rparr>))"

record sync_report =
  sy_seen :: nat
  sy_flipped :: nat
  sy_events :: nat
  sy_outages :: nat
  sy_expired :: nat

definition verdict_for :: "sidecar_verdict list \<Rightarrow> string \<Rightarrow> sidecar_verdict option" where
  "verdict_for verdicts name = map_of (rev (map (\<lambda>v. (sv_endpoint v, v)) verdicts)) name"

definition pass_clock :: "ext_config \<Rightarrow> int \<Rightarrow> projection_clock" where
  "pass_clock cfg now = \<lparr>cl_now = now, cl_attestWindowMs = verdictAttestWindowMs (xg_reattestInterval cfg)\<rparr>"

text \<open>One enabled row of a pass: the state, the report and the rows as the pass leaves them.\<close>

definition sync_endpoint ::
  "ext_config \<Rightarrow> int \<Rightarrow> sidecar_verdict list \<Rightarrow> endpoint_row \<Rightarrow> ext_state \<times> sync_report \<times> endpoint_row list
    \<Rightarrow> ext_state \<times> sync_report \<times> endpoint_row list" where
  "sync_endpoint cfg now verdicts e st =
     (case st of (s, rep, rows) \<Rightarrow>
      case verdict_for verdicts (er_name e) of
        None \<Rightarrow> (s, rep, rows @ [e])
      | Some v \<Rightarrow>
          let s1 = s\<lparr>xs_confirmedAt := map_set (er_id e) now (xs_confirmedAt s)\<rparr>;
              p = projectVerdict e v (pass_clock cfg now);
              s2 = (if pv_patchChanged p \<or> pv_events p \<noteq> [] then apply_projected (er_id e) p now s1 else s1);
              rep1 = rep\<lparr>sy_seen := sy_seen rep + 1, sy_events := sy_events rep + length (pv_events p)\<rparr>;
              rep2 = (if pv_statusChanged p
                      then rep1\<lparr>sy_flipped := sy_flipped rep1 + 1,
                                sy_expired := sy_expired rep1
                                  + (if list_ex (\<lambda>x. pe_kind x = Verdict_expired) (pv_events p) then 1 else 0)\<rparr>
                      else rep1)
          in (s2, rep2, rows @ [with_patch e (pv_patch p)]))"

definition expire_row ::
  "ext_config \<Rightarrow> int \<Rightarrow> endpoint_row \<Rightarrow> ext_state \<times> endpoint_row list \<times> endpoint_row list
    \<Rightarrow> ext_state \<times> endpoint_row list \<times> endpoint_row list" where
  "expire_row cfg now row st =
     (case st of (s, projected, expired) \<Rightarrow>
      case expireVerdict row \<lparr>vc_confirmedAt = map_of (xs_confirmedAt s) (er_id row),
             vc_graceMs = verdictGraceMs (xg_statusPollInterval cfg), vc_now = now\<rparr> of
        None \<Rightarrow> (s, projected @ [row], expired)
      | Some lapsed \<Rightarrow>
          let s1 = apply_projected (er_id row) lapsed now s;
              after = with_patch row (pv_patch lapsed)
          in (s1\<lparr>xs_confirmedAt := map_delete (er_id row) (xs_confirmedAt s1)\<rparr>, projected @ [after], expired @ [after]))"

definition prune :: "endpoint_row list \<Rightarrow> (string \<times> int) list \<Rightarrow> (string \<times> int) list" where
  "prune rows m = filter (\<lambda>e. fst e \<in> er_id ` set rows) m"

definition expireStaleVerdicts ::
  "ext_config \<Rightarrow> endpoint_row list \<Rightarrow> int \<Rightarrow> ext_state \<Rightarrow> ext_state \<times> endpoint_row list \<times> endpoint_row list" where
  "expireStaleVerdicts cfg rows now s =
     (case fold (expire_row cfg now) rows (s, [], []) of (s1, projected, expired) \<Rightarrow>
        (s1\<lparr>xs_confirmedAt := prune rows (xs_confirmedAt s1)\<rparr>, projected, expired))"

definition alert_row :: "ext_config \<Rightarrow> int \<Rightarrow> endpoint_row \<Rightarrow> ext_state \<times> nat \<times> nat \<Rightarrow> ext_state \<times> nat \<times> nat" where
  "alert_row cfg now row st =
     (case st of (s, declared, recovered) \<Rightarrow>
      let liveness = livenessOf row (xg_outage cfg) now;
          run = st_notServingSince row;
          alerted = map_of (xs_alerted s) (er_id row)
      in if el_outage liveness \<and> run \<noteq> None \<and> alerted \<noteq> run
         then (let s1 = s\<lparr>xs_alerted := map_set (er_id row) (the run) (xs_alerted s)\<rparr>;
                   s2 = recordEvent (er_id row) Outage now (st_evidenceDigestSeen row)
                          (Some (outageReason liveness now)) (el_stage liveness) s1
               in (s2\<lparr>xs_raised := xs_raised s2 @ [(outageAlert liveness now, False)]\<rparr>, declared + 1, recovered))
         else if alerted \<noteq> None \<and> run = None
         then (let s1 = s\<lparr>xs_alerted := map_delete (er_id row) (xs_alerted s)\<rparr>;
                   s2 = recordEvent (er_id row) Recovered now (st_evidenceDigestSeen row)
                          (Some (''Serving again after '' @ durationSince alerted now @ ''.'')) None s1
               in (s2\<lparr>xs_raised := xs_raised s2 @ [(recoveryAlert liveness (the alerted) now, True)]\<rparr>,
                   declared, recovered + 1))
         else (s, declared, recovered))"

definition alertOnOutages :: "ext_config \<Rightarrow> endpoint_row list \<Rightarrow> int \<Rightarrow> ext_state \<Rightarrow> ext_state \<times> nat \<times> nat" where
  "alertOnOutages cfg rows now s =
     (case fold (alert_row cfg now) rows (s, 0, 0) of (s1, declared, recovered) \<Rightarrow>
        (s1\<lparr>xs_alerted := prune rows (xs_alerted s1)\<rparr>, declared, recovered))"

definition sync_pass :: "ext_config \<Rightarrow> sidecar_verdict list \<Rightarrow> int \<Rightarrow> ext_state \<Rightarrow> sync_report \<times> ext_state" where
  "sync_pass cfg verdicts now s =
     (let endpoints = filter er_enabled (xs_rows s);
          zero = \<lparr>sy_seen = 0, sy_flipped = 0, sy_events = 0, sy_outages = 0, sy_expired = 0\<rparr>
      in case fold (sync_endpoint cfg now verdicts) endpoints (s, zero, []) of (s1, rep, projectedRows) \<Rightarrow>
         case expireStaleVerdicts cfg projectedRows now s1 of (s2, projected, expired) \<Rightarrow>
         case alertOnOutages cfg projected now (refresh s2) of (s3, declared, recovered) \<Rightarrow>
           (rep\<lparr>sy_expired := sy_expired rep + length expired, sy_outages := declared,
                sy_events := sy_events rep + length expired + declared + recovered\<rparr>,
            publish_health cfg projected (Some now) now s3))"

definition refreshFromRows :: "ext_config \<Rightarrow> int \<Rightarrow> ext_state \<Rightarrow> ext_state" where
  "refreshFromRows cfg now s =
     (case expireStaleVerdicts cfg (filter er_enabled (xs_rows s)) now s of (s1, projected, expired) \<Rightarrow>
      case alertOnOutages cfg projected now (refresh s1) of (s2, declared, recovered) \<Rightarrow>
        publish_health cfg projected None now s2)"

text \<open>One poll; \<open>None\<close> is a sidecar that could not be read.\<close>

definition pollOnce :: "ext_config \<Rightarrow> sidecar_verdict list option \<Rightarrow> int \<Rightarrow> ext_state \<Rightarrow> ext_state" where
  "pollOnce cfg verdicts now s =
     (case verdicts of Some vs \<Rightarrow> snd (sync_pass cfg vs now s) | None \<Rightarrow> refreshFromRows cfg now s)"

end
