(* ===== verification/External_Admin.thy ===== *)
theory External_Admin
  imports External_Endpoints
begin

text \<open>
  The admin's writes: \<open>external-endpoints/external-endpoint-admin.service.ts\<close> with the writer of
  \<open>sidecar-config-writer.service.ts\<close>.

  An operation takes the state and returns its result and the new state; an error keeps what was
  committed before it. Each constructor of \<open>admin_error\<close> is one \<open>throw\<close> (the wording of its message is left out).
  \<open>admin_env\<close> holds what the service calls: the \<open>URL\<close> constructor, the envelope service, whether the shared
  volume can be written, and the two columns of the evidence snapshots it searches. New row ids and the
  clock are arguments.
\<close>

section \<open>Data\<close>

record model_spec =
  ms_id :: string
  ms_name :: string
  ms_upstreamModel :: string
  ms_contextLength :: int
  ms_capabilities :: "route_kind list"
  ms_promptPer1mMicros :: int
  ms_completionPer1mMicros :: int

record register_spec =
  rs_name :: string
  rs_baseUrl :: string
  rs_apiKey :: string
  rs_models :: "model_spec list"
  rs_createdByUserId :: "string option"

record update_spec =
  us_id :: string
  us_baseUrl :: "string option"
  us_models :: "model_spec list option"
  us_evidenceDigest :: "string option"

datatype admin_error =
    Missing_secrets_key
  | Unusable_name string
  | Not_a_url string
  | Not_https string
  | Blank_api_key
  | Model_listed_twice string
  | Name_taken string
  | Model_ids_taken "string list"
  | Ports_exhausted port_error
  | Endpoint_not_found
  | Not_a_digest string
  | Not_a_measurement measurement_error
  | Known_evidence_digest string
  | Known_fingerprint string
  | Measurement_listed string
  | Measurement_not_found
  | Unrendered sidecar_error
  | Unwritable

record admin_env =
  ae_parse_url :: "string \<Rightarrow> parsed_url option"
  ae_available :: bool
  ae_seal :: "string \<Rightarrow> string \<Rightarrow> string \<times> string"
  ae_writable :: bool
  ae_snapshotDigests :: "string list"
  ae_snapshotFingerprints :: "string list"

type_synonym endpoint_view = "endpoint_row \<times> model_row list"

section \<open>Checks\<close>

definition name_char :: "char \<Rightarrow> bool" where
  "name_char c \<longleftrightarrow> CHR ''a'' \<le> c \<and> c \<le> CHR ''z'' \<or> is_digit c"

definition EXTERNAL_ENDPOINT_NAME :: "string \<Rightarrow> bool" where
  "EXTERNAL_ENDPOINT_NAME s =
     (case s of [] \<Rightarrow> False
      | c # cs \<Rightarrow> name_char c \<and> length cs \<le> 62 \<and> list_all (\<lambda>d. name_char d \<or> d = CHR ''-'') cs)"

definition requireName :: "string \<Rightarrow> (admin_error, string) result" where
  "requireName v =
     (let name = to_lower (trim v) in if EXTERNAL_ENDPOINT_NAME name then Inr name else Inl (Unusable_name v))"

definition canonicalBaseUrl :: "(string \<Rightarrow> parsed_url option) \<Rightarrow> string \<Rightarrow> (admin_error, string) result" where
  "canonicalBaseUrl parse_url v =
     (case parse_url (trim v) of
        None \<Rightarrow> Inl (Not_a_url v)
      | Some url \<Rightarrow> if url_protocol url \<noteq> ''https:'' then Inl (Not_https v)
                    else Inr (url_protocol url @ ''//'' @ url_host url))"

fun assertDistinctModelIds :: "string list \<Rightarrow> model_spec list \<Rightarrow> (admin_error, unit) result" where
  "assertDistinctModelIds seen [] = Inr ()"
| "assertDistinctModelIds seen (m # ms) =
     (if ms_id m \<in> set seen then Inl (Model_listed_twice (ms_id m))
      else assertDistinctModelIds (ms_id m # seen) ms)"

definition assertModelIdsFree :: "model_spec list \<Rightarrow> string option \<Rightarrow> ext_state \<Rightarrow> (admin_error, unit) result" where
  "assertModelIdsFree models ownEndpointId s =
     (if models = [] then Inr ()
      else let clashes = filter (\<lambda>r. mr_id r \<in> ms_id ` set models) (xs_models s);
               taken = filter (\<lambda>r. mr_origin r \<noteq> External_origin \<or> mr_externalEndpointId r \<noteq> ownEndpointId) clashes
           in guard (taken = []) (Model_ids_taken (map mr_id taken)))"

definition require :: "string \<Rightarrow> ext_state \<Rightarrow> (admin_error, endpoint_row) result" where
  "require i s = (case List.find (\<lambda>r. er_id r = i) (xs_rows s) of Some e \<Rightarrow> Inr e | None \<Rightarrow> Inl Endpoint_not_found)"

definition requireDigest :: "string \<Rightarrow> (admin_error, string) result" where
  "requireDigest v = (case normalizeEvidenceDigest v of Inr d \<Rightarrow> Inr d | Inl _ \<Rightarrow> Inl (Not_a_digest v))"

definition requireMeasurement :: "string \<Rightarrow> (admin_error, string) result" where
  "requireMeasurement v = (case normaliseMeasurement v of Inr m \<Rightarrow> Inr m | Inl e \<Rightarrow> Inl (Not_a_measurement e))"

definition allocatePort :: "ext_config \<Rightarrow> ext_state \<Rightarrow> (admin_error, nat) result" where
  "allocatePort cfg s =
     (case allocateListenPort (xg_listenPortBase cfg) (xg_listenPortRange cfg) (map er_listenPort (xs_rows s)) of
        Inr port \<Rightarrow> Inr port | Inl e \<Rightarrow> Inl (Ports_exhausted e))"

definition refuseKnownDigest :: "admin_env \<Rightarrow> string \<Rightarrow> ext_state \<Rightarrow> (admin_error, unit) result" where
  "refuseKnownDigest env hex s =
     (let spellings = [hex, ''sha256:'' @ hex, ''sha256/'' @ hexToBase64Url hex];
          seen = (\<lambda>f. list_ex (\<lambda>r. case f r of Some v \<Rightarrow> v \<in> set spellings | None \<Rightarrow> False) (xs_rows s));
          isEvidenceDigest = (hex \<in> set (ae_snapshotDigests env) \<or> seen st_evidenceDigestSeen \<or> seen er_pinnedEvidenceDigest);
          isCertFingerprint = (list_ex (\<lambda>f. f \<in> set spellings) (ae_snapshotFingerprints env)
             \<or> seen st_pinnedCertFingerprint \<or> seen st_observedCertFingerprint)
      in if \<not> isEvidenceDigest \<and> \<not> isCertFingerprint then Inr ()
         else Inl (if isEvidenceDigest then Known_evidence_digest hex else Known_fingerprint hex))"

section \<open>Publishing\<close>

definition sidecar_input_of :: "endpoint_row \<Rightarrow> sidecar_input" where
  "sidecar_input_of e =
     \<lparr>si_name = er_name e, si_baseUrl = er_baseUrl e, si_listenPort = er_listenPort e,
      si_pinnedEvidenceDigest = er_pinnedEvidenceDigest e\<rparr>"

definition render :: "ext_config \<Rightarrow> admin_env \<Rightarrow> ext_state \<Rightarrow> (admin_error, bool) result \<times> ext_state" where
  "render cfg env s =
     (let endpoints = sort_key er_name (filter er_enabled (xs_rows s));
          measurements = sort_key tm_measurement (xs_measurements s)
      in case buildSidecarConfig (ae_parse_url env) (map sidecar_input_of endpoints) (map tm_measurement measurements)
                (xg_adminListen cfg) (nat (xg_reattestInterval cfg)) of
           Inl e \<Rightarrow> (Inl (Unrendered e), s)
         | Inr doc \<Rightarrow>
             if xs_configFile s = Some doc then (Inr False, s)
             else if ae_writable env then (Inr True, s\<lparr>xs_configFile := Some doc\<rparr>)
             else (Inl Unwritable, s))"

definition publish :: "ext_config \<Rightarrow> admin_env \<Rightarrow> ext_state \<Rightarrow> (admin_error, unit) result \<times> ext_state" where
  "publish cfg env s =
     (case render cfg env s of
        (Inl e, s1) \<Rightarrow> (Inl e, s1)
      | (Inr _, s1) \<Rightarrow> (Inr (), refresh s1))"

definition models_of :: "string \<Rightarrow> ext_state \<Rightarrow> model_row list" where
  "models_of i s =
     sort_key mr_id (filter (\<lambda>m. mr_origin m = External_origin \<and> mr_externalEndpointId m = Some i) (xs_models s))"

definition find_view :: "string \<Rightarrow> ext_state \<Rightarrow> endpoint_view option" where
  "find_view i s = map_option (\<lambda>e. (e, models_of i s)) (List.find (\<lambda>r. er_id r = i) (xs_rows s))"

definition list_views :: "ext_state \<Rightarrow> endpoint_view list" where
  "list_views s = map (\<lambda>e. (e, models_of (er_id e) s)) (sort_key er_name (xs_rows s))"

definition view :: "string \<Rightarrow> ext_state \<Rightarrow> (admin_error, endpoint_view) result" where
  "view i s = (case find_view i s of Some v \<Rightarrow> Inr v | None \<Rightarrow> Inl Endpoint_not_found)"

text \<open>The end of a mutation: publish, then answer with the row as it is now.\<close>

definition publish_and_view ::
  "ext_config \<Rightarrow> admin_env \<Rightarrow> string \<Rightarrow> ext_state \<Rightarrow> (admin_error, endpoint_view) result \<times> ext_state" where
  "publish_and_view cfg env i s =
     (case publish cfg env s of
        (Inl e, s1) \<Rightarrow> (Inl e, s1)
      | (Inr _, s1) \<Rightarrow> (view i s1, s1))"

section \<open>Models of an endpoint\<close>

definition model_row_of :: "string \<Rightarrow> int \<Rightarrow> model_spec \<Rightarrow> model_row" where
  "model_row_of endpointId now m =
     \<lparr>mr_id = ms_id m, mr_name = ms_name m, mr_litellmModel = ms_upstreamModel m, mr_origin = External_origin,
      mr_endpointId = None, mr_externalEndpointId = Some endpointId, mr_contextLength = ms_contextLength m,
      mr_capabilities = ms_capabilities m, mr_promptPer1mMicros = ms_promptPer1mMicros m,
      mr_completionPer1mMicros = ms_completionPer1mMicros m, mr_enabled = True, mr_updatedAt = now\<rparr>"

definition writeModels :: "string \<Rightarrow> model_spec list \<Rightarrow> int \<Rightarrow> ext_state \<Rightarrow> ext_state" where
  "writeModels endpointId models now s =
     s\<lparr>xs_models := fold (\<lambda>m. save_row mr_id (model_row_of endpointId now m)) models (xs_models s)\<rparr>"

definition retireModels :: "string \<Rightarrow> model_spec list \<Rightarrow> int \<Rightarrow> ext_state \<Rightarrow> ext_state" where
  "retireModels endpointId models now s =
     s\<lparr>xs_models := map (\<lambda>r. if mr_externalEndpointId r = Some endpointId \<and> mr_enabled r \<and> mr_id r \<notin> ms_id ` set models
                             then r\<lparr>mr_enabled := False, mr_updatedAt := now\<rparr> else r) (xs_models s)\<rparr>"

section \<open>The mutations\<close>

definition notServingFrom :: "bool \<Rightarrow> int \<Rightarrow> int option" where
  "notServingFrom enabled now = (if enabled then Some now else None)"

definition registered_row ::
  "admin_env \<Rightarrow> string \<Rightarrow> int \<Rightarrow> string \<Rightarrow> string \<Rightarrow> string \<Rightarrow> nat \<Rightarrow> string \<Rightarrow> string option \<Rightarrow> endpoint_row" where
  "registered_row env i now name baseUrl hostname port apiKey createdBy =
     status_patch.extend (PENDING_VERDICT Pending (Some now))
       (endpoint_row.fields i name baseUrl hostname port True None (fst (ae_seal env apiKey i))
          (snd (ae_seal env apiKey i)) createdBy now now)"

text \<open>The checks of \<open>register\<close>, in order: the row it will insert, or the first refusal.\<close>

definition register_checks ::
  "ext_config \<Rightarrow> admin_env \<Rightarrow> string \<Rightarrow> int \<Rightarrow> register_spec \<Rightarrow> ext_state \<Rightarrow> (admin_error, endpoint_row) result" where
  "register_checks cfg env i now spec s =
     res_bind (guard (ae_available env) Missing_secrets_key) (\<lambda>_.
     res_bind (requireName (rs_name spec)) (\<lambda>name.
     res_bind (canonicalBaseUrl (ae_parse_url env) (rs_baseUrl spec)) (\<lambda>baseUrl.
     res_bind (guard (trim (rs_apiKey spec) \<noteq> []) Blank_api_key) (\<lambda>_.
     res_bind (assertDistinctModelIds [] (rs_models spec)) (\<lambda>_.
     res_bind (guard (name \<notin> er_name ` set (xs_rows s)) (Name_taken name)) (\<lambda>_.
     res_bind (assertModelIdsFree (rs_models spec) None s) (\<lambda>_.
     res_bind (allocatePort cfg s) (\<lambda>port.
     case ae_parse_url env baseUrl of
       None \<Rightarrow> Inl (Not_a_url baseUrl)
     | Some url \<Rightarrow> Inr (registered_row env i now name baseUrl (url_hostname url) port (trim (rs_apiKey spec))
                          (rs_createdByUserId spec))))))))))"

definition register ::
  "ext_config \<Rightarrow> admin_env \<Rightarrow> string \<Rightarrow> int \<Rightarrow> register_spec \<Rightarrow> ext_state \<Rightarrow> (admin_error, endpoint_view) result \<times> ext_state" where
  "register cfg env i now spec s =
     (case register_checks cfg env i now spec s of
        Inl e \<Rightarrow> (Inl e, s)
      | Inr row \<Rightarrow>
          publish_and_view cfg env i
            (recordEvent i Registered now None None None
              (writeModels i (rs_models spec) now (s\<lparr>xs_rows := save_row er_id row (xs_rows s)\<rparr>))))"

definition update_checks ::
  "admin_env \<Rightarrow> update_spec \<Rightarrow> ext_state
    \<Rightarrow> (admin_error, endpoint_row \<times> string \<times> string \<times> string option) result" where
  "update_checks env spec s =
     res_bind (require (us_id spec) s) (\<lambda>e.
     res_bind (case us_baseUrl spec of None \<Rightarrow> Inr (er_baseUrl e) | Some u \<Rightarrow> canonicalBaseUrl (ae_parse_url env) u) (\<lambda>baseUrl.
     res_bind (case us_evidenceDigest spec of None \<Rightarrow> Inr None | Some d \<Rightarrow> res_map Some (requireDigest d)) (\<lambda>approved.
     res_bind (case us_models spec of None \<Rightarrow> Inr ()
               | Some ms \<Rightarrow> res_bind (assertDistinctModelIds [] ms) (\<lambda>_. assertModelIdsFree ms (Some (er_id e)) s)) (\<lambda>_.
     case ae_parse_url env baseUrl of
       None \<Rightarrow> Inl (Not_a_url baseUrl)
     | Some url \<Rightarrow> Inr (e, baseUrl, url_hostname url,
          (case approved of Some d \<Rightarrow> Some d
           | None \<Rightarrow> if baseUrl \<noteq> er_baseUrl e then None else er_pinnedEvidenceDigest e))))))"

definition update_row :: "int \<Rightarrow> string \<Rightarrow> string \<Rightarrow> string option \<Rightarrow> endpoint_row \<Rightarrow> endpoint_row \<Rightarrow> endpoint_row" where
  "update_row now baseUrl hostname pinned e r =
     (let reset = (if baseUrl \<noteq> er_baseUrl e \<and> er_enabled e
                   then with_patch r (PENDING_VERDICT Pending (notServingFrom True now)) else r)
      in reset\<lparr>er_baseUrl := baseUrl, er_hostname := hostname, er_pinnedEvidenceDigest := pinned, er_updatedAt := now\<rparr>)"

definition unpinned_reason :: "string \<Rightarrow> endpoint_row \<Rightarrow> string" where
  "unpinned_reason baseUrl e =
     ''Re-pointed to '' @ baseUrl @ ''; the approval was of the deployment that answered at '' @ er_baseUrl e @ ''.''"

text \<open>The transaction of \<open>update\<close>.\<close>

definition update_commit ::
  "int \<Rightarrow> model_spec list option \<Rightarrow> endpoint_row \<Rightarrow> string \<Rightarrow> string \<Rightarrow> string option \<Rightarrow> ext_state \<Rightarrow> ext_state" where
  "update_commit now models e baseUrl hostname pinned s =
     (let s1 = update_rows (er_id e) (update_row now baseUrl hostname pinned e) s;
          s2 = (case models of None \<Rightarrow> s1
                | Some ms \<Rightarrow> retireModels (er_id e) ms now (writeModels (er_id e) ms now s1));
          s3 = (if pinned \<noteq> None \<and> pinned \<noteq> er_pinnedEvidenceDigest e
                then recordEvent (er_id e) Digest_pinned now pinned None None s2 else s2)
      in if er_pinnedEvidenceDigest e \<noteq> None \<and> pinned = None
         then recordEvent (er_id e) Digest_unpinned now (er_pinnedEvidenceDigest e)
                (Some (unpinned_reason baseUrl e)) None s3 else s3)"

definition update ::
  "ext_config \<Rightarrow> admin_env \<Rightarrow> int \<Rightarrow> update_spec \<Rightarrow> ext_state \<Rightarrow> (admin_error, endpoint_view) result \<times> ext_state" where
  "update cfg env now spec s =
     (case update_checks env spec s of
        Inl err \<Rightarrow> (Inl err, s)
      | Inr (e, baseUrl, hostname, pinned) \<Rightarrow>
          publish_and_view cfg env (er_id e) (update_commit now (us_models spec) e baseUrl hostname pinned s))"

definition setEnabled ::
  "ext_config \<Rightarrow> admin_env \<Rightarrow> int \<Rightarrow> string \<Rightarrow> bool \<Rightarrow> ext_state \<Rightarrow> (admin_error, endpoint_view) result \<times> ext_state" where
  "setEnabled cfg env now i enabled s =
     (case require i s of
        Inl err \<Rightarrow> (Inl err, s)
      | Inr e \<Rightarrow>
          if er_enabled e = enabled then (view i s, s)
          else
            let s1 = update_rows i (\<lambda>r. (with_patch r (PENDING_VERDICT (if enabled then Pending else Disabled)
                       (notServingFrom enabled now)))\<lparr>er_enabled := enabled, er_updatedAt := now\<rparr>) s;
                s2 = (if \<not> enabled then recordEvent i Disabled_event now None None None s1 else s1)
            in publish_and_view cfg env i s2)"

definition rotateKey ::
  "admin_env \<Rightarrow> int \<Rightarrow> string \<Rightarrow> string \<Rightarrow> ext_state \<Rightarrow> (admin_error, endpoint_view) result \<times> ext_state" where
  "rotateKey env now i apiKey s =
     (case res_bind (guard (ae_available env) Missing_secrets_key) (\<lambda>_.
           res_bind (require i s) (\<lambda>e.
           res_map (\<lambda>_. ae_seal env (trim apiKey) (er_id e)) (guard (trim apiKey \<noteq> []) Blank_api_key))) of
        Inl err \<Rightarrow> (Inl err, s)
      | Inr (ciphertext, prefix) \<Rightarrow>
          let s1 = update_rows i (\<lambda>r. r\<lparr>er_apiKeyCiphertext := ciphertext, er_apiKeyPrefix := prefix, er_updatedAt := now\<rparr>) s;
              s2 = recordEvent i Key_rotated now None None None s1
          in (view i s2, s2))"

definition pinDigest ::
  "ext_config \<Rightarrow> admin_env \<Rightarrow> int \<Rightarrow> string \<Rightarrow> string \<Rightarrow> ext_state \<Rightarrow> (admin_error, endpoint_view) result \<times> ext_state" where
  "pinDigest cfg env now i evidenceDigest s =
     (case res_bind (require i s) (\<lambda>e. res_map (\<lambda>d. (e, d)) (requireDigest evidenceDigest)) of
        Inl err \<Rightarrow> (Inl err, s)
      | Inr (e, digest) \<Rightarrow>
          if er_pinnedEvidenceDigest e = Some digest then (view i s, s)
          else
            let s1 = update_rows i (\<lambda>r. r\<lparr>er_pinnedEvidenceDigest := Some digest, er_updatedAt := now\<rparr>) s
            in publish_and_view cfg env i (recordEvent i Digest_pinned now (Some digest) None None s1))"

section \<open>The trust list\<close>

definition listMeasurements :: "ext_state \<Rightarrow> trusted_measurement list" where
  "listMeasurements s = sort_key tm_measurement (xs_measurements s)"

definition measurementUsage :: "ext_state \<Rightarrow> (string \<times> nat) list" where
  "measurementUsage s =
     (let seen = List.map_filter st_measurementSeen (filter (\<lambda>r. er_enabled r \<and> st_status r = Verified) (xs_rows s))
      in map (\<lambda>m. (m, length (filter ((=) m) seen))) (remdups seen))"

definition trim_note :: "string option \<Rightarrow> string option" where
  "trim_note note = (let t = map_option trim note in if truthy t then t else None)"

definition addMeasurement ::
  "ext_config \<Rightarrow> admin_env \<Rightarrow> string \<Rightarrow> int \<Rightarrow> string \<Rightarrow> string option \<Rightarrow> string option \<Rightarrow> ext_state
    \<Rightarrow> (admin_error, trusted_measurement) result \<times> ext_state" where
  "addMeasurement cfg env i now measurement note addedBy s =
     (case res_bind (requireMeasurement measurement) (\<lambda>m.
           res_bind (refuseKnownDigest env m s) (\<lambda>_.
           res_map (\<lambda>_. m) (guard (m \<notin> tm_measurement ` set (xs_measurements s)) (Measurement_listed m)))) of
        Inl err \<Rightarrow> (Inl err, s)
      | Inr m \<Rightarrow>
          let row = \<lparr>tm_id = i, tm_measurement = m, tm_note = trim_note note, tm_addedByUserId = addedBy, tm_addedAt = now\<rparr>
          in (case publish cfg env (s\<lparr>xs_measurements := save_row tm_id row (xs_measurements s)\<rparr>) of
                (Inl err, s1) \<Rightarrow> (Inl err, s1) | (Inr _, s1) \<Rightarrow> (Inr row, s1)))"

definition updateMeasurementNote ::
  "string \<Rightarrow> string option \<Rightarrow> ext_state \<Rightarrow> (admin_error, trusted_measurement) result \<times> ext_state" where
  "updateMeasurementNote i note s =
     (case List.find (\<lambda>r. tm_id r = i) (xs_measurements s) of
        None \<Rightarrow> (Inl Measurement_not_found, s)
      | Some row \<Rightarrow>
          let row' = row\<lparr>tm_note := trim_note note\<rparr>
          in (Inr row', s\<lparr>xs_measurements := save_row tm_id row' (xs_measurements s)\<rparr>))"

definition removeMeasurement ::
  "ext_config \<Rightarrow> admin_env \<Rightarrow> string \<Rightarrow> ext_state \<Rightarrow> (admin_error, trusted_measurement) result \<times> ext_state" where
  "removeMeasurement cfg env i s =
     (case List.find (\<lambda>r. tm_id r = i) (xs_measurements s) of
        None \<Rightarrow> (Inl Measurement_not_found, s)
      | Some row \<Rightarrow>
          (case publish cfg env (s\<lparr>xs_measurements := filter (\<lambda>r. tm_id r \<noteq> i) (xs_measurements s)\<rparr>) of
             (Inl err, s1) \<Rightarrow> (Inl err, s1) | (Inr _, s1) \<Rightarrow> (Inr row, s1)))"

end
