(* ===== verification/External_Run.thy ===== *)
theory External_Run
  imports External_Admin
begin

text \<open>
  External endpoints over time: the effect of one status pass on the rows and the catalogue, every
  sequence of passes and admin mutations since a boot, and what holds in all of them.
\<close>

section \<open>Runs\<close>

definition row_of :: "ext_state \<Rightarrow> string \<Rightarrow> endpoint_row option" where
  "row_of s i = List.find (\<lambda>r. er_id r = i) (xs_rows s)"

text \<open>The primary keys of the two tables, and that no two endpoints share a name or a listener.\<close>

definition keys_ok :: "ext_state \<Rightarrow> bool" where
  "keys_ok s \<longleftrightarrow> distinct (map er_id (xs_rows s)) \<and> distinct (map mr_id (xs_models s))
     \<and> distinct (map er_name (xs_rows s)) \<and> distinct (map er_listenPort (xs_rows s))"

text \<open>What the poller was told since the boot, latest first: the time of each pass and what it read.\<close>

type_synonym poll_trace = "(int \<times> sidecar_verdict list option) list"

inductive ext_run :: "ext_config \<Rightarrow> poll_trace \<Rightarrow> ext_state \<Rightarrow> bool" for cfg where
  boot: "keys_ok s \<Longrightarrow> ext_run cfg [] (snd (resetToPending cfg now s))"
| poll: "ext_run cfg tr s \<Longrightarrow> ext_run cfg ((now, vs) # tr) (pollOnce cfg vs now s)"
| register: "ext_run cfg tr s \<Longrightarrow> i \<notin> er_id ` set (xs_rows s) \<Longrightarrow> ext_run cfg tr (snd (register cfg env i now spec s))"
| update: "ext_run cfg tr s \<Longrightarrow> ext_run cfg tr (snd (update cfg env now uspec s))"
| setEnabled: "ext_run cfg tr s \<Longrightarrow> ext_run cfg tr (snd (setEnabled cfg env now i enabled s))"
| rotateKey: "ext_run cfg tr s \<Longrightarrow> ext_run cfg tr (snd (rotateKey env now i apiKey s))"
| pinDigest: "ext_run cfg tr s \<Longrightarrow> ext_run cfg tr (snd (pinDigest cfg env now i digest s))"
| addMeasurement: "ext_run cfg tr s \<Longrightarrow> ext_run cfg tr (snd (addMeasurement cfg env i now m note addedBy s))"
| updateMeasurementNote: "ext_run cfg tr s \<Longrightarrow> ext_run cfg tr (snd (updateMeasurementNote i note s))"
| removeMeasurement: "ext_run cfg tr s \<Longrightarrow> ext_run cfg tr (snd (removeMeasurement cfg env i s))"

text \<open>A pass of the trace vouches for the endpoint: at that time the sidecar's live verdict admitted it.\<close>

definition vouched :: "ext_config \<Rightarrow> poll_trace \<Rightarrow> int \<Rightarrow> string \<Rightarrow> bool" where
  "vouched cfg tr t name \<longleftrightarrow>
     (\<exists>vs v. (t, Some vs) \<in> set tr \<and> verdict_for vs name = Some v \<and> live_admission v (pass_clock cfg t))"

definition admissions_ok :: "ext_config \<Rightarrow> poll_trace \<Rightarrow> ext_state \<Rightarrow> bool" where
  "admissions_ok cfg tr s \<longleftrightarrow>
     (\<forall>r \<in> set (xs_rows s). er_enabled r \<and> st_status r = Verified \<longrightarrow>
        (\<exists>t. map_of (xs_confirmedAt s) (er_id r) = Some t \<and> vouched cfg tr t (er_name r)))"

section \<open>Rows by id\<close>

lemma row_of_update [simp]:
  assumes "\<And>r. er_id (f r) = er_id r"
  shows "row_of (update_rows i f s) j = (if i = j then map_option f (row_of s j) else row_of s j)"
proof -
  have "List.find (\<lambda>r. er_id r = j) (map (\<lambda>r. if er_id r = i then f r else r) rows) =
      (if i = j then map_option f (List.find (\<lambda>r. er_id r = j) rows) else List.find (\<lambda>r. er_id r = j) rows)" for rows
    using assms by (induction rows) auto
  then show ?thesis by (simp add: row_of_def update_rows_def)
qed

lemma row_of_iff: "distinct (map er_id (xs_rows s)) \<Longrightarrow> row_of s (er_id r) = Some r \<longleftrightarrow> r \<in> set (xs_rows s)"
  unfolding row_of_def using find_distinct_key [of er_id "xs_rows s" "er_id r" "\<lambda>_. True" r] by simp

lemma row_of_mem: "row_of s i = Some r \<Longrightarrow> r \<in> set (xs_rows s) \<and> er_id r = i"
  unfolding row_of_def by (rule find_Some_key)

text \<open>A step that only writes the timeline, the alerts or the health answer.\<close>

definition same_tables :: "ext_state \<Rightarrow> ext_state \<Rightarrow> bool" where
  "same_tables s t \<longleftrightarrow> xs_rows t = xs_rows s \<and> xs_models t = xs_models s \<and> xs_confirmedAt t = xs_confirmedAt s"

lemma same_tables_refl [simp]: "same_tables s s"
  by (simp add: same_tables_def)

lemma append_event_frame [simp]:
  "xs_rows (append_event i now e s) = xs_rows s" "xs_models (append_event i now e s) = xs_models s"
  "xs_confirmedAt (append_event i now e s) = xs_confirmedAt s" "xs_catalog (append_event i now e s) = xs_catalog s"
  by (simp_all add: append_event_def)

lemma recordEvent_frame [simp]:
  "xs_rows (recordEvent i k now d r st s) = xs_rows s" "xs_models (recordEvent i k now d r st s) = xs_models s"
  "xs_confirmedAt (recordEvent i k now d r st s) = xs_confirmedAt s"
  "xs_catalog (recordEvent i k now d r st s) = xs_catalog s"
  by (simp_all add: recordEvent_def)

lemma refresh_frame [simp]:
  "xs_rows (refresh s) = xs_rows s" "xs_models (refresh s) = xs_models s" "xs_confirmedAt (refresh s) = xs_confirmedAt s"
  "xs_catalog (refresh s) = rebuild digest_hex (xs_models s) (xs_rows s)"
  by (simp_all add: refresh_def)

lemma publish_health_frame [simp]:
  "xs_rows (publish_health cfg rows t now s) = xs_rows s" "xs_models (publish_health cfg rows t now s) = xs_models s"
  "xs_confirmedAt (publish_health cfg rows t now s) = xs_confirmedAt s"
  "xs_catalog (publish_health cfg rows t now s) = xs_catalog s"
  by (simp_all add: publish_health_def)

lemma fold_append_events [simp]:
  "xs_rows (fold (append_event i now) es s) = xs_rows s" "xs_models (fold (append_event i now) es s) = xs_models s"
  "xs_confirmedAt (fold (append_event i now) es s) = xs_confirmedAt s"
  by (induction es arbitrary: s) simp_all

lemma update_rows_frame [simp]:
  "xs_models (update_rows i f s) = xs_models s" "xs_confirmedAt (update_rows i f s) = xs_confirmedAt s"
  "xs_catalog (update_rows i f s) = xs_catalog s"
  by (simp_all add: update_rows_def)

lemma update_rows_key:
  assumes "\<And>r. k (f r) = k r"
  shows "map k (xs_rows (update_rows i f s)) = map k (xs_rows s)"
  using assms by (simp add: update_rows_def)

lemma row_of_cong: "xs_rows s = xs_rows t \<Longrightarrow> row_of s = row_of t"
  by (simp add: row_of_def fun_eq_iff)

lemma patched_more [simp]:
  "er_listenPort (with_patch r p) = er_listenPort r"
  "er_pinnedEvidenceDigest (with_patch r p) = er_pinnedEvidenceDigest r"
  by (cases r; simp add: with_patch_def status_patch.defs)+

lemma apply_projected_row_of:
  "row_of (apply_projected i p now s) j =
     (if i = j then map_option (\<lambda>r. (with_patch r (pv_patch p))\<lparr>er_updatedAt := now\<rparr>) (row_of s j) else row_of s j)"
  unfolding apply_projected_def
  using row_of_cong [OF fold_append_events(1)] row_of_update by simp

lemma apply_projected_frame [simp]:
  "xs_models (apply_projected i p now s) = xs_models s" "xs_confirmedAt (apply_projected i p now s) = xs_confirmedAt s"
  by (simp_all add: apply_projected_def)

lemma row_of_recordEvent [simp]: "row_of (recordEvent i k now d r st s) = row_of s"
  by (rule row_of_cong) simp

text \<open>The columns no pass and no alert ever touches, row by row.\<close>

abbreviation row_keys :: "ext_state \<Rightarrow> (string \<times> string \<times> nat \<times> bool) list" where
  "row_keys s \<equiv> map (\<lambda>r. (er_id r, er_name r, er_listenPort r, er_enabled r)) (xs_rows s)"

lemma apply_projected_keys [simp]: "row_keys (apply_projected i p now s) = row_keys s"
  by (simp add: apply_projected_def update_rows_key)

section \<open>One pass over the rows\<close>

definition sync_row :: "ext_config \<Rightarrow> int \<Rightarrow> sidecar_verdict list \<Rightarrow> endpoint_row \<Rightarrow> endpoint_row" where
  "sync_row cfg now verdicts e =
     (case verdict_for verdicts (er_name e) of
        None \<Rightarrow> e
      | Some v \<Rightarrow> let p = projectVerdict e v (pass_clock cfg now)
                  in if pv_patchChanged p \<or> pv_events p \<noteq> []
                     then (with_patch e (pv_patch p))\<lparr>er_updatedAt := now\<rparr> else e)"

definition sync_projected :: "ext_config \<Rightarrow> int \<Rightarrow> sidecar_verdict list \<Rightarrow> endpoint_row \<Rightarrow> endpoint_row" where
  "sync_projected cfg now verdicts e =
     (case verdict_for verdicts (er_name e) of
        None \<Rightarrow> e | Some v \<Rightarrow> with_patch e (pv_patch (projectVerdict e v (pass_clock cfg now))))"

text \<open>The status after a pass that read the verdicts, before anything expires.\<close>

definition synced_status :: "ext_config \<Rightarrow> int \<Rightarrow> sidecar_verdict list \<Rightarrow> endpoint_row \<Rightarrow> endpoint_status" where
  "synced_status cfg now verdicts e =
     (case verdict_for verdicts (er_name e) of
        None \<Rightarrow> st_status e | Some v \<Rightarrow> st_status (patch_of e v (pass_clock cfg now)))"

lemma pv_patch_projectVerdict [simp]: "pv_patch (projectVerdict e v c) = patch_of e v c"
  by (simp add: projectVerdict_def Let_def)

lemma truncate_status [simp]: "st_status (status_patch.truncate (r :: 'a status_patch_scheme)) = st_status r"
  by (cases r) (simp add: status_patch.defs)

lemma unchanged_status: "\<not> pv_patchChanged (projectVerdict e v c) \<Longrightarrow> st_status (patch_of e v c) = st_status e"
  by (simp add: projectVerdict_def Let_def) (metis truncate_status)

lemma sync_row_simps [simp]:
  "er_id (sync_row cfg now vs e) = er_id e" "st_status (sync_row cfg now vs e) = synced_status cfg now vs e"
  "er_id (sync_projected cfg now vs e) = er_id e" "st_status (sync_projected cfg now vs e) = synced_status cfg now vs e"
  by (auto simp: sync_row_def sync_projected_def synced_status_def Let_def unchanged_status split: option.split)

lemma sync_step:
  assumes "row_of s (er_id e) = Some e"
  shows "\<exists>s' rep'. sync_endpoint cfg now vs e (s, rep, ps) = (s', rep', ps @ [sync_projected cfg now vs e])
    \<and> (\<forall>j. row_of s' j = (if j = er_id e then Some (sync_row cfg now vs e) else row_of s j))
    \<and> (\<forall>j. map_of (xs_confirmedAt s') j =
          (if j = er_id e \<and> verdict_for vs (er_name e) \<noteq> None then Some now else map_of (xs_confirmedAt s) j))
    \<and> row_keys s' = row_keys s \<and> xs_models s' = xs_models s"
proof (cases "verdict_for vs (er_name e)")
  case (Some v)
  let ?s1 = "s\<lparr>xs_confirmedAt := map_set (er_id e) now (xs_confirmedAt s)\<rparr>"
  have "row_of ?s1 = row_of s" by (rule row_of_cong) simp
  then show ?thesis
    using Some assms
    by (simp add: sync_endpoint_def sync_row_def sync_projected_def Let_def apply_projected_row_of)
qed (use assms in \<open>simp add: sync_endpoint_def sync_row_def sync_projected_def\<close>)

lemma sync_fold:
  assumes "\<And>e. e \<in> set es \<Longrightarrow> row_of s (er_id e) = Some e" "distinct (map er_id es)"
  shows "\<exists>s' rep'. fold (sync_endpoint cfg now vs) es (s, rep, ps) = (s', rep', ps @ map (sync_projected cfg now vs) es)
    \<and> (\<forall>j. j \<notin> er_id ` set es \<longrightarrow> row_of s' j = row_of s j)
    \<and> (\<forall>e \<in> set es. row_of s' (er_id e) = Some (sync_row cfg now vs e))
    \<and> (\<forall>j. map_of (xs_confirmedAt s') j =
          (if \<exists>e \<in> set es. er_id e = j \<and> verdict_for vs (er_name e) \<noteq> None then Some now else map_of (xs_confirmedAt s) j))
    \<and> row_keys s' = row_keys s \<and> xs_models s' = xs_models s"
  using assms
proof (induction es arbitrary: s rep ps)
  case (Cons e es)
  from sync_step [of s e cfg now vs rep ps] Cons.prems(1) [of e] obtain s1 rep1 where
    step: "sync_endpoint cfg now vs e (s, rep, ps) = (s1, rep1, ps @ [sync_projected cfg now vs e])"
    "\<And>j. row_of s1 j = (if j = er_id e then Some (sync_row cfg now vs e) else row_of s j)"
    "\<And>j. map_of (xs_confirmedAt s1) j =
          (if j = er_id e \<and> verdict_for vs (er_name e) \<noteq> None then Some now else map_of (xs_confirmedAt s) j)"
    "row_keys s1 = row_keys s" "xs_models s1 = xs_models s"
    by auto
  have "row_of s1 (er_id x) = Some x" if "x \<in> set es" for x
  proof -
    from that Cons.prems(2) have "er_id x \<noteq> er_id e" by (force simp: image_iff)
    with that show ?thesis using Cons.prems(1) [of x] step(2) by simp
  qed
  from Cons.IH [OF this, of rep1 "ps @ [sync_projected cfg now vs e]"] Cons.prems(2) obtain s2 rep2 where
    rest: "fold (sync_endpoint cfg now vs) es (s1, rep1, ps @ [sync_projected cfg now vs e]) =
        (s2, rep2, (ps @ [sync_projected cfg now vs e]) @ map (sync_projected cfg now vs) es)"
    "\<And>j. j \<notin> er_id ` set es \<Longrightarrow> row_of s2 j = row_of s1 j"
    "\<And>x. x \<in> set es \<Longrightarrow> row_of s2 (er_id x) = Some (sync_row cfg now vs x)"
    "\<And>j. map_of (xs_confirmedAt s2) j =
          (if \<exists>e \<in> set es. er_id e = j \<and> verdict_for vs (er_name e) \<noteq> None then Some now else map_of (xs_confirmedAt s1) j)"
    "row_keys s2 = row_keys s1" "xs_models s2 = xs_models s1"
    by auto
  have "er_id e \<notin> er_id ` set es" using Cons.prems(2) by simp
  then show ?case
    using step rest by (intro exI [of _ s2] exI [of _ rep2]) auto
qed simp

text \<open>A row that is let go of is pending; every other row keeps its status.\<close>

definition lapses :: "ext_config \<Rightarrow> int \<Rightarrow> (string \<times> int) list \<Rightarrow> endpoint_row \<Rightarrow> bool" where
  "lapses cfg now confirmed e \<longleftrightarrow> st_status e = Verified
     \<and> \<not> (\<exists>t. map_of confirmed (er_id e) = Some t \<and> now - t < verdictGraceMs (xg_statusPollInterval cfg))"

lemma expire_step:
  "\<exists>s' ps' xs'. expire_row cfg now e (s, ps, xs) = (s', ps', xs')
    \<and> (\<forall>j. map_option st_status (row_of s' j) =
          (if j = er_id e \<and> lapses cfg now (xs_confirmedAt s) e then map_option (\<lambda>_. Pending) (row_of s j)
           else map_option st_status (row_of s j)))
    \<and> (\<forall>j. map_of (xs_confirmedAt s') j =
          (if j = er_id e \<and> lapses cfg now (xs_confirmedAt s) e then None else map_of (xs_confirmedAt s) j))
    \<and> row_keys s' = row_keys s \<and> xs_models s' = xs_models s"
proof (cases "lapses cfg now (xs_confirmedAt s) e")
  case True
  define lapsed where "lapsed = the (expireVerdict e \<lparr>vc_confirmedAt = map_of (xs_confirmedAt s) (er_id e),
      vc_graceMs = verdictGraceMs (xg_statusPollInterval cfg), vc_now = now\<rparr>)"
  have lapsed: "expireVerdict e \<lparr>vc_confirmedAt = map_of (xs_confirmedAt s) (er_id e),
      vc_graceMs = verdictGraceMs (xg_statusPollInterval cfg), vc_now = now\<rparr> = Some lapsed"
    and pending: "st_status (pv_patch lapsed) = Pending"
    using True by (auto simp: lapsed_def lapses_def expireVerdict_def Let_def split: option.splits)
  let ?s1 = "apply_projected (er_id e) lapsed now s"
  have "row_of (?s1\<lparr>xs_confirmedAt := c\<rparr>) = row_of ?s1" for c by (rule row_of_cong) simp
  then show ?thesis
    using True lapsed pending
    by (simp add: expire_row_def Let_def apply_projected_row_of option.map_comp comp_def)
next
  case False
  then have "expireVerdict e \<lparr>vc_confirmedAt = map_of (xs_confirmedAt s) (er_id e),
      vc_graceMs = verdictGraceMs (xg_statusPollInterval cfg), vc_now = now\<rparr> = None"
    by (auto simp: lapses_def expireVerdict_def Let_def split: option.splits)
  with False show ?thesis by (simp add: expire_row_def)
qed

lemma lapses_delete:
  assumes "\<And>j. map_of c' j = (if j = i then None else map_of c j) \<or> map_of c' j = map_of c j" "er_id e \<noteq> i"
  shows "lapses cfg now c' e \<longleftrightarrow> lapses cfg now c e"
  using assms(1) [of "er_id e"] assms(2) by (simp add: lapses_def)

lemma expire_fold:
  assumes "distinct (map er_id es)"
  shows "\<exists>s' ps' xs'. fold (expire_row cfg now) es (s, ps, xs) = (s', ps', xs')
    \<and> (\<forall>j. map_option st_status (row_of s' j) =
          (if \<exists>e \<in> set es. er_id e = j \<and> lapses cfg now (xs_confirmedAt s) e then map_option (\<lambda>_. Pending) (row_of s j)
           else map_option st_status (row_of s j)))
    \<and> (\<forall>j. map_of (xs_confirmedAt s') j =
          (if \<exists>e \<in> set es. er_id e = j \<and> lapses cfg now (xs_confirmedAt s) e then None else map_of (xs_confirmedAt s) j))
    \<and> row_keys s' = row_keys s \<and> xs_models s' = xs_models s"
  using assms
proof (induction es arbitrary: s ps xs)
  case (Cons e es)
  from expire_step [of cfg now e s ps xs] obtain s1 ps1 xs1 where
    step: "expire_row cfg now e (s, ps, xs) = (s1, ps1, xs1)"
    "\<And>j. map_option st_status (row_of s1 j) =
          (if j = er_id e \<and> lapses cfg now (xs_confirmedAt s) e then map_option (\<lambda>_. Pending) (row_of s j)
           else map_option st_status (row_of s j))"
    "\<And>j. map_of (xs_confirmedAt s1) j =
          (if j = er_id e \<and> lapses cfg now (xs_confirmedAt s) e then None else map_of (xs_confirmedAt s) j)"
    "row_keys s1 = row_keys s" "xs_models s1 = xs_models s"
    by auto
  have fresh: "er_id x \<noteq> er_id e" if "x \<in> set es" for x
    using that Cons.prems by (force simp: image_iff)
  have same: "lapses cfg now (xs_confirmedAt s1) x \<longleftrightarrow> lapses cfg now (xs_confirmedAt s) x" if "x \<in> set es" for x
    using step(3) fresh [OF that] by (intro lapses_delete [of _ "er_id e"]) auto
  from Cons.IH [of s1 ps1 xs1] Cons.prems obtain s2 ps2 xs2 where
    rest: "fold (expire_row cfg now) es (s1, ps1, xs1) = (s2, ps2, xs2)"
    "\<And>j. map_option st_status (row_of s2 j) =
          (if \<exists>e \<in> set es. er_id e = j \<and> lapses cfg now (xs_confirmedAt s1) e then map_option (\<lambda>_. Pending) (row_of s1 j)
           else map_option st_status (row_of s1 j))"
    "\<And>j. map_of (xs_confirmedAt s2) j =
          (if \<exists>e \<in> set es. er_id e = j \<and> lapses cfg now (xs_confirmedAt s1) e then None else map_of (xs_confirmedAt s1) j)"
    "row_keys s2 = row_keys s1" "xs_models s2 = xs_models s1"
    by auto
  have still: "row_of s1 j = None \<longleftrightarrow> row_of s j = None" for j
    using step(2) [of j] by (auto split: if_splits)
  have pend: "map_option (\<lambda>_. Pending) (row_of s1 j) = map_option (\<lambda>_. Pending) (row_of s j)" for j
    using still [of j] by (cases "row_of s1 j"; cases "row_of s j") auto
  have "map_option st_status (row_of s2 j) =
      (if \<exists>x \<in> set (e # es). er_id x = j \<and> lapses cfg now (xs_confirmedAt s) x then map_option (\<lambda>_. Pending) (row_of s j)
       else map_option st_status (row_of s j))" for j
    using rest(2) [of j] step(2) [of j] pend [of j] same fresh by auto
  moreover have "map_of (xs_confirmedAt s2) j =
      (if \<exists>x \<in> set (e # es). er_id x = j \<and> lapses cfg now (xs_confirmedAt s) x then None else map_of (xs_confirmedAt s) j)" for j
    using rest(3) [of j] step(3) [of j] same fresh by auto
  ultimately show ?case using step(1,4,5) rest(1,4,5) by simp
qed simp

lemma alert_row_frame:
  "xs_rows (fst (alert_row cfg now r st)) = xs_rows (fst st) \<and> xs_models (fst (alert_row cfg now r st)) = xs_models (fst st)
   \<and> xs_confirmedAt (fst (alert_row cfg now r st)) = xs_confirmedAt (fst st)
   \<and> xs_catalog (fst (alert_row cfg now r st)) = xs_catalog (fst st)"
  by (simp add: alert_row_def Let_def split: prod.split)

lemma alertOnOutages_frame:
  "xs_rows (fst (alertOnOutages cfg rows now s)) = xs_rows s \<and> xs_models (fst (alertOnOutages cfg rows now s)) = xs_models s
   \<and> xs_confirmedAt (fst (alertOnOutages cfg rows now s)) = xs_confirmedAt s
   \<and> xs_catalog (fst (alertOnOutages cfg rows now s)) = xs_catalog s"
proof -
  have "xs_rows (fst (fold (alert_row cfg now) rows st)) = xs_rows (fst st)
      \<and> xs_models (fst (fold (alert_row cfg now) rows st)) = xs_models (fst st)
      \<and> xs_confirmedAt (fst (fold (alert_row cfg now) rows st)) = xs_confirmedAt (fst st)
      \<and> xs_catalog (fst (fold (alert_row cfg now) rows st)) = xs_catalog (fst st)" for st
    by (induction rows arbitrary: st) (simp_all add: alert_row_frame)
  from this [of "(s, 0, 0)"] show ?thesis
    by (auto simp: alertOnOutages_def split: prod.split)
qed

text \<open>
  What a pass at \<open>now\<close> makes of an enabled row: the status the verdict gives it, when it was last
  confirmed, and whether it is still admitted at the end of the pass.
\<close>

definition polled_status :: "ext_config \<Rightarrow> int \<Rightarrow> sidecar_verdict list option \<Rightarrow> endpoint_row \<Rightarrow> endpoint_status" where
  "polled_status cfg now vs r = (case vs of Some l \<Rightarrow> synced_status cfg now l r | None \<Rightarrow> st_status r)"

definition polled_at :: "int \<Rightarrow> sidecar_verdict list option \<Rightarrow> (string \<times> int) list \<Rightarrow> endpoint_row \<Rightarrow> int option" where
  "polled_at now vs confirmed r =
     (if (case vs of Some l \<Rightarrow> verdict_for l (er_name r) \<noteq> None | None \<Rightarrow> False) then Some now
      else map_of confirmed (er_id r))"

definition stays_admitted :: "ext_config \<Rightarrow> int \<Rightarrow> sidecar_verdict list option \<Rightarrow> (string \<times> int) list \<Rightarrow> endpoint_row \<Rightarrow> bool" where
  "stays_admitted cfg now vs confirmed r \<longleftrightarrow> polled_status cfg now vs r = Verified
     \<and> (\<exists>t. polled_at now vs confirmed r = Some t \<and> now - t < verdictGraceMs (xg_statusPollInterval cfg))"

lemma row_keys_lookup:
  assumes "row_keys s' = row_keys s" "row_of s i = Some r"
  shows "\<exists>r'. row_of s' i = Some r' \<and> er_id r' = er_id r \<and> er_name r' = er_name r
    \<and> er_listenPort r' = er_listenPort r \<and> er_enabled r' = er_enabled r"
proof -
  have "List.find (\<lambda>r. er_id r = i) ys = Some r \<Longrightarrow>
      \<exists>r'. List.find (\<lambda>r. er_id r = i) xs = Some r' \<and> er_id r' = er_id r \<and> er_name r' = er_name r
        \<and> er_listenPort r' = er_listenPort r \<and> er_enabled r' = er_enabled r"
    if "map (\<lambda>r. (er_id r, er_name r, er_listenPort r, er_enabled r)) xs =
        map (\<lambda>r. (er_id r, er_name r, er_listenPort r, er_enabled r)) ys" for xs ys
    using that by (induction xs arbitrary: ys) (auto split: if_splits)
  from this [OF assms(1)] assms(2) show ?thesis by (simp add: row_of_def)
qed

text \<open>The part of a pass after the verdicts were projected: what expires, and the catalogue that is rebuilt.\<close>

lemma expire_pass:
  assumes "distinct (map er_id ps)"
  shows "\<exists>s' ps' xs'. expireStaleVerdicts cfg ps now s = (s', ps', xs')
    \<and> (\<forall>p \<in> set ps. map_option st_status (row_of s' (er_id p)) =
          (if lapses cfg now (xs_confirmedAt s) p then map_option (\<lambda>_. Pending) (row_of s (er_id p))
           else map_option st_status (row_of s (er_id p))))
    \<and> (\<forall>p \<in> set ps. \<not> lapses cfg now (xs_confirmedAt s) p \<longrightarrow>
          map_of (xs_confirmedAt s') (er_id p) = map_of (xs_confirmedAt s) (er_id p))
    \<and> row_keys s' = row_keys s \<and> xs_models s' = xs_models s"
proof -
  from expire_fold [OF assms, of cfg now s "[]" "[]"] obtain s1 ps' xs' where
    f: "fold (expire_row cfg now) ps (s, [], []) = (s1, ps', xs')"
    "\<And>j. map_option st_status (row_of s1 j) =
          (if \<exists>e \<in> set ps. er_id e = j \<and> lapses cfg now (xs_confirmedAt s) e then map_option (\<lambda>_. Pending) (row_of s j)
           else map_option st_status (row_of s j))"
    "\<And>j. map_of (xs_confirmedAt s1) j =
          (if \<exists>e \<in> set ps. er_id e = j \<and> lapses cfg now (xs_confirmedAt s) e then None else map_of (xs_confirmedAt s) j)"
    "row_keys s1 = row_keys s" "xs_models s1 = xs_models s"
    by auto
  let ?s' = "s1\<lparr>xs_confirmedAt := prune ps (xs_confirmedAt s1)\<rparr>"
  have only: "(\<exists>e \<in> set ps. er_id e = er_id p \<and> lapses cfg now (xs_confirmedAt s) e) \<longleftrightarrow> lapses cfg now (xs_confirmedAt s) p"
    if "p \<in> set ps" for p
    using that assms by (metis distinct_key_unique)
  have rows: "row_of ?s' = row_of s1" by (rule row_of_cong) simp
  have kept: "map_of (prune ps c) (er_id p) = map_of c (er_id p)" if "p \<in> set ps" for p c
    using that unfolding prune_def by (subst map_of_filter_key) auto
  show ?thesis
    using f only rows kept
    by (intro exI [of _ ?s'] exI [of _ ps'] exI [of _ xs']) (simp add: expireStaleVerdicts_def)
qed

lemma keys_ok_cong: "row_keys s' = row_keys s \<Longrightarrow> xs_models s' = xs_models s \<Longrightarrow> keys_ok s' \<longleftrightarrow> keys_ok s"
proof -
  assume keys: "row_keys s' = row_keys s" and models: "xs_models s' = xs_models s"
  have "map er_id (xs_rows s') = map er_id (xs_rows s)"
    using arg_cong [OF keys, of "map fst"] by (simp add: comp_def)
  moreover have "map er_name (xs_rows s') = map er_name (xs_rows s)"
    using arg_cong [OF keys, of "map (fst \<circ> snd)"] by (simp add: comp_def)
  moreover have "map er_listenPort (xs_rows s') = map er_listenPort (xs_rows s)"
    using arg_cong [OF keys, of "map (fst \<circ> snd \<circ> snd)"] by (simp add: comp_def)
  ultimately show ?thesis by (simp add: keys_ok_def models)
qed

text \<open>Both kinds of pass: the rows are projected (or read), then expired, then the catalogue is rebuilt from them.\<close>

lemma poll_split:
  assumes "keys_ok s" and es: "es = filter er_enabled (xs_rows s)"
  shows "\<exists>s1 f s2 ps' xs'. expireStaleVerdicts cfg (map f es) now s1 = (s2, ps', xs')
    \<and> (\<forall>e. er_id (f e) = er_id e \<and> st_status (f e) = polled_status cfg now vs e)
    \<and> (\<forall>e \<in> set es. map_option st_status (row_of s1 (er_id e)) = Some (polled_status cfg now vs e)
         \<and> map_of (xs_confirmedAt s1) (er_id e) = polled_at now vs (xs_confirmedAt s) e)
    \<and> row_keys s1 = row_keys s \<and> xs_models s1 = xs_models s
    \<and> xs_rows (pollOnce cfg vs now s) = xs_rows s2 \<and> xs_models (pollOnce cfg vs now s) = xs_models s2
    \<and> xs_confirmedAt (pollOnce cfg vs now s) = xs_confirmedAt s2
    \<and> xs_catalog (pollOnce cfg vs now s) = rebuild digest_hex (xs_models s2) (xs_rows s2)"
proof -
  have d: "distinct (map er_id es)" using assms by (simp add: keys_ok_def distinct_map_filter)
  have here: "row_of s (er_id e) = Some e" if "e \<in> set es" for e
    using that assms by (simp add: row_of_iff keys_ok_def)
  have only: "(\<exists>e' \<in> set es. er_id e' = er_id e \<and> Q e') \<longleftrightarrow> Q e" if "e \<in> set es" for e Q
    using that d by (metis distinct_key_unique)
  show ?thesis
  proof (cases vs)
    case None
    obtain s2 ps' xs' where x: "expireStaleVerdicts cfg (map id es) now s = (s2, ps', xs')"
      by (metis prod_cases3)
    show ?thesis
    proof (intro exI conjI)
      show "expireStaleVerdicts cfg (map id es) now s = (s2, ps', xs')" by (rule x)
    qed (use x here None alertOnOutages_frame [of cfg ps' now "refresh s2"] es
      in \<open>auto simp: polled_status_def polled_at_def pollOnce_def refreshFromRows_def split: prod.split\<close>)
  next
    case (Some l)
    define zero where "zero = \<lparr>sy_seen = 0, sy_flipped = 0, sy_events = 0, sy_outages = 0, sy_expired = 0\<rparr>"
    from sync_fold [of es s cfg now l zero "[]", OF here d] obtain s1 rep where
      f: "fold (sync_endpoint cfg now l) es (s, zero, []) = (s1, rep, map (sync_projected cfg now l) es)"
      "\<And>e. e \<in> set es \<Longrightarrow> row_of s1 (er_id e) = Some (sync_row cfg now l e)"
      "\<And>j. map_of (xs_confirmedAt s1) j =
          (if \<exists>e \<in> set es. er_id e = j \<and> verdict_for l (er_name e) \<noteq> None then Some now else map_of (xs_confirmedAt s) j)"
      "row_keys s1 = row_keys s" "xs_models s1 = xs_models s"
      by auto
    obtain s2 ps' xs' where x: "expireStaleVerdicts cfg (map (sync_projected cfg now l) es) now s1 = (s2, ps', xs')"
      by (metis prod_cases3)
    have "map_of (xs_confirmedAt s1) (er_id e) = polled_at now vs (xs_confirmedAt s) e" if "e \<in> set es" for e
      unfolding f(3) only [OF that] by (simp add: polled_at_def Some)
    moreover have "xs_rows (pollOnce cfg vs now s) = xs_rows s2 \<and> xs_models (pollOnce cfg vs now s) = xs_models s2
        \<and> xs_confirmedAt (pollOnce cfg vs now s) = xs_confirmedAt s2
        \<and> xs_catalog (pollOnce cfg vs now s) = rebuild digest_hex (xs_models s2) (xs_rows s2)"
      using f(1) x es alertOnOutages_frame [of cfg ps' now "refresh s2"]
      by (auto simp: pollOnce_def Some sync_pass_def Let_def zero_def split: prod.split)
    ultimately show ?thesis
      using f(2,4,5) x
      by (intro exI [of _ s1] exI [of _ "sync_projected cfg now l"] exI [of _ s2] exI [of _ ps'] exI [of _ xs'])
        (simp add: polled_status_def Some)
  qed
qed

text \<open>The effect of a pass on the tables: the keys stay, and an enabled row is admitted afterwards exactly as \<open>stays_admitted\<close> says.\<close>

lemma poll_effect:
  assumes "keys_ok s"
  shows "row_keys (pollOnce cfg vs now s) = row_keys s \<and> xs_models (pollOnce cfg vs now s) = xs_models s
    \<and> xs_catalog (pollOnce cfg vs now s) = rebuild digest_hex (xs_models s) (xs_rows (pollOnce cfg vs now s))"
    and "r \<in> set (xs_rows s) \<Longrightarrow> er_enabled r \<Longrightarrow>
      \<exists>r'. row_of (pollOnce cfg vs now s) (er_id r) = Some r'
        \<and> (st_status r' = Verified \<longleftrightarrow> stays_admitted cfg now vs (xs_confirmedAt s) r)
        \<and> (st_status r' = Verified \<longrightarrow>
             map_of (xs_confirmedAt (pollOnce cfg vs now s)) (er_id r) = polled_at now vs (xs_confirmedAt s) r)"
proof -
  let ?es = "filter er_enabled (xs_rows s)"
  from poll_split [OF assms refl, of cfg now vs] obtain s1 f s2 ps' xs' where
    p: "expireStaleVerdicts cfg (map f ?es) now s1 = (s2, ps', xs')"
    "\<And>e. er_id (f e) = er_id e \<and> st_status (f e) = polled_status cfg now vs e"
    "\<And>e. e \<in> set ?es \<Longrightarrow> map_option st_status (row_of s1 (er_id e)) = Some (polled_status cfg now vs e)
         \<and> map_of (xs_confirmedAt s1) (er_id e) = polled_at now vs (xs_confirmedAt s) e"
    "row_keys s1 = row_keys s" "xs_models s1 = xs_models s"
    "xs_rows (pollOnce cfg vs now s) = xs_rows s2" "xs_models (pollOnce cfg vs now s) = xs_models s2"
    "xs_confirmedAt (pollOnce cfg vs now s) = xs_confirmedAt s2"
    "xs_catalog (pollOnce cfg vs now s) = rebuild digest_hex (xs_models s2) (xs_rows s2)"
    by blast
  have d: "distinct (map er_id (map f ?es))"
    using assms p(2) by (simp add: comp_def keys_ok_def distinct_map_filter)
  from expire_pass [OF d, of cfg now s1] p(1) have
    e: "\<And>e. e \<in> set ?es \<Longrightarrow> map_option st_status (row_of s2 (er_id e)) =
          (if lapses cfg now (xs_confirmedAt s1) (f e) then map_option (\<lambda>_. Pending) (row_of s1 (er_id e))
           else map_option st_status (row_of s1 (er_id e)))"
    "\<And>e. e \<in> set ?es \<Longrightarrow> \<not> lapses cfg now (xs_confirmedAt s1) (f e) \<Longrightarrow>
          map_of (xs_confirmedAt s2) (er_id e) = map_of (xs_confirmedAt s1) (er_id e)"
    "row_keys s2 = row_keys s1" "xs_models s2 = xs_models s1"
    using p(2) by auto
  show "row_keys (pollOnce cfg vs now s) = row_keys s \<and> xs_models (pollOnce cfg vs now s) = xs_models s
    \<and> xs_catalog (pollOnce cfg vs now s) = rebuild digest_hex (xs_models s) (xs_rows (pollOnce cfg vs now s))"
    using p(4-9) e(3,4) by simp
  assume r: "r \<in> set (xs_rows s)" "er_enabled r"
  then have mem: "r \<in> set ?es" by simp
  have lapse: "lapses cfg now (xs_confirmedAt s1) (f r) \<longleftrightarrow>
      polled_status cfg now vs r = Verified \<and> \<not> stays_admitted cfg now vs (xs_confirmedAt s) r"
    using p(2) [of r] p(3) [OF mem] by (auto simp: lapses_def stays_admitted_def)
  obtain r1 where r1: "row_of s1 (er_id r) = Some r1" "st_status r1 = polled_status cfg now vs r"
    using p(3) [OF mem] by auto
  then obtain r2 where r2: "row_of s2 (er_id r) = Some r2"
      "st_status r2 = (if lapses cfg now (xs_confirmedAt s1) (f r) then Pending else polled_status cfg now vs r)"
    using e(1) [OF mem] by (auto split: if_splits)
  have "row_of (pollOnce cfg vs now s) = row_of s2" by (rule row_of_cong) (rule p(6))
  moreover have "st_status r2 = Verified \<longleftrightarrow> stays_admitted cfg now vs (xs_confirmedAt s) r"
    using r2(2) lapse by (auto simp: stays_admitted_def)
  moreover have "st_status r2 = Verified \<Longrightarrow> map_of (xs_confirmedAt s2) (er_id r) = polled_at now vs (xs_confirmedAt s) r"
    using r2(2) e(2) [OF mem] p(3) [OF mem] by (auto split: if_splits)
  ultimately show "\<exists>r'. row_of (pollOnce cfg vs now s) (er_id r) = Some r'
        \<and> (st_status r' = Verified \<longleftrightarrow> stays_admitted cfg now vs (xs_confirmedAt s) r)
        \<and> (st_status r' = Verified \<longrightarrow>
             map_of (xs_confirmedAt (pollOnce cfg vs now s)) (er_id r) = polled_at now vs (xs_confirmedAt s) r)"
    using r2(1) p(8) by auto
qed

section \<open>The invariant of every run\<close>

definition ext_inv :: "ext_config \<Rightarrow> poll_trace \<Rightarrow> ext_state \<Rightarrow> bool" where
  "ext_inv cfg tr s \<longleftrightarrow> keys_ok s \<and> admissions_ok cfg tr s"

lemma publish_frame [simp]:
  "xs_rows (snd (publish cfg env s)) = xs_rows s" "xs_models (snd (publish cfg env s)) = xs_models s"
  "xs_confirmedAt (snd (publish cfg env s)) = xs_confirmedAt s"
  by (auto simp: publish_def render_def Let_def split: sum.splits if_splits prod.splits)

lemma publish_and_view_frame [simp]:
  "snd (publish_and_view cfg env i s) = snd (publish cfg env s)"
  by (auto simp: publish_and_view_def split: prod.splits sum.splits)

lemma ext_inv_cong:
  assumes "xs_rows s' = xs_rows s" "xs_models s' = xs_models s" "xs_confirmedAt s' = xs_confirmedAt s"
  shows "ext_inv cfg tr s' = ext_inv cfg tr s"
  using assms by (simp add: ext_inv_def keys_ok_def admissions_ok_def)

text \<open>A write to one row that keeps its keys and does not admit it.\<close>

lemma ext_inv_update_rows:
  assumes "ext_inv cfg tr s"
    and "\<And>r. er_id (g r) = er_id r" "\<And>r. er_name (g r) = er_name r" "\<And>r. er_listenPort (g r) = er_listenPort r"
    and "\<And>r. r \<in> set (xs_rows s) \<Longrightarrow> er_id r = i \<Longrightarrow>
           er_enabled (g r) \<Longrightarrow> st_status (g r) = Verified \<Longrightarrow> er_enabled r \<and> st_status r = Verified"
  shows "ext_inv cfg tr (update_rows i g s)"
proof -
  have "map k (xs_rows (update_rows i g s)) = map k (xs_rows s)" if "\<And>r. k (g r) = k r" for k :: "endpoint_row \<Rightarrow> 'k"
    using that by (rule update_rows_key)
  then have "keys_ok (update_rows i g s)"
    using assms(1-4) unfolding ext_inv_def keys_ok_def by (metis update_rows_frame(1) update_rows_key)
  moreover have "admissions_ok cfg tr (update_rows i g s)"
    using assms unfolding ext_inv_def admissions_ok_def by (auto simp: update_rows_def split: if_splits)
  ultimately show ?thesis by (simp add: ext_inv_def)
qed

lemma save_rows_distinct:
  "distinct (map mr_id rows) \<Longrightarrow> distinct (map mr_id (fold (\<lambda>m. save_row mr_id (h m)) ms rows))"
  by (induction ms arbitrary: rows) (simp_all add: save_row_distinct)

lemma ext_inv_models:
  assumes "ext_inv cfg tr s" "distinct (map mr_id ms)"
  shows "ext_inv cfg tr (s\<lparr>xs_models := ms\<rparr>)"
  using assms by (simp add: ext_inv_def keys_ok_def admissions_ok_def)

lemma ext_inv_writeModels: "ext_inv cfg tr s \<Longrightarrow> ext_inv cfg tr (writeModels i ms now s)"
  unfolding writeModels_def by (rule ext_inv_models) (auto simp: ext_inv_def keys_ok_def save_rows_distinct)

lemma retireModels_ids: "map mr_id (xs_models (retireModels i ms now s)) = map mr_id (xs_models s)"
  by (simp add: retireModels_def)

lemma ext_inv_retireModels:
  assumes "ext_inv cfg tr s"
  shows "ext_inv cfg tr (retireModels i ms now s)"
proof -
  have "retireModels i ms now s = s\<lparr>xs_models := xs_models (retireModels i ms now s)\<rparr>"
    by (simp add: retireModels_def)
  moreover have "ext_inv cfg tr (s\<lparr>xs_models := xs_models (retireModels i ms now s)\<rparr>)"
    using assms by (intro ext_inv_models) (simp_all add: ext_inv_def keys_ok_def retireModels_ids)
  ultimately show ?thesis by metis
qed

lemma ext_inv_recordEvent [simp]: "ext_inv cfg tr (recordEvent i k now d r st s) = ext_inv cfg tr s"
  by (rule ext_inv_cong) simp_all

lemma ext_inv_publish [simp]: "ext_inv cfg tr (snd (publish cfg' env s)) = ext_inv cfg tr s"
  by (rule ext_inv_cong) simp_all

lemma pending_fields [simp]: "st_status (PENDING_VERDICT st t) = st" "st_notServingSince (PENDING_VERDICT st t) = t"
  by (simp_all add: PENDING_VERDICT_def)

lemma registered_row_fields [simp]:
  "er_id (registered_row env i now n u h p k c) = i" "er_name (registered_row env i now n u h p k c) = n"
  "er_listenPort (registered_row env i now n u h p k c) = p" "er_enabled (registered_row env i now n u h p k c)"
  "st_status (registered_row env i now n u h p k c) = Pending"
  by (simp_all add: registered_row_def status_patch.defs endpoint_row.defs PENDING_VERDICT_def)

lemma register_checks_Inr:
  assumes "register_checks cfg env i now spec s = Inr row"
  shows "er_id row = i \<and> er_enabled row \<and> st_status row = Pending
    \<and> er_name row \<notin> er_name ` set (xs_rows s) \<and> er_listenPort row \<notin> er_listenPort ` set (xs_rows s)
    \<and> xg_listenPortBase cfg \<le> er_listenPort row \<and> er_listenPort row < xg_listenPortBase cfg + xg_listenPortRange cfg
    \<and> EXTERNAL_ENDPOINT_NAME (er_name row)"
  using assms
  by (auto simp: register_checks_def res_simps allocatePort_def allocateListenPort_def requireName_def Let_def
      dest!: port_loop_Some split: option.splits sum.splits if_splits)

lemma save_row_fresh: "key r \<notin> key ` set rows \<Longrightarrow> save_row key r rows = rows @ [r]"
  by (induction rows) auto

lemma ext_inv_register:
  assumes "ext_inv cfg tr s" "i \<notin> er_id ` set (xs_rows s)"
  shows "ext_inv cfg tr (snd (register cfg env i now spec s))"
proof (cases "register_checks cfg env i now spec s")
  case (Inr row)
  note ok = register_checks_Inr [OF Inr]
  have "save_row er_id row (xs_rows s) = xs_rows s @ [row]"
    using ok assms(2) by (intro save_row_fresh) simp
  moreover have "ext_inv cfg tr (s\<lparr>xs_rows := xs_rows s @ [row]\<rparr>)"
    using assms ok by (auto simp: ext_inv_def keys_ok_def admissions_ok_def)
  ultimately show ?thesis
    using Inr by (simp add: register_def ext_inv_writeModels)
qed (simp add: register_def assms(1))

lemma update_row_fields [simp]:
  "er_id (update_row now u h p e r) = er_id r" "er_name (update_row now u h p e r) = er_name r"
  "er_listenPort (update_row now u h p e r) = er_listenPort r" "er_enabled (update_row now u h p e r) = er_enabled r"
  "st_status (update_row now u h p e r) =
     (if u \<noteq> er_baseUrl e \<and> er_enabled e then Pending else st_status r)"
  by (simp_all add: update_row_def Let_def)

lemma ext_inv_update:
  assumes "ext_inv cfg tr s"
  shows "ext_inv cfg tr (snd (update cfg env now spec s))"
proof -
  have "ext_inv cfg tr (update_rows (er_id e) (update_row now u h p e) s)" for e u h p
    using assms by (rule ext_inv_update_rows) (auto split: if_splits)
  then show ?thesis
    using assms
    by (auto simp: update_def update_commit_def Let_def ext_inv_retireModels ext_inv_writeModels
        split: sum.split prod.split option.split)
qed

lemma ext_inv_setEnabled:
  assumes "ext_inv cfg tr s"
  shows "ext_inv cfg tr (snd (setEnabled cfg env now i enabled s))"
proof -
  have "ext_inv cfg tr (update_rows i (\<lambda>r. (with_patch r (PENDING_VERDICT (if enabled then Pending else Disabled)
          (notServingFrom enabled now)))\<lparr>er_enabled := enabled, er_updatedAt := now\<rparr>) s)"
    using assms by (rule ext_inv_update_rows) (auto split: if_splits)
  then show ?thesis using assms by (auto simp: setEnabled_def Let_def split: sum.split)
qed

lemma ext_inv_rotateKey:
  assumes "ext_inv cfg tr s"
  shows "ext_inv cfg tr (snd (rotateKey env now i apiKey s))"
proof -
  have "ext_inv cfg tr (update_rows i (\<lambda>r. r\<lparr>er_apiKeyCiphertext := c, er_apiKeyPrefix := p, er_updatedAt := now\<rparr>) s)" for c p
    using assms by (rule ext_inv_update_rows) auto
  then show ?thesis using assms by (auto simp: rotateKey_def Let_def split: sum.split prod.split)
qed

lemma ext_inv_pinDigest:
  assumes "ext_inv cfg tr s"
  shows "ext_inv cfg tr (snd (pinDigest cfg env now i digest s))"
proof -
  have "ext_inv cfg tr (update_rows i (\<lambda>r. r\<lparr>er_pinnedEvidenceDigest := Some d, er_updatedAt := now\<rparr>) s)" for d
    using assms by (rule ext_inv_update_rows) auto
  then show ?thesis using assms by (auto simp: pinDigest_def Let_def split: sum.split prod.split)
qed

lemma ext_inv_measurements [simp]: "ext_inv cfg tr (s\<lparr>xs_measurements := m\<rparr>) = ext_inv cfg tr s"
  by (rule ext_inv_cong) simp_all

lemma snd_publish_case: "snd (case publish cfg env s of (Inl e, t) \<Rightarrow> (Inl e, t) | (Inr u, t) \<Rightarrow> (Inr x, t)) = snd (publish cfg env s)"
  by (auto split: prod.splits sum.splits)

lemma ext_inv_trust_list:
  assumes "ext_inv cfg tr s"
  shows "ext_inv cfg tr (snd (addMeasurement cfg env i now m note addedBy s))"
    and "ext_inv cfg tr (snd (updateMeasurementNote i note s))"
    and "ext_inv cfg tr (snd (removeMeasurement cfg env i s))"
  using assms
  by (auto simp: addMeasurement_def updateMeasurementNote_def removeMeasurement_def Let_def snd_publish_case
      split: sum.split option.split)

lemma ext_inv_boot:
  assumes "keys_ok s"
  shows "ext_inv cfg [] (snd (resetToPending cfg now s))"
proof -
  let ?g = "\<lambda>r. if er_id r \<in> er_id ` set (filter er_enabled (xs_rows s))
      then (with_patch r (PENDING_VERDICT Pending (Some now)))\<lparr>er_updatedAt := now\<rparr> else r"
  let ?t = "snd (resetToPending cfg now s)"
  have rows: "xs_rows ?t = map ?g (xs_rows s)" and models: "xs_models ?t = xs_models s"
    by (simp_all add: resetToPending_def Let_def)
  have "row_keys ?t = row_keys s" unfolding rows by simp
  then have "keys_ok ?t" using assms keys_ok_cong [OF _ models] by simp
  moreover have "\<not> (er_enabled (?g r) \<and> st_status (?g r) = Verified)" if "r \<in> set (xs_rows s)" for r
    using that by auto
  then have "admissions_ok cfg [] ?t" unfolding admissions_ok_def rows by auto
  ultimately show ?thesis by (simp add: ext_inv_def)
qed

lemma vouched_mono: "vouched cfg tr t n \<Longrightarrow> vouched cfg (p # tr) t n"
  by (auto simp: vouched_def)

text \<open>What keeps a row admitted at the end of a pass: this pass's verdict, or an earlier one that is still in its grace.\<close>

lemma stays_admitted_vouched:
  assumes "stays_admitted cfg now vs c r"
    and "st_status r = Verified \<Longrightarrow> \<exists>t. map_of c (er_id r) = Some t \<and> vouched cfg tr t (er_name r)"
  shows "\<exists>t. polled_at now vs c r = Some t \<and> vouched cfg ((now, vs) # tr) t (er_name r)
    \<and> now - t < verdictGraceMs (xg_statusPollInterval cfg)"
proof (cases "\<exists>l v. vs = Some l \<and> verdict_for l (er_name r) = Some v")
  case True
  then obtain l v where l: "vs = Some l" "verdict_for l (er_name r) = Some v" by blast
  with assms(1) have "live_admission v (pass_clock cfg now)"
    by (simp add: stays_admitted_def polled_status_def synced_status_def status_Verified)
  with l have "vouched cfg ((now, vs) # tr) now (er_name r)" by (auto simp: vouched_def)
  with assms(1) l show ?thesis by (auto simp: stays_admitted_def polled_at_def)
next
  case False
  then have silent: "polled_at now vs c r = map_of c (er_id r)" "polled_status cfg now vs r = st_status r"
    by (auto simp: polled_at_def polled_status_def synced_status_def split: option.split)
  with assms(1) have "st_status r = Verified" by (simp add: stays_admitted_def)
  from assms(2) [OF this] assms(1) silent show ?thesis
    by (auto simp: stays_admitted_def intro: vouched_mono)
qed

lemma polled_row_source:
  assumes "keys_ok s" "r' \<in> set (xs_rows (pollOnce cfg vs now s))" "er_enabled r'"
  shows "\<exists>r \<in> set (xs_rows s). er_enabled r \<and> er_id r = er_id r' \<and> er_name r = er_name r'
    \<and> (st_status r' = Verified \<longleftrightarrow> stays_admitted cfg now vs (xs_confirmedAt s) r)
    \<and> (st_status r' = Verified \<longrightarrow>
         map_of (xs_confirmedAt (pollOnce cfg vs now s)) (er_id r) = polled_at now vs (xs_confirmedAt s) r)"
proof -
  let ?s' = "pollOnce cfg vs now s"
  have keys: "row_keys ?s' = row_keys s" "xs_models ?s' = xs_models s"
    using poll_effect(1) [OF assms(1)] by auto
  then have "keys_ok ?s'" using assms(1) keys_ok_cong by blast
  then have r': "row_of ?s' (er_id r') = Some r'" using assms(2) by (simp add: row_of_iff keys_ok_def)
  from row_keys_lookup [OF keys(1) [symmetric] r'] obtain r where
    r: "row_of s (er_id r') = Some r" "er_id r = er_id r'" "er_name r = er_name r'" "er_enabled r"
    using assms(3) by auto
  then have "r \<in> set (xs_rows s)" using row_of_mem by blast
  from poll_effect(2) [OF assms(1) this r(4), of cfg vs now] r r' this show ?thesis by auto
qed

lemma ext_inv_poll:
  assumes "ext_inv cfg tr s"
  shows "ext_inv cfg ((now, vs) # tr) (pollOnce cfg vs now s)"
proof -
  have ok: "keys_ok s" and adm: "admissions_ok cfg tr s" using assms by (auto simp: ext_inv_def)
  have "keys_ok (pollOnce cfg vs now s)"
    using ok poll_effect(1) [OF ok, of cfg vs now] keys_ok_cong by blast
  moreover have "\<exists>t. map_of (xs_confirmedAt (pollOnce cfg vs now s)) (er_id r') = Some t
      \<and> vouched cfg ((now, vs) # tr) t (er_name r')"
    if r': "r' \<in> set (xs_rows (pollOnce cfg vs now s))" "er_enabled r'" "st_status r' = Verified" for r'
  proof -
    from polled_row_source [OF ok r'(1,2)] r'(3) obtain r where
      r: "r \<in> set (xs_rows s)" "er_enabled r" "er_id r = er_id r'" "er_name r = er_name r'"
      "stays_admitted cfg now vs (xs_confirmedAt s) r"
      "map_of (xs_confirmedAt (pollOnce cfg vs now s)) (er_id r) = polled_at now vs (xs_confirmedAt s) r"
      by auto
    from adm r(1,2) have "st_status r = Verified \<Longrightarrow>
        \<exists>t. map_of (xs_confirmedAt s) (er_id r) = Some t \<and> vouched cfg tr t (er_name r)"
      by (simp add: admissions_ok_def)
    from stays_admitted_vouched [OF r(5) this] r show ?thesis by auto
  qed
  ultimately show ?thesis by (simp add: ext_inv_def admissions_ok_def)
qed

lemma ext_run_inv: "ext_run cfg tr s \<Longrightarrow> ext_inv cfg tr s"
  by (induction rule: ext_run.induct)
    (simp_all add: ext_inv_boot ext_inv_poll ext_inv_register ext_inv_update ext_inv_setEnabled ext_inv_rotateKey
      ext_inv_pinDigest ext_inv_trust_list)

section \<open>What is routable\<close>

lemma routable_row:
  assumes "keys_ok s" "external_find (rebuild hex (xs_models s) (xs_rows s)) m = Some x"
  shows "\<exists>e \<in> set (xs_rows s). er_id e = xe_id (xm_endpoint x) \<and> er_listenPort e = xe_listenPort (xm_endpoint x)
    \<and> er_apiKeyCiphertext e = xe_apiKeyCiphertext (xm_endpoint x) \<and> er_enabled e \<and> st_status e = Verified"
proof -
  have "distinct (map mr_id (xs_models s))" using assms(1) by (simp add: keys_ok_def)
  from external_find_iff [OF this] assms(2) obtain row where
    row: "admitted_by (enabled_by_id (xs_rows s)) row"
    "x = external_model_of row (the (endpoint_for (enabled_by_id (xs_rows s)) row))" by blast
  from row(1) obtain e where e: "endpoint_for (enabled_by_id (xs_rows s)) row = Some e" "st_status e = Verified"
    by (auto simp: admitted_by_def)
  with endpoint_for_Some [OF e(1)] row(2) show ?thesis by (auto simp: external_model_of_def)
qed

lemma endpoint_for_enabled:
  assumes "distinct (map er_id rows)" "e \<in> set rows" "er_enabled e" "mr_externalEndpointId row = Some (er_id e)" "er_id e \<noteq> []"
  shows "endpoint_for (enabled_by_id rows) row = Some e"
proof -
  have "distinct (map fst (enabled_by_id rows))"
    using assms(1) by (simp add: enabled_by_id_def comp_def distinct_map_filter)
  moreover have "(er_id e, e) \<in> set (enabled_by_id rows)"
    using assms(2,3) by (auto simp: enabled_by_id_def)
  ultimately show ?thesis using assms(4,5) by (simp add: endpoint_for_def truthy_iff)
qed

lemma routable_iff_verified:
  assumes "keys_ok s" "e \<in> set (xs_rows s)" "er_enabled e" "er_id e \<noteq> []"
    and "row \<in> set (xs_models s)" "mr_origin row = External_origin" "mr_enabled row" "mr_externalEndpointId row = Some (er_id e)"
  shows "external_find (rebuild hex (xs_models s) (xs_rows s)) (mr_id row) =
    (if st_status e = Verified then Some (external_model_of row e) else None)"
proof -
  have d: "distinct (map mr_id (xs_models s))" "distinct (map er_id (xs_rows s))" using assms(1) by (simp_all add: keys_ok_def)
  have ep: "endpoint_for (enabled_by_id (xs_rows s)) row = Some e"
    using endpoint_for_enabled [OF d(2) assms(2,3,8,4)] .
  have only: "r = row" if "r \<in> set (xs_models s)" "mr_id r = mr_id row" for r
    using that assms(5) d(1) by (metis distinct_key_unique)
  show ?thesis
  proof (cases "st_status e = Verified")
    case True
    then have "external_find (rebuild hex (xs_models s) (xs_rows s)) (mr_id row) = Some (external_model_of row e)"
      using assms(5-7) ep by (subst external_find_iff [OF d(1)]) (auto simp: admitted_by_def)
    with True show ?thesis by simp
  next
    case False
    then have "\<not> admitted_by (enabled_by_id (xs_rows s)) row" using ep by (simp add: admitted_by_def)
    then have "external_find (rebuild hex (xs_models s) (xs_rows s)) (mr_id row) \<noteq> Some x" for x
      using only by (subst external_find_iff [OF d(1)]) blast
    with False show ?thesis by (cases "external_find (rebuild hex (xs_models s) (xs_rows s)) (mr_id row)") auto
  qed
qed

lemma poll_routes:
  assumes "ext_run cfg tr s" and "e \<in> set (xs_rows s)" and "er_enabled e" and "er_id e \<noteq> []"
    and "row \<in> set (xs_models s)" and "mr_origin row = External_origin" and "mr_enabled row"
    and "mr_externalEndpointId row = Some (er_id e)" and "verdict_for l (er_name e) = Some v"
  shows "\<exists>e'. er_listenPort e' = er_listenPort e
    \<and> external_find (xs_catalog (pollOnce cfg (Some l) now s)) (mr_id row) =
       (if live_admission v (pass_clock cfg now) then Some (external_model_of row e') else None)"
proof -
  let ?s' = "pollOnce cfg (Some l) now s"
  have inv: "ext_inv cfg tr s" by (rule ext_run_inv [OF assms(1)])
  then have ok: "keys_ok s" by (simp add: ext_inv_def)
  have ok': "keys_ok ?s'" using ext_inv_poll [OF inv] by (simp add: ext_inv_def)
  have cat: "xs_catalog ?s' = rebuild digest_hex (xs_models ?s') (xs_rows ?s')" and models: "xs_models ?s' = xs_models s"
    and keys: "row_keys ?s' = row_keys s"
    using poll_effect(1) [OF ok, of cfg "Some l" now] by auto
  from poll_effect(2) [OF ok assms(2,3), of cfg "Some l" now] obtain e' where
    e': "row_of ?s' (er_id e) = Some e'" "st_status e' = Verified \<longleftrightarrow> stays_admitted cfg now (Some l) (xs_confirmedAt s) e"
    by auto
  have "row_of s (er_id e) = Some e" using ok assms(2) by (simp add: row_of_iff keys_ok_def)
  from row_keys_lookup [OF keys this] e'(1) assms(3)
  have same: "er_id e' = er_id e" "er_listenPort e' = er_listenPort e" "er_enabled e'" by auto
  have mem: "e' \<in> set (xs_rows ?s')" using row_of_mem [OF e'(1)] by simp
  have "stays_admitted cfg now (Some l) (xs_confirmedAt s) e \<longleftrightarrow> live_admission v (pass_clock cfg now)"
    using assms(9)
    by (simp add: stays_admitted_def polled_status_def polled_at_def synced_status_def status_Verified
        verdictGraceMs_def VERDICT_GRACE_FLOOR_MS_def less_max_iff_disj)
  moreover have "external_find (xs_catalog ?s') (mr_id row) = (if st_status e' = Verified then Some (external_model_of row e') else None)"
    unfolding cat using ok' mem same assms(4-8) models
    by (intro routable_iff_verified) simp_all
  ultimately show ?thesis using e'(2) same(2) by auto
qed

lemma not_routable:
  assumes "keys_ok s" "row_of s i = Some r" "\<not> er_enabled r \<or> st_status r \<noteq> Verified"
    and "external_find (rebuild hex (xs_models s) (xs_rows s)) m = Some x"
  shows "xe_id (xm_endpoint x) \<noteq> i"
proof
  assume i: "xe_id (xm_endpoint x) = i"
  from routable_row [OF assms(1,4)] i obtain e where e: "e \<in> set (xs_rows s)" "er_id e = i" "er_enabled e" "st_status e = Verified"
    by auto
  have "row_of s i = Some e" using e(1,2) assms(1) row_of_iff [of s e] by (simp add: keys_ok_def)
  with assms(2,3) e(3,4) show False by simp
qed

text \<open>A mutation that published: the rows and models are those that were published, and the catalogue is theirs.\<close>

lemma published:
  assumes "publish_and_view cfg env i s = (Inr v, s')"
  shows "xs_rows s' = xs_rows s" "xs_models s' = xs_models s"
    "xs_catalog s' = rebuild digest_hex (xs_models s') (xs_rows s')" "row_of s' i = Some (fst v)"
    "snd v = models_of i s'"
  using assms
  by (auto simp: publish_and_view_def publish_def render_def view_def find_view_def row_of_def Let_def
      split: prod.splits sum.splits option.splits if_splits)

lemma unpublished:
  assumes "publish_and_view cfg env i s = (Inl e, s')" "row_of s i \<noteq> None"
  shows "s' = s"
proof (cases "publish cfg env s")
  case (Pair r t)
  have "row_of t i = row_of s i" using publish_frame(1) [of cfg env s] Pair by (simp add: row_of_def)
  then have "view i t \<noteq> Inl e" using assms(2) by (auto simp: view_def find_view_def row_of_def)
  then obtain e' where "publish cfg env s = (Inl e', s')"
    using assms(1) Pair by (auto simp: publish_and_view_def split: sum.splits)
  then show ?thesis by (auto simp: publish_def render_def Let_def split: sum.splits prod.splits if_splits)
qed

lemma require_row_of: "require i s = (case row_of s i of Some e \<Rightarrow> Inr e | None \<Rightarrow> Inl Endpoint_not_found)"
  by (simp add: require_def row_of_def)

lemma update_checks_Inr:
  assumes "update_checks env spec s = Inr (e, u, h, p)"
  shows "row_of s (us_id spec) = Some e"
    "us_evidenceDigest spec = None \<Longrightarrow> p = (if u \<noteq> er_baseUrl e then None else er_pinnedEvidenceDigest e)"
  using assms
  by (auto simp: update_checks_def res_simps require_row_of split: option.splits if_splits)

lemma models_frame [simp]:
  "xs_rows (writeModels i ms now s) = xs_rows s" "xs_rows (retireModels i ms now s) = xs_rows s"
  "xs_catalog (writeModels i ms now s) = xs_catalog s" "xs_catalog (retireModels i ms now s) = xs_catalog s"
  by (simp_all add: writeModels_def retireModels_def)

lemma update_commit_rows: "xs_rows (update_commit now ms e u h p s) = xs_rows (update_rows (er_id e) (update_row now u h p e) s)"
  by (simp add: update_commit_def Let_def split: option.split)

lemma update_published:
  assumes "update cfg env now spec s = (Inr v, s')" "row_of s (us_id spec) = Some e"
  shows "\<exists>u h p. update_checks env spec s = Inr (e, u, h, p) \<and> fst v = update_row now u h p e e
    \<and> row_of s' (us_id spec) = Some (fst v) \<and> xs_catalog s' = rebuild digest_hex (xs_models s') (xs_rows s')"
proof (cases "update_checks env spec s")
  case (Inr q)
  then obtain e' u h p where q: "update_checks env spec s = Inr (e', u, h, p)" by (cases q) auto
  have e': "e' = e" "er_id e = us_id spec"
    using update_checks_Inr(1) [OF q] assms(2) row_of_mem by auto
  have w: "publish_and_view cfg env (er_id e) (update_commit now (us_models spec) e u h p s) = (Inr v, s')"
    using assms(1) by (simp add: update_def q e'(1))
  note pub = published [OF w]
  have "row_of s' = row_of (update_rows (er_id e) (update_row now u h p e) s)"
    using pub(1) by (intro row_of_cong) (simp add: update_commit_rows)
  with pub(3,4) assms(2) e' q show ?thesis by auto
qed (use assms(1) in \<open>simp add: update_def\<close>)

lemma setEnabled_published:
  assumes "setEnabled cfg env now i b s = (Inr v, s')" "row_of s i = Some e" "er_enabled e \<noteq> b"
  shows "\<exists>r. row_of s' i = Some r \<and> er_enabled r = b \<and> st_status r = (if b then Pending else Disabled)
    \<and> xs_catalog s' = rebuild digest_hex (xs_models s') (xs_rows s')"
proof -
  let ?g = "\<lambda>r. (with_patch r (PENDING_VERDICT (if b then Pending else Disabled)
                       (notServingFrom b now)))\<lparr>er_enabled := b, er_updatedAt := now\<rparr>"
  define w where "w = (if \<not> b then recordEvent i Disabled_event now None None None (update_rows i ?g s) else update_rows i ?g s)"
  have w: "xs_rows w = xs_rows (update_rows i ?g s)" "publish_and_view cfg env i w = (Inr v, s')"
    using assms by (simp_all add: w_def setEnabled_def require_row_of Let_def)
  note pub = published [OF w(2)]
  have "row_of s' = row_of (update_rows i ?g s)" using pub(1) w(1) by (intro row_of_cong) simp
  with pub(3) assms(2) show ?thesis by simp
qed

lemma unadmitted_pending:
  assumes "keys_ok s" "e \<in> set (xs_rows s)" "er_enabled e" "er_id e \<noteq> []"
    and "row \<in> set (xs_models s)" "mr_origin row = External_origin" "mr_enabled row" "mr_externalEndpointId row = Some (er_id e)"
    and "st_status e \<noteq> Verified"
  shows "findUnadmitted (rebuild hex (xs_models s) (xs_rows s)) (mr_id row) = Some (unadmitted_of row e)"
proof -
  have d: "distinct (map mr_id (xs_models s))" "distinct (map er_id (xs_rows s))" using assms(1) by (simp_all add: keys_ok_def)
  have "endpoint_for (enabled_by_id (xs_rows s)) row = Some e"
    using endpoint_for_enabled [OF d(2) assms(2,3,8,4)] .
  then show ?thesis
    using assms(5-7,9) by (subst findUnadmitted_iff [OF d(1)]) (auto simp: refused_by_def)
qed

lemma model_row_of_simps [simp]:
  "mr_id (model_row_of i now m) = ms_id m" "mr_origin (model_row_of i now m) = External_origin"
  "mr_enabled (model_row_of i now m)" "mr_externalEndpointId (model_row_of i now m) = Some i"
  by (simp_all add: model_row_of_def)

lemma saved_models:
  assumes "distinct (map ms_id ms)" "distinct (map mr_id rows)" "m \<in> set ms"
  shows "model_row_of i now m \<in> set (fold (\<lambda>m. save_row mr_id (model_row_of i now m)) ms rows)"
proof -
  have keep: "r \<in> set rs \<Longrightarrow> distinct (map mr_id rs) \<Longrightarrow> mr_id r \<notin> ms_id ` set ns \<Longrightarrow>
      r \<in> set (fold (\<lambda>m. save_row mr_id (model_row_of i now m)) ns rs)" for r ns rs
    by (induction ns arbitrary: rs) (auto simp: save_row_set save_row_distinct)
  show ?thesis
    using assms
  proof (induction ms arbitrary: rows)
    case (Cons n ms)
    show ?case
    proof (cases "m = n")
      case True
      have "model_row_of i now n \<in> set (save_row mr_id (model_row_of i now n) rows)"
        using Cons.prems(2) by (simp add: save_row_set)
      from keep [OF this] True Cons.prems show ?thesis by (simp add: save_row_distinct)
    qed (use Cons in \<open>simp add: save_row_distinct\<close>)
  qed simp
qed

lemma assertDistinct: "assertDistinctModelIds seen ms = Inr u \<Longrightarrow> distinct (map ms_id ms) \<and> set seen \<inter> ms_id ` set ms = {}"
  by (induction seen ms rule: assertDistinctModelIds.induct) (auto split: if_splits)

lemma register_models: "register_checks cfg env i now spec s = Inr row \<Longrightarrow> distinct (map ms_id (rs_models spec))"
  by (auto simp: register_checks_def res_simps dest!: assertDistinct)

lemma register_port:
  "register_checks cfg env i now spec s = Inr row \<Longrightarrow>
     {xg_listenPortBase cfg..<er_listenPort row} \<subseteq> er_listenPort ` set (xs_rows s)"
  by (auto simp: register_checks_def res_simps allocatePort_def allocateListenPort_def
      dest!: port_loop_Some split: option.splits sum.splits) (meson atLeastLessThan_iff subsetD)

section \<open>Alerts\<close>

lemma alert_row_latch:
  "map_of (xs_alerted (fst (alert_row cfg now r st))) j =
     (if j \<noteq> er_id r then map_of (xs_alerted (fst st)) j
      else if el_outage (livenessOf r (xg_outage cfg) now) \<and> st_notServingSince r \<noteq> None then st_notServingSince r
      else if st_notServingSince r = None then None else map_of (xs_alerted (fst st)) j)"
  by (auto simp: alert_row_def Let_def recordEvent_def append_event_def split: prod.split)

lemma alert_fold_latch:
  assumes "distinct (map er_id rows)" "r \<in> set rows" "el_outage (livenessOf r (xg_outage cfg) now)" "st_notServingSince r \<noteq> None"
  shows "map_of (xs_alerted (fst (fold (alert_row cfg now) rows st))) (er_id r) = st_notServingSince r"
  using assms(1,2)
proof (induction rows arbitrary: st)
  case (Cons x rows)
  have others: "map_of (xs_alerted (fst (fold (alert_row cfg now) ys st))) j = map_of (xs_alerted (fst st)) j"
    if "j \<notin> er_id ` set ys" for ys st j
    using that by (induction ys arbitrary: st) (auto simp: alert_row_latch)
  show ?case
  proof (cases "r = x")
    case True
    with Cons.prems have "er_id r \<notin> er_id ` set rows" by simp
    then show ?thesis using True assms(3,4) by (simp add: others alert_row_latch)
  qed (use Cons in simp)
qed simp

text \<open>
  External routing is fail-closed: in every run of status passes and admin mutations since a boot,
  a model that is routable after a pass belongs to an enabled endpoint that some pass, this one or one
  less than the grace before it, saw admitted by the sidecar under a check that was not too old.
\<close>

lemma poll_vouches:
  assumes "ext_run cfg tr s" and "s' = pollOnce cfg vs now s" and "external_find (xs_catalog s') m = Some x"
  shows "\<exists>e \<in> set (xs_rows s'). er_id e = xe_id (xm_endpoint x) \<and> er_listenPort e = xe_listenPort (xm_endpoint x)
    \<and> er_apiKeyCiphertext e = xe_apiKeyCiphertext (xm_endpoint x) \<and> er_enabled e
    \<and> (\<exists>t l v. (t, Some l) \<in> set ((now, vs) # tr) \<and> now - t < verdictGraceMs (xg_statusPollInterval cfg)
         \<and> verdict_for l (er_name e) = Some v \<and> live_admission v (pass_clock cfg t))"
proof -
  have inv: "ext_inv cfg tr s" by (rule ext_run_inv [OF assms(1)])
  then have ok: "keys_ok s" and adm: "admissions_ok cfg tr s" by (auto simp: ext_inv_def)
  have inv': "keys_ok s'" using ext_inv_poll [OF inv] assms(2) by (simp add: ext_inv_def)
  have "xs_catalog s' = rebuild digest_hex (xs_models s') (xs_rows s')"
    using poll_effect(1) [OF ok, of cfg vs now] assms(2) by auto
  then have "external_find (rebuild digest_hex (xs_models s') (xs_rows s')) m = Some x" using assms(3) by simp
  from routable_row [OF inv' this] obtain e where
    e: "e \<in> set (xs_rows s')" "er_id e = xe_id (xm_endpoint x)" "er_listenPort e = xe_listenPort (xm_endpoint x)"
      "er_apiKeyCiphertext e = xe_apiKeyCiphertext (xm_endpoint x)" "er_enabled e" "st_status e = Verified"
    by blast
  from polled_row_source [OF ok, of e cfg vs now] e assms(2) obtain r where
    r: "r \<in> set (xs_rows s)" "er_enabled r" "er_name r = er_name e" "stays_admitted cfg now vs (xs_confirmedAt s) r"
    by auto
  have "st_status r = Verified \<Longrightarrow> \<exists>t. map_of (xs_confirmedAt s) (er_id r) = Some t \<and> vouched cfg tr t (er_name r)"
    using adm r(1,2) by (simp add: admissions_ok_def)
  from stays_admitted_vouched [OF r(4) this] r(3) e(1-5) show ?thesis
    unfolding vouched_def by metis
qed

section \<open>A small deployment\<close>

text \<open>One enabled endpoint with one model, and a sidecar that admits it; the witnesses below run it.\<close>

definition demo_cfg :: ext_config where
  "demo_cfg = \<lparr>xg_statusPollInterval = 5000, xg_reattestInterval = 600000,
     xg_outage = \<lparr>ot_afterFailures = 3, ot_afterNoSuccess = 900000\<rparr>, xg_listenPortBase = 9100, xg_listenPortRange = 10,
     xg_adminListen = ''127.0.0.1:9099''\<rparr>"

definition demo_row :: endpoint_row where
  "demo_row = status_patch.extend (PENDING_VERDICT Pending (Some 0))
     (endpoint_row.fields ''e1'' ''cloud'' ''https://up'' ''up'' 9100 True (Some ''d'') ''v1.k'' ''sk-1'' None 0 0)"

definition demo_model :: model_row where
  "demo_model = \<lparr>mr_id = ''m1'', mr_name = ''M'', mr_litellmModel = ''up/m'', mr_origin = External_origin,
     mr_endpointId = None, mr_externalEndpointId = Some ''e1'', mr_contextLength = 8192, mr_capabilities = [Chat],
     mr_promptPer1mMicros = 1, mr_completionPer1mMicros = 2, mr_enabled = True, mr_updatedAt = 0\<rparr>"

definition demo_state :: ext_state where
  "demo_state = \<lparr>xs_rows = [demo_row], xs_models = [demo_model], xs_timeline = [], xs_measurements = [],
     xs_catalog = empty_external_catalog, xs_confirmedAt = [], xs_alerted = [], xs_health = initial_health,
     xs_raised = [], xs_configFile = None\<rparr>"

definition demo_verdicts :: "sidecar_verdict list" where
  "demo_verdicts = [\<lparr>sv_endpoint = ''cloud'', sv_admitted = True, sv_reason = None, sv_report = None\<rparr>]"

definition demo_boot :: ext_state where
  "demo_boot = snd (resetToPending demo_cfg 1000 demo_state)"

definition demo_polled :: ext_state where
  "demo_polled = pollOnce demo_cfg (Some demo_verdicts) 2000 demo_boot"

lemma demo_run: "ext_run demo_cfg [] demo_boot" "ext_run demo_cfg [(2000, Some demo_verdicts)] demo_polled"
proof -
  have "keys_ok demo_state" by (simp add: keys_ok_def demo_state_def)
  from ext_run.boot [OF this] show "ext_run demo_cfg [] demo_boot" by (simp add: demo_boot_def)
  from ext_run.poll [OF this] show "ext_run demo_cfg [(2000, Some demo_verdicts)] demo_polled" by (simp add: demo_polled_def)
qed

lemma demo_facts:
  "\<exists>e \<in> set (xs_rows demo_boot). er_enabled e \<and> er_id e = ''e1'' \<and> er_name e = ''cloud''"
  "demo_model \<in> set (xs_models demo_boot)" "mr_id demo_model = ''m1''" "mr_origin demo_model = External_origin"
  "mr_enabled demo_model" "mr_externalEndpointId demo_model = Some ''e1''"
  "verdict_for demo_verdicts ''cloud'' = Some (hd demo_verdicts)"
  "live_admission (hd demo_verdicts) (pass_clock demo_cfg t)"
  by (simp_all add: demo_boot_def resetToPending_def Let_def demo_state_def demo_row_def demo_model_def demo_verdicts_def
      verdict_for_def live_admission_def status_patch.defs endpoint_row.defs with_patch_def)

lemma demo_routable: "external_find (xs_catalog demo_polled) ''m1'' \<noteq> None"
proof -
  obtain e where e: "e \<in> set (xs_rows demo_boot)" "er_enabled e" "er_id e = ''e1''" "er_name e = ''cloud''"
    using demo_facts(1) by blast
  from poll_routes [OF demo_run(1) e(1,2) _ demo_facts(2,4,5), of demo_verdicts "hd demo_verdicts" 2000] e(3,4) demo_facts
  show ?thesis by (auto simp: demo_polled_def)
qed

definition demo_env :: "bool \<Rightarrow> admin_env" where
  "demo_env writable =
     \<lparr>ae_parse_url = (\<lambda>_. Some \<lparr>url_protocol = ''https:'', url_host = ''up'', url_hostname = ''up''\<rparr>), ae_available = True,
      ae_seal = (\<lambda>k i. (''v1.'' @ i @ k, take 8 k)), ae_writable = writable, ae_snapshotDigests = [], ae_snapshotFingerprints = []\<rparr>"

lemma fold_keeps: "(\<And>x st. f (g x st) = f st) \<Longrightarrow> f (fold g xs st) = f st"
  by (induction xs arbitrary: st) simp_all

lemma poll_keeps_file: "xs_configFile (pollOnce cfg vs now s) = xs_configFile s"
proof -
  have app: "xs_configFile (apply_projected i p t z) = xs_configFile z" for i p t z
    by (simp add: apply_projected_def fold_keeps [where f = xs_configFile] append_event_def update_rows_def)
  have "(xs_configFile \<circ> fst) (fold (sync_endpoint cfg now l) es st) = (xs_configFile \<circ> fst) st" for l es st
    by (rule fold_keeps) (auto simp: sync_endpoint_def Let_def app split: prod.split option.split)
  then have sync: "fold (sync_endpoint cfg now l) es (z, y) = (z', y') \<Longrightarrow> xs_configFile z' = xs_configFile z" for l es z y z' y'
    by (metis comp_apply fst_conv)
  have "(xs_configFile \<circ> fst) (fold (expire_row cfg now) es st) = (xs_configFile \<circ> fst) st" for es st
    by (rule fold_keeps) (auto simp: expire_row_def Let_def app split: prod.split option.split)
  then have exp: "expireStaleVerdicts cfg es now z = (z', y') \<Longrightarrow> xs_configFile z' = xs_configFile z" for es z z' y'
    unfolding expireStaleVerdicts_def by (auto split: prod.splits) (metis comp_apply fst_conv)
  have "(xs_configFile \<circ> fst) (fold (alert_row cfg now) es st) = (xs_configFile \<circ> fst) st" for es st
    by (rule fold_keeps) (auto simp: alert_row_def Let_def recordEvent_def append_event_def split: prod.split)
  then have alert: "alertOnOutages cfg es now z = (z', y') \<Longrightarrow> xs_configFile z' = xs_configFile z" for es z z' y'
    unfolding alertOnOutages_def by (auto split: prod.splits) (metis comp_apply fst_conv)
  show ?thesis
    unfolding pollOnce_def sync_pass_def refreshFromRows_def Let_def
    by (auto simp: publish_health_def refresh_def dest!: sync exp alert split: option.split prod.split)
qed

lemma demo_row_polled:
  "\<exists>e. xs_rows demo_polled = [e] \<and> er_id e = ''e1'' \<and> er_enabled e"
proof -
  have "keys_ok demo_boot" using ext_run_inv [OF demo_run(1)] by (simp add: ext_inv_def)
  from poll_effect(1) [OF this] have "row_keys demo_polled = row_keys demo_boot" by (simp add: demo_polled_def)
  also have "\<dots> = [(''e1'', ''cloud'', 9100, True)]"
    by (simp add: demo_boot_def resetToPending_def Let_def demo_state_def demo_row_def status_patch.defs endpoint_row.defs with_patch_def)
  finally show ?thesis by auto
qed

lemma demo_disable:
  "\<exists>v s1. setEnabled demo_cfg (demo_env True) 3000 ''e1'' False demo_polled = (Inr v, s1)"
  "\<exists>s1. setEnabled demo_cfg (demo_env False) 3000 ''e1'' False demo_polled = (Inl Unwritable, s1)"
proof -
  from demo_row_polled obtain e where e: "xs_rows demo_polled = [e]" "er_id e = ''e1''" "er_enabled e" by blast
  have unwritten: "xs_configFile demo_polled = None"
    by (simp add: demo_polled_def demo_boot_def resetToPending_def Let_def demo_state_def poll_keeps_file refresh_def publish_health_def)
  show "\<exists>v s1. setEnabled demo_cfg (demo_env True) 3000 ''e1'' False demo_polled = (Inr v, s1)"
    "\<exists>s1. setEnabled demo_cfg (demo_env False) 3000 ''e1'' False demo_polled = (Inl Unwritable, s1)"
    using e unwritten
    by (simp_all add: setEnabled_def require_def Let_def publish_and_view_def publish_def render_def buildSidecarConfig_def
        update_rows_def demo_env_def view_def find_view_def recordEvent_def append_event_def refresh_def)
qed

definition demo_spec :: register_spec where
  "demo_spec = \<lparr>rs_name = ''b'', rs_baseUrl = ''https://up'', rs_apiKey = ''k'', rs_models = [], rs_createdByUserId = None\<rparr>"

lemma demo_boot_rows:
  "\<exists>e. xs_rows demo_boot = [e] \<and> er_id e = ''e1'' \<and> er_name e = ''cloud'' \<and> er_listenPort e = 9100 \<and> er_enabled e"
  "xs_configFile demo_boot = None" "xs_measurements demo_boot = []"
  by (simp_all add: demo_boot_def resetToPending_def Let_def demo_state_def demo_row_def status_patch.defs endpoint_row.defs
      with_patch_def refresh_def publish_health_def)

lemma demo_register: "\<exists>e ms s'. register demo_cfg (demo_env True) ''e2'' 3000 demo_spec demo_boot = (Inr (e, ms), s')"
proof -
  obtain e where e: "xs_rows demo_boot = [e]" "er_id e = ''e1''" "er_name e = ''cloud''" "er_listenPort e = 9100" "er_enabled e"
    using demo_boot_rows(1) by blast
  have name: "requireName (rs_name demo_spec) = Inr ''b''" by code_simp
  have trimmed: "trim ''k'' = ''k''" by code_simp
  have port: "allocatePort demo_cfg demo_boot = Inr 9101"
    by (simp add: allocatePort_def allocateListenPort_def e demo_cfg_def numeral_eq_Suc)
  obtain row where row: "register_checks demo_cfg (demo_env True) ''e2'' 3000 demo_spec demo_boot = Inr row"
    using e name trimmed port
    by (simp add: register_checks_def canonicalBaseUrl_def demo_env_def assertModelIdsFree_def) (simp add: demo_spec_def trimmed)
  have "er_id row = ''e2''" "er_enabled row" using register_checks_Inr [OF row] by simp_all
  then show ?thesis
    using row e demo_boot_rows(2,3)
    by (simp add: register_def writeModels_def demo_spec_def publish_and_view_def publish_def render_def Let_def
        buildSidecarConfig_def render_endpoint_def upstreamOf_def sidecar_input_of_def demo_env_def recordEvent_def append_event_def
        refresh_def view_def find_view_def)
qed

section \<open>Properties\<close>

text \<open>
  C12: a pass makes the routable models follow the verdicts it read, in both directions. When the sidecar
  answers about an enabled endpoint, each enabled model registered on it is routable after that pass
  exactly when the verdict admits the endpoint and its check is not too old, and it is routed to the
  listener of that endpoint.
\<close>

theorem poll_follows_verdict:
  assumes "ext_run cfg tr s" and "e \<in> set (xs_rows s)" and "er_enabled e" and "er_id e \<noteq> []"
    and "row \<in> set (xs_models s)" and "mr_origin row = External_origin" and "mr_enabled row"
    and "mr_externalEndpointId row = Some (er_id e)" and "verdict_for l (er_name e) = Some v"
  shows "(external_find (xs_catalog (pollOnce cfg (Some l) now s)) (mr_id row) \<noteq> None \<longleftrightarrow>
            live_admission v (pass_clock cfg now))
    \<and> pred_option (\<lambda>x. xe_listenPort (xm_endpoint x) = er_listenPort e)
        (external_find (xs_catalog (pollOnce cfg (Some l) now s)) (mr_id row))"
  using poll_routes [OF assms, of now] by (auto simp: external_model_of_def split: if_splits)

theorem poll_follows_verdict_witness:
  "external_find (xs_catalog (pollOnce demo_cfg (Some demo_verdicts) 2000 demo_boot)) ''m1'' \<noteq> None"
proof -
  obtain e where e: "e \<in> set (xs_rows demo_boot)" "er_enabled e" "er_id e = ''e1''" "er_name e = ''cloud''"
    using demo_facts(1) by blast
  from poll_follows_verdict [OF demo_run(1) e(1,2) _ demo_facts(2,4,5), of demo_verdicts "hd demo_verdicts" 2000]
    e(3,4) demo_facts
  show ?thesis by simp
qed

text \<open>
  C13: a withdrawal takes effect at once. When disabling an endpoint, or pointing an enabled one at
  another URL, succeeds, no model on that endpoint is routable any more, without waiting for a pass,
  and re-pointing also takes back an approval that the edit does not renew.
\<close>

theorem withdrawal_immediate:
  assumes "ext_run cfg tr s" and "row_of s i = Some e" and "er_enabled e"
  shows "(setEnabled cfg env now i False s = (Inr v, s1) \<longrightarrow>
           pred_option (\<lambda>x. xe_id (xm_endpoint x) \<noteq> i) (external_find (xs_catalog s1) m))
    \<and> (update cfg env now spec s = (Inr v, s2) \<and> us_id spec = i \<and> er_baseUrl (fst v) \<noteq> er_baseUrl e \<longrightarrow>
         pred_option (\<lambda>x. xe_id (xm_endpoint x) \<noteq> i) (external_find (xs_catalog s2) m)
         \<and> (us_evidenceDigest spec = None \<longrightarrow> er_pinnedEvidenceDigest (fst v) = None))"
proof (intro conjI impI)
  assume off: "setEnabled cfg env now i False s = (Inr v, s1)"
  from setEnabled_published [OF off assms(2)] assms(3) obtain r where
    r: "row_of s1 i = Some r" "\<not> er_enabled r" "xs_catalog s1 = rebuild digest_hex (xs_models s1) (xs_rows s1)" by auto
  have "keys_ok s1"
    using ext_run_inv [OF ext_run.setEnabled [OF assms(1), of env now i False]] by (simp add: ext_inv_def off)
  from not_routable [OF this r(1)] r(2,3) show "pred_option (\<lambda>x. xe_id (xm_endpoint x) \<noteq> i) (external_find (xs_catalog s1) m)"
    by (auto simp: option.pred_set)
next
  assume up: "update cfg env now spec s = (Inr v, s2) \<and> us_id spec = i \<and> er_baseUrl (fst v) \<noteq> er_baseUrl e"
  with update_published [of cfg env now spec s v s2 e] assms(2) obtain u h p where
    u: "update_checks env spec s = Inr (e, u, h, p)" "fst v = update_row now u h p e e" "row_of s2 i = Some (fst v)"
      "xs_catalog s2 = rebuild digest_hex (xs_models s2) (xs_rows s2)" by auto
  from u(2) up have moved: "u \<noteq> er_baseUrl e" "er_pinnedEvidenceDigest (fst v) = p"
    by (auto simp: update_row_def Let_def)
  have "keys_ok s2"
    using ext_run_inv [OF ext_run.update [OF assms(1), of env now spec]] up by (simp add: ext_inv_def)
  moreover have "st_status (fst v) \<noteq> Verified" using u(2) moved assms(3) by simp
  ultimately show "pred_option (\<lambda>x. xe_id (xm_endpoint x) \<noteq> i) (external_find (xs_catalog s2) m)"
    using not_routable [OF _ u(3), of digest_hex m] u(4) by (auto simp: option.pred_set)
  show "er_pinnedEvidenceDigest (fst v) = None" if "us_evidenceDigest spec = None"
    using update_checks_Inr(2) [OF u(1) that] moved by simp
qed

theorem withdrawal_immediate_witness:
  "\<exists>v s1. setEnabled demo_cfg (demo_env True) 3000 ''e1'' False demo_polled = (Inr v, s1)
     \<and> pred_option (\<lambda>x. xe_id (xm_endpoint x) \<noteq> ''e1'') (external_find (xs_catalog s1) ''m1'')"
proof -
  from demo_row_polled obtain e where e: "xs_rows demo_polled = [e]" "er_id e = ''e1''" "er_enabled e" by blast
  then have row: "row_of demo_polled ''e1'' = Some e" by (simp add: row_of_def)
  obtain v s1 where off: "setEnabled demo_cfg (demo_env True) 3000 ''e1'' False demo_polled = (Inr v, s1)"
    using demo_disable(1) by blast
  with withdrawal_immediate [OF demo_run(2) row e(3)] show ?thesis by blast
qed

text \<open>
  C28: two writes that leave the routing table behind. Disabling an endpoint fails when the sidecar's
  file cannot be written, with the row already off, and the models stay routable until the next pass; and a
  rotated key is not what requests are sent with, because the routing table keeps the old ciphertext.
\<close>

theorem routing_left_behind:
  assumes "row_of s i = Some e" and "er_enabled e"
  shows "(setEnabled cfg env now i False s = (Inl err, s1) \<longrightarrow>
           xs_catalog s1 = xs_catalog s \<and> pred_option (\<lambda>r. \<not> er_enabled r) (row_of s1 i))
    \<and> (rotateKey env now i apiKey s = (Inr v, s2) \<longrightarrow>
         xs_catalog s2 = xs_catalog s \<and> er_apiKeyCiphertext (fst v) = fst (ae_seal env (trim apiKey) i))"
proof (intro conjI impI)
  assume off: "setEnabled cfg env now i False s = (Inl err, s1)"
  let ?g = "\<lambda>r. (with_patch r (PENDING_VERDICT Disabled (notServingFrom False now)))\<lparr>er_enabled := False, er_updatedAt := now\<rparr>"
  let ?w = "recordEvent i Disabled_event now None None None (update_rows i ?g s)"
  have "publish_and_view cfg env i ?w = (Inl err, s1)"
    using off assms by (simp add: setEnabled_def require_row_of Let_def)
  moreover have "row_of ?w = row_of (update_rows i ?g s)" by (rule row_of_cong) simp
  ultimately have same: "s1 = ?w" using unpublished [of cfg env i ?w err s1] assms(1) by simp
  show "xs_catalog s1 = xs_catalog s" by (simp add: same)
  have "row_of s1 = row_of (update_rows i ?g s)" using same by (intro row_of_cong) simp
  then show "pred_option (\<lambda>r. \<not> er_enabled r) (row_of s1 i)" using assms(1) by simp
next
  assume rot: "rotateKey env now i apiKey s = (Inr v, s2)"
  have i: "er_id e = i" using row_of_mem [OF assms(1)] by simp
  show "xs_catalog s2 = xs_catalog s" "er_apiKeyCiphertext (fst v) = fst (ae_seal env (trim apiKey) i)"
    using rot assms i
    by (auto simp: rotateKey_def require_row_of res_simps Let_def view_def find_view_def row_of_def [symmetric] row_of_recordEvent split: sum.splits prod.splits option.splits)
qed

theorem routing_left_behind_witness:
  "\<exists>s1. setEnabled demo_cfg (demo_env False) 3000 ''e1'' False demo_polled = (Inl Unwritable, s1)
     \<and> external_find (xs_catalog s1) ''m1'' \<noteq> None \<and> pred_option (\<lambda>r. \<not> er_enabled r) (row_of s1 ''e1'')"
proof -
  from demo_row_polled obtain e where e: "xs_rows demo_polled = [e]" "er_id e = ''e1''" "er_enabled e" by blast
  then have row: "row_of demo_polled ''e1'' = Some e" by (simp add: row_of_def)
  obtain s1 where off: "setEnabled demo_cfg (demo_env False) 3000 ''e1'' False demo_polled = (Inl Unwritable, s1)"
    using demo_disable(2) by blast
  with routing_left_behind [OF row e(3)] demo_routable show ?thesis by auto
qed

text \<open>
  What a registration does. The endpoint gets the lowest free listener of the window and is the only
  one with its name and listener; it starts enabled and pending, so that none of its models is routable
  and each is known as not admitted.
\<close>

theorem register_effect:
  assumes "ext_run cfg tr s" and "i \<notin> er_id ` set (xs_rows s)" and "i \<noteq> []"
    and "register cfg env i now spec s = (Inr (e, ms), s')"
  shows "xs_rows s' = xs_rows s @ [e] \<and> er_enabled e \<and> st_status e = Pending
    \<and> distinct (map er_name (xs_rows s')) \<and> distinct (map er_listenPort (xs_rows s'))
    \<and> er_listenPort e \<in> {xg_listenPortBase cfg..<xg_listenPortBase cfg + xg_listenPortRange cfg}
    \<and> {xg_listenPortBase cfg..<er_listenPort e} \<subseteq> er_listenPort ` set (xs_rows s)
    \<and> list_all (\<lambda>m. external_find (xs_catalog s') (ms_id m) = None
         \<and> findUnadmitted (xs_catalog s') (ms_id m) \<noteq> None) (rs_models spec)"
proof -
  from assms(4) obtain row where row: "register_checks cfg env i now spec s = Inr row"
    by (auto simp: register_def split: sum.splits)
  note ok = register_checks_Inr [OF row]
  let ?w = "recordEvent i Registered now None None None (writeModels i (rs_models spec) now (s\<lparr>xs_rows := xs_rows s @ [row]\<rparr>))"
  have "save_row er_id row (xs_rows s) = xs_rows s @ [row]" using ok assms(2) by (intro save_row_fresh) simp
  then have w: "publish_and_view cfg env i ?w = (Inr (e, ms), s')"
    using assms(4) row by (simp add: register_def)
  note pub = published [OF w]
  have rows: "xs_rows s' = xs_rows s @ [row]" using pub(1) by simp
  have keys: "keys_ok s'"
    using ext_run_inv [OF ext_run.register [OF assms(1,2), of env now spec]] assms(4) by (simp add: ext_inv_def)
  have e: "e = row"
    using pub(4) rows ok assms(2) keys row_of_iff [of s' row] by (simp add: keys_ok_def)
  have model: "model_row_of i now m \<in> set (xs_models s')" if "m \<in> set (rs_models spec)" for m
    using that pub(2) register_models [OF row] ext_run_inv [OF assms(1)]
    by (auto simp: writeModels_def recordEvent_def append_event_def ext_inv_def keys_ok_def intro!: saved_models)
  have "external_find (xs_catalog s') (ms_id m) = None \<and> findUnadmitted (xs_catalog s') (ms_id m) \<noteq> None"
    if "m \<in> set (rs_models spec)" for m
  proof
    show "external_find (xs_catalog s') (ms_id m) = None"
      using routable_iff_verified [OF keys _ _ _ model [OF that], of row] rows ok assms(3) pub(3) by simp
    show "findUnadmitted (xs_catalog s') (ms_id m) \<noteq> None"
      using unadmitted_pending [OF keys _ _ _ model [OF that], of row] rows ok assms(3) pub(3) by simp
  qed
  then show ?thesis
    using rows e ok keys register_port [OF row] by (simp add: keys_ok_def list_all_iff)
qed

text \<open>
  An outage is alerted once. After a pass in which an endpoint was in an outage, every later pass
  that finds the same run still open, however long it lasts, raises nothing for that endpoint and
  writes nothing to its timeline.
\<close>

theorem outage_alerted_once:
  assumes "distinct (map er_id rows)" and "r \<in> set rows" and "el_outage (livenessOf r (xg_outage cfg) now)"
    and "st_notServingSince r = Some since" and "er_id r' = er_id r" and "st_notServingSince r' = Some since"
  shows "case alertOnOutages cfg rows now s of (s1, declared, recovered) \<Rightarrow>
    map_of (xs_alerted s1) (er_id r) = Some since \<and> alert_row cfg later r' (s1, d, c) = (s1, d, c)"
proof -
  obtain s1 declared recovered where fold: "fold (alert_row cfg now) rows (s, 0, 0) = (s1, declared, recovered)"
    by (metis prod_cases3)
  have "map_of (xs_alerted s1) (er_id r) = Some since"
    using alert_fold_latch [OF assms(1-3), of "(s, 0, 0)"] assms(4) by (simp add: fold)
  then have "map_of (prune rows (xs_alerted s1)) (er_id r) = Some since"
    using assms(2) unfolding prune_def by (subst map_of_filter_key) auto
  then show ?thesis using assms(5,6) by (simp add: alertOnOutages_def fold alert_row_def Let_def)
qed

end
