(* ===== verification/Gateway_Policy.thy ===== *)
theory Gateway_Policy
  imports Gateway_Types Wire Upstream
begin

text \<open>
  Whether a request is served: \<open>api/v1/gateway-policy.service.ts\<close>, with the catalogue of
  \<open>api/v1/models.controller.ts\<close> and the client label of \<open>api/v1/client-dimension.ts\<close>.

  The state the checks read is an argument: the two catalogues, the database and the rate limiter.
  A dash is the character \<open>0x97\<close> of the code page.
\<close>

section \<open>Resolution\<close>

datatype resolution = Routable string routed_model | Unadmitted string unadmitted_model

definition lookUp :: "catalog_state \<Rightarrow> external_catalog \<Rightarrow> string \<Rightarrow> resolution option" where
  "lookUp catalog external i =
     (case catalog_find catalog i of
        Some c \<Rightarrow> Some (Routable i (routedConfigModel c))
      | None \<Rightarrow>
          (case external_find external i of
             Some x \<Rightarrow> Some (Routable i (routedExternalModel x))
           | None \<Rightarrow> map_option (Unadmitted i) (findUnadmitted external i)))"

definition refusalFor :: "unadmitted_model \<Rightarrow> openai_error" where
  "refusalFor u =
     (let because = (if um_status u = endpoint_status.Pending then ''the router has not yet verified it''
            else ''the router denied it''
              @ (if truthy (um_stage u) then '' at stage '' @ the (um_stage u) else [])
              @ (if truthy (um_reason u) then '': '' @ the (um_reason u) else []))
      in attestationFailed (''Model '' @ quoted (um_id u) @ '' is served by external endpoint ''
           @ quoted (um_endpointName u) @ '', and '' @ because @ ''. Nothing was sent to it.''))"

fun capability_name :: "served_capability \<Rightarrow> string" where
  "capability_name (Route r) = kind_name r"
| "capability_name Tools = ''tools''"
| "capability_name Streaming = ''streaming''"

definition REQUIRED_CAPABILITY :: "route_kind \<Rightarrow> route_kind" where
  "REQUIRED_CAPABILITY kind = kind"

definition unsupported_route :: "route_kind \<Rightarrow> routed_model \<Rightarrow> openai_error" where
  "unsupported_route kind m =
     (let served = servedCapabilities (rm_capabilities m)
      in unsupportedParameter ''model''
           (''Model '' @ quoted (rm_id m) @ '' does not support '' @ kind_name kind @ '' requests; it serves ''
            @ (if served \<noteq> [] then join_with '', '' (map capability_name served)
               else ''nothing '' @ [CHR 0x97] @ '' its catalogue entry declares no route'') @ ''.''))"

definition assertSupportedParameters :: "json_object \<Rightarrow> (openai_error, unit) result" where
  "assertSupportedParameters body =
     guard (map_of body ''n'' \<in> {None, Some JNull, Some (JNum 1)})
       (unsupportedParameter ''n'' ''Only n = 1 is supported; the router meters one completion per request.'')"

definition resolve ::
  "catalog_state \<Rightarrow> external_catalog \<Rightarrow> route_kind \<Rightarrow> json_object \<Rightarrow> api_key \<Rightarrow> (openai_error, routed_model) result" where
  "resolve catalog external kind body key =
     (case map_of body ''model'' of
        Some (JStr requested) \<Rightarrow>
          if requested = [] then Inl (missingField ''model'')
          else (case lookUp catalog external requested of
            None \<Rightarrow> Inl (modelNotFound requested)
          | Some found \<Rightarrow>
              if \<not> in_scope (key_modelScope key) requested then Inl (modelNotInKeyScope requested)
              else (case found of
                 Unadmitted _ u \<Rightarrow> Inl (refusalFor u)
               | Routable _ m \<Rightarrow>
                   if \<not> servesRoute (rm_capabilities m) (REQUIRED_CAPABILITY kind) then Inl (unsupported_route kind m)
                   else res_map (\<lambda>_. m) (assertSupportedParameters body)))
      | _ \<Rightarrow> Inl (missingField ''model''))"

definition listModels :: "catalog_state \<Rightarrow> external_catalog \<Rightarrow> api_key \<Rightarrow> routed_model list" where
  "listModels catalog external key =
     map routedConfigModel (catalog_list catalog (key_modelScope key))
     @ map routedExternalModel (external_list external (key_modelScope key))"

section \<open>Credit and budgets\<close>

text \<open>A refusal of \<open>admit\<close>: an error of the contract, a rate limit, or the ledger's missing workspace.\<close>

datatype policy_refusal = Refused openai_error | Over_budget rate_refusal | Ledger_failed ledger_error

definition policy_admit ::
  "'s consume \<Rightarrow> rate_limits \<Rightarrow> int \<Rightarrow> db \<Rightarrow> (nat \<Rightarrow> int) \<Rightarrow> api_key \<Rightarrow> 's \<Rightarrow> (policy_refusal, rate_headers) result \<times> 's" where
  "policy_admit consume limits allowOverdraftMicros d clock key s =
     (case balanceOf allowOverdraftMicros d (key_workspaceId key) of
        Inl e \<Rightarrow> (Inl (Ledger_failed e), s)
      | Inr balance \<Rightarrow>
          if \<not> cb_spendable balance then (Inl (Refused insufficientCredits), s)
          else if (case key_spendLimitMicros key of Some limit \<Rightarrow> limit \<le> key_spentTotalMicros key | None \<Rightarrow> False)
          then (Inl (Refused keySpendLimitReached), s)
          else (case admit consume limits s key clock of
                  (Inl r, s1) \<Rightarrow> (Inl (Over_budget r), s1)
                | (Inr h, s1) \<Rightarrow> (Inr h, s1)))"

section \<open>The models endpoint\<close>

definition presentModel :: "routed_model \<Rightarrow> string option \<Rightarrow> json" where
  "presentModel m tee = JObj
     [(''id'', JStr (rm_id m)), (''object'', JStr ''model''), (''created'', JNum (of_int (rm_updatedAt m div 1000))),
      (''owned_by'', JStr ''confidential-router''), (''name'', JStr (rm_name m)),
      (''context_length'', JNum (of_int (rm_contextLength m))),
      (''pricing'', JObj [(''prompt_per_1m_micros'', JNum (of_int (rm_promptPer1mMicros m))),
         (''completion_per_1m_micros'', JNum (of_int (rm_completionPer1mMicros m)))]),
      (''endpoint'', JObj ([(''name'', JStr (ep_name (rm_endpoint m))), (''hostname'', JStr (ep_hostname (rm_endpoint m)))]
         @ (if truthy tee then [(''tee'', JStr (the tee))] else []))),
      (''capabilities'', JArr (map (JStr \<circ> capability_name) (servedCapabilities (rm_capabilities m))))]"

text \<open>\<open>tee\<close> stands for the label read off the latest evidence of an own endpoint.\<close>

definition list_v1_models :: "catalog_state \<Rightarrow> external_catalog \<Rightarrow> (string \<Rightarrow> string option) \<Rightarrow> api_key \<Rightarrow> json" where
  "list_v1_models catalog external tee key =
     (let models = listModels catalog external key;
          own = map (\<lambda>m. ep_id (rm_endpoint m)) (filter (\<lambda>m. rm_external m = None) models)
      in JObj [(''object'', JStr ''list''),
               (''data'', JArr (map (\<lambda>m. presentModel m
                  (if ep_id (rm_endpoint m) \<in> set own then tee (ep_id (rm_endpoint m)) else None)) models))])"

definition get_v1_model ::
  "catalog_state \<Rightarrow> external_catalog \<Rightarrow> (string \<Rightarrow> string option) \<Rightarrow> api_key \<Rightarrow> string \<Rightarrow> (openai_error, json) result" where
  "get_v1_model catalog external tee key wanted =
     (case List.find (\<lambda>m. rm_id m = wanted) (listModels catalog external key) of
        None \<Rightarrow> Inl (modelNotFound wanted)
      | Some m \<Rightarrow> Inr (presentModel m (if rm_external m = None then tee (ep_id (rm_endpoint m)) else None)))"

section \<open>The client label\<close>

definition CLIENT_TABLE :: "(string \<times> string) list" where
  "CLIENT_TABLE =
     [(''copilotchat'', ''vscode-chat''), (''roocode'', ''roo''), (''cline'', ''cline''), (''continue/'', ''continue''),
      (''cursor/'', ''cursor''), (''claudecli/'', ''claude-code''), (''claudecode/'', ''claude-code''),
      (''langchain'', ''langchain''), (''litellm'', ''litellm''), (''openai/python'', ''openai-python''),
      (''openai/js'', ''openai-node''), (''curl/'', ''curl'')]"

definition MAX_HEADER_LENGTH :: nat where "MAX_HEADER_LENGTH = 200"

definition normalise :: "string \<Rightarrow> string" where
  "normalise s = filter (\<lambda>c. c \<noteq> CHR ''-'' \<and> c \<noteq> CHR ''_'' \<and> \<not> is_space c) (to_lower s)"

text \<open>A header is absent, one value or several; the first counts.\<close>

definition headerValue :: "(string \<times> string list) list \<Rightarrow> string \<Rightarrow> string" where
  "headerValue hs name =
     (case map_of hs name of Some (first # _) \<Rightarrow> normalise (take MAX_HEADER_LENGTH first) | _ \<Rightarrow> [])"

definition clientOf :: "(string \<times> string list) list \<Rightarrow> string" where
  "clientOf hs =
     (let product = headerValue hs ''user-agent'' @ ''|'' @ headerValue hs ''x-onbehalf-extension-id'';
          title = headerValue hs ''x-title''
      in case List.find (\<lambda>(needle, client). contains needle product \<or> title = needle) CLIENT_TABLE of
           Some (_, client) \<Rightarrow> client | None \<Rightarrow> ''other'')"

section \<open>Lemmas\<close>

lemma resolve_string:
  assumes "map_of body ''model'' = Some (JStr i)" "i \<noteq> []"
  shows "resolve catalog external kind body key =
    (case lookUp catalog external i of
       None \<Rightarrow> Inl (modelNotFound i)
     | Some found \<Rightarrow>
         if \<not> in_scope (key_modelScope key) i then Inl (modelNotInKeyScope i)
         else (case found of Unadmitted _ u \<Rightarrow> Inl (refusalFor u)
               | Routable _ m \<Rightarrow>
                   if \<not> servesRoute (rm_capabilities m) kind then Inl (unsupported_route kind m)
                   else res_map (\<lambda>_. m) (assertSupportedParameters body)))"
  unfolding resolve_def REQUIRED_CAPABILITY_def using assms by simp

lemma resolve_InrD:
  assumes "resolve catalog external kind body key = Inr m"
  obtains i j where "map_of body ''model'' = Some (JStr i)" "i \<noteq> []" "lookUp catalog external i = Some (Routable j m)"
    "in_scope (key_modelScope key) i" "servesRoute (rm_capabilities m) kind" "assertSupportedParameters body = Inr ()"
  using assms
  by (auto simp: resolve_def REQUIRED_CAPABILITY_def res_map_eq_Inr split: option.splits json.splits if_splits resolution.splits)

lemma lookUp_routable:
  "lookUp catalog external i = Some (Routable j m) \<longleftrightarrow> j = i \<and>
     ((\<exists>c. catalog_find catalog i = Some c \<and> m = routedConfigModel c)
      \<or> catalog_find catalog i = None \<and> (\<exists>x. external_find external i = Some x \<and> m = routedExternalModel x))"
  by (auto simp: lookUp_def split: option.splits)

text \<open>What an external answer of the resolution rests on.\<close>

lemma resolve_external:
  assumes "resolve catalog external kind body key = Inr m" "rm_external m \<noteq> None"
  obtains i x where "external_find external i = Some x" "m = routedExternalModel x"
  using assms by (elim resolve_InrD) (auto simp: lookUp_routable)

text \<open>Credit that can be spent, and a key below its limit; only then is the rate limiter asked.\<close>

definition may_spend :: "int \<Rightarrow> db \<Rightarrow> api_key \<Rightarrow> bool" where
  "may_spend allowOverdraftMicros d key \<longleftrightarrow>
     (\<exists>ws. workspaces d (key_workspaceId key) = Some ws \<and> 0 < ws_balanceMicros ws + allowOverdraftMicros)
     \<and> (\<forall>limit. key_spendLimitMicros key = Some limit \<longrightarrow> key_spentTotalMicros key < limit)"

lemma policy_admit_cases:
  "policy_admit consume limits overdraft d clock key s =
     (if may_spend overdraft d key
      then (case admit consume limits s key clock of (Inl r, s1) \<Rightarrow> (Inl (Over_budget r), s1) | (Inr h, s1) \<Rightarrow> (Inr h, s1))
      else (fst (policy_admit consume limits overdraft d clock key s), s))"
  "\<not> may_spend overdraft d key \<Longrightarrow> fst (policy_admit consume limits overdraft d clock key s) \<noteq> Inr h"
  by (auto simp: policy_admit_def may_spend_def balanceOf_def toBalance_def split: option.splits)

section \<open>Properties\<close>

text \<open>
  C8: which requests are resolved, and what a refused key learns. A request is resolved exactly when it
  names, within the scope of its key, a model of one of the two routing tables that serves the route,
  and asks for one completion; the configured table comes first. For a known model outside the scope of the key
  the answer is always the same refusal, whatever the model is, can do, or is verified as.
\<close>

theorem resolve_gate:
  "(resolve catalog external kind body key = Inr m \<longleftrightarrow>
      (\<exists>i. map_of body ''model'' = Some (JStr i) \<and> i \<noteq> [] \<and> in_scope (key_modelScope key) i
         \<and> ((\<exists>c. catalog_find catalog i = Some c \<and> m = routedConfigModel c)
            \<or> catalog_find catalog i = None \<and> (\<exists>x. external_find external i = Some x \<and> m = routedExternalModel x))
         \<and> (kind \<in> set (rm_capabilities m) \<or> kind = Completions \<and> Chat \<in> set (rm_capabilities m))
         \<and> map_of body ''n'' \<in> {None, Some JNull, Some (JNum 1)}))
   \<and> (map_of body ''model'' = Some (JStr i) \<and> i \<noteq> [] \<and> \<not> in_scope (key_modelScope key) i \<longrightarrow>
        resolve catalog external kind body key =
          Inl (if lookUp catalog external i = None then modelNotFound i else modelNotInKeyScope i))"
proof (intro conjI impI)
  have serves: "servesRoute (rm_capabilities m) kind \<longleftrightarrow>
      kind \<in> set (rm_capabilities m) \<or> kind = Completions \<and> Chat \<in> set (rm_capabilities m)"
    by (auto simp: servesRoute_iff bridgesCompletions_def)
  have n: "assertSupportedParameters body = Inr () \<longleftrightarrow> map_of body ''n'' \<in> {None, Some JNull, Some (JNum 1)}"
    unfolding assertSupportedParameters_def guard_eq_Inr by simp
  show "resolve catalog external kind body key = Inr m \<longleftrightarrow>
      (\<exists>i. map_of body ''model'' = Some (JStr i) \<and> i \<noteq> [] \<and> in_scope (key_modelScope key) i
         \<and> ((\<exists>c. catalog_find catalog i = Some c \<and> m = routedConfigModel c)
            \<or> catalog_find catalog i = None \<and> (\<exists>x. external_find external i = Some x \<and> m = routedExternalModel x))
         \<and> (kind \<in> set (rm_capabilities m) \<or> kind = Completions \<and> Chat \<in> set (rm_capabilities m))
         \<and> map_of body ''n'' \<in> {None, Some JNull, Some (JNum 1)})" (is "?L \<longleftrightarrow> ?R")
  proof
    assume ?L
    then obtain i j where "map_of body ''model'' = Some (JStr i)" "i \<noteq> []" "lookUp catalog external i = Some (Routable j m)"
      "in_scope (key_modelScope key) i" "servesRoute (rm_capabilities m) kind" "assertSupportedParameters body = Inr ()"
      by (elim resolve_InrD)
    then show ?R unfolding serves n lookUp_routable by blast
  next
    assume ?R
    then obtain i where i: "map_of body ''model'' = Some (JStr i)" "i \<noteq> []" "in_scope (key_modelScope key) i"
      "lookUp catalog external i = Some (Routable i m)" "servesRoute (rm_capabilities m) kind" "assertSupportedParameters body = Inr ()"
      unfolding serves n lookUp_routable by blast
    then show ?L unfolding resolve_string [OF i(1,2)] by simp
  qed
next
  assume "map_of body ''model'' = Some (JStr i) \<and> i \<noteq> [] \<and> \<not> in_scope (key_modelScope key) i"
  then have i: "map_of body ''model'' = Some (JStr i)" "i \<noteq> []" "\<not> in_scope (key_modelScope key) i" by auto
  show "resolve catalog external kind body key =
      Inl (if lookUp catalog external i = None then modelNotFound i else modelNotInKeyScope i)"
    unfolding resolve_string [OF i(1,2)] using i(3) by (cases "lookUp catalog external i") simp_all
qed

text \<open>A key scoped to another model asks for a model whose endpoint was denied: it hears about the scope only.\<close>

theorem resolve_gate_witness:
  "\<forall>k :: api_key.
     resolve \<lparr>cs_models = [], cs_endpoints = [], cs_endpointRows = [], cs_modelRows = []\<rparr>
       (empty_external_catalog\<lparr>xc_unadmitted := [(''m1'', \<lparr>um_id = ''m1'', um_endpointName = ''e'',
          um_status = Denied, um_stage = None, um_reason = None\<rparr>)]\<rparr>)
       Chat [(''model'', JStr ''m1'')] (k\<lparr>key_modelScope := Some [''x'']\<rparr>) = Inl (modelNotInKeyScope ''m1'')"
proof
  fix k :: api_key
  let ?k = "k\<lparr>key_modelScope := Some [''x'']\<rparr>"
  let ?cat = "\<lparr>cs_models = [], cs_endpoints = [], cs_endpointRows = [], cs_modelRows = []\<rparr>"
  let ?ext = "empty_external_catalog\<lparr>xc_unadmitted := [(''m1'', \<lparr>um_id = ''m1'', um_endpointName = ''e'',
          um_status = Denied, um_stage = None, um_reason = None\<rparr>)]\<rparr>"
  have "\<not> in_scope (key_modelScope ?k) ''m1''" "lookUp ?cat ?ext ''m1'' \<noteq> None"
    by (simp_all add: in_scope_def lookUp_def catalog_find_def external_find_def findUnadmitted_def empty_external_catalog_def)
  with resolve_gate [of ?cat ?ext Chat "[(''model'', JStr ''m1'')]" ?k undefined "''m1''"]
  show "resolve ?cat ?ext Chat [(''model'', JStr ''m1'')] ?k = Inl (modelNotInKeyScope ''m1'')" by simp
qed

end
