(* ===== verification/Stream_Relay.thy ===== *)
theory Stream_Relay
  imports Upstream Sse
begin

text \<open>
  \<open>api/v1/stream-relay.ts\<close>: the relay of a streamed completion.

  What reaches the relay is a sequence of steps: a chunk of the body, decoded, with the time it was
  read; a tick of the heartbeat; the client closing its socket. The sequence ends when the body does
  (\<open>None\<close>) or when reading fails. \<open>parse\<close> and \<open>stringify\<close> stand for \<open>JSON.parse\<close> and \<open>JSON.stringify\<close>. What is
  written is kept as the list of writes; the response is ended by the relay itself, so no write of the
  model comes after the end. The read timeout is the failure it causes.
\<close>

section \<open>State\<close>

record relay_state =
  rl_usage :: "token_usage option"
  rl_completionEstimate :: int
  rl_finishReason :: "string option"
  rl_timeToFirstTokenMs :: "int option"
  rl_sawDone :: bool
  rl_aborted :: bool
  rl_leftAfterDone :: bool
  rl_beating :: bool
  rl_buffer :: string
  rl_written :: "string list"

datatype relay_step = Read int string | Beat | Client_close

definition HEARTBEAT_INTERVAL_MS :: nat where "HEARTBEAT_INTERVAL_MS = 15000"

definition emit :: "string \<Rightarrow> relay_state \<Rightarrow> relay_state" where
  "emit event st = st\<lparr>rl_written := rl_written st @ [event]\<rparr>"

section \<open>Events\<close>

definition isUsageOnly :: "json \<Rightarrow> bool" where
  "isUsageOnly chunk = (json_array (json_get ''choices'' chunk) = Some [])"

text \<open>The chunk as the client gets it: bridged if need be, with the router's identity and the usage extension.\<close>

definition shaped_chunk :: "gateway_context \<Rightarrow> json \<Rightarrow> token_usage option \<Rightarrow> json" where
  "shaped_chunk ctx chunk reported =
     (let ext = map_option (extensionFor ctx) reported
      in if gc_bridged ctx then JObj (shapeResponse (textCompletionChunkOf (own_entries chunk)) ctx ext)
         else (case chunk of JObj m \<Rightarrow> JObj (shapeResponse m ctx ext) | _ \<Rightarrow> chunk))"

text \<open>The measurements taken of an upstream chunk.\<close>

definition measure_chunk :: "gateway_context \<Rightarrow> int \<Rightarrow> json \<Rightarrow> relay_state \<Rightarrow> relay_state" where
  "measure_chunk ctx now chunk st =
     (let st1 = (if rl_timeToFirstTokenMs st = None \<and> hasAssistantOutput chunk
                 then st\<lparr>rl_timeToFirstTokenMs := Some (now - gc_startedAt ctx), rl_beating := False\<rparr> else st)
      in st1\<lparr>rl_completionEstimate := rl_completionEstimate st1 + int (estimateTokens (deltaTextOf chunk)),
             rl_finishReason := or_else (finishReasonOf chunk) (rl_finishReason st1),
             rl_usage := or_else (readUsage chunk) (rl_usage st1)\<rparr>)"

definition handleEvent ::
  "(string \<Rightarrow> json option) \<Rightarrow> (json \<Rightarrow> string) \<Rightarrow> gateway_context \<Rightarrow> int \<Rightarrow> string \<Rightarrow> relay_state \<Rightarrow> relay_state" where
  "handleEvent parse stringify ctx now event st =
     (case dataPayloadOf event of
        None \<Rightarrow> emit event st
      | Some payload \<Rightarrow>
          if trim payload = ''[DONE]'' then emit SSE_DONE (st\<lparr>rl_sawDone := True\<rparr>)
          else (case parse payload of
            None \<Rightarrow> emit event st
          | Some chunk \<Rightarrow>
              (case chunk of
                 JObj _ \<Rightarrow>
                   (let st1 = measure_chunk ctx now chunk st
                    in if readUsage chunk \<noteq> None \<and> gc_suppressUsageChunk ctx \<and> isUsageOnly chunk then st1
                       else emit (formatDataEvent (stringify (shaped_chunk ctx chunk (readUsage chunk)))) st1)
               | JArr _ \<Rightarrow>
                   emit (formatDataEvent (stringify (shaped_chunk ctx chunk None))) (measure_chunk ctx now chunk st)
               | _ \<Rightarrow> emit event st)))"

definition relay_one ::
  "(string \<Rightarrow> json option) \<Rightarrow> (json \<Rightarrow> string) \<Rightarrow> gateway_context \<Rightarrow> relay_step \<Rightarrow> relay_state \<Rightarrow> relay_state" where
  "relay_one parse stringify ctx step st =
     (case step of
        Read now chunk \<Rightarrow>
          (case splitSseEvents (rl_buffer st @ chunk) of
             (events, rest) \<Rightarrow> fold (handleEvent parse stringify ctx now) events (st\<lparr>rl_buffer := rest\<rparr>))
      | Beat \<Rightarrow> if rl_beating st then emit SSE_HEARTBEAT st else st
      | Client_close \<Rightarrow> if rl_sawDone st then st\<lparr>rl_leftAfterDone := True\<rparr> else st\<lparr>rl_aborted := True\<rparr>)"

definition initial_relay :: "bool \<Rightarrow> relay_state" where
  "initial_relay resumed =
     \<lparr>rl_usage = None, rl_completionEstimate = 0, rl_finishReason = None, rl_timeToFirstTokenMs = None,
      rl_sawDone = False, rl_aborted = False, rl_leftAfterDone = False, rl_beating = True, rl_buffer = [],
      rl_written = (if resumed then [SSE_HEARTBEAT] else [])\<rparr>"

section \<open>The end of the stream\<close>

definition DEFAULT_FAILURE_MAPPER :: "'x thrown \<Rightarrow> stream_failure" where
  "DEFAULT_FAILURE_MAPPER failure = \<lparr>sf_status = Error, sf_error = asOpenAiError failure\<rparr>"

text \<open>What is left in the buffer when the body ends is one last event.\<close>

definition relay_tail ::
  "(string \<Rightarrow> json option) \<Rightarrow> (json \<Rightarrow> string) \<Rightarrow> gateway_context \<Rightarrow> int \<Rightarrow> relay_state \<Rightarrow> relay_state" where
  "relay_tail parse stringify ctx now st =
     (if trim (rl_buffer st) \<noteq> []
      then handleEvent parse stringify ctx now
             (if ends_with (rl_buffer st) EVENT_SEPARATOR then rl_buffer st else rl_buffer st @ EVENT_SEPARATOR) st
      else st)"

definition relay_finish ::
  "(json \<Rightarrow> string) \<Rightarrow> ('x thrown \<Rightarrow> stream_failure) \<Rightarrow> gateway_context \<Rightarrow> 'x thrown option \<Rightarrow> relay_state
    \<Rightarrow> generation_outcome \<times> string list" where
  "relay_finish stringify mapper ctx ended st =
     (let failure = (if rl_leftAfterDone st then None else ended);
          mapped = (if rl_aborted st then None else map_option mapper failure);
          status = (case mapped of Some f \<Rightarrow> sf_status f | None \<Rightarrow> if rl_aborted st then Aborted else Ok);
          st1 = (case mapped of Some f \<Rightarrow> emit (formatDataEvent (stringify (toBody (sf_error f)))) st | None \<Rightarrow> st);
          st2 = (if \<not> rl_sawDone st \<and> \<not> rl_aborted st then emit SSE_DONE st1 else st1);
          counts = (case rl_usage st of Some u \<Rightarrow> u
             | None \<Rightarrow> \<lparr>us_promptTokens = int (estimatePromptTokens (gc_body ctx)),
                        us_completionTokens = rl_completionEstimate st\<rparr>)
      in (\<lparr>go_promptTokens = us_promptTokens counts, go_completionTokens = us_completionTokens counts, go_status = status,
           go_errorCode = map_option (\<lambda>f. err_code (sf_error f)) mapped, go_finishReason = rl_finishReason st,
           go_timeToFirstTokenMs = rl_timeToFirstTokenMs st\<rparr>, rl_written st2))"

definition relayStream ::
  "(string \<Rightarrow> json option) \<Rightarrow> (json \<Rightarrow> string) \<Rightarrow> ('x thrown \<Rightarrow> stream_failure) \<Rightarrow> gateway_context \<Rightarrow> bool
    \<Rightarrow> relay_step list \<Rightarrow> int \<Rightarrow> 'x thrown option \<Rightarrow> generation_outcome \<times> string list" where
  "relayStream parse stringify mapper ctx resumed steps endedAt ended =
     (let st = fold (relay_one parse stringify ctx) steps (initial_relay resumed)
      in relay_finish stringify mapper ctx ended
           (if ended = None then relay_tail parse stringify ctx endedAt st else st))"

section \<open>Lemmas\<close>

lemma emit_simps [simp]:
  "rl_usage (emit e st) = rl_usage st" "rl_completionEstimate (emit e st) = rl_completionEstimate st"
  "rl_finishReason (emit e st) = rl_finishReason st" "rl_timeToFirstTokenMs (emit e st) = rl_timeToFirstTokenMs st"
  "rl_sawDone (emit e st) = rl_sawDone st" "rl_aborted (emit e st) = rl_aborted st"
  "rl_leftAfterDone (emit e st) = rl_leftAfterDone st" "rl_beating (emit e st) = rl_beating st"
  "rl_buffer (emit e st) = rl_buffer st" "rl_written (emit e st) = rl_written st @ [e]"
  by (simp_all add: emit_def)

lemma measure_simps [simp]:
  "rl_sawDone (measure_chunk ctx now c st) = rl_sawDone st" "rl_aborted (measure_chunk ctx now c st) = rl_aborted st"
  "rl_leftAfterDone (measure_chunk ctx now c st) = rl_leftAfterDone st"
  "rl_buffer (measure_chunk ctx now c st) = rl_buffer st" "rl_written (measure_chunk ctx now c st) = rl_written st"
  by (simp_all add: measure_chunk_def Let_def)

text \<open>Handling an event neither reads nor writes the buffer, and never touches what the client's socket did.\<close>

lemma handleEvent_cases:
  obtains "handleEvent parse stringify ctx now e = emit e"
  | "handleEvent parse stringify ctx now e = (\<lambda>st. emit SSE_DONE (st\<lparr>rl_sawDone := True\<rparr>))"
  | c where "handleEvent parse stringify ctx now e = measure_chunk ctx now c"
  | c x where "handleEvent parse stringify ctx now e = (\<lambda>st. emit x (measure_chunk ctx now c st))"
proof (cases "dataPayloadOf e")
  case None
  then have "handleEvent parse stringify ctx now e = emit e" by (simp add: handleEvent_def fun_eq_iff)
  then show thesis by (rule that(1))
next
  case (Some p)
  note p = this
  show thesis
  proof (cases "trim p = ''[DONE]''")
    case True
    then have "handleEvent parse stringify ctx now e = (\<lambda>st. emit SSE_DONE (st\<lparr>rl_sawDone := True\<rparr>))"
      using p by (simp add: handleEvent_def fun_eq_iff)
    then show thesis by (rule that(2))
  next
    case False
    show thesis
    proof (cases "parse p")
      case None
      then have "handleEvent parse stringify ctx now e = emit e" using p False by (simp add: handleEvent_def fun_eq_iff)
      then show thesis by (rule that(1))
    next
      case (Some c)
      then have body: "handleEvent parse stringify ctx now e st =
          (case c of
             JObj _ \<Rightarrow>
               (let st1 = measure_chunk ctx now c st
                in if readUsage c \<noteq> None \<and> gc_suppressUsageChunk ctx \<and> isUsageOnly c then st1
                   else emit (formatDataEvent (stringify (shaped_chunk ctx c (readUsage c)))) st1)
           | JArr _ \<Rightarrow> emit (formatDataEvent (stringify (shaped_chunk ctx c None))) (measure_chunk ctx now c st)
           | _ \<Rightarrow> emit e st)" for st
        using p False by (simp add: handleEvent_def)
      show thesis
      proof (cases c)
        case (JObj m)
        then show thesis
          using that(3) [of c] that(4) [of "formatDataEvent (stringify (shaped_chunk ctx c (readUsage c)))" c] body
          by (cases "readUsage c \<noteq> None \<and> gc_suppressUsageChunk ctx \<and> isUsageOnly c") (auto simp: fun_eq_iff)
      next
        case (JArr xs)
        then show thesis using that(4) [of "formatDataEvent (stringify (shaped_chunk ctx c None))" c] body by (auto simp: fun_eq_iff)
      qed (use that(1) body in \<open>auto simp: fun_eq_iff\<close>)
    qed
  qed
qed

lemma handleEvent_frame [simp]:
  "rl_aborted (handleEvent parse stringify ctx now e st) = rl_aborted st"
  "rl_leftAfterDone (handleEvent parse stringify ctx now e st) = rl_leftAfterDone st"
  "rl_buffer (handleEvent parse stringify ctx now e st) = rl_buffer st"
  by (rule handleEvent_cases [of parse stringify ctx now e]; simp)+

lemma handleEvents_frame [simp]:
  "rl_aborted (fold (handleEvent parse stringify ctx now) es st) = rl_aborted st"
  "rl_leftAfterDone (fold (handleEvent parse stringify ctx now) es st) = rl_leftAfterDone st"
  "rl_buffer (fold (handleEvent parse stringify ctx now) es st) = rl_buffer st"
  by (induction es arbitrary: st) simp_all

lemma measure_buffer: "measure_chunk ctx now c (st\<lparr>rl_buffer := b\<rparr>) = (measure_chunk ctx now c st)\<lparr>rl_buffer := b\<rparr>"
  by (simp add: measure_chunk_def Let_def)

lemma emit_buffer: "emit e (st\<lparr>rl_buffer := b\<rparr>) = (emit e st)\<lparr>rl_buffer := b\<rparr>"
  by (simp add: emit_def)

lemma handleEvent_buffer:
  "handleEvent parse stringify ctx now e (st\<lparr>rl_buffer := b\<rparr>) = (handleEvent parse stringify ctx now e st)\<lparr>rl_buffer := b\<rparr>"
  by (rule handleEvent_cases [of parse stringify ctx now e]; simp add: measure_buffer emit_buffer; simp add: emit_def)

lemma handleEvents_buffer:
  "fold (handleEvent parse stringify ctx now) es (st\<lparr>rl_buffer := b\<rparr>) =
     (fold (handleEvent parse stringify ctx now) es st)\<lparr>rl_buffer := b\<rparr>"
  by (induction es arbitrary: st) (simp_all add: handleEvent_buffer)

text \<open>Reading chunk after chunk is handling the events of the whole.\<close>

lemma relay_reads:
  "fold (relay_one parse stringify ctx) (map (Read now) cs) st =
     (fold (handleEvent parse stringify ctx now) (fst (feed (rl_buffer st) cs)) st)\<lparr>rl_buffer := snd (feed (rl_buffer st) cs)\<rparr>"
proof (induction cs arbitrary: st)
  case (Cons c cs)
  obtain events rest where split: "splitSseEvents (rl_buffer st @ c) = (events, rest)" by (metis surj_pair)
  have "relay_one parse stringify ctx (Read now c) st = (fold (handleEvent parse stringify ctx now) events st)\<lparr>rl_buffer := rest\<rparr>"
    by (simp add: relay_one_def split handleEvents_buffer)
  then show ?case by (simp add: Cons split handleEvents_buffer split: prod.split)
qed simp

text \<open>The terminator that was seen was passed on.\<close>

definition done_written :: "relay_state \<Rightarrow> bool" where
  "done_written st \<longleftrightarrow> (rl_sawDone st \<longrightarrow> SSE_DONE \<in> set (rl_written st))"

lemma done_written_event: "done_written st \<Longrightarrow> done_written (handleEvent parse stringify ctx now e st)"
  by (rule handleEvent_cases [of parse stringify ctx now e]; simp add: done_written_def)

lemma done_written_events: "done_written st \<Longrightarrow> done_written (fold (handleEvent parse stringify ctx now) es st)"
  by (induction es arbitrary: st) (simp_all add: done_written_event)

lemma done_written_step: "done_written st \<Longrightarrow> done_written (relay_one parse stringify ctx x st)"
proof (cases x)
  case (Read now c)
  assume "done_written st"
  then have "done_written (st\<lparr>rl_buffer := b\<rparr>)" for b by (simp add: done_written_def)
  then show ?thesis using Read by (simp add: relay_one_def done_written_events split: prod.split)
qed (auto simp: relay_one_def done_written_def)

lemma done_written_run: "done_written (fold (relay_one parse stringify ctx) steps (initial_relay resumed))"
proof -
  have "done_written st \<Longrightarrow> done_written (fold (relay_one parse stringify ctx) steps st)" for st
    by (induction steps arbitrary: st) (simp_all add: done_written_step)
  then show ?thesis by (simp add: done_written_def initial_relay_def)
qed

text \<open>The client left before, or after, the terminator went by.\<close>

abbreviation relay_after ::
  "(string \<Rightarrow> json option) \<Rightarrow> (json \<Rightarrow> string) \<Rightarrow> gateway_context \<Rightarrow> bool \<Rightarrow> relay_step list \<Rightarrow> relay_state" where
  "relay_after parse stringify ctx resumed steps \<equiv> fold (relay_one parse stringify ctx) steps (initial_relay resumed)"

definition left_early ::
  "(string \<Rightarrow> json option) \<Rightarrow> (json \<Rightarrow> string) \<Rightarrow> gateway_context \<Rightarrow> bool \<Rightarrow> relay_step list \<Rightarrow> bool" where
  "left_early parse stringify ctx resumed steps \<longleftrightarrow>
     (\<exists>pre post. steps = pre @ Client_close # post \<and> \<not> rl_sawDone (relay_after parse stringify ctx resumed pre))"

lemma relay_one_flags:
  "rl_aborted (relay_one parse stringify ctx x st) \<longleftrightarrow> rl_aborted st \<or> x = Client_close \<and> \<not> rl_sawDone st"
  "rl_leftAfterDone (relay_one parse stringify ctx x st) \<longleftrightarrow> rl_leftAfterDone st \<or> x = Client_close \<and> rl_sawDone st"
  by (cases x; simp add: relay_one_def split: prod.split)+

lemma relay_flags:
  "rl_aborted (relay_after parse stringify ctx resumed steps) \<longleftrightarrow> left_early parse stringify ctx resumed steps"
  "rl_aborted (relay_after parse stringify ctx resumed steps) \<or> rl_leftAfterDone (relay_after parse stringify ctx resumed steps)
     \<longleftrightarrow> Client_close \<in> set steps"
proof (induction steps rule: rev_induct)
  case (snoc x steps)
  have "left_early parse stringify ctx resumed (steps @ [x]) \<longleftrightarrow> left_early parse stringify ctx resumed steps
      \<or> x = Client_close \<and> \<not> rl_sawDone (relay_after parse stringify ctx resumed steps)"
    unfolding left_early_def by (auto simp: append_eq_append_conv2 Cons_eq_append_conv append_eq_Cons_conv) blast+
  then show "rl_aborted (relay_after parse stringify ctx resumed (steps @ [x])) \<longleftrightarrow> left_early parse stringify ctx resumed (steps @ [x])"
    using snoc.IH(1) by (simp add: relay_one_flags)
  show "rl_aborted (relay_after parse stringify ctx resumed (steps @ [x]))
      \<or> rl_leftAfterDone (relay_after parse stringify ctx resumed (steps @ [x])) \<longleftrightarrow> Client_close \<in> set (steps @ [x])"
    using snoc.IH(2) by (auto simp: relay_one_flags)
qed (simp_all add: initial_relay_def left_early_def)

lemma relay_tail_frame [simp]:
  "rl_aborted (relay_tail parse stringify ctx now st) = rl_aborted st"
  "rl_leftAfterDone (relay_tail parse stringify ctx now st) = rl_leftAfterDone st"
  by (simp_all add: relay_tail_def)

lemma done_written_tail: "done_written st \<Longrightarrow> done_written (relay_tail parse stringify ctx now st)"
  by (simp add: relay_tail_def done_written_event)

section \<open>Properties\<close>

text \<open>
  C14: how a stream ends, for the client and for the meter, whatever was read before. A client that left
  before the terminator is metered as aborted, without an error. Otherwise the terminator is
  written, and the generation is metered as served when the body ended or the client left with the
  whole answer. When reading failed with the client still there, it is metered as the leg classifies
  it and the error is written, before the terminator unless the upstream had already sent one.
\<close>

theorem relay_ends:
  "case relayStream parse stringify mapper ctx resumed steps endedAt ended of (outcome, written) \<Rightarrow>
     (if left_early parse stringify ctx resumed steps
      then go_status outcome = Aborted \<and> go_errorCode outcome = None
      else SSE_DONE \<in> set written
        \<and> (case ended of
             Some f \<Rightarrow>
               if Client_close \<in> set steps then go_status outcome = Ok \<and> go_errorCode outcome = None
               else go_status outcome = sf_status (mapper f)
                 \<and> go_errorCode outcome = Some (err_code (sf_error (mapper f)))
                 \<and> written = rl_written (relay_after parse stringify ctx resumed steps)
                     @ [formatDataEvent (stringify (toBody (sf_error (mapper f))))]
                     @ (if rl_sawDone (relay_after parse stringify ctx resumed steps) then [] else [SSE_DONE])
           | None \<Rightarrow> go_status outcome = Ok \<and> go_errorCode outcome = None))"
proof -
  define st where "st = relay_after parse stringify ctx resumed steps"
  define fin where "fin = (if ended = None then relay_tail parse stringify ctx endedAt st else st)"
  have ended: "relayStream parse stringify mapper ctx resumed steps endedAt ended = relay_finish stringify mapper ctx ended fin"
    by (simp add: relayStream_def Let_def st_def fin_def)
  have "done_written st" unfolding st_def by (rule done_written_run)
  then have written: "done_written fin" by (simp add: fin_def done_written_tail)
  have early: "rl_aborted fin \<longleftrightarrow> left_early parse stringify ctx resumed steps"
    and left: "rl_aborted fin \<or> rl_leftAfterDone fin \<longleftrightarrow> Client_close \<in> set steps"
    using relay_flags [where parse = parse and stringify = stringify and ctx = ctx and resumed = resumed and steps = steps] by (simp_all add: fin_def st_def [symmetric])
  show ?thesis
  proof (cases "rl_aborted fin")
    case True
    then show ?thesis using early unfolding ended by (simp add: relay_finish_def Let_def)
  next
    case False
    have "SSE_DONE \<in> set (snd (relay_finish stringify mapper ctx ended fin))"
      using False written by (auto simp: relay_finish_def Let_def done_written_def split: option.split)
    moreover have "fin = st" if "ended = Some f" for f using that by (simp add: fin_def)
    ultimately show ?thesis
      using False early left unfolding ended st_def [symmetric]
      by (cases ended) (auto simp: relay_finish_def Let_def)
  qed
qed

theorem relay_ends_witness:
  "\<forall>ctx. case relayStream (\<lambda>_. None) (\<lambda>_. ''{}'') (DEFAULT_FAILURE_MAPPER :: unit thrown \<Rightarrow> stream_failure) ctx False [Beat] 0 None of
     (outcome, written) \<Rightarrow> SSE_DONE \<in> set written \<and> go_status outcome = Ok"
proof
  fix ctx :: gateway_context
  have "\<not> left_early (\<lambda>_. None) (\<lambda>_. ''{}'') ctx False [Beat]"
    by (simp add: left_early_def Cons_eq_append_conv)
  with relay_ends [where parse = "\<lambda>_. None" and stringify = "\<lambda>_. ''{}''" and ctx = ctx and resumed = False and steps = "[Beat]"
      and mapper = "DEFAULT_FAILURE_MAPPER :: unit thrown \<Rightarrow> stream_failure" and endedAt = 0 and ended = None]
  show "case relayStream (\<lambda>_. None) (\<lambda>_. ''{}'') (DEFAULT_FAILURE_MAPPER :: unit thrown \<Rightarrow> stream_failure) ctx False [Beat] 0 None of
     (outcome, written) \<Rightarrow> SSE_DONE \<in> set written \<and> go_status outcome = Ok"
    by (simp split: prod.splits)
qed

text \<open>
  C15: the network's chunking is invisible. However the bytes of a stream are cut into chunks, including
  in the middle of an event, the client gets the same writes and the meter the same outcome as for
  the whole body in one piece, when all of it is read within the same millisecond.
\<close>

theorem relay_chunking:
  "relayStream parse stringify mapper ctx resumed (map (Read now) chunks) endedAt ended =
   relayStream parse stringify mapper ctx resumed [Read now (concat chunks)] endedAt ended"
proof -
  have buffer: "rl_buffer (initial_relay resumed) = []" by (simp add: initial_relay_def)
  have "feed [] chunks = feed [] [concat chunks]"
    using sse_chunking [of "[]" chunks] sse_chunking [of "[]" "[concat chunks]"] by simp
  then have "relay_after parse stringify ctx resumed (map (Read now) chunks) =
      relay_after parse stringify ctx resumed (map (Read now) [concat chunks])"
    unfolding relay_reads buffer by simp
  then show ?thesis by (simp add: relayStream_def Let_def)
qed

end
