(* ===== verification/Gateway.thy ===== *)
theory Gateway
  imports Gateway_Policy Stream_Relay
begin

text \<open>
  The \<open>/v1\<close> request path, end to end: \<open>api/v1/gateway.service.ts\<close>, \<open>api/v1/generation-recorder.service.ts\<close> and
  the demand events of \<open>api/v1/gateway-analytics.service.ts\<close>.

  A request runs against the state of the services (\<open>gateway_state\<close>), the configuration and the functions
  it calls (\<open>gateway_env\<close>) and what happens around it (\<open>request_world\<close>): the clock, the new ids, what
  each attempt of the upstream call gives, what is read of a stream, whether the client left before the
  upstream answered, and whether the keep-alive stream was opened by then. The rate limiter is
  the in-memory token bucket, the credits are the ledger's. One request runs to its end without another
  in between. A failure to write the metering row is logged by the meter and not raised, as in the source.
\<close>

section \<open>State\<close>

record demand_event =
  de_workspaceId :: string
  de_modelSlug :: string
  de_result :: demand_result
  de_route :: route_kind

record gateway_state =
  gs_catalog :: catalog_state
  gs_external :: external_catalog
  gs_limiter :: buckets
  gs_meter :: meter_state
  gs_coverage :: coverage_cache
  gs_demand :: "demand_event list"

record gateway_env =
  ge_parse :: "string \<Rightarrow> json option"
  ge_stringify :: "json \<Rightarrow> string"
  ge_unseal :: "string \<Rightarrow> string \<Rightarrow> string option"
  ge_saltedHash :: "string \<Rightarrow> string"
  ge_limits :: rate_limits
  ge_allowOverdraftMicros :: int
  ge_freshnessWindow :: int
  ge_snapshots :: "snapshot_row list"
  ge_redemptions :: "(string \<times> string option) list"
  ge_litellm :: leg_config
  ge_externalLeg :: leg_config

record request_world =
  rw_limiterClock :: "nat \<Rightarrow> int"
  rw_settleClock :: "nat \<Rightarrow> int"
  rw_startedAt :: int
  rw_finishedAt :: int
  rw_generationId :: string
  rw_ledgerRowId :: string
  rw_fetch :: "nat \<Rightarrow> fetch_result"
  rw_clientLeft :: bool
  rw_opened :: bool
  rw_pings :: nat
  rw_steps :: "relay_step list"
  rw_endedAt :: int
  rw_ended :: "unit thrown option"
  rw_verdicts :: "sidecar_verdict list option"

record gateway_request =
  gq_auth :: authenticated_key
  gq_body :: "json option"
  gq_headers :: "(string \<times> string list) list"
  gq_ip :: "string option"

record http_response =
  hp_status :: "int option"
  hp_headers :: headers
  hp_rateLimit :: "rate_headers option"
  hp_json :: "json option"
  hp_sse :: "string list"
  hp_ended :: bool

definition no_response :: http_response where
  "no_response = \<lparr>hp_status = None, hp_headers = [], hp_rateLimit = None, hp_json = None, hp_sse = [], hp_ended = False\<rparr>"

text \<open>What the handler can throw at the exception filter.\<close>

datatype gateway_failure = Contract openai_error | Budget rate_refusal | Ledger ledger_error | Body_unread

section \<open>Reading the request\<close>

definition bodyOf :: "gateway_request \<Rightarrow> (openai_error, json_object) result" where
  "bodyOf req = (case asRecord (gq_body req) of Some m \<Rightarrow> Inr m | None \<Rightarrow> Inl invalidJson)"

definition headerOf :: "gateway_request \<Rightarrow> string \<Rightarrow> string option" where
  "headerOf req name =
     (case map_of (gq_headers req) name of Some [v] \<Rightarrow> if v \<noteq> [] then Some (take 64 v) else None | _ \<Rightarrow> None)"

fun json_truthy :: "json option \<Rightarrow> bool" where
  "json_truthy None = False"
| "json_truthy (Some JNull) = False"
| "json_truthy (Some (JBool b)) = b"
| "json_truthy (Some (JNum n)) = (n \<noteq> 0)"
| "json_truthy (Some (JStr s)) = (s \<noteq> [])"
| "json_truthy (Some _) = True"

definition usageRequested :: "json_object \<Rightarrow> bool" where
  "usageRequested body =
     (case map_of body ''stream_options'' of
        Some (JObj options) \<Rightarrow> json_truthy (map_of options ''include_usage'') | _ \<Rightarrow> False)"

text \<open>\<open>{ ...(body.stream_options ?? {}), include_usage: true }\<close>; spreading a scalar copies nothing.\<close>

definition upstreamBodyFor :: "gateway_context \<Rightarrow> json_object" where
  "upstreamBodyFor ctx =
     (let body = json_set ''model'' (JStr (rm_upstreamModel (gc_model ctx))) (gc_body ctx)
      in if gc_suppressUsageChunk ctx
         then json_set ''stream_options''
                (JObj (json_set ''include_usage'' (JBool True)
                   (case map_of body ''stream_options'' of Some v \<Rightarrow> own_entries v | None \<Rightarrow> []))) body
         else body)"

definition finishReasonOfBody :: "json \<Rightarrow> string option" where
  "finishReasonOfBody payload =
     (case json_array (json_get ''choices'' payload) of
        Some (c # _) \<Rightarrow> json_string (json_get ''finish_reason'' c) | _ \<Rightarrow> None)"

section \<open>The metering record\<close>

definition recorder_begin ::
  "gateway_env \<Rightarrow> int \<Rightarrow> routed_model \<Rightarrow> coverage_cache \<Rightarrow> (evidence_coverage option \<times> string option) \<times> coverage_cache" where
  "recorder_begin env now model cache =
     (case rm_external model of
        Some x \<Rightarrow> ((None, xr_evidenceDigestSeen x), cache)
      | None \<Rightarrow>
          (case currentFor (ge_freshnessWindow env) (ge_snapshots env) cache (ep_id (rm_endpoint model)) now of
             (coverage, cache') \<Rightarrow> ((coverage, map_option cov_evidenceDigest coverage), cache')))"

definition hashClientIp :: "gateway_env \<Rightarrow> string option \<Rightarrow> string option" where
  "hashClientIp env ip = (if truthy ip then Some (ge_saltedHash env (the ip)) else None)"

definition metering_row :: "gateway_env \<Rightarrow> int \<Rightarrow> gateway_context \<Rightarrow> generation_outcome \<Rightarrow> metering_record" where
  "metering_row env now ctx outcome =
     (let latencyMs = now - gc_startedAt ctx;
          generationMs = map_option (\<lambda>t. latencyMs - t) (go_timeToFirstTokenMs outcome);
          external = (rm_external (gc_model ctx) \<noteq> None);
          counts = \<lparr>us_promptTokens = go_promptTokens outcome, us_completionTokens = go_completionTokens outcome\<rparr>
      in \<lparr>gen_id = gc_generationId ctx, gen_workspaceId = key_workspaceId (auth_key (gc_auth ctx)),
          gen_apiKeyId = key_id (auth_key (gc_auth ctx)), gen_modelId = rm_id (gc_model ctx),
          gen_endpointId = (if external then None else Some (ep_id (rm_endpoint (gc_model ctx)))),
          gen_externalEndpointId = (if external then Some (ep_id (rm_endpoint (gc_model ctx))) else None),
          gen_evidenceSnapshotId = map_option cov_snapshotId (gc_coverage ctx),
          gen_evidenceDigest = gc_evidenceDigest ctx,
          gen_promptTokens = go_promptTokens outcome, gen_completionTokens = go_completionTokens outcome,
          gen_costMicros = computeCostMicros counts (pricing_of (gc_model ctx)),
          gen_promptPer1mMicros = rm_promptPer1mMicros (gc_model ctx),
          gen_completionPer1mMicros = rm_completionPer1mMicros (gc_model ctx),
          gen_streamed = gc_stream ctx, gen_status = go_status outcome, gen_errorCode = go_errorCode outcome,
          gen_finishReason = go_finishReason outcome, gen_latencyMs = latencyMs,
          gen_timeToFirstTokenMs = go_timeToFirstTokenMs outcome,
          gen_tokensPerSecond = tokensPerSecond (go_completionTokens outcome) generationMs,
          gen_requestId = gc_requestId ctx, gen_clientIpHash = hashClientIp env (gc_clientIp ctx),
          gen_client = gc_client ctx, gen_createdAt = gc_startedAt ctx\<rparr>)"

definition recorder_finish ::
  "gateway_env \<Rightarrow> request_world \<Rightarrow> gateway_context \<Rightarrow> generation_outcome \<Rightarrow> gateway_state \<Rightarrow> gateway_state" where
  "recorder_finish env w ctx outcome s =
     s\<lparr>gs_meter := meter_request gateway_debit (ge_redemptions env) (gs_meter s)
         (metering_row env (rw_finishedAt w) ctx outcome) (rw_ledgerRowId w) (rw_finishedAt w)\<rparr>"

definition tokenless :: "generation_status \<Rightarrow> string option \<Rightarrow> generation_outcome" where
  "tokenless status code =
     \<lparr>go_promptTokens = 0, go_completionTokens = 0, go_status = status, go_errorCode = code,
      go_finishReason = None, go_timeToFirstTokenMs = None\<rparr>"

definition fail_request ::
  "gateway_env \<Rightarrow> request_world \<Rightarrow> gateway_context \<Rightarrow> openai_error \<Rightarrow> gateway_state \<Rightarrow> gateway_state" where
  "fail_request env w ctx error s = recorder_finish env w ctx (tokenless Error (Some (err_code error))) s"

definition recordAbandoned :: "gateway_env \<Rightarrow> request_world \<Rightarrow> gateway_context \<Rightarrow> gateway_state \<Rightarrow> gateway_state" where
  "recordAbandoned env w ctx s = recorder_finish env w ctx (tokenless Aborted None) s"

section \<open>Admission\<close>

definition report_demand :: "string option \<Rightarrow> demand_result option \<Rightarrow> route_kind \<Rightarrow> api_key \<Rightarrow> gateway_state \<Rightarrow> gateway_state" where
  "report_demand slug result kind key s =
     (case (slug, result) of
        (Some m, Some r) \<Rightarrow>
          s\<lparr>gs_demand := gs_demand s @ [\<lparr>de_workspaceId = key_workspaceId key, de_modelSlug = m, de_result = r, de_route = kind\<rparr>]\<rparr>
      | _ \<Rightarrow> s)"

definition resolveAndReport ::
  "route_kind \<Rightarrow> json_object \<Rightarrow> api_key \<Rightarrow> gateway_state \<Rightarrow> (openai_error, routed_model) result \<times> gateway_state" where
  "resolveAndReport kind body key s =
     (let slug = requestedModelSlug body
      in case resolve (gs_catalog s) (gs_external s) kind body key of
           Inr model \<Rightarrow> (Inr model, report_demand slug (Some Served) kind key s)
         | Inl e \<Rightarrow> (Inl e, report_demand slug (resultOf (Openai e :: unit thrown)) kind key s))"

fun refusal_failure :: "policy_refusal \<Rightarrow> gateway_failure" where
  "refusal_failure (Refused e) = Contract e"
| "refusal_failure (Over_budget r) = Budget r"
| "refusal_failure (Ledger_failed e) = Ledger e"

definition gateway_context_of ::
  "request_world \<Rightarrow> gateway_request \<Rightarrow> route_kind \<Rightarrow> routed_model \<Rightarrow> json_object \<Rightarrow> json_object
    \<Rightarrow> evidence_coverage option \<Rightarrow> string option \<Rightarrow> rate_headers \<Rightarrow> gateway_context" where
  "gateway_context_of w req kind model body upstreamBody coverage digest h =
     (let bridged = (kind = Completions \<and> bridgesCompletions (rm_capabilities model));
          stream = (kind \<noteq> Embeddings \<and> map_of body ''stream'' = Some (JBool True))
      in \<lparr>gc_kind = kind, gc_generationId = rw_generationId w, gc_model = model, gc_auth = gq_auth req,
          gc_body = upstreamBody, gc_stream = stream,
          gc_upstreamPath = (if bridged then UPSTREAM_PATHS Chat else UPSTREAM_PATHS kind), gc_bridged = bridged,
          gc_suppressUsageChunk = (stream \<and> \<not> usageRequested body), gc_coverage = coverage,
          gc_evidenceDigest = digest, gc_rateLimitHeaders = h, gc_requestId = headerOf req ''x-request-id'',
          gc_clientIp = gq_ip req, gc_client = clientOf (gq_headers req), gc_startedAt = rw_startedAt w\<rparr>)"

text \<open>\<open>handle\<close> up to the forwarding: the context of an admitted request, or what is thrown.\<close>

definition prepare ::
  "gateway_env \<Rightarrow> request_world \<Rightarrow> gateway_request \<Rightarrow> route_kind \<Rightarrow> gateway_state
    \<Rightarrow> (gateway_failure, gateway_context) result \<times> gateway_state" where
  "prepare env w req kind s =
     (case bodyOf req of
        Inl e \<Rightarrow> (Inl (Contract e), s)
      | Inr body \<Rightarrow>
      case resolveAndReport kind body (auth_key (gq_auth req)) s of
        (Inl e, s1) \<Rightarrow> (Inl (Contract e), s1)
      | (Inr model, s1) \<Rightarrow>
      case (if kind = Completions \<and> bridgesCompletions (rm_capabilities model) then chatBodyForPrompt body else Inr body) of
        Inl e \<Rightarrow> (Inl (Contract e), s1)
      | Inr upstreamBody \<Rightarrow>
      case policy_admit bucket_consume (ge_limits env) (ge_allowOverdraftMicros env) (mt_db (gs_meter s1))
             (rw_limiterClock w) (auth_key (gq_auth req)) (gs_limiter s1) of
        (Inl r, l) \<Rightarrow> (Inl (refusal_failure r), s1\<lparr>gs_limiter := l\<rparr>)
      | (Inr h, l) \<Rightarrow>
      case recorder_begin env (rw_startedAt w) model (gs_coverage s1) of
        ((coverage, digest), cache) \<Rightarrow>
          (Inr (gateway_context_of w req kind model body upstreamBody coverage digest h),
           s1\<lparr>gs_limiter := l, gs_coverage := cache\<rparr>))"

section \<open>Forwarding\<close>

datatype send_failure = Leg_error openai_error | Transport transport_error

fun transport_message :: "transport_error \<Rightarrow> string" where
  "transport_message Never_attempted = ''undefined''"
| "transport_message (Client_aborted e) = fe_message e"
| "transport_message (Upstream_timeout ms) = timeout_message ms"
| "transport_message (Upstream_unavailable e) = fe_message e"

fun transportFailureOf :: "send_failure \<Rightarrow> openai_error" where
  "transportFailureOf (Leg_error e) = e"
| "transportFailureOf (Transport (Upstream_timeout ms)) = upstreamTimeout (timeout_message ms)"
| "transportFailureOf (Transport e) = backendUnavailable (''The model backend is unreachable: '' @ transport_message e)"

text \<open>The call of the leg the model is on, and what its attempts came to.\<close>

definition send_request :: "gateway_env \<Rightarrow> request_world \<Rightarrow> gateway_context \<Rightarrow> (send_failure, upstream_response) result" where
  "send_request env w ctx =
     (let body = upstreamBodyFor ctx;
          call = (case rm_external (gc_model ctx) of
            Some x \<Rightarrow> external_call (ge_unseal env) (ge_externalLeg env) (rm_endpoint (gc_model ctx)) x
                        (gc_upstreamPath ctx) body (gc_stream ctx)
          | None \<Rightarrow> Inr (litellm_call (ge_stringify env) (ge_litellm env) (gc_upstreamPath ctx) body
                        (gc_generationId ctx) (gc_stream ctx)))
      in case call of
           Inl e \<Rightarrow> Inl (Leg_error e)
         | Inr c \<Rightarrow> (case fst (postToUpstream (rw_fetch w) (uc_responseTimeoutMs c)) of
                       Inl t \<Rightarrow> Inl (Transport t) | Inr r \<Rightarrow> Inr r))"

definition context_headers :: "gateway_context \<Rightarrow> headers" where
  "context_headers ctx =
     [(''X-Confidential-Router-Endpoint'', ep_hostname (rm_endpoint (gc_model ctx))),
      (''X-Confidential-Router-Generation-Id'', gc_generationId ctx)]"

definition writeStreamHeaders :: "gateway_context \<Rightarrow> http_response \<Rightarrow> http_response" where
  "writeStreamHeaders ctx resp =
     (if hp_status resp \<noteq> None then resp
      else resp\<lparr>hp_status := Some 200, hp_headers := hp_headers resp
        @ [(''Content-Type'', ''text/event-stream; charset=utf-8''), (''Cache-Control'', ''no-cache, no-transform''),
           (''Connection'', ''keep-alive''), (''X-Accel-Buffering'', ''no'')] @ context_headers ctx\<rparr>)"

text \<open>The response when the upstream's answer is known: its own headers, and the keep-alive stream if it was opened.\<close>

definition stream_open :: "gateway_context \<Rightarrow> request_world \<Rightarrow> bool" where
  "stream_open ctx w \<longleftrightarrow> gc_stream ctx \<and> rw_opened w"

definition openStreamIfSlow :: "gateway_context \<Rightarrow> request_world \<Rightarrow> http_response \<Rightarrow> http_response" where
  "openStreamIfSlow ctx w resp =
     (if stream_open ctx w
      then (case writeStreamHeaders ctx resp of r \<Rightarrow> r\<lparr>hp_sse := hp_sse r @ SSE_HEARTBEAT # replicate (rw_pings w) SSE_HEARTBEAT\<rparr>)
      else resp)"

definition request_headers :: "gateway_context \<Rightarrow> http_response" where
  "request_headers ctx =
     no_response\<lparr>hp_rateLimit := Some (gc_rateLimitHeaders ctx),
       hp_headers := (if truthy (gc_requestId ctx) then [(''X-Request-Id'', the (gc_requestId ctx))] else [])\<rparr>"

definition endBeforeTokens ::
  "gateway_env \<Rightarrow> request_world \<Rightarrow> gateway_context \<Rightarrow> openai_error \<Rightarrow> gateway_state \<Rightarrow> http_response
    \<Rightarrow> (gateway_failure, unit) result \<times> gateway_state \<times> http_response" where
  "endBeforeTokens env w ctx error s resp =
     (if \<not> stream_open ctx w then (Inl (Contract error), fail_request env w ctx error s, resp)
      else (Inr (), fail_request env w ctx error s,
            resp\<lparr>hp_sse := hp_sse resp @ [formatDataEvent (ge_stringify env (toBody error)), SSE_DONE], hp_ended := True\<rparr>))"

definition settle_and_finish ::
  "gateway_env \<Rightarrow> request_world \<Rightarrow> gateway_context \<Rightarrow> generation_outcome \<Rightarrow> gateway_state \<Rightarrow> gateway_state" where
  "settle_and_finish env w ctx outcome s =
     recorder_finish env w ctx outcome
       (s\<lparr>gs_limiter := settle bucket_debit (ge_limits env) (gs_limiter s) (auth_key (gc_auth ctx))
            (go_promptTokens outcome + go_completionTokens outcome) (rw_settleClock w)\<rparr>)"

definition completeOnce ::
  "gateway_env \<Rightarrow> request_world \<Rightarrow> gateway_context \<Rightarrow> upstream_response \<Rightarrow> gateway_state \<Rightarrow> http_response
    \<Rightarrow> (gateway_failure, unit) result \<times> gateway_state \<times> http_response" where
  "completeOnce env w ctx upstream s resp =
     (case up_text upstream of
        None \<Rightarrow> (Inl Body_unread, s, resp)
      | Some raw \<Rightarrow>
      let unusable = (\<lambda>message. (Inl (Contract (backendError message)), fail_request env w ctx (backendError message) s, resp))
      in case ge_parse env raw of
        None \<Rightarrow> unusable ''The backend returned a body that is not JSON.''
      | Some payload \<Rightarrow>
      if \<not> (json_is_object payload \<or> (\<exists>xs. payload = JArr xs)) then unusable ''The backend returned an unexpected body.''
      else
        let counts = (case readUsage payload of Some u \<Rightarrow> u
              | None \<Rightarrow> \<lparr>us_promptTokens = int (estimatePromptTokens (gc_body ctx)), us_completionTokens = 0\<rparr>);
            ext = Some (extensionFor ctx counts);
            shaped = (if gc_bridged ctx then JObj (shapeResponse (textCompletionOf (own_entries payload)) ctx ext)
                      else case payload of JObj m \<Rightarrow> JObj (shapeResponse m ctx ext) | _ \<Rightarrow> payload);
            outcome = \<lparr>go_promptTokens = us_promptTokens counts, go_completionTokens = us_completionTokens counts,
              go_status = Ok, go_errorCode = None, go_finishReason = finishReasonOfBody payload, go_timeToFirstTokenMs = None\<rparr>
        in (Inr (), settle_and_finish env w ctx outcome s,
            resp\<lparr>hp_status := Some 200, hp_headers := hp_headers resp @ context_headers ctx, hp_json := Some shaped, hp_ended := True\<rparr>))"

definition relay_request ::
  "gateway_env \<Rightarrow> request_world \<Rightarrow> gateway_context \<Rightarrow> gateway_state \<Rightarrow> http_response
    \<Rightarrow> (gateway_failure, unit) result \<times> gateway_state \<times> http_response" where
  "relay_request env w ctx s resp =
     (let mapper = (if rm_external (gc_model ctx) \<noteq> None then classifyStreamFailure (rw_verdicts w) (gc_model ctx)
                    else DEFAULT_FAILURE_MAPPER)
      in case relayStream (ge_parse env) (ge_stringify env) mapper ctx (stream_open ctx w) (rw_steps w) (rw_endedAt w) (rw_ended w) of
           (outcome, written) \<Rightarrow>
             (Inr (), settle_and_finish env w ctx outcome s,
              (writeStreamHeaders ctx resp)\<lparr>hp_sse := hp_sse resp @ written, hp_ended := True\<rparr>))"

definition forward ::
  "gateway_env \<Rightarrow> request_world \<Rightarrow> gateway_context \<Rightarrow> gateway_state
    \<Rightarrow> (gateway_failure, unit) result \<times> gateway_state \<times> http_response" where
  "forward env w ctx s =
     (let resp = openStreamIfSlow ctx w (request_headers ctx);
          clientLeft = (gc_stream ctx \<and> rw_clientLeft w)
      in case send_request env w ctx of
           Inl err \<Rightarrow>
             if clientLeft then (Inr (), recordAbandoned env w ctx s, resp)
             else endBeforeTokens env w ctx (transportFailureOf err) s resp
         | Inr upstream \<Rightarrow>
             if clientLeft then (Inr (), recordAbandoned env w ctx s, resp)
             else if \<not> (200 \<le> up_status upstream \<and> up_status upstream < 300)
             then endBeforeTokens env w ctx
                    (if rm_external (gc_model ctx) \<noteq> None then mapFailure (ge_parse env) (gc_model ctx) upstream
                     else mapUpstreamFailure (ge_parse env) upstream) s resp
             else if gc_stream ctx then relay_request env w ctx s resp
             else completeOnce env w ctx upstream s resp)"

definition handle ::
  "gateway_env \<Rightarrow> request_world \<Rightarrow> gateway_request \<Rightarrow> route_kind \<Rightarrow> gateway_state
    \<Rightarrow> (gateway_failure, unit) result \<times> gateway_state \<times> http_response" where
  "handle env w req kind s =
     (case prepare env w req kind s of
        (Inl e, s1) \<Rightarrow> (Inl e, s1, no_response)
      | (Inr ctx, s1) \<Rightarrow> forward env w ctx s1)"


section \<open>What a request does to the meter\<close>

lemma report_demand_frame [simp]:
  "gs_meter (report_demand slug r kind key s) = gs_meter s"
  "gs_catalog (report_demand slug r kind key s) = gs_catalog s"
  "gs_external (report_demand slug r kind key s) = gs_external s"
  "gs_limiter (report_demand slug r kind key s) = gs_limiter s"
  by (auto simp: report_demand_def split: option.splits)

lemma prepare_frame:
  assumes "prepare env w req kind s = (r, s1)"
  shows "gs_meter s1 = gs_meter s" "gs_catalog s1 = gs_catalog s" "gs_external s1 = gs_external s"
  using assms
  by (auto simp: prepare_def resolveAndReport_def Let_def split: sum.splits prod.splits)

text \<open>What an admitted request has passed: its model is resolved for its key, and the key may spend.\<close>

lemma prepare_Inr:
  assumes "prepare env w req kind s = (Inr ctx, s1)"
  obtains body where "bodyOf req = Inr body"
    "resolve (gs_catalog s) (gs_external s) kind body (auth_key (gq_auth req)) = Inr (gc_model ctx)"
    "may_spend (ge_allowOverdraftMicros env) (mt_db (gs_meter s)) (auth_key (gq_auth req))"
    "\<exists>h l. admit bucket_consume (ge_limits env) (gs_limiter s) (auth_key (gq_auth req)) (rw_limiterClock w) = (Inr h, l)
       \<and> gc_rateLimitHeaders ctx = h \<and> gs_limiter s1 = l"
    "gc_auth ctx = gq_auth req" "gc_generationId ctx = rw_generationId w" "gc_startedAt ctx = rw_startedAt w"
proof -
  obtain body where body: "bodyOf req = Inr body" using assms by (cases "bodyOf req") (auto simp: prepare_def)
  let ?key = "auth_key (gq_auth req)"
  obtain model where model: "resolve (gs_catalog s) (gs_external s) kind body ?key = Inr model"
    using assms body
    by (cases "resolve (gs_catalog s) (gs_external s) kind body ?key") (auto simp: prepare_def resolveAndReport_def Let_def)
  let ?s = "report_demand (requestedModelSlug body) (Some Served) kind ?key s"
  have res: "resolveAndReport kind body ?key s = (Inr model, ?s)" using model by (simp add: resolveAndReport_def Let_def)
  let ?p = "policy_admit bucket_consume (ge_limits env) (ge_allowOverdraftMicros env) (mt_db (gs_meter s))
    (rw_limiterClock w) ?key (gs_limiter s)"
  obtain h l where p: "?p = (Inr h, l)"
    and ctx: "gc_model ctx = model" "gc_auth ctx = gq_auth req" "gc_generationId ctx = rw_generationId w"
      "gc_startedAt ctx = rw_startedAt w" "gc_rateLimitHeaders ctx = h" "gs_limiter s1 = l"
    using assms by (auto simp: prepare_def body res gateway_context_of_def Let_def split: sum.splits prod.splits)
  have may: "may_spend (ge_allowOverdraftMicros env) (mt_db (gs_meter s)) ?key"
    using policy_admit_cases(2) [of "ge_allowOverdraftMicros env" "mt_db (gs_meter s)" ?key] p by (metis fst_conv)
  have "admit bucket_consume (ge_limits env) (gs_limiter s) ?key (rw_limiterClock w) = (Inr h, l)"
    using p may by (subst (asm) policy_admit_cases(1)) (auto split: sum.splits prod.splits)
  with that body model may ctx show thesis by blast
qed

definition finished ::
  "gateway_env \<Rightarrow> request_world \<Rightarrow> gateway_context \<Rightarrow> generation_outcome \<Rightarrow> gateway_state \<Rightarrow> gateway_state \<Rightarrow> bool" where
  "finished env w ctx outcome s s' \<longleftrightarrow>
     gs_meter s' = meter_request gateway_debit (ge_redemptions env) (gs_meter s)
       (metering_row env (rw_finishedAt w) ctx outcome) (rw_ledgerRowId w) (rw_finishedAt w)"

lemma finished_recorder [intro]:
  "finished env w ctx outcome s (recorder_finish env w ctx outcome (s\<lparr>gs_limiter := l\<rparr>))"
  "finished env w ctx outcome s (recorder_finish env w ctx outcome s)"
  by (simp_all add: finished_def recorder_finish_def)

lemma endBeforeTokens_finished:
  assumes "endBeforeTokens env w ctx e s resp = (r, s', resp')"
  shows "finished env w ctx (tokenless Error (Some (err_code e))) s s' \<and> (r = Inr () \<or> r = Inl (Contract e))"
  using assms by (auto simp: endBeforeTokens_def fail_request_def split: if_splits)

text \<open>
  Past admission a request leaves the meter alone only when the body of the upstream's answer cannot be
  read; otherwise it is finished once, and with no tokens when it ends in an error.
\<close>

definition unread :: "gateway_env \<Rightarrow> request_world \<Rightarrow> gateway_context \<Rightarrow> bool" where
  "unread env w ctx \<longleftrightarrow> \<not> gc_stream ctx
     \<and> (\<exists>u. send_request env w ctx = Inr u \<and> 200 \<le> up_status u \<and> up_status u < 300 \<and> up_text u = None)"

lemma completeOnce_cases:
  assumes "completeOnce env w ctx u s resp = (r, s', resp')"
  shows "up_text u = None \<and> r = Inl Body_unread \<and> s' = s
    \<or> up_text u \<noteq> None \<and> (\<exists>outcome. finished env w ctx outcome s s'
        \<and> (r = Inr () \<or> (\<exists>e. r = Inl (Contract e) \<and> outcome = tokenless Error (Some (err_code e)))))"
proof (cases "up_text u")
  case None
  then show ?thesis using assms by (auto simp: completeOnce_def)
next
  case (Some raw)
  show ?thesis
  proof (cases "ge_parse env raw")
    case None
    then show ?thesis using assms Some by (auto simp: completeOnce_def fail_request_def)
  next
    case (Some payload)
    then show ?thesis using assms \<open>up_text u = Some raw\<close>
      by (auto simp: completeOnce_def fail_request_def settle_and_finish_def Let_def split: if_splits)
  qed
qed

lemma relay_request_finished:
  assumes "relay_request env w ctx s resp = (r, s', resp')"
  shows "r = Inr () \<and> (\<exists>outcome. finished env w ctx outcome s s')"
  using assms by (auto simp: relay_request_def settle_and_finish_def Let_def split: prod.splits)

lemma forward_cases:
  assumes "forward env w ctx s = (r, s', resp)"
  obtains (unread) "unread env w ctx" "r = Inl Body_unread" "s' = s"
  | (metered) outcome where "finished env w ctx outcome s s'"
      "r = Inr () \<or> (\<exists>e. r = Inl (Contract e) \<and> outcome = tokenless Error (Some (err_code e)))"
proof -
  let ?resp = "openStreamIfSlow ctx w (request_headers ctx)"
  let ?goal = "unread env w ctx \<and> r = Inl Body_unread \<and> s' = s \<or> (\<exists>outcome. finished env w ctx outcome s s'
      \<and> (r = Inr () \<or> (\<exists>e. r = Inl (Contract e) \<and> outcome = tokenless Error (Some (err_code e)))))"
  have ended: ?goal if "endBeforeTokens env w ctx e s ?resp = (r, s', resp)" for e
    using endBeforeTokens_finished [OF that] by blast
  have ?goal
  proof (cases "gc_stream ctx \<and> rw_clientLeft w")
    case True
    then have "r = Inr ()" "s' = recordAbandoned env w ctx s"
      using assms by (auto simp: forward_def Let_def split: sum.splits)
    then show ?thesis by (auto simp: recordAbandoned_def)
  next
    case False
    show ?thesis
    proof (cases "send_request env w ctx")
      case (Inl err)
      then show ?thesis using assms False ended by (simp add: forward_def Let_def)
    next
      case (Inr u)
      consider "\<not> (200 \<le> up_status u \<and> up_status u < 300)" | "200 \<le> up_status u \<and> up_status u < 300" "gc_stream ctx"
        | "200 \<le> up_status u \<and> up_status u < 300" "\<not> gc_stream ctx" by blast
      then show ?thesis
      proof cases
        case 1
        then show ?thesis using assms False Inr ended by (simp add: forward_def Let_def)
      next
        case 2
        then have "relay_request env w ctx s ?resp = (r, s', resp)" using assms False Inr by (simp add: forward_def Let_def)
        from relay_request_finished [OF this] show ?thesis by blast
      next
        case 3
        then have "completeOnce env w ctx u s ?resp = (r, s', resp)" using assms False Inr by (simp add: forward_def Let_def)
        from completeOnce_cases [OF this] show ?thesis using 3 Inr by (auto simp: unread_def)
      qed
    qed
  qed
  then show thesis using unread metered by blast
qed

text \<open>The row is written, whatever becomes of the debit.\<close>

lemma meter_request_row:
  assumes "gen_id row \<notin> gen_id ` set (generations (mt_db m))"
  shows "generations (mt_db (meter_request gateway_debit redemptions m row uuid now)) = generations (mt_db m) @ [row]"
proof -
  obtain ok d where d: "meter_write gateway_debit (mt_db m) row uuid now = (ok, d)" by fastforce
  have "generations d = generations (mt_db m) @ [row]"
    using d assms lcg.frame by (force simp: meter_write_def db_simps split: prod.splits sum.splits)
  moreover obtain b d' where c: "claimFirstRequest d row = (b, d')" by fastforce
  ultimately show ?thesis using d claimFirstRequest_frame(1) [OF c] by (simp add: mt_db_metering)
qed

lemma tokenless_row:
  "gen_status (metering_row env now ctx (tokenless st code)) = st"
  "gen_errorCode (metering_row env now ctx (tokenless st code)) = code"
  "gen_costMicros (metering_row env now ctx (tokenless st code)) = 0"
  by (simp_all add: metering_row_def tokenless_def Let_def computeCostMicros_def cost_numerator_def ceil_div_def PER_MILLION_def)


text \<open>Any number of requests, each of a key of a known workspace and with a fresh ledger row id.\<close>

inductive gateway_run :: "gateway_env \<Rightarrow> gateway_state \<Rightarrow> gateway_state \<Rightarrow> bool" for env s where
  none: "gateway_run env s s"
| request: "gateway_run env s s1 \<Longrightarrow> handle env w req kind s1 = (r, s2, resp) \<Longrightarrow>
    key_workspaceId (auth_key (gq_auth req)) \<in> dom (workspaces (mt_db (gs_meter s1))) \<Longrightarrow>
    rw_ledgerRowId w \<notin> tx_id ` set (transactions (mt_db (gs_meter s1))) \<Longrightarrow> gateway_run env s s2"

lemma handle_cases:
  assumes "handle env w req kind s = (r, s', resp)"
  obtains (refused) e where "fst (prepare env w req kind s) = Inl e" "r = Inl e" "gs_meter s' = gs_meter s" "resp = no_response"
  | (unread) ctx where "fst (prepare env w req kind s) = Inr ctx" "unread env w ctx" "r = Inl Body_unread" "gs_meter s' = gs_meter s"
  | (metered) ctx outcome where "fst (prepare env w req kind s) = Inr ctx" "finished env w ctx outcome s s'"
      "r = Inr () \<or> (\<exists>e. r = Inl (Contract e) \<and> outcome = tokenless Error (Some (err_code e)))"
proof (cases "prepare env w req kind s")
  case (Pair p s1)
  note frame = prepare_frame(1) [OF Pair]
  show thesis
  proof (cases p)
    case (Inl e)
    with Pair assms frame show thesis by (intro refused [of e]) (auto simp: handle_def)
  next
    case (Inr ctx)
    with Pair assms have "forward env w ctx s1 = (r, s', resp)" by (simp add: handle_def)
    then show thesis
    proof (cases rule: forward_cases)
      case unread
      with Pair Inr frame show thesis by (intro that(2) [of ctx]) auto
    next
      case (metered outcome)
      with Pair Inr frame show thesis by (intro that(3) [of ctx outcome]) (auto simp: finished_def)
    qed
  qed
qed

text \<open>Every run of the gateway is a run of the meter.\<close>

lemma gateway_run_meters:
  assumes "gateway_run env s s'"
  shows "meter_run gateway_debit (ge_redemptions env) (gs_meter s) (gs_meter s')"
  using assms
proof (induction rule: gateway_run.induct)
  case (request s1 w req kind r s2 resp)
  from request.hyps(2) show ?case
  proof (cases rule: handle_cases)
    case (metered ctx outcome)
    have "gc_auth ctx = gq_auth req" using metered(1) by (cases "prepare env w req kind s1") (auto elim!: prepare_Inr)
    then have "gen_workspaceId (metering_row env (rw_finishedAt w) ctx outcome) = key_workspaceId (auth_key (gq_auth req))"
      by (simp add: metering_row_def Let_def)
    with request metered(2) show ?thesis unfolding finished_def by (auto intro: meter_run.served)
  qed (use request in simp_all)
qed (rule meter_run.none)


section \<open>Properties\<close>

definition demo_key :: api_key where
  "demo_key = \<lparr>key_id = ''k'', key_workspaceId = ''w'', key_name = ''demo'', key_keyHash = ''h'', key_prefix = ''sk-demo'',
     key_purpose = None, key_modelScope = None, key_spendLimitMicros = None, key_spentTotalMicros = 0,
     key_requestsPerMinute = None, key_tokensPerMinute = None, key_expiresAt = None, key_lastUsedAt = None,
     key_revokedAt = None, key_createdByUserId = None, key_createdAt = 0\<rparr>"

definition demo_gateway :: gateway_state where
  "demo_gateway =
     \<lparr>gs_catalog = \<lparr>cs_models = [(''m1'', \<lparr>cm_id = ''m1'', cm_name = ''Model'', cm_litellmModel = ''up'', cm_contextLength = 8,
          cm_capabilities = [Chat], cm_promptPer1mMicros = 1000000, cm_completionPer1mMicros = 2000000,
          cm_endpoint = \<lparr>ct_id = ''e1'', ct_name = ''one'', ct_hostname = ''one.example'', ct_declaredImages = None\<rparr>, cm_updatedAt = 0\<rparr>)],
        cs_endpoints = [], cs_endpointRows = [], cs_modelRows = []\<rparr>,
      gs_external = empty_external_catalog, gs_limiter = [], gs_meter = example_meter, gs_coverage = [], gs_demand = []\<rparr>"

definition demo_payload :: json where
  "demo_payload = JObj [(''choices'', JArr []),
     (''usage'', JObj [(''prompt_tokens'', JNum 3), (''completion_tokens'', JNum 4)])]"

definition demo_gateway_env :: gateway_env where
  "demo_gateway_env =
     \<lparr>ge_parse = (\<lambda>_. Some demo_payload), ge_stringify = (\<lambda>_. []), ge_unseal = (\<lambda>_ _. None), ge_saltedHash = id,
      ge_limits = \<lparr>rl_requestsPerMinute = 60, rl_tokensPerMinute = 100\<rparr>, ge_allowOverdraftMicros = 1000000,
      ge_freshnessWindow = 0, ge_snapshots = [], ge_redemptions = [],
      ge_litellm = \<lparr>lc_baseUrl = ''http://litellm'', lc_apiKey = None, lc_connectTimeout = 1000, lc_readTimeout = 1000\<rparr>,
      ge_externalLeg = \<lparr>lc_baseUrl = [], lc_apiKey = None, lc_connectTimeout = 1000, lc_readTimeout = 1000\<rparr>\<rparr>"

definition demo_world :: request_world where
  "demo_world =
     \<lparr>rw_limiterClock = (\<lambda>_. 0), rw_settleClock = (\<lambda>_. 0), rw_startedAt = 0, rw_finishedAt = 5, rw_generationId = ''g1'',
      rw_ledgerRowId = ''u1'', rw_fetch = (\<lambda>_. Fetched \<lparr>up_status = 200, up_headers = [], up_text = Some ''{}''\<rparr>),
      rw_clientLeft = False, rw_opened = False, rw_pings = 0, rw_steps = [], rw_endedAt = 0, rw_ended = None, rw_verdicts = None\<rparr>"

definition demo_request :: gateway_request where
  "demo_request = \<lparr>gq_auth = \<lparr>auth_key = demo_key, auth_workspace = new_workspace 0\<rparr>,
     gq_body = Some (JObj [(''model'', JStr ''m1'')]), gq_headers = [], gq_ip = None\<rparr>"


lemmas demo_gateway_defs = demo_key_def demo_gateway_def demo_gateway_env_def demo_world_def demo_request_def

lemma demo_resolved:
  "resolve (gs_catalog demo_gateway) empty_external_catalog Chat [(''model'', JStr ''m1'')] demo_key =
     Inr (routedConfigModel (snd (hd (cs_models (gs_catalog demo_gateway)))))"
  by (simp add: resolve_string [where i = "''m1''"] lookUp_def catalog_find_def in_scope_def assertSupportedParameters_def
      servesRoute_iff demo_gateway_defs)

text \<open>The first calls on buckets that are not there yet.\<close>

lemma consume_fresh:
  assumes "map_of bs n = None" and "rq_cost r \<le> rq_limitPerMinute r"
  shows "rd_allowed (fst (bucket_consume bs n r now))"
    "rd_remaining (fst (bucket_consume bs n r now)) = max 0 \<lfloor>rq_limitPerMinute r - rq_cost r\<rfloor>"
    "m \<noteq> n \<Longrightarrow> map_of bs m = None \<Longrightarrow> map_of (snd (bucket_consume bs n r now)) m = None"
proof -
  show "m \<noteq> n \<Longrightarrow> map_of bs m = None \<Longrightarrow> map_of (snd (bucket_consume bs n r now)) m = None"
    by (auto simp: bucket_consume_def refill_def sweep_def Let_def assms map_of_eq_None_iff)
qed (use assms in \<open>simp_all add: bucket_consume_def refill_def decide_def Let_def\<close>)

lemma demo_admitted:
  "\<exists>h l. policy_admit bucket_consume (ge_limits demo_gateway_env) (ge_allowOverdraftMicros demo_gateway_env)
     (mt_db example_meter) (\<lambda>_. 0) demo_key [] = (Inr h, l)"
proof -
  let ?c = "\<lambda>bs n cost limit. bucket_consume bs n \<lparr>rq_cost = cost, rq_limitPerMinute = limit\<rparr> 0"
  let ?d1 = "?c [] ''req:key:k'' 1 60" let ?d2 = "?c (snd ?d1) ''req:ws:w'' 1 60"
  let ?d3 = "?c (snd ?d2) ''tok:key:k'' 0 100" let ?d4 = "?c (snd ?d3) ''tok:ws:w'' 0 100"
  have f: "map_of (snd ?d1) n = None" "map_of (snd ?d2) m = None" "map_of (snd ?d3) k = None"
    if "n \<noteq> ''req:key:k''" "m \<noteq> ''req:key:k''" "m \<noteq> ''req:ws:w''" "k \<noteq> ''req:key:k''" "k \<noteq> ''req:ws:w''" "k \<noteq> ''tok:key:k''" for n m k
    using that by (simp_all add: consume_fresh(3))
  have "rd_allowed (fst ?d1)" "rd_allowed (fst ?d2)" "rd_remaining (fst ?d3) = 100" "rd_remaining (fst ?d4) = 100"
    by (simp_all add: consume_fresh f)
  then have "\<exists>h l. admit bucket_consume (ge_limits demo_gateway_env) [] demo_key (\<lambda>_. 0) = (Inr h, l)"
    by (simp add: admit_def demo_gateway_env_def demo_key_def request_limit_def tokenLimitFor_def case_prod_beta)
  moreover have "may_spend (ge_allowOverdraftMicros demo_gateway_env) (mt_db example_meter) demo_key"
    by (simp add: may_spend_def example_meter_def one_workspace_def new_workspace_def demo_key_def demo_gateway_env_def)
  ultimately show ?thesis by (subst policy_admit_cases(1)) auto
qed


lemma demo_prepared: "\<exists>ctx. fst (prepare demo_gateway_env demo_world demo_request Chat demo_gateway) = Inr ctx"
proof -
  have "gs_external demo_gateway = empty_external_catalog" "gs_meter demo_gateway = example_meter" "gs_limiter demo_gateway = []"
    "auth_key (gq_auth demo_request) = demo_key" "rw_limiterClock demo_world = (\<lambda>_. 0)"
    "bodyOf demo_request = Inr [(''model'', JStr ''m1'')]"
    by (simp_all add: demo_gateway_def demo_request_def demo_world_def bodyOf_def)
  with demo_resolved demo_admitted show ?thesis
    by (auto simp: prepare_def resolveAndReport_def Let_def split: prod.splits)
qed

lemma demo_read: "\<not> unread demo_gateway_env demo_world ctx"
  by (auto simp: unread_def send_request_def post_eq attempt_result_def demo_world_def Let_def split: sum.splits)



text \<open>
  C3: the gateway keeps the meter and the books in agreement. However many requests are handled, on whatever
  route and with whatever upstream, and however they end, afterwards each key's total is the sum of the costs of its
  generations, each workspace has been charged exactly the sum of the costs of its generations, every charge is of a
  metered generation, and the ledger's own invariant holds; and a workspace's first request has been reported
  at most once.
\<close>

theorem gateway_books:
  assumes "gateway_run env s s'"
    and "meter_agrees generation_charged usage_billed ledger_inv (mt_db (gs_meter s))" and "mt_events (gs_meter s) = []"
  shows "meter_agrees generation_charged usage_billed ledger_inv (mt_db (gs_meter s'))
    \<and> distinct (map fr_workspaceId (mt_events (gs_meter s')))"
proof -
  note run = gateway_run_meters [OF assms(1)]
  have "events_ok (gs_meter s)" using assms(3) by (simp add: events_ok_def)
  from lcg.run_events_ok [OF run this] lcg.run_inv [OF run assms(2)] show ?thesis by (simp add: events_ok_def)
qed

theorem gateway_books_witness:
  "meter_agrees generation_charged usage_billed ledger_inv
     (mt_db (gs_meter (fst (snd (handle demo_gateway_env demo_world demo_request Chat demo_gateway)))))"
proof -
  have "ledger_inv (mt_db example_meter)" by (simp add: example_meter_def ledger_inv_def example_defs)
  then have agrees: "meter_agrees generation_charged usage_billed ledger_inv (mt_db example_meter)"
    by (simp add: meter_agrees_def generation_charged_def usage_billed_def spent_ok_def find_by_key_def)
      (simp add: example_meter_def example_defs)
  obtain r s' resp where h: "handle demo_gateway_env demo_world demo_request Chat demo_gateway = (r, s', resp)"
    by (cases "handle demo_gateway_env demo_world demo_request Chat demo_gateway")
  have m: "gs_meter demo_gateway = example_meter" by (simp add: demo_gateway_def)
  have "gateway_run demo_gateway_env demo_gateway s'"
    by (rule gateway_run.request [OF gateway_run.none h])
      (simp_all add: m, simp_all add: demo_request_def demo_key_def example_meter_def example_defs)
  from gateway_books [OF this] agrees h show ?thesis by (simp add: m, simp add: example_meter_def)
qed

end
