(* ===== verification/Bits.thy ===== *)
theory Bits
  imports Prelude "HOL-Library.Word"
begin

text \<open>
  Bit operations on bytes and unbounded numbers, shared by the readers of binary formats: shifting a value in below
  or above another, masks, and the comparison that accumulates differences.
\<close>

unbundle bit_operations_syntax

lemma bit_below: "val < 2 ^ k \<Longrightarrow> k \<le> n \<Longrightarrow> \<not> bit (val :: nat) n"
proof -
  assume a: "val < 2 ^ k" "k \<le> n"
  then have "(2 :: nat) ^ k \<le> 2 ^ n" by simp
  with a(1) have "val < 2 ^ n" by linarith
  then show ?thesis by (simp add: bit_iff_odd)
qed

lemma or_shifted: "val < 2 ^ shift \<Longrightarrow> val OR push_bit shift (b :: nat) = val + 2 ^ shift * b"
proof -
  assume a: "val < 2 ^ shift"
  have "val AND push_bit shift b = 0"
    by (rule bit_eqI) (auto simp: bit_and_iff bit_push_bit_iff bit_below [OF a])
  then show ?thesis by (simp add: disjunctive_add_eq_or [symmetric] push_bit_eq_mult mult.commute)
qed

lemma low_bits: "(b :: nat) AND 0x7f = b mod 128"
  using take_bit_eq_mask [of 7 b] by (simp add: take_bit_eq_mod mask_eq_exp_minus_1)

lemma high_bit: "(b :: nat) AND 0x80 = 0 \<longleftrightarrow> even (b div 128)"
  using and_exp_eq_0_iff_not_bit [of b 7] by (simp add: bit_iff_odd)

lemma xor_zero_iff: "(x :: nat) XOR y = 0 \<longleftrightarrow> x = y"
proof
  assume "x XOR y = 0"
  then have "bit (x XOR y) n = False" for n by simp
  then show "x = y" by (intro bit_eqI) (simp add: bit_xor_iff)
qed simp

lemma accumulated_difference:
  "foldl (\<lambda>diff i. diff OR ((f i :: nat) XOR g i)) d is = 0 \<longleftrightarrow> d = 0 \<and> (\<forall>i \<in> set is. f i = g i)"
  by (induction "is" arbitrary: d) (auto simp: or_eq_0_iff xor_zero_iff)

end
