(* ===== verification/Proto_Wire.thy ===== *)
theory Proto_Wire
  imports Bits
begin

text \<open>
  The protobuf walk of \<open>libs/attestation/src/root-tee-evidence.ts\<close>: \<open>varint\<close> and the generator \<open>fields\<close>. A
  byte is a number below 256, a \<open>bigint\<close> is a \<open>nat\<close>. A generator is what it yields and, at the end, what it
  throws: \<open>proto_fields m = (fs, e)\<close>. A sub-array of the message is given by its bytes.
\<close>

unbundle bit_operations_syntax

section \<open>Definitions\<close>

datatype proto_error =
    Malformed_varint
  | Invalid_field_number
  | Past_the_end nat nat
  | Truncated_fixed nat
  | Unsupported_wire nat nat

datatype proto_field = Bytes_field nat "nat list" | Varint_field nat nat | Skipped_field nat

definition MAX_VARINT_BYTES :: nat where "MAX_VARINT_BYTES = 10"

fun varint_loop :: "nat \<Rightarrow> nat list \<Rightarrow> nat \<Rightarrow> nat \<Rightarrow> nat \<Rightarrow> (proto_error, nat \<times> nat) result" where
  "varint_loop 0 msg pos val shift = Inl Malformed_varint"
| "varint_loop (Suc left) msg pos val shift =
     (if pos \<ge> length msg then Inl Malformed_varint
      else let byte = msg ! pos;
               val' = val OR push_bit shift (byte AND 0x7f)
           in if byte AND 0x80 = 0 then Inr (val', pos + 1) else varint_loop left msg (pos + 1) val' (shift + 7))"

definition varint :: "nat list \<Rightarrow> nat \<Rightarrow> (proto_error, nat \<times> nat) result" where
  "varint msg start = varint_loop MAX_VARINT_BYTES msg start 0 0"

lemma varint_loop_next: "varint_loop k msg pos val shift = Inr (v, next) \<Longrightarrow> pos < next \<and> next \<le> length msg"
proof (induction k arbitrary: pos val shift)
  case (Suc k)
  then show ?case by (auto simp: Let_def split: if_splits dest!: Suc.IH)
qed simp

lemma varint_next: "varint msg start = Inr (v, next) \<Longrightarrow> start < next \<and> next \<le> length msg"
  unfolding varint_def by (rule varint_loop_next)

text \<open>One turn of the loop: the field at the cursor and the cursor behind it.\<close>

definition read_field :: "nat list \<Rightarrow> nat \<Rightarrow> (proto_error, proto_field \<times> nat) result" where
  "read_field msg cursor =
     res_bind (varint msg cursor) (\<lambda>(tag, cursor1).
       let number = drop_bit 3 tag; wire = tag AND 7
       in if number \<le> 0 then Inl Invalid_field_number
          else if wire = 0 then res_map (\<lambda>(v, next). (Varint_field number v, next)) (varint msg cursor1)
          else if wire = 2 then
            res_bind (varint msg cursor1) (\<lambda>(len, next).
              if next + len > length msg then Inl (Past_the_end number len)
              else Inr (Bytes_field number (take len (drop next msg)), next + len))
          else if wire = 1 \<or> wire = 5 then
            (let width = (if wire = 1 then 8 else 4)
             in if cursor1 + width > length msg then Inl (Truncated_fixed number)
                else Inr (Skipped_field number, cursor1 + width))
          else Inl (Unsupported_wire number wire))"

lemma read_field_next: "read_field msg cursor = Inr (f, next) \<Longrightarrow> cursor < next"
  by (auto simp: read_field_def res_simps res_map_eq_Inr Let_def split: if_splits prod.splits dest!: varint_next)

function fields_from :: "nat list \<Rightarrow> nat \<Rightarrow> proto_field list \<times> proto_error option" where
  "fields_from msg cursor =
     (if cursor < length msg
      then (case read_field msg cursor of
              Inl e \<Rightarrow> ([], Some e)
            | Inr (f, next) \<Rightarrow> (case fields_from msg next of (fs, e) \<Rightarrow> (f # fs, e)))
      else ([], None))"
  by auto
termination by (relation "measure (\<lambda>(msg, cursor). length msg - cursor)") (auto dest: read_field_next)

declare fields_from.simps [simp del]

definition proto_fields :: "nat list \<Rightarrow> proto_field list \<times> proto_error option" where
  "proto_fields msg = fields_from msg 0"

section \<open>The encoding it reads\<close>

text \<open>The protobuf encoding of a message, as its specification states it; unknown fixed-width values carry their bytes.\<close>

function varint_bytes :: "nat \<Rightarrow> nat list" where
  "varint_bytes n = (if n < 128 then [n] else (128 + n mod 128) # varint_bytes (n div 128))"
  by auto
termination by (relation "measure id") auto

declare varint_bytes.simps [simp del]

datatype proto_item = Put_bytes nat "nat list" | Put_varint nat nat | Put_fixed64 nat "nat list" | Put_fixed32 nat "nat list"

fun item_bytes :: "proto_item \<Rightarrow> nat list" where
  "item_bytes (Put_bytes n bs) = varint_bytes (8 * n + 2) @ varint_bytes (length bs) @ bs"
| "item_bytes (Put_varint n v) = varint_bytes (8 * n) @ varint_bytes v"
| "item_bytes (Put_fixed64 n bs) = varint_bytes (8 * n + 1) @ bs"
| "item_bytes (Put_fixed32 n bs) = varint_bytes (8 * n + 5) @ bs"

fun item_ok :: "proto_item \<Rightarrow> bool" where
  "item_ok (Put_bytes n bs) \<longleftrightarrow> 0 < n \<and> n < 2 ^ 61 \<and> length bs < 2 ^ 64"
| "item_ok (Put_varint n v) \<longleftrightarrow> 0 < n \<and> n < 2 ^ 61 \<and> v < 2 ^ 64"
| "item_ok (Put_fixed64 n bs) \<longleftrightarrow> 0 < n \<and> n < 2 ^ 61 \<and> length bs = 8"
| "item_ok (Put_fixed32 n bs) \<longleftrightarrow> 0 < n \<and> n < 2 ^ 61 \<and> length bs = 4"

fun field_of :: "proto_item \<Rightarrow> proto_field" where
  "field_of (Put_bytes n bs) = Bytes_field n bs"
| "field_of (Put_varint n v) = Varint_field n v"
| "field_of (Put_fixed64 n bs) = Skipped_field n"
| "field_of (Put_fixed32 n bs) = Skipped_field n"

section \<open>Lemmas\<close>

lemma varint_loop_bytes:
  assumes "n < 2 ^ (7 * k)" "0 < k" "val < 2 ^ shift"
  shows "varint_loop k (pre @ varint_bytes n @ post) (length pre) val shift =
    Inr (val + 2 ^ shift * n, length pre + length (varint_bytes n))"
  using assms
proof (induction n arbitrary: k pre val shift rule: varint_bytes.induct)
  case (1 n)
  obtain l where k: "k = Suc l" using 1(3) by (cases k) auto
  show ?case
  proof (cases "n < 128")
    case True
    then show ?thesis using 1(4) by (simp add: k varint_bytes.simps [of n] low_bits high_bit or_shifted nth_append Let_def)
  next
    case False
    let ?b = "128 + n mod 128" and ?v = "val + 2 ^ shift * (n mod 128)"
    have "0 < l"
    proof (rule ccontr)
      assume "\<not> 0 < l" with 1(2) k False show False by simp
    qed
    moreover have "n div 128 < 2 ^ (7 * l)"
      using 1(2) k by (simp add: power_add algebra_simps less_mult_imp_div_less)
    moreover have "?v < 2 ^ (shift + 7)"
    proof -
      have "2 ^ shift * (n mod 128) \<le> 2 ^ shift * (127 :: nat)" by (intro mult_le_mono2) simp
      moreover have "(2 :: nat) ^ shift * 128 = 2 ^ (shift + 7)" by (simp add: power_add)
      ultimately show ?thesis using 1(4) by linarith
    qed
    ultimately have "varint_loop l ((pre @ [?b]) @ varint_bytes (n div 128) @ post) (length (pre @ [?b])) ?v (shift + 7) =
        Inr (?v + 2 ^ (shift + 7) * (n div 128), length (pre @ [?b]) + length (varint_bytes (n div 128)))"
      using 1(1) [OF False] by blast
    moreover have "2 ^ shift * (n mod 128) + 2 ^ (shift + 7) * (n div 128) = 2 ^ shift * n"
    proof -
      have "2 ^ shift * (n mod 128) + 2 ^ (shift + 7) * (n div 128) = 2 ^ shift * (n mod 128 + 128 * (n div 128))"
        unfolding power_add distrib_left by (simp add: mult.assoc)
      also have "n mod 128 + 128 * (n div 128) = n" by (rule mod_mult_div_eq)
      finally show ?thesis .
    qed
    ultimately show ?thesis
      using False 1(4) by (simp add: k varint_bytes.simps [of n] low_bits high_bit or_shifted nth_append Let_def)
  qed
qed

lemma varint_reads:
  assumes "n < 2 ^ 64"
  shows "varint (pre @ varint_bytes n @ post) (length pre) = Inr (n, length pre + length (varint_bytes n))"
proof -
  have "n < 2 ^ (7 * MAX_VARINT_BYTES)" using assms by (simp add: MAX_VARINT_BYTES_def)
  from varint_loop_bytes [OF this, of 0 0 pre post] show ?thesis by (simp add: varint_def MAX_VARINT_BYTES_def)
qed

lemma varint_bytes_nonempty [simp]: "varint_bytes n \<noteq> []"
  by (subst varint_bytes.simps) simp

lemma tag_split:
  assumes "w < 8"
  shows "drop_bit 3 (8 * n + w :: nat) = n" "(8 * n + w) AND 7 = (w :: nat)"
proof -
  show "drop_bit 3 (8 * n + w) = n" using assms by (simp add: drop_bit_eq_div)
  have "(8 * n + w) AND 7 = (8 * n + w) mod 8"
    using take_bit_eq_mask [of 3 "8 * n + w"] by (simp add: take_bit_eq_mod mask_eq_exp_minus_1)
  then show "(8 * n + w) AND 7 = w" using assms by simp
qed

lemma read_field_item:
  assumes "item_ok x"
  shows "read_field (pre @ item_bytes x @ post) (length pre) = Inr (field_of x, length pre + length (item_bytes x))"
proof -
  have tag: "varint (pre @ varint_bytes (8 * n + w) @ rest) (length pre) = Inr (8 * n + w, length pre + length (varint_bytes (8 * n + w)))"
    if "n < 2 ^ 61" "w < 8" for n w rest
    using that by (intro varint_reads) simp
  have second: "varint (pre @ a @ varint_bytes v @ rest) (length pre + length a) = Inr (v, length pre + length a + length (varint_bytes v))"
    if "v < 2 ^ 64" for a v rest
    using varint_reads [OF that, of "pre @ a" rest] by simp
  show ?thesis
  proof (cases x)
    case (Put_bytes n bs)
    then show ?thesis using assms tag [of n 2] second [of "length bs" "varint_bytes (8 * n + 2)"] tag_split [of 2 n]
      by (simp add: read_field_def Let_def)
  next
    case (Put_varint n v)
    then show ?thesis using assms tag [of n 0] second [of v "varint_bytes (8 * n)"] tag_split [of 0 n]
      by (simp add: read_field_def Let_def)
  next
    case (Put_fixed64 n bs)
    then show ?thesis using assms tag [of n 1] tag_split [of 1 n] by (simp add: read_field_def Let_def)
  next
    case (Put_fixed32 n bs)
    then show ?thesis using assms tag [of n 5] tag_split [of 5 n] by (simp add: read_field_def Let_def)
  qed
qed

lemma item_bytes_nonempty [simp]: "item_bytes x \<noteq> []"
  by (cases x) simp_all

lemma fields_from_items:
  "list_all item_ok xs \<Longrightarrow>
   fields_from (pre @ concat (map item_bytes xs)) (length pre) = (map field_of xs, None)"
proof (induction xs arbitrary: pre)
  case (Cons x xs)
  have "fields_from ((pre @ item_bytes x) @ concat (map item_bytes xs)) (length (pre @ item_bytes x)) = (map field_of xs, None)"
    by (rule Cons.IH) (use Cons.prems in simp)
  then show ?case
    using Cons.prems read_field_item [of x pre "concat (map item_bytes xs)"]
    by (subst fields_from.simps) simp
qed (simp add: fields_from.simps)

section \<open>Properties\<close>

text \<open>
  The hand-written protobuf walk reads the encoding. For every sequence of fields with numbers and
  values in the range of the format (64-bit numbers, varints of up to ten groups, fixed-width values of four and eight
  bytes, byte strings of any length), the walk over their encoding terminates, yields exactly these fields in order, with
  byte strings unchanged and fixed-width values skipped, and throws nothing.
\<close>

theorem proto_roundtrip:
  assumes "list_all item_ok xs"
  shows "proto_fields (concat (map item_bytes xs)) = (map field_of xs, None)"
  using fields_from_items [OF assms, of "[]"] by (simp add: proto_fields_def)

end
