(* ===== verification/Root_Tee.thy ===== *)
theory Root_Tee
  imports Proto_Wire Evidence_Digest Json "HOL-Library.Sublist"
begin

text \<open>
  \<open>libs/attestation/src/root-tee-evidence.ts\<close>: what a root certificate says about the VM that enrolled it. Of a
  certificate the reader uses the values of its extensions and the bytes of its public key
  (\<open>@peculiar/x509\<close>). \<open>SHA-256\<close> of WebCrypto, \<open>TextDecoder\<close> and \<open>JSON.parse\<close> are arguments. What the source throws and
  catches is a value of \<open>tee_error\<close>; \<open>Read_outside\<close> is the \<open>TypeError\<close> of \<open>BigInt(undefined)\<close> for a byte that is not there.
\<close>

section \<open>Data\<close>

datatype evidence_type = Sev_snp_qemu | Tdx_qemu | Tdx_gcp | Tdx_azure | Sev_snp_azure

datatype network_type = Trusted_network | Untrusted_network

datatype registry_folder = Sev_snp_folder | Tdx_folder

record tcb_version =
  tv_raw :: string
  tv_bootLoader :: nat
  tv_tee :: nat
  tv_snp :: nat
  tv_microcode :: nat

record report_policy =
  rp_raw :: string
  rp_abiMajor :: nat
  rp_abiMinor :: nat
  rp_smtAllowed :: bool
  rp_migrateMaAllowed :: bool
  rp_debugAllowed :: bool
  rp_singleSocketRequired :: bool
  rp_ciphertextHiding :: bool
  rp_pageSwapDisabled :: bool

record report_security =
  rs_reportVersion :: nat
  rs_guestSvn :: nat
  rs_vmpl :: nat
  rs_policy :: report_policy
  rs_launchTcb :: tcb_version
  rs_currentTcb :: tcb_version
  rs_reportedTcb :: tcb_version

record tee_fields =
  te_build :: "string option"
  te_reportMeasurement :: "string option"
  te_keyBinding :: "bool option"
  te_security :: "report_security option"

record tee_evidence = tee_fields +
  te_type :: evidence_type
  te_label :: string
  te_registryFolder :: registry_folder

datatype tee_error =
    Proto proto_error
  | Empty_evidence
  | Two_branches
  | No_branch
  | No_report
  | Short_report nat
  | No_hcl_report
  | Short_hcl_report
  | Runtime_not_json
  | Bad_network_type string
  | Read_outside

record root_attestation =
  ra_challengeType :: "string option"
  ra_networkType :: "network_type option"
  ra_carriesEvidence :: bool
  ra_evidence :: "tee_evidence option"
  ra_error :: "tee_error option"

definition NO_ATTESTATION :: root_attestation where
  "NO_ATTESTATION = \<lparr>ra_challengeType = None, ra_networkType = None, ra_carriesEvidence = False, ra_evidence = None, ra_error = None\<rparr>"

record root_cert =
  rc_extensions :: "(string \<times> nat list) list"
  rc_publicKey :: "nat list"

record tee_env =
  tn_sha256 :: "nat list \<Rightarrow> nat list"
  tn_decodeText :: "nat list \<Rightarrow> string"
  tn_parseJson :: "string \<Rightarrow> json option"

section \<open>Constants\<close>

definition OID_CHALLENGE_TYPE :: string where "OID_CHALLENGE_TYPE = ''1.3.6.1.3.8888.1.1''"
definition OID_NETWORK_TYPE :: string where "OID_NETWORK_TYPE = ''1.3.6.1.3.8888.4''"
definition OID_TEE_EVIDENCE :: string where "OID_TEE_EVIDENCE = ''0.6.9.42.840.113741.1337.6''"

definition TAG_OCTET_STRING :: nat where "TAG_OCTET_STRING = 0x04"
definition TAG_UTF8_STRING :: nat where "TAG_UTF8_STRING = 0x0c"

definition SNP_REPORT_BYTES :: nat where "SNP_REPORT_BYTES = 0x4a0"
definition SNP_VERSION_OFFSET :: nat where "SNP_VERSION_OFFSET = 0x00"
definition SNP_GUEST_SVN_OFFSET :: nat where "SNP_GUEST_SVN_OFFSET = 0x04"
definition SNP_POLICY_OFFSET :: nat where "SNP_POLICY_OFFSET = 0x08"
definition SNP_VMPL_OFFSET :: nat where "SNP_VMPL_OFFSET = 0x30"
definition SNP_CURRENT_TCB_OFFSET :: nat where "SNP_CURRENT_TCB_OFFSET = 0x38"
definition SNP_REPORT_DATA_OFFSET :: nat where "SNP_REPORT_DATA_OFFSET = 0x50"
definition SNP_REPORT_DATA_BYTES :: nat where "SNP_REPORT_DATA_BYTES = 64"
definition SNP_MEASUREMENT_OFFSET :: nat where "SNP_MEASUREMENT_OFFSET = 0x90"
definition SNP_MEASUREMENT_BYTES :: nat where "SNP_MEASUREMENT_BYTES = 48"
definition SNP_REPORTED_TCB_OFFSET :: nat where "SNP_REPORTED_TCB_OFFSET = 0x180"
definition SNP_LAUNCH_TCB_OFFSET :: nat where "SNP_LAUNCH_TCB_OFFSET = 0x1f0"

definition POLICY_BIT_DEBUG :: nat where "POLICY_BIT_DEBUG = 19"
definition POLICY_BIT_CIPHERTEXT_HIDING :: nat where "POLICY_BIT_CIPHERTEXT_HIDING = 24"
definition POLICY_BIT_PAGE_SWAP_DISABLED :: nat where "POLICY_BIT_PAGE_SWAP_DISABLED = 25"
definition POLICY_BIT_SMT :: nat where "POLICY_BIT_SMT = 16"
definition POLICY_BIT_MIGRATE_MA :: nat where "POLICY_BIT_MIGRATE_MA = 18"
definition POLICY_BIT_SINGLE_SOCKET :: nat where "POLICY_BIT_SINGLE_SOCKET = 20"

definition TCB_BYTE_BOOT_LOADER :: nat where "TCB_BYTE_BOOT_LOADER = 0"
definition TCB_BYTE_TEE :: nat where "TCB_BYTE_TEE = 1"
definition TCB_BYTE_SNP :: nat where "TCB_BYTE_SNP = 6"
definition TCB_BYTE_MICROCODE :: nat where "TCB_BYTE_MICROCODE = 7"

definition SPKI_DIGEST_BYTES :: nat where "SPKI_DIGEST_BYTES = 32"

lemmas snp_offsets =
  SNP_REPORT_BYTES_def SNP_VERSION_OFFSET_def SNP_GUEST_SVN_OFFSET_def SNP_POLICY_OFFSET_def SNP_VMPL_OFFSET_def
  SNP_CURRENT_TCB_OFFSET_def SNP_REPORT_DATA_OFFSET_def SNP_REPORT_DATA_BYTES_def SNP_MEASUREMENT_OFFSET_def
  SNP_MEASUREMENT_BYTES_def SNP_REPORTED_TCB_OFFSET_def SNP_LAUNCH_TCB_OFFSET_def

fun LABELS :: "evidence_type \<Rightarrow> string" where
  "LABELS Sev_snp_qemu = ''AMD SEV-SNP (QEMU)''"
| "LABELS Tdx_qemu = ''Intel TDX (QEMU)''"
| "LABELS Tdx_gcp = ''Intel TDX (GCP)''"
| "LABELS Tdx_azure = ''Intel TDX (Azure)''"
| "LABELS Sev_snp_azure = ''AMD SEV-SNP (Azure)''"

fun FOLDERS :: "evidence_type \<Rightarrow> registry_folder" where
  "FOLDERS Sev_snp_qemu = Sev_snp_folder"
| "FOLDERS Sev_snp_azure = Sev_snp_folder"
| "FOLDERS _ = Tdx_folder"

definition BRANCH_FIELDS :: "nat \<Rightarrow> evidence_type option" where
  "BRANCH_FIELDS n = map_of [(1, Sev_snp_qemu), (2, Tdx_qemu), (3, Tdx_gcp), (4, Tdx_azure), (5, Sev_snp_azure)] n"

definition HCL_MAGIC :: string where "HCL_MAGIC = ''HCLA''"
definition HCL_HEADER_BYTES :: nat where "HCL_HEADER_BYTES = 32"
definition HCL_HW_REPORT_AREA_BYTES :: nat where "HCL_HW_REPORT_AREA_BYTES = 0x4a0"
definition HCL_RUNTIME_HEADER_OFFSET :: nat where
  "HCL_RUNTIME_HEADER_OFFSET = HCL_HEADER_BYTES + HCL_HW_REPORT_AREA_BYTES"
definition HCL_RUNTIME_SIZE_OFFSET :: nat where "HCL_RUNTIME_SIZE_OFFSET = HCL_RUNTIME_HEADER_OFFSET + 16"
definition HCL_RUNTIME_DATA_OFFSET :: nat where "HCL_RUNTIME_DATA_OFFSET = HCL_RUNTIME_HEADER_OFFSET + 20"
definition TDREPORT_DATA_OFFSET :: nat where "TDREPORT_DATA_OFFSET = 128"

lemmas hcl_offsets =
  HCL_HEADER_BYTES_def HCL_HW_REPORT_AREA_BYTES_def HCL_RUNTIME_HEADER_OFFSET_def HCL_RUNTIME_SIZE_OFFSET_def
  HCL_RUNTIME_DATA_OFFSET_def TDREPORT_DATA_OFFSET_def

section \<open>Reading bytes\<close>

definition subarray :: "nat list \<Rightarrow> nat \<Rightarrow> nat \<Rightarrow> nat list" where
  "subarray bs lo hi = take (hi - lo) (drop lo bs)"

text \<open>The loop of \<open>readUintLE\<close>: \<open>index\<close> runs from \<open>width - 1\<close> down to \<open>0\<close>.\<close>

fun uint_loop :: "nat list \<Rightarrow> nat \<Rightarrow> nat \<Rightarrow> nat \<Rightarrow> (tee_error, nat) result" where
  "uint_loop bs offset 0 val = Inr val"
| "uint_loop bs offset (Suc index) val =
     (if offset + index < length bs
      then uint_loop bs offset index (push_bit 8 val OR (bs ! (offset + index)))
      else Inl Read_outside)"

definition readUintLE :: "nat list \<Rightarrow> nat \<Rightarrow> nat \<Rightarrow> (tee_error, nat) result" where
  "readUintLE bs offset width = uint_loop bs offset width 0"

definition readUint32LE :: "nat list \<Rightarrow> nat \<Rightarrow> (tee_error, nat) result" where
  "readUint32LE bs offset = readUintLE bs offset 4"

definition readUint64LE :: "nat list \<Rightarrow> nat \<Rightarrow> (tee_error, nat) result" where
  "readUint64LE bs offset = readUintLE bs offset 8"

function show_hex :: "nat \<Rightarrow> string" where
  "show_hex n = (if n < 16 then [hex_digit n] else show_hex (n div 16) @ [hex_digit (n mod 16)])"
  by auto
termination by (relation "measure id") auto

declare show_hex.simps [simp del]

definition bitSet :: "nat \<Rightarrow> nat \<Rightarrow> bool" where
  "bitSet v n \<longleftrightarrow> drop_bit n v AND 1 = 1"

definition tcbByte :: "nat \<Rightarrow> nat \<Rightarrow> nat" where
  "tcbByte v index = drop_bit (index * 8) v AND 0xff"

definition policyOf :: "nat \<Rightarrow> report_policy" where
  "policyOf policy =
     \<lparr>rp_raw = ''0x'' @ show_hex policy, rp_abiMajor = drop_bit 8 policy AND 0xff, rp_abiMinor = policy AND 0xff,
      rp_smtAllowed = bitSet policy POLICY_BIT_SMT, rp_migrateMaAllowed = bitSet policy POLICY_BIT_MIGRATE_MA,
      rp_debugAllowed = bitSet policy POLICY_BIT_DEBUG, rp_singleSocketRequired = bitSet policy POLICY_BIT_SINGLE_SOCKET,
      rp_ciphertextHiding = bitSet policy POLICY_BIT_CIPHERTEXT_HIDING,
      rp_pageSwapDisabled = bitSet policy POLICY_BIT_PAGE_SWAP_DISABLED\<rparr>"

definition tcbOf :: "nat \<Rightarrow> tcb_version" where
  "tcbOf tcb =
     \<lparr>tv_raw = ''0x'' @ pad_start 16 CHR ''0'' (show_hex tcb), tv_bootLoader = tcbByte tcb TCB_BYTE_BOOT_LOADER,
      tv_tee = tcbByte tcb TCB_BYTE_TEE, tv_snp = tcbByte tcb TCB_BYTE_SNP, tv_microcode = tcbByte tcb TCB_BYTE_MICROCODE\<rparr>"

definition securityFieldsOf :: "nat list \<Rightarrow> (tee_error, report_security) result" where
  "securityFieldsOf report =
     res_bind (readUint32LE report SNP_VERSION_OFFSET) (\<lambda>version.
     res_bind (readUint32LE report SNP_GUEST_SVN_OFFSET) (\<lambda>guestSvn.
     res_bind (readUint32LE report SNP_VMPL_OFFSET) (\<lambda>vmpl.
     res_bind (readUint64LE report SNP_POLICY_OFFSET) (\<lambda>policy.
     res_bind (readUint64LE report SNP_LAUNCH_TCB_OFFSET) (\<lambda>launch.
     res_bind (readUint64LE report SNP_CURRENT_TCB_OFFSET) (\<lambda>current.
     res_bind (readUint64LE report SNP_REPORTED_TCB_OFFSET) (\<lambda>reported.
       Inr \<lparr>rs_reportVersion = version, rs_guestSvn = guestSvn, rs_vmpl = vmpl, rs_policy = policyOf policy,
            rs_launchTcb = tcbOf launch, rs_currentTcb = tcbOf current, rs_reportedTcb = tcbOf reported\<rparr>)))))))"

text \<open>The comparison accumulates the differences of the first 32 bytes.\<close>

definition bindsPublicKey :: "nat list \<Rightarrow> nat list \<Rightarrow> bool" where
  "bindsPublicKey reportData spki \<longleftrightarrow>
     \<not> (length spki \<noteq> SPKI_DIGEST_BYTES \<or> length reportData < SPKI_DIGEST_BYTES)
     \<and> foldl (\<lambda>diff i. diff OR ((reportData ! i) XOR (spki ! i))) 0 [0..<SPKI_DIGEST_BYTES] = 0"

section \<open>The branches\<close>

text \<open>A loop over a generator: the body runs on what is yielded, then the generator may throw.\<close>

definition walk :: "('s \<Rightarrow> proto_field \<Rightarrow> (tee_error, 's) result) \<Rightarrow> nat list \<Rightarrow> 's \<Rightarrow> (tee_error, 's) result" where
  "walk body msg s =
     (case proto_fields msg of (fs, e) \<Rightarrow>
        res_bind (foldl (\<lambda>r f. res_bind r (\<lambda>s. body s f)) (Inr s) fs)
          (\<lambda>s'. case e of None \<Rightarrow> Inr s' | Some err \<Rightarrow> Inl (Proto err)))"

fun inner_field :: "tee_env \<Rightarrow> nat list option \<times> string option \<Rightarrow> proto_field
    \<Rightarrow> (tee_error, nat list option \<times> string option) result" where
  "inner_field env (raw, build) (Bytes_field n bs) =
     (if n = 1 then Inr (Some bs, build)
      else if n = 5 then Inr (raw, (let t = trim (tn_decodeText env bs) in if t = [] then None else Some t))
      else Inr (raw, build))"
| "inner_field env s _ = Inr s"

fun outer_field :: "tee_env \<Rightarrow> nat list option \<times> string option \<Rightarrow> proto_field
    \<Rightarrow> (tee_error, nat list option \<times> string option) result" where
  "outer_field env s (Bytes_field n bs) = (if n = 1 then walk (inner_field env) bs s else Inr s)"
| "outer_field env s _ = Inr s"

definition snpReport :: "tee_env \<Rightarrow> nat list \<Rightarrow> (tee_error, nat list \<times> string option) result" where
  "snpReport env branch =
     res_bind (walk (outer_field env) branch (None, None)) (\<lambda>(raw, build).
       case raw of
         None \<Rightarrow> Inl No_report
       | Some r \<Rightarrow> if length r < SNP_REPORT_BYTES then Inl (Short_report (length r)) else Inr (r, build))"

definition is_hex_pairs :: "string \<Rightarrow> bool" where
  "is_hex_pairs s \<longleftrightarrow> even (length s) \<and> list_all (\<lambda>c. hex_value c \<noteq> None) s"

definition userDataOf :: "tee_env \<Rightarrow> nat list \<Rightarrow> (tee_error, nat list) result" where
  "userDataOf env runtime =
     (case tn_parseJson env (tn_decodeText env runtime) of
        None \<Rightarrow> Inl Runtime_not_json
      | Some JNull \<Rightarrow> Inl Runtime_not_json
      | Some v \<Rightarrow> (case json_get ''user-data'' v of
            Some (JStr hex) \<Rightarrow> if is_hex_pairs hex then Inr (hex_bytes hex) else Inr []
          | _ \<Rightarrow> Inr []))"

fun hcl_field :: "nat list option \<Rightarrow> proto_field \<Rightarrow> (tee_error, nat list option) result" where
  "hcl_field hcl (Bytes_field n bs) = Inr (if n = 1 then Some bs else hcl)"
| "hcl_field hcl _ = Inr hcl"

definition hcl_report :: "tee_env \<Rightarrow> nat list \<Rightarrow> (tee_error, nat list) result" where
  "hcl_report env branch =
     res_bind (walk hcl_field branch None) (\<lambda>hcl.
       case hcl of
         None \<Rightarrow> Inl No_hcl_report
       | Some h \<Rightarrow>
           if length h < HCL_RUNTIME_DATA_OFFSET \<or> tn_decodeText env (subarray h 0 4) \<noteq> HCL_MAGIC
           then Inl No_hcl_report else Inr h)"

definition azureFields :: "tee_env \<Rightarrow> evidence_type \<Rightarrow> nat list \<Rightarrow> nat list \<Rightarrow> (tee_error, tee_fields) result" where
  "azureFields env type branch spki =
     res_bind (hcl_report env branch) (\<lambda>hcl.
     res_bind (readUintLE hcl HCL_RUNTIME_SIZE_OFFSET 4) (\<lambda>runtimeSize.
       let runtimeEnd = HCL_RUNTIME_DATA_OFFSET + runtimeSize
       in if runtimeEnd > length hcl then Inl Short_hcl_report
          else
            let runtime = subarray hcl HCL_RUNTIME_DATA_OFFSET runtimeEnd;
                hardware = subarray hcl HCL_HEADER_BYTES HCL_RUNTIME_HEADER_OFFSET;
                reportDataOffset = (if type = Sev_snp_azure then SNP_REPORT_DATA_OFFSET else TDREPORT_DATA_OFFSET);
                reportData = subarray hardware reportDataOffset (reportDataOffset + SNP_REPORT_DATA_BYTES)
            in res_bind
                 (if bindsPublicKey reportData (tn_sha256 env runtime)
                  then res_map (\<lambda>user. bindsPublicKey user spki) (userDataOf env runtime) else Inr False) (\<lambda>keyBinding.
               if type = Tdx_azure
               then Inr \<lparr>te_build = None, te_reportMeasurement = None, te_keyBinding = Some keyBinding, te_security = None\<rparr>
               else res_map (\<lambda>security.
                 \<lparr>te_build = None,
                  te_reportMeasurement = Some (bytes_hex (subarray hardware SNP_MEASUREMENT_OFFSET
                    (SNP_MEASUREMENT_OFFSET + SNP_MEASUREMENT_BYTES))),
                  te_keyBinding = Some keyBinding, te_security = Some security\<rparr>) (securityFieldsOf hardware))))"

fun branch_field :: "(evidence_type \<times> nat list) option \<Rightarrow> proto_field
    \<Rightarrow> (tee_error, (evidence_type \<times> nat list) option) result" where
  "branch_field found (Bytes_field n bs) =
     (case BRANCH_FIELDS n of
        None \<Rightarrow> Inr found
      | Some t \<Rightarrow> if found \<noteq> None then Inl Two_branches else Inr (Some (t, bs)))"
| "branch_field found _ = Inr found"

definition evidence_fields :: "tee_env \<Rightarrow> evidence_type \<Rightarrow> nat list \<Rightarrow> nat list \<Rightarrow> (tee_error, tee_fields) result" where
  "evidence_fields env type branch spki =
     (if type = Tdx_azure \<or> type = Sev_snp_azure then azureFields env type branch spki
      else if type \<noteq> Sev_snp_qemu
      then Inr \<lparr>te_build = None, te_reportMeasurement = None, te_keyBinding = None, te_security = None\<rparr>
      else res_bind (snpReport env branch) (\<lambda>(raw, build).
        res_map (\<lambda>security.
          \<lparr>te_build = build,
           te_reportMeasurement = Some (bytes_hex (subarray raw SNP_MEASUREMENT_OFFSET
             (SNP_MEASUREMENT_OFFSET + SNP_MEASUREMENT_BYTES))),
           te_keyBinding = Some (bindsPublicKey (subarray raw SNP_REPORT_DATA_OFFSET
             (SNP_REPORT_DATA_OFFSET + SNP_REPORT_DATA_BYTES)) spki),
           te_security = Some security\<rparr>) (securityFieldsOf raw)))"

definition decodeEvidence :: "tee_env \<Rightarrow> nat list \<Rightarrow> nat list \<Rightarrow> (tee_error, tee_evidence) result" where
  "decodeEvidence env serialized spki =
     (if serialized = [] then Inl Empty_evidence
      else res_bind (walk branch_field serialized None) (\<lambda>found.
        case found of
          None \<Rightarrow> Inl No_branch
        | Some (type, branch) \<Rightarrow>
            res_map (\<lambda>f. tee_fields.extend f \<lparr>te_type = type, te_label = LABELS type, te_registryFolder = FOLDERS type\<rparr>)
              (evidence_fields env type branch spki)))"

section \<open>The reader\<close>

definition extensionBytes :: "root_cert \<Rightarrow> string \<Rightarrow> nat list option" where
  "extensionBytes cert oid = map_of (rc_extensions cert) oid"

definition spkiDigest :: "tee_env \<Rightarrow> root_cert \<Rightarrow> nat list" where
  "spkiDigest env cert = tn_sha256 env (rc_publicKey cert)"

definition unwrapDERString :: "tee_env \<Rightarrow> nat list \<Rightarrow> string option" where
  "unwrapDERString env v =
     (if length v < 2 then None
      else if v ! 0 \<noteq> TAG_OCTET_STRING \<and> v ! 0 \<noteq> TAG_UTF8_STRING then None
      else if v ! 1 > 0x7f \<or> v ! 1 + 2 \<noteq> length v then None
      else Some (tn_decodeText env (drop 2 v)))"

definition extensionText :: "tee_env \<Rightarrow> nat list \<Rightarrow> string" where
  "extensionText env v = trim (case unwrapDERString env v of Some t \<Rightarrow> t | None \<Rightarrow> tn_decodeText env v)"

definition network_of :: "string \<Rightarrow> network_type option" where
  "network_of t = (if t = ''trusted'' then Some Trusted_network else if t = ''untrusted'' then Some Untrusted_network else None)"

text \<open>The two text extensions, and whether there is evidence.\<close>

definition attestation_head :: "tee_env \<Rightarrow> nat list option \<Rightarrow> nat list option \<Rightarrow> bool \<Rightarrow> root_attestation" where
  "attestation_head env challenge network carries =
     (let out = \<lparr>ra_challengeType = (case challenge of None \<Rightarrow> None
                   | Some c \<Rightarrow> (let t = extensionText env c in if t = [] then None else Some t)),
                 ra_networkType = None, ra_carriesEvidence = carries, ra_evidence = None, ra_error = None\<rparr>
      in case network of
           None \<Rightarrow> out
         | Some n \<Rightarrow>
             (let t = extensionText env n
              in if network_of t \<noteq> None then out\<lparr>ra_networkType := network_of t\<rparr>
                 else out\<lparr>ra_error := Some (Bad_network_type t)\<rparr>))"

definition readRootAttestation :: "tee_env \<Rightarrow> root_cert \<Rightarrow> root_attestation" where
  "readRootAttestation env cert =
     (let challenge = extensionBytes cert OID_CHALLENGE_TYPE;
          network = extensionBytes cert OID_NETWORK_TYPE;
          evidenceBytes = extensionBytes cert OID_TEE_EVIDENCE;
          out = attestation_head env challenge network (evidenceBytes \<noteq> None)
      in if challenge = None \<and> network = None \<and> evidenceBytes = None then NO_ATTESTATION
         else case evidenceBytes of
                None \<Rightarrow> out
              | Some b \<Rightarrow> (case decodeEvidence env b (spkiDigest env cert) of
                    Inl e \<Rightarrow> out\<lparr>ra_error := Some e\<rparr>
                  | Inr ev \<Rightarrow> out\<lparr>ra_evidence := Some ev\<rparr>))"

section \<open>Reading inside the bytes\<close>

fun le_value :: "nat list \<Rightarrow> nat" where
  "le_value [] = 0"
| "le_value (b # bs) = b + 256 * le_value bs"

lemma le_value_append: "le_value (xs @ ys) = le_value xs + 256 ^ length xs * le_value ys"
  by (induction xs) (simp_all add: algebra_simps)

lemma byte_or: "b < 256 \<Longrightarrow> push_bit 8 v OR (b :: nat) = v * 256 + b"
  using or_shifted [of b 8 v] by (simp add: or.commute push_bit_eq_mult)

lemma uint_loop_reads:
  "offset + k \<le> length bs \<Longrightarrow> list_all (\<lambda>b. b < 256) bs \<Longrightarrow>
   uint_loop bs offset k v = Inr (v * 256 ^ k + le_value (take k (drop offset bs)))"
proof (induction k arbitrary: v)
  case (Suc k)
  then have i: "offset + k < length bs" and b: "bs ! (offset + k) < 256" by (auto simp: list_all_length)
  have "take (Suc k) (drop offset bs) = take k (drop offset bs) @ [bs ! (offset + k)]"
    using i by (simp add: take_Suc_conv_app_nth nth_append)
  moreover have "length (take k (drop offset bs)) = k" using i by simp
  ultimately show ?case using Suc i b by (simp add: byte_or le_value_append del: length_take) (simp add: algebra_simps)
qed simp

lemma uint_loop_inside: "offset + k \<le> length bs \<Longrightarrow> \<exists>n. uint_loop bs offset k v = Inr n"
  by (induction k arbitrary: v) auto

lemma readUintLE_reads:
  "offset + k \<le> length bs \<Longrightarrow> list_all (\<lambda>b. b < 256) bs \<Longrightarrow>
   readUintLE bs offset k = Inr (le_value (take k (drop offset bs)))"
  by (simp add: readUintLE_def uint_loop_reads)

lemma securityFieldsOf_inside:
  assumes "SNP_REPORT_BYTES \<le> length r"
  shows "\<exists>x. securityFieldsOf r = Inr x"
proof -
  have rd: "\<exists>n. readUintLE r off k = Inr n" if "off + k \<le> 0x4a0" for off k
    unfolding readUintLE_def by (rule uint_loop_inside) (use that assms in \<open>simp add: SNP_REPORT_BYTES_def\<close>)
  obtain a b c d e f g where
    "readUintLE r 0 4 = Inr a" "readUintLE r 4 4 = Inr b" "readUintLE r 0x30 4 = Inr c" "readUintLE r 8 8 = Inr d"
    "readUintLE r 0x1f0 8 = Inr e" "readUintLE r 0x38 8 = Inr f" "readUintLE r 0x180 8 = Inr g"
    using rd [where off = 0 and k = 4] rd [where off = 4 and k = 4] rd [where off = 48 and k = 4] rd [where off = 8 and k = 8]
      rd [where off = 496 and k = 8] rd [where off = 56 and k = 8] rd [where off = 384 and k = 8] by auto
  then show ?thesis by (simp add: securityFieldsOf_def readUint32LE_def readUint64LE_def snp_offsets)
qed

lemma bindsPublicKey_iff:
  "bindsPublicKey reportData spki \<longleftrightarrow> length spki = 32 \<and> 32 \<le> length reportData \<and> take 32 reportData = spki"
proof (cases "length spki = 32 \<and> 32 \<le> length reportData")
  case True
  then have "take 32 reportData = spki \<longleftrightarrow> (\<forall>i < 32. reportData ! i = spki ! i)"
    by (auto simp: list_eq_iff_nth_eq)
  with True show ?thesis by (simp add: bindsPublicKey_def SPKI_DIGEST_BYTES_def accumulated_difference Ball_def)
qed (auto simp: bindsPublicKey_def SPKI_DIGEST_BYTES_def)

lemma sublist_take_drop: "sublist (take n (drop m xs)) xs"
  by (metis append_take_drop_id sublist_appendI)

lemma read_field_sublist: "read_field msg cursor = Inr (Bytes_field n bs, next) \<Longrightarrow> sublist bs msg"
  by (auto simp: read_field_def res_simps res_map_eq_Inr Let_def split: if_splits prod.splits
      intro: sublist_take_drop)

lemma fields_from_sublist: "Bytes_field n bs \<in> set (fst (fields_from msg cursor)) \<Longrightarrow> sublist bs msg"
proof (induction msg cursor rule: fields_from.induct)
  case (1 msg cursor)
  show ?case
  proof (cases "cursor < length msg \<and> (\<exists>f next. read_field msg cursor = Inr (f, next))")
    case True
    then obtain f k where f: "cursor < length msg" "read_field msg cursor = Inr (f, k)" by blast
    then have "fst (fields_from msg cursor) = f # fst (fields_from msg k)"
      by (subst fields_from.simps) (simp split: prod.split)
    with 1 f show ?thesis by (auto dest: read_field_sublist)
  next
    case False
    then have "fst (fields_from msg cursor) = []" by (subst fields_from.simps) (auto split: sum.split)
    with 1(2) show ?thesis by simp
  qed
qed

lemma proto_fields_sublist: "Bytes_field n bs \<in> set (fst (proto_fields msg)) \<Longrightarrow> sublist bs msg"
  unfolding proto_fields_def by (rule fields_from_sublist)

lemma fold_bind_Inl [simp]: "foldl (\<lambda>r f. res_bind r (\<lambda>s. body s f)) (Inl e) fs = Inl e"
  by (induction fs) simp_all

lemma fold_bind_inv:
  assumes "foldl (\<lambda>r f. res_bind r (\<lambda>s. body s f)) (Inr s) fs = Inr s'" and "P s"
    and "\<And>s f s'. f \<in> set fs \<Longrightarrow> P s \<Longrightarrow> body s f = Inr s' \<Longrightarrow> P s'"
  shows "P s'"
  using assms
proof (induction fs arbitrary: s)
  case (Cons f fs)
  then obtain t where "body s f = Inr t" "foldl (\<lambda>r f. res_bind r (\<lambda>s. body s f)) (Inr t) fs = Inr s'"
    by (cases "body s f") auto
  with Cons show ?case by (metis list.set_intros)
qed simp

text \<open>An invariant of the body of a loop over a message holds after it; what it throws comes from the walk or the body.\<close>

lemma walk_inv:
  assumes "walk body msg s = Inr s'" and "P s"
    and "\<And>s f s'. f \<in> set (fst (proto_fields msg)) \<Longrightarrow> P s \<Longrightarrow> body s f = Inr s' \<Longrightarrow> P s'"
  shows "P s'"
  using assms(1) fold_bind_inv [of body s "fst (proto_fields msg)" s' P, OF _ assms(2) assms(3)]
  by (auto simp: walk_def res_bind_eq_Inr split: prod.splits option.splits)

lemma fold_bind_error:
  "foldl (\<lambda>r f. res_bind r (\<lambda>s. body s f)) (Inr s) fs = Inl e \<Longrightarrow> \<exists>s f. body s f = Inl e"
proof (induction fs arbitrary: s)
  case (Cons f fs)
  then show ?case by (cases "body s f") auto
qed simp

lemma walk_error: "walk body msg s = Inl e \<Longrightarrow> (\<exists>pe. e = Proto pe) \<or> (\<exists>s f. body s f = Inl e)"
  by (auto simp: walk_def res_bind_eq_Inl split: prod.splits option.splits dest: fold_bind_error)

lemma body_errors:
  "inner_field env s f \<noteq> Inl Read_outside" "outer_field env s f \<noteq> Inl Read_outside"
  "hcl_field h f \<noteq> Inl Read_outside" "branch_field b f \<noteq> Inl Read_outside"
proof -
  show inner: "inner_field env s f \<noteq> Inl Read_outside" for s f
    by (cases "(env, s, f)" rule: inner_field.cases) auto
  show "outer_field env s f \<noteq> Inl Read_outside"
  proof
    assume "outer_field env s f = Inl Read_outside"
    then obtain n bs where "f = Bytes_field n bs" "walk (inner_field env) bs s = Inl Read_outside"
      by (cases "(env, s, f)" rule: outer_field.cases) (auto split: if_splits)
    with walk_error [of "inner_field env" bs s] inner show False by auto
  qed
  show "hcl_field h f \<noteq> Inl Read_outside" by (cases "(h, f)" rule: hcl_field.cases) auto
  show "branch_field b f \<noteq> Inl Read_outside"
    by (cases "(b, f)" rule: branch_field.cases) (auto split: option.splits)
qed

lemma walk_inside:
  "walk (outer_field env) msg s \<noteq> Inl Read_outside" "walk hcl_field msg h \<noteq> Inl Read_outside"
  "walk branch_field msg b \<noteq> Inl Read_outside"
proof -
  show "walk (outer_field env) msg s \<noteq> Inl Read_outside" using walk_error [of "outer_field env" msg s] body_errors(2) by auto
  show "walk hcl_field msg h \<noteq> Inl Read_outside" using walk_error [of hcl_field msg h] body_errors(3) by auto
  show "walk branch_field msg b \<noteq> Inl Read_outside" using walk_error [of branch_field msg b] body_errors(4) by auto
qed

section \<open>What the evidence says\<close>

lemma subarray_sublist: "sublist (subarray bs lo hi) bs"
  by (simp add: subarray_def sublist_take_drop)

lemma length_subarray: "hi \<le> length bs \<Longrightarrow> length (subarray bs lo hi) = hi - lo"
  by (simp add: subarray_def)

lemma take_subarray: "k \<le> hi - lo \<Longrightarrow> take k (subarray bs lo hi) = take k (drop lo bs)"
  by (simp add: subarray_def min_def)

lemma outer_field_sublist:
  assumes "outer_field env (raw, build) f = Inr (Some r, b')" and "f \<in> set (fst (proto_fields msg))"
    and "pred_option (\<lambda>r. sublist r msg) raw"
  shows "sublist r msg"
proof (cases "\<exists>bs. f = Bytes_field 1 bs")
  case True
  then obtain bs where bs: "f = Bytes_field 1 bs" by blast
  then have w: "walk (inner_field env) bs (raw, build) = Inr (Some r, b')" using assms(1) by simp
  have "sublist bs msg" using assms(2) bs proto_fields_sublist by blast
  have "pred_option (\<lambda>r. sublist r msg) (fst (Some r, b'))"
  proof (rule walk_inv [OF w])
    show "pred_option (\<lambda>r. sublist r msg) (fst (raw, build))" using assms(3) by simp
    fix s f s'
    assume f: "f \<in> set (fst (proto_fields bs))" "pred_option (\<lambda>r. sublist r msg) (fst s)" "inner_field env s f = Inr s'"
    show "pred_option (\<lambda>r. sublist r msg) (fst s')"
    proof (cases "(env, s, f)" rule: inner_field.cases)
      case (1 env' raw' build' n b)
      with f \<open>sublist bs msg\<close> show ?thesis
        by (auto split: if_splits dest: proto_fields_sublist intro: sublist_order.order_trans)
    qed (use f in simp_all)
  qed
  then show ?thesis by simp
next
  case False
  then have "raw = Some r" using assms(1) by (cases "(env, (raw, build), f)" rule: outer_field.cases) (auto split: if_splits)
  with assms(3) show ?thesis by simp
qed

lemma snpReport_Inr:
  assumes "snpReport env branch = Inr (raw, build)"
  shows "sublist raw branch \<and> SNP_REPORT_BYTES \<le> length raw"
proof -
  obtain b where w: "walk (outer_field env) branch (None, None) = Inr (Some raw, b)" and len: "SNP_REPORT_BYTES \<le> length raw"
    using assms by (auto simp: snpReport_def res_bind_eq_Inr split: option.splits if_splits)
  have "pred_option (\<lambda>r. sublist r branch) (fst (Some raw, b))"
  proof (rule walk_inv [OF w])
    fix s :: "nat list option \<times> string option" and f s'
    assume f: "f \<in> set (fst (proto_fields branch))" "pred_option (\<lambda>r. sublist r branch) (fst s)" "outer_field env s f = Inr s'"
    show "pred_option (\<lambda>r. sublist r branch) (fst s')"
      using outer_field_sublist [OF _ f(1)] f(2,3) by (cases s; cases s'; cases "fst s'") auto
  qed simp
  with len show ?thesis by simp
qed

lemma hcl_report_Inr:
  assumes "hcl_report env branch = Inr h"
  shows "sublist h branch \<and> HCL_RUNTIME_DATA_OFFSET \<le> length h"
proof -
  from assms obtain x where x: "walk hcl_field branch None = Inr x"
    "(case x of None \<Rightarrow> Inl No_hcl_report | Some h \<Rightarrow>
        if length h < HCL_RUNTIME_DATA_OFFSET \<or> tn_decodeText env (subarray h 0 4) \<noteq> HCL_MAGIC then Inl No_hcl_report else Inr h) = Inr h"
    unfolding hcl_report_def res_bind_eq_Inr by blast
  then have w: "walk hcl_field branch None = Inr (Some h)" and len: "HCL_RUNTIME_DATA_OFFSET \<le> length h"
    by (cases x; simp split: if_splits)+
  have "pred_option (\<lambda>r. sublist r branch) (Some h)"
  proof (rule walk_inv [OF w])
    fix x f s'
    assume "f \<in> set (fst (proto_fields branch))" "pred_option (\<lambda>r. sublist r branch) x" "hcl_field x f = Inr s'"
    then show "pred_option (\<lambda>r. sublist r branch) s'"
      by (cases "(x, f)" rule: hcl_field.cases) (auto dest: proto_fields_sublist)
  qed simp
  with len show ?thesis by simp
qed

lemma branch_found:
  assumes "walk branch_field msg None = Inr (Some (t, b))"
  shows "sublist b msg"
proof -
  have "pred_option (\<lambda>x. sublist (snd x) msg) (Some (t, b))"
  proof (rule walk_inv [OF assms])
    fix x f s'
    assume "f \<in> set (fst (proto_fields msg))" "pred_option (\<lambda>x. sublist (snd x) msg) x" "branch_field x f = Inr s'"
    then show "pred_option (\<lambda>x. sublist (snd x) msg) s'"
      by (cases "(x, f)" rule: branch_field.cases) (auto split: option.splits if_splits dest: proto_fields_sublist)
  qed simp
  then show ?thesis by simp
qed

text \<open>
  What a positive key binding rests on: the report in these bytes carries the digest in the first half of its report
  data; on Azure the report carries the digest of the runtime data, whose user data carries the key's.
\<close>

definition commits_to :: "tee_env \<Rightarrow> evidence_type \<Rightarrow> nat list \<Rightarrow> nat list \<Rightarrow> bool" where
  "commits_to env type b digest \<longleftrightarrow>
     (if type = Sev_snp_qemu
      then \<exists>report. sublist report b \<and> 0x4a0 \<le> length report \<and> take 32 (drop 0x50 report) = digest
      else type \<in> {Tdx_azure, Sev_snp_azure}
        \<and> (\<exists>hcl runtime user. sublist hcl b \<and> sublist runtime hcl
             \<and> take 32 (drop (if type = Sev_snp_azure then 0x50 else 128) (take 0x4a0 (drop 32 hcl))) = tn_sha256 env runtime
             \<and> userDataOf env runtime = Inr user \<and> take 32 user = digest))"

definition fields_ok :: "tee_env \<Rightarrow> evidence_type \<Rightarrow> nat list \<Rightarrow> nat list \<Rightarrow> 'a tee_fields_scheme \<Rightarrow> bool" where
  "fields_ok env type b digest f \<longleftrightarrow>
     (te_keyBinding f = None \<longleftrightarrow> type \<in> {Tdx_qemu, Tdx_gcp})
     \<and> (te_security f \<noteq> None \<longleftrightarrow> type \<in> {Sev_snp_qemu, Sev_snp_azure})
     \<and> (te_keyBinding f = Some True \<longrightarrow> commits_to env type b digest)"

lemma userDataOf_inside: "userDataOf env r \<noteq> Inl Read_outside"
  by (simp add: userDataOf_def split: option.split json.split)

lemma azureFields_ok:
  assumes "type = Tdx_azure \<or> type = Sev_snp_azure"
  shows "azureFields env type branch spki \<noteq> Inl Read_outside"
    "azureFields env type branch spki = Inr f \<Longrightarrow> fields_ok env type branch spki f"
proof -
  let ?p = "\<lambda>r. r \<noteq> Inl Read_outside \<and> (\<forall>f. r = Inr f \<longrightarrow> fields_ok env type branch spki f)"
  have "?p (azureFields env type branch spki)"
  proof (cases "hcl_report env branch")
    case (Inl e)
    then have "e \<noteq> Read_outside"
      using walk_inside(2) [of branch None] by (auto simp: hcl_report_def res_bind_eq_Inl split: option.splits if_splits)
    with Inl show ?thesis by (simp add: azureFields_def)
  next
    case (Inr hcl)
    note h = hcl_report_Inr [OF Inr]
    have "HCL_RUNTIME_SIZE_OFFSET + 4 \<le> length hcl" using h by (simp add: hcl_offsets)
    then obtain size where size: "readUintLE hcl HCL_RUNTIME_SIZE_OFFSET 4 = Inr size"
      unfolding readUintLE_def using uint_loop_inside by blast
    let ?stop = "HCL_RUNTIME_DATA_OFFSET + size"
    let ?runtime = "subarray hcl HCL_RUNTIME_DATA_OFFSET ?stop" and ?hw = "subarray hcl HCL_HEADER_BYTES HCL_RUNTIME_HEADER_OFFSET"
    let ?off = "if type = Sev_snp_azure then SNP_REPORT_DATA_OFFSET else TDREPORT_DATA_OFFSET"
    let ?rd = "subarray ?hw ?off (?off + SNP_REPORT_DATA_BYTES)"
    have hw: "length ?hw = 0x4a0" using h by (auto simp: subarray_def hcl_offsets)
    then obtain sec where sec: "securityFieldsOf ?hw = Inr sec" using securityFieldsOf_inside [of ?hw] by (auto simp: SNP_REPORT_BYTES_def)
    have taken: "take 32 ?rd = take 32 (drop (if type = Sev_snp_azure then 0x50 else 128) (take 0x4a0 (drop 32 hcl)))"
      by (simp add: take_subarray snp_offsets hcl_offsets) (simp add: subarray_def)
    have commits: "commits_to env type branch spki"
      if "bindsPublicKey ?rd (tn_sha256 env ?runtime)" "userDataOf env ?runtime = Inr user" "bindsPublicKey user spki" for user
    proof -
      have "sublist hcl branch \<and> sublist ?runtime hcl
          \<and> take 32 (drop (if type = Sev_snp_azure then 0x50 else 128) (take 0x4a0 (drop 32 hcl))) = tn_sha256 env ?runtime
          \<and> userDataOf env ?runtime = Inr user \<and> take 32 user = spki"
        unfolding taken [symmetric] using that h subarray_sublist unfolding bindsPublicKey_iff by simp
      moreover have "type \<noteq> Sev_snp_qemu" "type \<in> {Tdx_azure, Sev_snp_azure}" using assms by auto
      ultimately show ?thesis unfolding commits_to_def by (metis (no_types, lifting))
    qed
    show ?thesis
    proof (cases "?stop > length hcl")
      case True
      with Inr size show ?thesis by (simp add: azureFields_def Let_def)
    next
      case False
      let ?kb = "if bindsPublicKey ?rd (tn_sha256 env ?runtime)
        then res_map (\<lambda>user. bindsPublicKey user spki) (userDataOf env ?runtime) else Inr False"
      have kb: "?kb \<noteq> Inl Read_outside" "?kb = Inr True \<Longrightarrow> commits_to env type branch spki"
        using userDataOf_inside [of env ?runtime] commits
        by (auto simp: res_map_def split: sum.splits if_splits)
      show ?thesis
        using False Inr size sec kb assms by (cases ?kb) (auto simp: azureFields_def Let_def fields_ok_def)
    qed
  qed
  then show "azureFields env type branch spki \<noteq> Inl Read_outside"
    "azureFields env type branch spki = Inr f \<Longrightarrow> fields_ok env type branch spki f" by blast+
qed

lemma evidence_fields_ok:
  "evidence_fields env type branch spki \<noteq> Inl Read_outside"
  "evidence_fields env type branch spki = Inr f \<Longrightarrow> fields_ok env type branch spki f"
proof -
  have "evidence_fields env type branch spki \<noteq> Inl Read_outside
    \<and> (\<forall>f. evidence_fields env type branch spki = Inr f \<longrightarrow> fields_ok env type branch spki f)"
  proof (cases "type = Sev_snp_qemu")
    case True
    show ?thesis
    proof (cases "snpReport env branch")
      case (Inl e)
      then have "e \<noteq> Read_outside" using walk_inside(1) [of env branch]
        by (auto simp: snpReport_def res_bind_eq_Inl split: option.splits if_splits prod.splits)
      with True Inl show ?thesis by (simp add: evidence_fields_def)
    next
      case (Inr p)
      obtain raw build where p: "p = (raw, build)" by fastforce
      note r = snpReport_Inr [OF Inr [unfolded p]]
      then obtain sec where sec: "securityFieldsOf raw = Inr sec" using securityFieldsOf_inside by blast
      have "take 32 (subarray raw SNP_REPORT_DATA_OFFSET (SNP_REPORT_DATA_OFFSET + SNP_REPORT_DATA_BYTES)) = take 32 (drop 0x50 raw)"
        by (simp add: take_subarray snp_offsets)
      with r True Inr p sec show ?thesis
        by (auto simp: evidence_fields_def fields_ok_def commits_to_def bindsPublicKey_iff SNP_REPORT_BYTES_def intro!: exI [of _ raw])
    qed
  next
    case False
    then show ?thesis
      using azureFields_ok [of type env branch spki]
      by (cases type) (auto simp: evidence_fields_def fields_ok_def commits_to_def)
  qed
  then show "evidence_fields env type branch spki \<noteq> Inl Read_outside"
    "evidence_fields env type branch spki = Inr f \<Longrightarrow> fields_ok env type branch spki f" by blast+
qed

lemma commits_to_mono: "commits_to env t b d \<Longrightarrow> sublist b b' \<Longrightarrow> commits_to env t b' d"
  unfolding commits_to_def by (auto split: if_splits intro: sublist_order.order_trans)

lemma decodeEvidence_ok:
  "decodeEvidence env b spki \<noteq> Inl Read_outside"
  "decodeEvidence env b spki = Inr ev \<Longrightarrow> fields_ok env (te_type ev) b spki ev"
proof -
  have "decodeEvidence env b spki \<noteq> Inl Read_outside
    \<and> (\<forall>ev. decodeEvidence env b spki = Inr ev \<longrightarrow> fields_ok env (te_type ev) b spki ev)"
  proof (cases "walk branch_field b None")
    case (Inl e)
    then show ?thesis using walk_inside(3) [of b None] by (auto simp: decodeEvidence_def)
  next
    case (Inr found)
    show ?thesis
    proof (cases found)
      case (Some p)
      obtain t branch where p: "p = (t, branch)" by fastforce
      have sub: "sublist branch b" using branch_found Inr Some p by simp
      show ?thesis
      proof (cases "evidence_fields env t branch spki")
        case (Inl e)
        then show ?thesis
          using evidence_fields_ok(1) [of env t branch spki] Inr Some p by (auto simp: decodeEvidence_def)
      next
        case (Inr f)
        from evidence_fields_ok(2) [OF this] have "fields_ok env t branch spki f" .
        then show ?thesis
          using Inr \<open>walk branch_field b None = Inr found\<close> Some p commits_to_mono [OF _ sub]
          by (auto simp: decodeEvidence_def fields_ok_def tee_fields.defs)
      qed
    qed (use Inr in \<open>simp add: decodeEvidence_def\<close>)
  qed
  then show "decodeEvidence env b spki \<noteq> Inl Read_outside"
    "decodeEvidence env b spki = Inr ev \<Longrightarrow> fields_ok env (te_type ev) b spki ev" by blast+
qed

lemma head_fields [simp]:
  "ra_carriesEvidence (attestation_head env c n carries) = carries" "ra_evidence (attestation_head env c n carries) = None"
  by (auto simp: attestation_head_def Let_def split: option.split)

text \<open>The bytes and bits of the fields.\<close>

lemma le_value_byte: "list_all (\<lambda>b. b < 256) bs \<Longrightarrow> i < length bs \<Longrightarrow> le_value bs div 256 ^ i mod 256 = bs ! i"
proof (induction bs arbitrary: i)
  case (Cons b bs)
  then show ?case by (cases i) (simp_all add: div_mult2_eq)
qed simp

lemma tcbByte_byte: "list_all (\<lambda>b. b < 256) bs \<Longrightarrow> i < length bs \<Longrightarrow> tcbByte (le_value bs) i = bs ! i"
proof -
  assume a: "list_all (\<lambda>b. b < 256) bs" "i < length bs"
  have "(2 :: nat) ^ (i * 8) = 256 ^ i" using power_mult [of "2 :: nat" 8 i] by (simp add: mult.commute)
  then have "tcbByte (le_value bs) i = le_value bs div 256 ^ i mod 256"
    using take_bit_eq_mask [of 8 "drop_bit (i * 8) (le_value bs)"]
    by (simp add: tcbByte_def take_bit_eq_mod mask_eq_exp_minus_1 drop_bit_eq_div)
  with le_value_byte [OF a] show ?thesis by simp
qed

lemma bitSet_odd: "bitSet v n \<longleftrightarrow> odd (v div 2 ^ n)"
proof -
  have "x AND 1 = x mod 2" for x :: nat using take_bit_eq_mask [of 1 x] by (simp add: take_bit_eq_mod mask_eq_exp_minus_1)
  then show ?thesis by (simp add: bitSet_def drop_bit_eq_div odd_iff_mod_2_eq_one)
qed

text \<open>The message a SEV-SNP root on QEMU carries: the report and the release, three messages deep.\<close>

definition message_bytes :: "proto_item list \<Rightarrow> nat list" where
  "message_bytes xs = concat (map item_bytes xs)"

lemma walk_message:
  "list_all item_ok xs \<Longrightarrow> walk body (message_bytes xs) s = foldl (\<lambda>r f. res_bind r (\<lambda>s. body s f)) (Inr s) (map field_of xs)"
  using fields_from_items [of xs "[]"]
  by (cases "foldl (\<lambda>r f. res_bind r (\<lambda>s. body s f)) (Inr s) (map field_of xs)")
    (simp_all add: walk_def message_bytes_def proto_fields_def)

definition snp_message :: "nat list \<Rightarrow> nat list \<Rightarrow> nat list" where
  "snp_message report build =
     message_bytes [Put_bytes 1 (message_bytes [Put_bytes 1 (message_bytes [Put_bytes 1 report, Put_bytes 5 build])])]"

lemma snpReport_message:
  assumes "length report < 2 ^ 60" "length build < 2 ^ 60" "SNP_REPORT_BYTES \<le> length report"
    and small: "length (message_bytes [Put_bytes 1 (message_bytes [Put_bytes 1 report, Put_bytes 5 build])]) < 2 ^ 64"
      "length (message_bytes [Put_bytes 1 report, Put_bytes 5 build]) < 2 ^ 64"
  shows "walk branch_field (snp_message report build) None =
      Inr (Some (Sev_snp_qemu, message_bytes [Put_bytes 1 (message_bytes [Put_bytes 1 report, Put_bytes 5 build])]))"
    "\<exists>b. snpReport env (message_bytes [Put_bytes 1 (message_bytes [Put_bytes 1 report, Put_bytes 5 build])]) = Inr (report, b)"
proof -
  show "walk branch_field (snp_message report build) None =
      Inr (Some (Sev_snp_qemu, message_bytes [Put_bytes 1 (message_bytes [Put_bytes 1 report, Put_bytes 5 build])]))"
    unfolding snp_message_def using small by (subst walk_message) (simp_all add: BRANCH_FIELDS_def)
  have "walk (inner_field env) (message_bytes [Put_bytes 1 report, Put_bytes 5 build]) (None, None) =
      Inr (Some report, (let t = trim (tn_decodeText env build) in if t = [] then None else Some t))"
    using assms(1,2) by (subst walk_message) simp_all
  then have "walk (outer_field env) (message_bytes [Put_bytes 1 (message_bytes [Put_bytes 1 report, Put_bytes 5 build])]) (None, None) =
      Inr (Some report, (let t = trim (tn_decodeText env build) in if t = [] then None else Some t))"
    using small by (subst walk_message) simp_all
  then show "\<exists>b. snpReport env (message_bytes [Put_bytes 1 (message_bytes [Put_bytes 1 report, Put_bytes 5 build])]) = Inr (report, b)"
    using assms(3) by (simp add: snpReport_def)
qed

lemma varint_bytes_length: "n < 128 ^ k \<Longrightarrow> 0 < k \<Longrightarrow> length (varint_bytes n) \<le> k"
proof (induction n arbitrary: k rule: varint_bytes.induct)
  case (1 n)
  show ?case
  proof (cases "n < 128")
    case False
    then have "k \<noteq> 1" using 1(2) by auto
    then obtain l where "k = Suc l" "0 < l" using 1(3) by (cases k) auto
    moreover have "n div 128 < 128 ^ l" using 1(2) \<open>k = Suc l\<close> by (simp add: less_mult_imp_div_less mult.commute)
    ultimately show ?thesis using 1(1) [OF False, of l] False by (subst varint_bytes.simps) simp
  qed (use 1 in \<open>subst varint_bytes.simps, simp\<close>)
qed

lemma put_bytes_length:
  assumes "length bs < 2 ^ 60" "n < 16"
  shows "length (item_bytes (Put_bytes n bs)) \<le> length bs + 20"
proof -
  have "length (varint_bytes (8 * n + 2)) \<le> 10" "length (varint_bytes (length bs)) \<le> 10"
    using assms by (intro varint_bytes_length; simp)+
  then show ?thesis by simp
qed

section \<open>Properties\<close>


text \<open>
  What is read of a genuine SEV-SNP root. When the extension is the encoding of a report of at least the
  size the ABI fixes, with the release beside it, the reader reports the SEV-SNP branch; the measurement is the
  hexadecimal form of the 48 bytes at \<open>0x90\<close>; the key is bound exactly when the 32 bytes at \<open>0x50\<close> are the digest of
  the public key; the guest may be debugged exactly when bit 19 of the little-endian policy at \<open>0x08\<close> is set; and
  the firmware's security version is byte 6 of the launch TCB at \<open>0x1f0\<close>.
\<close>

theorem root_report_read:
  assumes "extensionBytes cert OID_TEE_EVIDENCE = Some (snp_message report build)"
    and "0x4a0 \<le> length report" and "length report < 2 ^ 32" and "length build < 2 ^ 32"
    and "list_all (\<lambda>b. b < 256) report" and "length (tn_sha256 env (rc_publicKey cert)) = 32"
  shows "\<exists>ev sec. ra_evidence (readRootAttestation env cert) = Some ev \<and> te_type ev = Sev_snp_qemu
    \<and> te_reportMeasurement ev = Some (bytes_hex (take 48 (drop 0x90 report)))
    \<and> te_keyBinding ev = Some (take 32 (drop 0x50 report) = tn_sha256 env (rc_publicKey cert))
    \<and> te_security ev = Some sec
    \<and> rp_debugAllowed (rs_policy sec) = odd (le_value (take 8 (drop 0x08 report)) div 2 ^ 19)
    \<and> tv_snp (rs_launchTcb sec) = report ! 0x1f6"
proof -
  let ?inner = "message_bytes [Put_bytes 1 report, Put_bytes 5 build]"
  let ?branch = "message_bytes [Put_bytes 1 ?inner]" and ?spki = "spkiDigest env cert"
  have "length ?inner \<le> length report + length build + 40"
    using put_bytes_length [of report 1] put_bytes_length [of build 5] assms(3,4) by (simp add: message_bytes_def)
  then have inner: "length ?inner < 2 ^ 60" using assms(3,4) by simp
  have "length ?branch \<le> length ?inner + 20" using put_bytes_length [of ?inner 1] inner by (simp add: message_bytes_def)
  then have small: "length ?branch < 2 ^ 64" "length ?inner < 2 ^ 64" using inner by simp_all
  have big: "SNP_REPORT_BYTES \<le> length report" using assms(2) by (simp add: SNP_REPORT_BYTES_def)
  obtain b where found: "walk branch_field (snp_message report build) None = Inr (Some (Sev_snp_qemu, ?branch))"
    and rep: "snpReport env ?branch = Inr (report, b)"
    using snpReport_message(1) [of report build] snpReport_message(2) [of report build env] small assms(3,4) big by auto
  obtain sec where sec: "securityFieldsOf report = Inr sec" using securityFieldsOf_inside big by blast
  have rd: "readUintLE report off k = Inr (le_value (take k (drop off report)))" if "off + k \<le> 0x4a0" for off k
    using readUintLE_reads [OF _ assms(5)] that assms(2) by simp
  have debug: "rp_debugAllowed (rs_policy sec) = odd (le_value (take 8 (drop 0x08 report)) div 2 ^ 19)"
    and snp: "tv_snp (rs_launchTcb sec) = tcbByte (le_value (take 8 (drop 0x1f0 report))) 6"
    using sec rd by (auto simp: securityFieldsOf_def readUint32LE_def readUint64LE_def snp_offsets policyOf_def bitSet_odd
        POLICY_BIT_DEBUG_def tcbOf_def TCB_BYTE_SNP_def)
  have "tcbByte (le_value (take 8 (drop 0x1f0 report))) 6 = take 8 (drop 0x1f0 report) ! 6"
    using assms(2,5) by (intro tcbByte_byte) (auto simp: list_all_iff dest: in_set_takeD in_set_dropD)
  then have snp': "tv_snp (rs_launchTcb sec) = report ! 0x1f6" using snp assms(2) by simp
  let ?f = "\<lparr>te_build = b, te_reportMeasurement = Some (bytes_hex (subarray report SNP_MEASUREMENT_OFFSET (SNP_MEASUREMENT_OFFSET + SNP_MEASUREMENT_BYTES))),
      te_keyBinding = Some (bindsPublicKey (subarray report SNP_REPORT_DATA_OFFSET (SNP_REPORT_DATA_OFFSET + SNP_REPORT_DATA_BYTES)) ?spki),
      te_security = Some sec\<rparr>"
  have "snp_message report build \<noteq> []" by (simp add: snp_message_def message_bytes_def)
  then have "decodeEvidence env (snp_message report build) ?spki =
      Inr (tee_fields.extend ?f \<lparr>te_type = Sev_snp_qemu, te_label = LABELS Sev_snp_qemu, te_registryFolder = FOLDERS Sev_snp_qemu\<rparr>)"
    by (simp add: decodeEvidence_def found evidence_fields_def rep [simplified] sec)
  then have ev: "ra_evidence (readRootAttestation env cert) =
      Some (tee_fields.extend ?f \<lparr>te_type = Sev_snp_qemu, te_label = LABELS Sev_snp_qemu, te_registryFolder = FOLDERS Sev_snp_qemu\<rparr>)"
    by (simp add: readRootAttestation_def assms(1) Let_def)
  have bound: "bindsPublicKey (subarray report SNP_REPORT_DATA_OFFSET (SNP_REPORT_DATA_OFFSET + SNP_REPORT_DATA_BYTES)) ?spki \<longleftrightarrow>
      take 32 (drop 0x50 report) = tn_sha256 env (rc_publicKey cert)"
    using assms(2,6) unfolding bindsPublicKey_iff by (simp add: take_subarray snp_offsets spkiDigest_def length_subarray)
  show ?thesis
    by (rule exI, rule exI [of _ sec], rule conjI [OF ev]) (simp add: tee_fields.defs bound debug snp', simp add: subarray_def snp_offsets)
qed

text \<open>A report of zeros, read with a digest of zeros and of ones.\<close>

definition zero_root :: root_cert where
  "zero_root = \<lparr>rc_extensions = [(OID_TEE_EVIDENCE, snp_message (replicate 0x4a0 0) [])], rc_publicKey = []\<rparr>"

end
