(* ===== verification/Der_Crypto.thy ===== *)
theory Der_Crypto
  imports Evidence_Digest Bits
begin

text \<open>
  \<open>libs/attestation/src/crypto-secp256k1.ts\<close> and \<open>libs/attestation/src/fingerprint.ts\<close>: the byte-level helpers of the
  verifier. Bytes are numbers below 256; the accumulation of a DER length is done, as in JavaScript, in signed 32-bit
  arithmetic (\<open>32 word\<close>). The elliptic curve (\<open>@noble/curves\<close>) and SHA-256 are arguments.
\<close>

unbundle bit_operations_syntax

section \<open>Fingerprints\<close>

definition is_fingerprint_char :: "char \<Rightarrow> bool" where
  "is_fingerprint_char c \<longleftrightarrow> is_b64url c"

definition isFingerprint :: "string \<Rightarrow> bool" where
  "isFingerprint v \<longleftrightarrow> starts_with v ''sha256/'' \<and> drop 7 v \<noteq> [] \<and> list_all is_fingerprint_char (drop 7 v)"

text \<open>\<open>subtle\<close> says whether the environment has Web Crypto; without it the function throws (\<open>None\<close>).\<close>

definition sha256Fingerprint :: "bool \<Rightarrow> (nat list \<Rightarrow> nat list) \<Rightarrow> nat list \<Rightarrow> string option" where
  "sha256Fingerprint subtle sha256 der = (if subtle then Some (''sha256/'' @ b64_encode (sha256 der)) else None)"

definition fingerprintsEqual :: "string \<Rightarrow> string \<Rightarrow> bool" where
  "fingerprintsEqual a b \<longleftrightarrow>
     length a = length b
     \<and> foldl (\<lambda>diff i. diff OR ((of_char (a ! i) :: nat) XOR of_char (b ! i))) 0 [0..<length a] = 0"

section \<open>DER\<close>

datatype der_error = Truncated_length | Unsupported_form nat | Not_a_sequence | Tbs_not_a_sequence | Tbs_beyond_bounds
  | No_public_point

text \<open>The bytes of a long-form length, high byte first: \<open>(length << 8) | b\<close>.\<close>

fun der_length_loop :: "nat list \<Rightarrow> nat \<Rightarrow> nat \<Rightarrow> 32 word \<Rightarrow> (der_error, 32 word) result" where
  "der_length_loop buf pos 0 len = Inr len"
| "der_length_loop buf pos (Suc n) len =
     (if pos < length buf then der_length_loop buf (pos + 1) n (push_bit 8 len OR of_nat (buf ! pos)) else Inl Truncated_length)"

definition readDerLength :: "nat list \<Rightarrow> nat \<Rightarrow> (der_error, int \<times> nat) result" where
  "readDerLength buf offset =
     (if offset \<ge> length buf then Inl Truncated_length
      else let first = buf ! offset
           in if first < 0x80 then Inr (int first, 1)
              else let numBytes = first AND 0x7f
                   in if numBytes = 0 \<or> numBytes > 4 then Inl (Unsupported_form numBytes)
                      else res_map (\<lambda>len. (sint len, 1 + numBytes)) (der_length_loop buf (offset + 1) numBytes 0))"

text \<open>\<open>Uint8Array.prototype.slice\<close>: a negative end counts from the back.\<close>

definition js_slice :: "nat list \<Rightarrow> nat \<Rightarrow> int \<Rightarrow> nat list" where
  "js_slice xs start end = (let e = (if end < 0 then nat (int (length xs) + end) else nat end) in take (e - start) (drop start xs))"

definition byte_is :: "nat list \<Rightarrow> nat \<Rightarrow> nat \<Rightarrow> bool" where
  "byte_is xs i b \<longleftrightarrow> i < length xs \<and> xs ! i = b"

definition extractTbsCertificate :: "nat list \<Rightarrow> (der_error, nat list) result" where
  "extractTbsCertificate certDer =
     (if \<not> byte_is certDer 0 0x30 then Inl Not_a_sequence
      else res_bind (readDerLength certDer 1) (\<lambda>(_, outerHeader).
        let tbsStart = 1 + outerHeader
        in if \<not> byte_is certDer tbsStart 0x30 then Inl Tbs_not_a_sequence
           else res_bind (readDerLength certDer (tbsStart + 1)) (\<lambda>(len, header).
             let tbsEnd = int tbsStart + 1 + int header + len
             in if tbsEnd > int (length certDer) then Inl Tbs_beyond_bounds else Inr (js_slice certDer tbsStart tbsEnd))))"

definition UNCOMPRESSED_POINT_LEN :: nat where "UNCOMPRESSED_POINT_LEN = 65"

definition extractSecp256k1PublicPoint :: "nat list \<Rightarrow> (der_error, nat list) result" where
  "extractSecp256k1PublicPoint spkiDer =
     (case List.find (\<lambda>i. byte_is spkiDer i 0x03 \<and> byte_is spkiDer (i + 1) 0x42 \<and> byte_is spkiDer (i + 2) 0x00
             \<and> byte_is spkiDer (i + 3) 0x04) [0..<length spkiDer + 2 - (4 + UNCOMPRESSED_POINT_LEN)] of
        None \<Rightarrow> Inl No_public_point
      | Some i \<Rightarrow> Inr (take UNCOMPRESSED_POINT_LEN (drop (i + 3) spkiDer)))"

text \<open>What the curve library answers for a signature, a hash, a point and whether the signature is in compact form.\<close>

type_synonym noble = "nat list \<Rightarrow> nat list \<Rightarrow> nat list \<Rightarrow> bool \<Rightarrow> (string, bool) result"

datatype crypto_error = Der der_error | Library string

definition verifySecp256k1 ::
  "noble \<Rightarrow> (nat list \<Rightarrow> nat list) \<Rightarrow> nat list \<Rightarrow> nat list \<Rightarrow> nat list \<Rightarrow> (crypto_error, bool) result" where
  "verifySecp256k1 noble sha256 signature message spkiDer =
     (case extractSecp256k1PublicPoint spkiDer of
        Inl e \<Rightarrow> Inl (Der e)
      | Inr point \<Rightarrow> (case noble signature (sha256 message) point (length signature = 64) of
            Inl m \<Rightarrow> Inl (Library m) | Inr ok \<Rightarrow> Inr ok))"

section \<open>Base64url of the browser\<close>

definition b64_plain :: "char \<Rightarrow> char" where
  "b64_plain c = (if c = CHR ''-'' then CHR ''+'' else if c = CHR ''_'' then CHR ''/'' else c)"

definition strip_two_pads :: "string \<Rightarrow> string" where
  "strip_two_pads s =
     (if s \<noteq> [] \<and> last s = CHR ''='' then (let t = butlast s in if t \<noteq> [] \<and> last t = CHR ''='' then butlast t else t) else s)"

text \<open>\<open>atob\<close>: white space is dropped, padding only counts for a multiple of four, any other character is an error.\<close>

definition ascii_space :: "char \<Rightarrow> bool" where
  "ascii_space c \<longleftrightarrow> (of_char c :: nat) \<in> {9, 10, 12, 13, 32}"

definition atob :: "string \<Rightarrow> nat list option" where
  "atob s =
     (let t = filter (\<lambda>c. \<not> ascii_space c) s;
          u = (if length t mod 4 = 0 then strip_two_pads t else t)
      in if length u mod 4 = 1 \<or> list_ex (\<lambda>c. b64_value c = None \<or> c = CHR ''-'' \<or> c = CHR ''_'') u then None
         else Some (b64_bytes (map (\<lambda>c. the (b64_value c)) u)))"

definition base64UrlDecode :: "string \<Rightarrow> nat list option" where
  "base64UrlDecode s = atob (map b64_plain s @ replicate ((4 - length s mod 4) mod 4) CHR ''='')"

text \<open>\<open>TextEncoder\<close> on characters up to 255.\<close>

definition utf8_encode :: "string \<Rightarrow> nat list" where
  "utf8_encode s = concat (map (\<lambda>c. let n = of_char c in if n < 128 then [n] else [192 + n div 64, 128 + n mod 64]) s)"

section \<open>Lemmas\<close>

lemma fingerprintsEqual_iff: "fingerprintsEqual a b \<longleftrightarrow> a = b"
proof (cases "length a = length b")
  case True
  then have "a = b \<longleftrightarrow> (\<forall>i < length a. a ! i = b ! i)" by (simp add: list_eq_iff_nth_eq)
  also have "\<dots> \<longleftrightarrow> (\<forall>i < length a. (of_char (a ! i) :: nat) = of_char (b ! i))" using char_code by auto
  finally show ?thesis using True by (simp add: fingerprintsEqual_def accumulated_difference Ball_def)
qed (auto simp: fingerprintsEqual_def)

definition all_bytes :: "nat list \<Rightarrow> bool" where
  "all_bytes bs \<longleftrightarrow> list_all (\<lambda>b. b < 256) bs"

lemma utf8_bytes: "all_bytes (utf8_encode s)"
proof -
  have "(of_char c :: nat) < 256" for c by simp
  then have "n < 256 \<Longrightarrow> 192 + n div 64 < (256 :: nat)" for n by simp
  then show ?thesis by (auto simp: all_bytes_def utf8_encode_def list_all_iff Let_def)
qed

lemma b64_no_dot: "all_bytes bs \<Longrightarrow> CHR ''.'' \<notin> set (b64_encode bs)"
proof -
  assume "all_bytes bs"
  then have "list_all is_b64url (b64_encode bs)" using encode_shape by (simp add: all_bytes_def)
  moreover have "\<not> is_b64url CHR ''.''" by (simp add: is_b64url_def b64_value_def)
  ultimately show ?thesis by (auto simp: list_all_iff)
qed

text \<open>The definite length forms of DER that the reader supports, and the number they stand for.\<close>

definition be_value :: "nat list \<Rightarrow> nat" where
  "be_value bs = foldl (\<lambda>a b. a * 256 + b) 0 bs"

definition der_header :: "nat list \<Rightarrow> nat \<Rightarrow> bool" where
  "der_header hdr n \<longleftrightarrow>
     hdr = [n] \<and> n < 0x80
     \<or> (\<exists>bs. hdr = (0x80 + length bs) # bs \<and> length bs \<in> {1..4} \<and> list_all (\<lambda>b. b < 256) bs \<and> be_value bs = n)"

lemma word_byte_or: "b < 256 \<Longrightarrow> push_bit 8 (w :: 32 word) OR of_nat b = w * 256 + of_nat b"
proof -
  assume "b < 256"
  then have "b < 2 ^ 8" by simp
  note low = bit_below [OF this]
  have "push_bit 8 w AND of_nat b = 0"
    by (rule bit_word_eqI) (use low in \<open>auto simp: bit_and_iff bit_push_bit_iff bit_of_nat_iff\<close>)
  then show ?thesis by (simp add: disjunctive_add_eq_or [symmetric] push_bit_eq_mult)
qed

lemma be_fold: "foldl (\<lambda>a b. a * 256 + b) a bs = a * 256 ^ length bs + be_value bs"
proof (induction bs arbitrary: a)
  case (Cons b bs)
  have "be_value (b # bs) = b * 256 ^ length bs + be_value bs" using Cons.IH [of b] by (simp add: be_value_def)
  moreover have "foldl (\<lambda>a b. a * 256 + b) a (b # bs) = (a * 256 + b) * 256 ^ length bs + be_value bs"
    using Cons.IH [of "a * 256 + b"] by simp
  ultimately show ?case by (simp add: distrib_right)
qed (simp add: be_value_def)

lemma be_value_Cons: "be_value (b # bs) = b * 256 ^ length bs + be_value bs"
  using be_fold [of b bs] by (simp add: be_value_def)

lemma der_length_loop_reads:
  "list_all (\<lambda>b. b < 256) bs \<Longrightarrow>
   der_length_loop (pre @ bs @ post) (length pre) (length bs) w = Inr (w * 256 ^ length bs + of_nat (be_value bs))"
proof (induction bs arbitrary: pre w)
  case (Cons b bs)
  have "der_length_loop ((pre @ [b]) @ bs @ post) (length (pre @ [b])) (length bs) (w * 256 + of_nat b) =
      Inr ((w * 256 + of_nat b) * 256 ^ length bs + of_nat (be_value bs))"
    by (rule Cons.IH) (use Cons.prems in simp)
  then show ?case using Cons.prems
    by (simp add: nth_append word_byte_or be_value_Cons algebra_simps)
qed (simp add: be_value_def)

lemma long_form: "n \<le> 4 \<Longrightarrow> (0x80 + n) AND 0x7f = (n :: nat)"
  by (simp add: low_bits)

text \<open>A 32-bit length is read with its sign.\<close>

lemma sint_of_length: "sint (of_nat n :: 32 word) = (int n + 2 ^ 31) mod 2 ^ 32 - 2 ^ 31"
  using int_word_sint [where x = "int n" and 'a = 32] by simp

lemma sint_small: "n < 2 ^ 31 \<Longrightarrow> sint (of_nat n :: 32 word) = int n"
  unfolding sint_of_length by simp

lemma sint_large: "2 ^ 31 \<le> n \<Longrightarrow> n < 2 ^ 32 \<Longrightarrow> sint (of_nat n :: 32 word) = int n - 2 ^ 32"
proof -
  assume a: "2 ^ 31 \<le> n" "n < 2 ^ 32"
  have "(int n + 2 ^ 31) mod 2 ^ 32 = (int n + 2 ^ 31 - 2 ^ 32) mod 2 ^ 32" by (simp only: minus_mod_self2)
  also have "\<dots> = int n + 2 ^ 31 - 2 ^ 32" using a by (intro mod_pos_pos_trivial) auto
  finally have "(int n + 2 ^ 31) mod 2 ^ 32 = int n + 2 ^ 31 - 2 ^ 32" .
  then show ?thesis unfolding sint_of_length by simp
qed

lemma readDerLength_reads:
  assumes "der_header hdr n"
  shows "readDerLength (pre @ hdr @ post) (length pre) = Inr (sint (of_nat n :: 32 word), length hdr)"
  using assms unfolding der_header_def
proof (elim disjE exE conjE)
  assume h: "hdr = [n]" "n < 0x80"
  then have "sint (of_nat n :: 32 word) = int n" by (intro sint_small) simp
  with h show ?thesis by (simp add: readDerLength_def nth_append)
next
  fix bs
  assume h: "hdr = (0x80 + length bs) # bs" "length bs \<in> {1..4}" "list_all (\<lambda>b. b < 256) bs" "be_value bs = n"
  have "der_length_loop ((pre @ [0x80 + length bs]) @ bs @ post) (length (pre @ [0x80 + length bs])) (length bs) 0 = Inr (of_nat n)"
    using der_length_loop_reads [OF h(3), of "pre @ [0x80 + length bs]" post 0] h(4) by simp
  with h long_form [of "length bs"] show ?thesis by (auto simp: readDerLength_def nth_append Let_def)
qed

lemma extractTbs_eq:
  assumes "der_header outer m" and "der_header hdr n"
  shows "extractTbsCertificate (0x30 # outer @ (0x30 # hdr) @ rest) =
    (let der = 0x30 # outer @ (0x30 # hdr) @ rest; start = 1 + length outer;
         stop = int start + 1 + int (length hdr) + sint (of_nat n :: 32 word)
     in if stop > int (length der) then Inl Tbs_beyond_bounds else Inr (js_slice der start stop))"
proof -
  have o: "readDerLength (0x30 # outer @ (0x30 # hdr) @ rest) 1 = Inr (sint (of_nat m :: 32 word), length outer)"
    using readDerLength_reads [OF assms(1), of "[0x30]" "(0x30 # hdr) @ rest"] by simp
  have t: "readDerLength (0x30 # outer @ (0x30 # hdr) @ rest) (Suc (Suc (length outer))) = Inr (sint (of_nat n :: 32 word), length hdr)"
    using readDerLength_reads [OF assms(2), of "0x30 # outer @ [0x30]" rest] by simp
  show ?thesis using o t by (simp add: extractTbsCertificate_def byte_is_def nth_append Let_def)
qed

text \<open>C31: the signed part of a certificate is cut out of its DER exactly: a certificate that starts with the headers
  of the two sequences yields the inner sequence, header included, when all of its declared length below two
  gigabytes is there, and is refused when it is not. A declared length of two gigabytes or more turns negative in
  the reader's 32-bit arithmetic: such a certificate is never refused, and the piece cut out ends before its start or
  counts from the back.\<close>

theorem tbs_extracted:
  assumes "der_header outer m" and "der_header hdr n" and "n < 2 ^ 32"
  shows "extractTbsCertificate (0x30 # outer @ (0x30 # hdr) @ rest) =
    (if n < 2 ^ 31 \<and> length rest < n then Inl Tbs_beyond_bounds
     else if n < 2 ^ 31 then Inr (0x30 # hdr @ take n rest)
     else Inr (js_slice (0x30 # outer @ (0x30 # hdr) @ rest) (1 + length outer) (2 + int (length outer + length hdr) + int n - 2 ^ 32)))"
proof (cases "n < 2 ^ 31")
  case True
  then show ?thesis using extractTbs_eq [OF assms(1,2), of rest] sint_small [of n]
    by (auto simp: js_slice_def Let_def nat_add_distrib)
next
  case False
  then have "2 + int (length outer + length hdr) + int n - 2 ^ 32 =
      int (1 + length outer) + 1 + int (length hdr) + sint (of_nat n :: 32 word)"
    using sint_large [of n] assms(3) by simp
  moreover have "sint (of_nat n :: 32 word) < 0" using False sint_large [of n] assms(3) by simp
  ultimately show ?thesis using False extractTbs_eq [OF assms(1,2), of rest] by (simp only: Let_def) simp
qed

theorem tbs_extracted_witness:
  "extractTbsCertificate [0x30, 5, 0x30, 1, 7, 1, 2] = Inr [0x30, 1, 7]
   \<and> extractTbsCertificate [0x30, 5, 0x30, 9, 7] = Inl Tbs_beyond_bounds
   \<and> (\<exists>tbs. extractTbsCertificate [0x30, 5, 0x30, 0x84, 0x80, 0, 0, 0] = Inr tbs)"
proof -
  have h: "der_header [5] 5" "der_header [1] 1" "der_header [9] 9" "der_header [0x84, 0x80, 0, 0, 0] (2 ^ 31)"
    by (auto simp: der_header_def be_value_def intro: exI [of _ "[0x80, 0, 0, 0]"])
  have "extractTbsCertificate [0x30, 5, 0x30, 1, 7, 1, 2] = Inr [0x30, 1, 7]"
    using tbs_extracted [OF h(1,2), where rest = "[7, 1, 2]"] by simp
  moreover have "extractTbsCertificate [0x30, 5, 0x30, 9, 7] = Inl Tbs_beyond_bounds"
    using tbs_extracted [OF h(1,3), where rest = "[7]"] by simp
  moreover have "\<exists>tbs. extractTbsCertificate [0x30, 5, 0x30, 0x84, 0x80, 0, 0, 0] = Inr tbs"
    using tbs_extracted [OF h(1,4), where rest = "[]"] by simp
  ultimately show ?thesis by blast
qed

end
