(* ===== verification/Cert_Chain.thy ===== *)
theory Cert_Chain
  imports Der_Crypto Json
begin

text \<open>
  \<open>libs/attestation/src/cert-chain.ts\<close> and \<open>libs/attestation/src/jws.ts\<close>: validation of a certificate chain from
  leaf to root, and verification of a compact JWS under the key of the leaf. A certificate is the record of what the
  code reads of a parsed \<open>X509Certificate\<close> (\<open>@peculiar/x509\<close>). Parsing a PEM, verifying a signature and exporting a
  key through WebCrypto, \<open>decodeProtectedHeader\<close> and \<open>compactVerify\<close> of \<open>jose\<close>, the curve library, SHA-256 and
  \<open>JSON.parse\<close> on decoded bytes are the fields of \<open>crypto_env\<close>: each returns what the call returns or, as \<open>Inl\<close>,
  the message of what it throws. Times are milliseconds.
\<close>

record x509 =
  rawData :: "nat list"
  subject :: string
  issuer :: string
  notBefore :: int
  notAfter :: int
  spkiData :: "nat list"
  keyAlgorithm :: "string option"
  namedCurve :: "string option"
  signature :: "nat list"
  basicConstraints :: "(bool \<times> int option) option"
  keyCertSign :: "bool option"

record crypto_env =
  parse_cert :: "string \<Rightarrow> (string, x509) result"
  subtle_verify :: "x509 \<Rightarrow> nat list \<Rightarrow> (string, bool) result"
  export_key :: "nat list \<Rightarrow> (string, nat list) result"
  jose_header :: "string \<Rightarrow> (string, json) result"
  jose_verify :: "string \<Rightarrow> nat list \<Rightarrow> string list \<Rightarrow> (string, nat list) result"
  curve :: noble
  subtle :: bool
  digest :: "nat list \<Rightarrow> nat list"
  parse_json :: "nat list \<Rightarrow> (string, json) result"

section \<open>Certificate chains\<close>

datatype chain_error =
    Empty_chain
  | Unparseable nat string
  | Secp256k1_raised crypto_error
  | Verify_raised string
  | Not_a_ca nat string
  | Path_exceeded int string nat
  | No_key_cert_sign nat string
  | Not_yet_valid string
  | Expired_cert string
  | Issuer_mismatch nat string
  | Bad_signature nat string
  | Not_self_signed
  | Bad_root_signature
  | No_web_crypto

record parsed_chain =
  pc_certs :: "x509 list"
  pc_leaf :: x509
  pc_root :: x509
  pc_rootFingerprint :: string

definition isSecp256k1Cert :: "x509 \<Rightarrow> bool" where
  "isSecp256k1Cert cert \<longleftrightarrow> keyAlgorithm cert = Some ''ECDSA'' \<and> namedCurve cert = Some ''K-256''"

fun parse_from :: "crypto_env \<Rightarrow> nat \<Rightarrow> string list \<Rightarrow> (chain_error, x509 list) result" where
  "parse_from env i [] = Inr []"
| "parse_from env i (pem # pems) =
     (case parse_cert env pem of
        Inl m \<Rightarrow> Inl (Unparseable i m)
      | Inr cert \<Rightarrow> res_map ((#) cert) (parse_from env (i + 1) pems))"

definition parseCertificates :: "crypto_env \<Rightarrow> string list \<Rightarrow> (chain_error, x509 list) result" where
  "parseCertificates env pems = (if pems = [] then Inl Empty_chain else parse_from env 0 pems)"

definition verifyChildAgainstParent :: "crypto_env \<Rightarrow> x509 \<Rightarrow> x509 \<Rightarrow> (chain_error, bool) result" where
  "verifyChildAgainstParent env child parent =
     (if isSecp256k1Cert parent
      then (case extractTbsCertificate (rawData child) of
              Inl e \<Rightarrow> Inl (Secp256k1_raised (Der e))
            | Inr tbs \<Rightarrow> (case verifySecp256k1 (curve env) (digest env) (signature child) tbs (spkiData parent) of
                  Inl e \<Rightarrow> Inl (Secp256k1_raised e) | Inr ok \<Rightarrow> Inr ok))
      else (case subtle_verify env child (spkiData parent) of
              Inl m \<Rightarrow> Inl (Verify_raised m) | Inr ok \<Rightarrow> Inr ok))"

definition issuer_check :: "nat \<Rightarrow> x509 \<Rightarrow> (chain_error, unit) result" where
  "issuer_check i c =
     (case basicConstraints c of
        None \<Rightarrow> Inl (Not_a_ca i (subject c))
      | Some (ca, pathLength) \<Rightarrow>
          if \<not> ca then Inl (Not_a_ca i (subject c))
          else res_bind (case pathLength of
                  Some p \<Rightarrow> guard (\<not> p < int (i - 1)) (Path_exceeded p (subject c) (i - 1))
                | None \<Rightarrow> Inr ())
               (\<lambda>_. guard (keyCertSign c \<noteq> Some False) (No_key_cert_sign i (subject c))))"

fun hygiene_from :: "nat \<Rightarrow> x509 list \<Rightarrow> (chain_error, unit) result" where
  "hygiene_from i [] = Inr ()"
| "hygiene_from i (c # cs) = res_bind (issuer_check i c) (\<lambda>_. hygiene_from (i + 1) cs)"

definition assertIssuerHygiene :: "x509 list \<Rightarrow> (chain_error, unit) result" where
  "assertIssuerHygiene certs = hygiene_from 1 (drop 1 certs)"

fun validity_check :: "int \<Rightarrow> x509 list \<Rightarrow> (chain_error, unit) result" where
  "validity_check now [] = Inr ()"
| "validity_check now (c # cs) =
     (if notBefore c > now then Inl (Not_yet_valid (subject c))
      else if notAfter c < now then Inl (Expired_cert (subject c))
      else validity_check now cs)"

fun link_check :: "crypto_env \<Rightarrow> nat \<Rightarrow> x509 list \<Rightarrow> (chain_error, unit) result" where
  "link_check env i (child # parent # cs) =
     (if issuer child \<noteq> subject parent then Inl (Issuer_mismatch i (subject child))
      else res_bind (verifyChildAgainstParent env child parent) (\<lambda>ok.
        if \<not> ok then Inl (Bad_signature i (subject child)) else link_check env (i + 1) (parent # cs)))"
| "link_check env i _ = Inr ()"

definition validateChain :: "crypto_env \<Rightarrow> string list \<Rightarrow> int \<Rightarrow> (chain_error, parsed_chain) result" where
  "validateChain env pems now =
     res_bind (parseCertificates env pems) (\<lambda>certs.
     res_bind (validity_check now certs) (\<lambda>_.
     res_bind (assertIssuerHygiene certs) (\<lambda>_.
     res_bind (link_check env 0 certs) (\<lambda>_.
       let root' = last certs
       in if issuer root' \<noteq> subject root' then Inl Not_self_signed
          else res_bind (verifyChildAgainstParent env root' root') (\<lambda>ok.
            if \<not> ok then Inl Bad_root_signature
            else (case sha256Fingerprint (subtle env) (digest env) (rawData root') of
                    None \<Rightarrow> Inl No_web_crypto
                  | Some fp \<Rightarrow> Inr \<lparr>pc_certs = certs, pc_leaf = hd certs, pc_root = root', pc_rootFingerprint = fp\<rparr>))))))"

text \<open>What \<open>rootFingerprintFromPem\<close> throws is a message: of the parser, or that Web Crypto is missing.\<close>

definition NO_SUBTLE :: string where "NO_SUBTLE = ''Web Crypto SubtleCrypto is not available in this environment''"

definition rootFingerprintFromPem :: "crypto_env \<Rightarrow> string \<Rightarrow> (string, string) result" where
  "rootFingerprintFromPem env pem =
     res_bind (parse_cert env pem) (\<lambda>cert. case sha256Fingerprint (subtle env) (digest env) (rawData cert) of
       None \<Rightarrow> Inl NO_SUBTLE | Some fp \<Rightarrow> Inr fp)"

section \<open>JWS\<close>

datatype jws_error =
    Bad_header string
  | Unsupported_alg string
  | Key_export string
  | Jose_failed string
  | Not_secp256k1
  | Not_three_segments
  | Bad_segment
  | Secp_raised crypto_error
  | Es256k_failed
  | Bad_json string
  | Not_a_payload

definition SUPPORTED_ALGS :: "string list" where "SUPPORTED_ALGS = [''RS256'', ''ES256K'']"

definition KIND_VALUES :: "string list" where
  "KIND_VALUES = [''DeploymentEvidence'', ''ControlPlaneEvidence'', ''KubernetesControlPlaneEvidence'']"

definition verifyJwsRs256 :: "crypto_env \<Rightarrow> string \<Rightarrow> x509 \<Rightarrow> (jws_error, nat list) result" where
  "verifyJwsRs256 env jws leaf =
     (case export_key env (spkiData leaf) of
        Inl m \<Rightarrow> Inl (Key_export m)
      | Inr publicKey \<Rightarrow> (case jose_verify env jws publicKey [''RS256''] of Inl m \<Rightarrow> Inl (Jose_failed m) | Inr payload \<Rightarrow> Inr payload))"

definition verifyJwsEs256k :: "crypto_env \<Rightarrow> string \<Rightarrow> x509 \<Rightarrow> (jws_error, nat list) result" where
  "verifyJwsEs256k env jws leaf =
     (if \<not> isSecp256k1Cert leaf then Inl Not_secp256k1
      else (case split_on CHR ''.'' jws of
              [headerB64, payloadB64, signatureB64] \<Rightarrow>
                (case base64UrlDecode signatureB64 of
                   None \<Rightarrow> Inl Bad_segment
                 | Some signatureBytes \<Rightarrow> (case base64UrlDecode payloadB64 of
                     None \<Rightarrow> Inl Bad_segment
                   | Some payloadBytes \<Rightarrow>
                       (case verifySecp256k1 (curve env) (digest env) signatureBytes
                               (utf8_encode (headerB64 @ ''.'' @ payloadB64)) (spkiData leaf) of
                          Inl e \<Rightarrow> Inl (Secp_raised e)
                        | Inr ok \<Rightarrow> if ok then Inr payloadBytes else Inl Es256k_failed)))
            | _ \<Rightarrow> Inl Not_three_segments))"

definition isEvidencePayload :: "json \<Rightarrow> bool" where
  "isEvidencePayload v \<longleftrightarrow>
     json_get ''version'' v = Some (JStr ''1'')
     \<and> (case json_string (json_get ''kind'' v) of Some k \<Rightarrow> k \<in> set KIND_VALUES | None \<Rightarrow> False)
     \<and> (case json_string (json_get ''hostname'' v) of Some h \<Rightarrow> h \<noteq> [] | None \<Rightarrow> False)
     \<and> (case json_string (json_get ''issuedAt'' v) of Some t \<Rightarrow> t \<noteq> [] | None \<Rightarrow> False)
     \<and> (case json_string (json_get ''certFingerprint'' v) of Some f \<Rightarrow> starts_with f ''sha256/'' | None \<Rightarrow> False)"

definition verifyJws :: "crypto_env \<Rightarrow> string \<Rightarrow> x509 \<Rightarrow> (jws_error, json) result" where
  "verifyJws env jws leaf =
     (case jose_header env jws of
        Inl m \<Rightarrow> Inl (Bad_header m)
      | Inr header \<Rightarrow>
          let alg = (case json_string (json_get ''alg'' header) of Some a \<Rightarrow> a | None \<Rightarrow> ''<missing>'')
          in if alg \<notin> set SUPPORTED_ALGS then Inl (Unsupported_alg alg)
             else res_bind (if alg = ''RS256'' then verifyJwsRs256 env jws leaf else verifyJwsEs256k env jws leaf) (\<lambda>plaintext.
               case parse_json env plaintext of
                 Inl m \<Rightarrow> Inl (Bad_json m)
               | Inr parsed \<Rightarrow> if isEvidencePayload parsed then Inr parsed else Inl Not_a_payload))"

section \<open>What a valid chain is\<close>

definition signed_by :: "crypto_env \<Rightarrow> x509 \<Rightarrow> x509 \<Rightarrow> bool" where
  "signed_by env child parent \<longleftrightarrow> verifyChildAgainstParent env child parent = Inr True"

definition may_issue :: "nat \<Rightarrow> x509 \<Rightarrow> bool" where
  "may_issue below c \<longleftrightarrow>
     (\<exists>pathLength. basicConstraints c = Some (True, pathLength) \<and> (\<forall>p. pathLength = Some p \<longrightarrow> int below \<le> p))
     \<and> keyCertSign c \<noteq> Some False"

definition chain_valid :: "crypto_env \<Rightarrow> int \<Rightarrow> x509 list \<Rightarrow> bool" where
  "chain_valid env now certs \<longleftrightarrow>
     certs \<noteq> []
     \<and> (\<forall>c \<in> set certs. notBefore c \<le> now \<and> now \<le> notAfter c)
     \<and> (\<forall>i. Suc i < length certs \<longrightarrow>
          may_issue i (certs ! Suc i) \<and> issuer (certs ! i) = subject (certs ! Suc i) \<and> signed_by env (certs ! i) (certs ! Suc i))
     \<and> issuer (last certs) = subject (last certs) \<and> signed_by env (last certs) (last certs)"

lemma parse_from_Inr: "parse_from env i pems = Inr certs \<longleftrightarrow> list_all2 (\<lambda>pem c. parse_cert env pem = Inr c) pems certs"
  by (induction pems arbitrary: i certs) (auto simp: res_simps list_all2_Cons1 split: sum.split)

lemma validity_check_Inr: "validity_check now cs = Inr u \<longleftrightarrow> (\<forall>c \<in> set cs. notBefore c \<le> now \<and> now \<le> notAfter c)"
  by (induction cs) auto

lemma issuer_check_Inr: "issuer_check i c = Inr u \<longleftrightarrow> may_issue (i - 1) c"
  by (auto simp: issuer_check_def may_issue_def res_simps split: option.split)

lemma hygiene_from_Inr: "hygiene_from (Suc i) cs = Inr u \<longleftrightarrow> (\<forall>j < length cs. may_issue (i + j) (cs ! j))"
proof (induction cs arbitrary: i)
  case (Cons c cs)
  show ?case using Cons.IH [of "Suc i"] by (simp add: res_simps issuer_check_Inr All_less_Suc2)
qed simp

lemma assertIssuerHygiene_Inr:
  "assertIssuerHygiene certs = Inr u \<longleftrightarrow> (\<forall>i. Suc i < length certs \<longrightarrow> may_issue i (certs ! Suc i))"
  using hygiene_from_Inr [of 0 "drop 1 certs" u] by (cases certs) (auto simp: assertIssuerHygiene_def)

lemma link_check_Inr:
  "link_check env i certs = Inr u \<longleftrightarrow>
   (\<forall>j. Suc j < length certs \<longrightarrow> issuer (certs ! j) = subject (certs ! Suc j) \<and> signed_by env (certs ! j) (certs ! Suc j))"
proof (induction env i certs rule: link_check.induct)
  case (1 env i child parent cs)
  have split: "(\<forall>j. Suc j < length (child # parent # cs) \<longrightarrow> P j) \<longleftrightarrow> P 0 \<and> (\<forall>j. Suc j < length (parent # cs) \<longrightarrow> P (Suc j))"
    for P :: "nat \<Rightarrow> bool" by (auto simp: less_Suc_eq_0_disj)
  have step: "link_check env i (child # parent # cs) = Inr u \<longleftrightarrow>
      issuer child = subject parent \<and> signed_by env child parent \<and> link_check env (i + 1) (parent # cs) = Inr u"
    by (cases "verifyChildAgainstParent env child parent") (simp_all add: signed_by_def)
  show ?case
  proof (cases "issuer child = subject parent \<and> signed_by env child parent")
    case True
    with 1 [of True] show ?thesis unfolding step split by simp
  next
    case False
    then show ?thesis unfolding step split by auto
  qed
qed auto

definition chain_of :: "x509 list \<Rightarrow> string \<Rightarrow> parsed_chain" where
  "chain_of certs fp = \<lparr>pc_certs = certs, pc_leaf = hd certs, pc_root = last certs, pc_rootFingerprint = fp\<rparr>"

lemma validateChain_eq:
  "validateChain env pems now = Inr ch \<longleftrightarrow>
   (\<exists>certs fp. list_all2 (\<lambda>pem c. parse_cert env pem = Inr c) pems certs \<and> chain_valid env now certs
      \<and> sha256Fingerprint (subtle env) (digest env) (rawData (last certs)) = Some fp \<and> ch = chain_of certs fp)"
proof -
  have p: "parseCertificates env pems = Inr certs \<longleftrightarrow>
      list_all2 (\<lambda>pem c. parse_cert env pem = Inr c) pems certs \<and> certs \<noteq> []" for certs
    by (auto simp: parseCertificates_def parse_from_Inr)
  have root: "(if issuer r \<noteq> subject r then Inl Not_self_signed
       else res_bind (verifyChildAgainstParent env r r) (\<lambda>ok. if \<not> ok then Inl Bad_root_signature
         else (case sha256Fingerprint (subtle env) (digest env) (rawData r) of None \<Rightarrow> Inl No_web_crypto | Some fp \<Rightarrow> Inr (k fp)))) = Inr ch
      \<longleftrightarrow> issuer r = subject r \<and> signed_by env r r
        \<and> (\<exists>fp. sha256Fingerprint (subtle env) (digest env) (rawData r) = Some fp \<and> ch = k fp)" for r k
    by (cases "verifyChildAgainstParent env r r") (auto simp: signed_by_def split: option.split)
  show ?thesis
    unfolding validateChain_def Let_def res_bind_eq_Inr p validity_check_Inr assertIssuerHygiene_Inr link_check_Inr
      root chain_valid_def chain_of_def by blast
qed

text \<open>C11: chain validation decides exactly what a valid chain is: every PEM parses, every certificate is inside its
  validity window at the given time, every certificate after the leaf is a certificate authority that may sign
  certificates and whose path length admits the certificates below it, every certificate names the next one as its
  issuer and is signed by it, and the last one is signed by itself. The answer carries the leaf, the root and the
  fingerprint of the root.\<close>

theorem chain_validated:
  "validateChain env pems now = Inr ch \<longleftrightarrow>
   (\<exists>certs fp. list_all2 (\<lambda>pem c. parse_cert env pem = Inr c) pems certs \<and> chain_valid env now certs
      \<and> sha256Fingerprint (subtle env) (digest env) (rawData (last certs)) = Some fp
      \<and> ch = \<lparr>pc_certs = certs, pc_leaf = hd certs, pc_root = last certs, pc_rootFingerprint = fp\<rparr>)"
  unfolding validateChain_eq chain_of_def by (rule refl)

section \<open>What a verified JWS is\<close>

definition jws_signed :: "crypto_env \<Rightarrow> string \<Rightarrow> x509 \<Rightarrow> nat list \<Rightarrow> bool" where
  "jws_signed env jws leaf bytes \<longleftrightarrow>
     (\<exists>header. jose_header env jws = Inr header
       \<and> (json_get ''alg'' header = Some (JStr ''RS256'')
            \<and> (\<exists>key. export_key env (spkiData leaf) = Inr key \<and> jose_verify env jws key [''RS256''] = Inr bytes)
          \<or> json_get ''alg'' header = Some (JStr ''ES256K'') \<and> isSecp256k1Cert leaf
            \<and> (\<exists>h p sg sigBytes. split_on CHR ''.'' jws = [h, p, sg] \<and> base64UrlDecode sg = Some sigBytes
                 \<and> base64UrlDecode p = Some bytes
                 \<and> verifySecp256k1 (curve env) (digest env) sigBytes (utf8_encode (h @ ''.'' @ p)) (spkiData leaf) = Inr True)))"

lemma rs256_Inr:
  "verifyJwsRs256 env jws leaf = Inr b \<longleftrightarrow>
   (\<exists>key. export_key env (spkiData leaf) = Inr key \<and> jose_verify env jws key [''RS256''] = Inr b)"
  by (auto simp: verifyJwsRs256_def split: sum.split)

lemma es256k_Inr:
  "verifyJwsEs256k env jws leaf = Inr b \<longleftrightarrow> isSecp256k1Cert leaf
   \<and> (\<exists>h p sg sigBytes. split_on CHR ''.'' jws = [h, p, sg] \<and> base64UrlDecode sg = Some sigBytes
        \<and> base64UrlDecode p = Some b
        \<and> verifySecp256k1 (curve env) (digest env) sigBytes (utf8_encode (h @ ''.'' @ p)) (spkiData leaf) = Inr True)"
  unfolding verifyJwsEs256k_def by (auto split: if_splits list.splits option.splits sum.splits)

lemma alg_string: "(case json_string j of Some a \<Rightarrow> a | None \<Rightarrow> ''<missing>'') = s \<Longrightarrow> s \<noteq> ''<missing>'' \<Longrightarrow> j = Some (JStr s)"
  by (cases j rule: json_string.cases) auto

lemma verifyJws_Inr:
  "verifyJws env jws leaf = Inr p \<longleftrightarrow>
   isEvidencePayload p \<and> (\<exists>bytes. jws_signed env jws leaf bytes \<and> parse_json env bytes = Inr p)"
proof (cases "jose_header env jws")
  case (Inr header)
  define alg where "alg = (case json_string (json_get ''alg'' header) of Some a \<Rightarrow> a | None \<Rightarrow> ''<missing>'')"
  have a: "json_get ''alg'' header = Some (JStr s) \<longleftrightarrow> alg = s" if "s \<in> set SUPPORTED_ALGS" for s
    using that alg_string [of "json_get ''alg'' header" s] by (auto simp: alg_def SUPPORTED_ALGS_def)
  have payload: "(case parse_json env x of Inl m \<Rightarrow> Inl (Bad_json m)
      | Inr q \<Rightarrow> if isEvidencePayload q then Inr q else Inl Not_a_payload) = Inr p \<longleftrightarrow>
      parse_json env x = Inr p \<and> isEvidencePayload p" for x by (auto split: sum.split)
  have signed': "jws_signed env jws leaf bytes \<longleftrightarrow> alg \<in> set SUPPORTED_ALGS
      \<and> (if alg = ''RS256'' then verifyJwsRs256 env jws leaf else verifyJwsEs256k env jws leaf) = Inr bytes" for bytes
    using a [of "''RS256''"] a [of "''ES256K''"]
    by (auto simp: jws_signed_def Inr rs256_Inr es256k_Inr SUPPORTED_ALGS_def)
  show ?thesis
    by (auto simp: verifyJws_def Inr alg_def [symmetric] Let_def res_bind_eq_Inr payload signed')
qed (simp add: verifyJws_def jws_signed_def)

end
