(* ===== verification/Attestation.thy ===== *)
theory Attestation
  imports Cert_Chain "HOL-Library.Char_ord" "HOL-Library.List_Lexorder"
begin

text \<open>
  \<open>libs/attestation/src/verify.ts\<close> and \<open>libs/attestation/src/cache.ts\<close>: the verification pipeline of a published
  evidence bundle (fetch, certificate chain, trusted root, JWS, freshness, channel binding) and the cache of its
  verdicts. A failure is its stage and its reason. What a run depends on outside of its parameters is in
  \<open>verify_env\<close>: the libraries, the answer of the fetcher (\<open>None\<close> when there is no fetcher), \<open>Date.parse\<close>, and the two
  readings of the clock that the chain stage and the freshness stage take when \<open>now\<close> is not given.
\<close>

datatype verify_stage = Fetch | Cert_chain_stage | Untrusted_root | Jws_stage | Tls_fingerprint

datatype verify_reason =
    Empty_hostname
  | Malformed_observed
  | No_fetcher
  | Request_failed string
  | Unexpected_status nat
  | Body_not_json string
  | Body_not_object
  | Unsupported_version "json option"
  | Unsupported_kind "json option"
  | Missing_hostname
  | Bundle_hostname string
  | Missing_issuedAt
  | Malformed_certFingerprint
  | Missing_jws
  | Malformed_certChain
  | Malformed_quote
  | Malformed_tlsLeaf
  | Chain chain_error
  | Bad_trusted_root string string
  | Not_in_store string
  | Jws jws_error
  | Payload_kind string string
  | Payload_hostname string
  | Unparseable_issuedAt string
  | Too_old int int
  | In_the_future int
  | Observed_mismatch string string
  | Bad_tls_leaf string
  | Leaf_mismatch string string
  | No_binding

datatype channel_binding = Observed | Producer_asserted

record attestation_bundle =
  b_kind :: string
  b_hostname :: string
  b_issuedAt :: string
  b_certFingerprint :: string
  b_jws :: string
  b_certChain :: "string list"
  b_rootCaTeeQuote :: "json option"
  b_tlsLeaf :: "string option"

record trusted_root =
  tr_name :: string
  tr_pem :: string

record verify_ok =
  ok_kind :: string
  ok_payload :: json
  ok_matchedRoot :: "string \<times> string"
  ok_rootCaTeeQuote :: "json option"
  ok_channelBinding :: channel_binding

type_synonym verify_result = "(verify_stage \<times> verify_reason, verify_ok) result"

record fetch_response =
  fr_status :: nat
  fr_json :: "(string, json) result"

record verify_env =
  crypto :: crypto_env
  fetcher :: "(string \<Rightarrow> (string, fetch_response) result) option"
  parse_date :: "string \<Rightarrow> int option"
  chain_clock :: int
  freshness_clock :: int

record verify_params =
  vp_hostname :: string
  vp_observed :: "string option"
  vp_trustedRoots :: "trusted_root list"
  vp_now :: "int option"
  vp_maxBundleAge :: "int option"

definition EVIDENCE_PATH :: string where "EVIDENCE_PATH = ''/.well-known/swarm-evidence''"

definition ALLOWED_CLOCK_SKEW_MS :: int where "ALLOWED_CLOCK_SKEW_MS = 60000"

definition fail :: "verify_stage \<Rightarrow> verify_reason \<Rightarrow> (verify_stage \<times> verify_reason, 'a) result" where
  "fail stage reason = Inl (stage, reason)"

section \<open>The stages\<close>

fun pem_strings :: "json list \<Rightarrow> string list option" where
  "pem_strings [] = Some []"
| "pem_strings (JStr p # js) = (if p = [] then None else map_option ((#) p) (pem_strings js))"
| "pem_strings (_ # js) = None"

definition is_object_or_array :: "json \<Rightarrow> bool" where
  "is_object_or_array j \<longleftrightarrow> (case j of JObj _ \<Rightarrow> True | JArr _ \<Rightarrow> True | _ \<Rightarrow> False)"

definition str_field :: "string \<Rightarrow> json \<Rightarrow> (string \<Rightarrow> bool) \<Rightarrow> verify_reason \<Rightarrow> (verify_stage \<times> verify_reason, string) result" where
  "str_field k v good reason =
     (case json_string (json_get k v) of Some s \<Rightarrow> if good s then Inr s else fail Fetch reason | None \<Rightarrow> fail Fetch reason)"

definition validateBundleShape :: "json \<Rightarrow> string \<Rightarrow> (verify_stage \<times> verify_reason, attestation_bundle) result" where
  "validateBundleShape v expectedHostname =
     res_bind (guard (is_object_or_array v) (Fetch, Body_not_object)) (\<lambda>_.
     res_bind (guard (json_get ''version'' v = Some (JStr ''1'')) (Fetch, Unsupported_version (json_get ''version'' v))) (\<lambda>_.
     res_bind (str_field ''kind'' v (\<lambda>k. k \<in> set KIND_VALUES) (Unsupported_kind (json_get ''kind'' v))) (\<lambda>kind.
     res_bind (str_field ''hostname'' v (\<lambda>h. h \<noteq> []) Missing_hostname) (\<lambda>hostname.
     res_bind (guard (hostname = expectedHostname) (Fetch, Bundle_hostname hostname)) (\<lambda>_.
     res_bind (str_field ''issuedAt'' v (\<lambda>_. True) Missing_issuedAt) (\<lambda>issuedAt.
     res_bind (str_field ''certFingerprint'' v (\<lambda>f. starts_with f ''sha256/'') Malformed_certFingerprint) (\<lambda>certFingerprint.
     res_bind (str_field ''jws'' v (\<lambda>s. s \<noteq> []) Missing_jws) (\<lambda>jws.
     res_bind (case json_get ''certChain'' v of
                 Some (JArr js) \<Rightarrow> (case pem_strings js of
                     Some pems \<Rightarrow> if pems = [] then fail Fetch Malformed_certChain else Inr pems
                   | None \<Rightarrow> fail Fetch Malformed_certChain)
               | _ \<Rightarrow> fail Fetch Malformed_certChain) (\<lambda>certChain.
     res_bind (guard (case json_get ''rootCaTeeQuote'' v of None \<Rightarrow> True | Some q \<Rightarrow> is_object_or_array q) (Fetch, Malformed_quote)) (\<lambda>_.
     res_bind (case json_get ''tlsLeaf'' v of
                 None \<Rightarrow> Inr None
               | Some (JStr s) \<Rightarrow> if s = [] then fail Fetch Malformed_tlsLeaf else Inr (Some s)
               | Some _ \<Rightarrow> fail Fetch Malformed_tlsLeaf) (\<lambda>tlsLeaf.
     Inr \<lparr>b_kind = kind, b_hostname = hostname, b_issuedAt = issuedAt, b_certFingerprint = certFingerprint, b_jws = jws,
          b_certChain = certChain, b_rootCaTeeQuote = json_get ''rootCaTeeQuote'' v, b_tlsLeaf = tlsLeaf\<rparr>)))))))))))"

definition fetchBundle :: "verify_env \<Rightarrow> verify_params \<Rightarrow> (verify_stage \<times> verify_reason, attestation_bundle) result" where
  "fetchBundle env params =
     (case fetcher env of
        None \<Rightarrow> fail Fetch No_fetcher
      | Some fetch \<Rightarrow> (case fetch (''https://'' @ vp_hostname params @ EVIDENCE_PATH) of
          Inl m \<Rightarrow> fail Fetch (Request_failed m)
        | Inr response \<Rightarrow>
            if \<not> (200 \<le> fr_status response \<and> fr_status response < 300)
            then fail Fetch (Unexpected_status (fr_status response))
            else (case fr_json response of
                    Inl m \<Rightarrow> fail Fetch (Body_not_json m)
                  | Inr body \<Rightarrow> validateBundleShape body (vp_hostname params))))"

definition runCertChainStage :: "verify_env \<Rightarrow> attestation_bundle \<Rightarrow> int option \<Rightarrow> (verify_stage \<times> verify_reason, string \<times> x509) result" where
  "runCertChainStage env bundle now =
     (case validateChain (crypto env) (b_certChain bundle) (case now of Some t \<Rightarrow> t | None \<Rightarrow> chain_clock env) of
        Inl e \<Rightarrow> fail Cert_chain_stage (Chain e)
      | Inr parsed \<Rightarrow> Inr (pc_rootFingerprint parsed, pc_leaf parsed))"

fun runTrustedRootStage :: "verify_env \<Rightarrow> string \<Rightarrow> trusted_root list \<Rightarrow> (verify_stage \<times> verify_reason, string \<times> string) result" where
  "runTrustedRootStage env rootFingerprint [] = fail Untrusted_root (Not_in_store rootFingerprint)"
| "runTrustedRootStage env rootFingerprint (r # roots) =
     (case rootFingerprintFromPem (crypto env) (tr_pem r) of
        Inl m \<Rightarrow> fail Untrusted_root (Bad_trusted_root (tr_name r) m)
      | Inr fp \<Rightarrow> if fingerprintsEqual fp rootFingerprint then Inr (tr_name r, fp)
                 else runTrustedRootStage env rootFingerprint roots)"

definition payload_string :: "string \<Rightarrow> json \<Rightarrow> string" where
  "payload_string k p = (case json_string (json_get k p) of Some s \<Rightarrow> s | None \<Rightarrow> [])"

definition runJwsStage :: "verify_env \<Rightarrow> attestation_bundle \<Rightarrow> x509 \<Rightarrow> string \<Rightarrow> (verify_stage \<times> verify_reason, json) result" where
  "runJwsStage env bundle leaf expectedHostname =
     (case verifyJws (crypto env) (b_jws bundle) leaf of
        Inl e \<Rightarrow> fail Jws_stage (Jws e)
      | Inr payload \<Rightarrow>
          if payload_string ''kind'' payload \<noteq> b_kind bundle
          then fail Jws_stage (Payload_kind (payload_string ''kind'' payload) (b_kind bundle))
          else if payload_string ''hostname'' payload \<noteq> expectedHostname
          then fail Jws_stage (Payload_hostname (payload_string ''hostname'' payload))
          else Inr payload)"

definition runFreshnessStage :: "verify_env \<Rightarrow> string \<Rightarrow> int option \<Rightarrow> int option \<Rightarrow> (verify_stage \<times> verify_reason, unit) result" where
  "runFreshnessStage env issuedAt maxBundleAge now =
     (case maxBundleAge of
        None \<Rightarrow> Inr ()
      | Some maxAge \<Rightarrow> (case parse_date env issuedAt of
          None \<Rightarrow> fail Jws_stage (Unparseable_issuedAt issuedAt)
        | Some issued \<Rightarrow>
            let age = (case now of Some t \<Rightarrow> t | None \<Rightarrow> freshness_clock env) - issued
            in if age > maxAge then fail Jws_stage (Too_old age maxAge)
               else if age < - ALLOWED_CLOCK_SKEW_MS then fail Jws_stage (In_the_future (- age))
               else Inr ()))"

definition runTlsFingerprintStage ::
  "verify_env \<Rightarrow> string \<Rightarrow> string option \<Rightarrow> string option \<Rightarrow> (verify_stage \<times> verify_reason, channel_binding) result" where
  "runTlsFingerprintStage env payloadFingerprint observedFingerprint tlsLeafPem =
     (case observedFingerprint of
        Some seen \<Rightarrow> if fingerprintsEqual payloadFingerprint seen then Inr Observed
                     else fail Tls_fingerprint (Observed_mismatch payloadFingerprint seen)
      | None \<Rightarrow> (case tlsLeafPem of
          Some pem \<Rightarrow> (case rootFingerprintFromPem (crypto env) pem of
              Inl m \<Rightarrow> fail Tls_fingerprint (Bad_tls_leaf m)
            | Inr derived \<Rightarrow> if fingerprintsEqual payloadFingerprint derived then Inr Producer_asserted
                            else fail Tls_fingerprint (Leaf_mismatch payloadFingerprint derived))
        | None \<Rightarrow> fail Tls_fingerprint No_binding))"

definition runPipeline :: "verify_env \<Rightarrow> verify_params \<Rightarrow> verify_result" where
  "runPipeline env params =
     res_bind (fetchBundle env params) (\<lambda>bundle.
     res_bind (runCertChainStage env bundle (vp_now params)) (\<lambda>(rootFingerprint, leaf).
     res_bind (runTrustedRootStage env rootFingerprint (vp_trustedRoots params)) (\<lambda>matchedRoot.
     res_bind (runJwsStage env bundle leaf (vp_hostname params)) (\<lambda>payload.
     res_bind (runFreshnessStage env (payload_string ''issuedAt'' payload) (vp_maxBundleAge params) (vp_now params)) (\<lambda>_.
     res_bind (runTlsFingerprintStage env (payload_string ''certFingerprint'' payload) (vp_observed params) (b_tlsLeaf bundle))
       (\<lambda>channelBinding.
     Inr \<lparr>ok_kind = payload_string ''kind'' payload, ok_payload = payload, ok_matchedRoot = matchedRoot,
          ok_rootCaTeeQuote = b_rootCaTeeQuote bundle, ok_channelBinding = channelBinding\<rparr>))))))"

section \<open>The verdict cache\<close>

record cache_entry =
  ce_expiresAt :: int
  ce_value :: verify_result

record memory_cache =
  mc_ttlMs :: int
  mc_maxEntries :: nat
  mc_entries :: "(string \<times> cache_entry) list"

definition cache_get :: "string \<Rightarrow> int \<Rightarrow> memory_cache \<Rightarrow> verify_result option \<times> memory_cache" where
  "cache_get key now c =
     (case map_of (mc_entries c) key of
        None \<Rightarrow> (None, c)
      | Some entry \<Rightarrow> if ce_expiresAt entry \<le> now then (None, c\<lparr>mc_entries := map_delete key (mc_entries c)\<rparr>)
                     else (Some (ce_value entry), c))"

definition cache_set :: "string \<Rightarrow> verify_result \<Rightarrow> int \<Rightarrow> memory_cache \<Rightarrow> memory_cache" where
  "cache_set key val now c =
     (let kept = (if mc_maxEntries c \<le> length (mc_entries c) then drop 1 (mc_entries c) else mc_entries c)
      in c\<lparr>mc_entries := map_set key \<lparr>ce_expiresAt = now + mc_ttlMs c, ce_value = val\<rparr> kept\<rparr>)"

definition trustedRootsDigest :: "crypto_env \<Rightarrow> trusted_root list \<Rightarrow> string" where
  "trustedRootsDigest env roots =
     (if \<not> subtle env
      then join_with '','' (map (\<lambda>r. tr_name r @ '':'' @ show_nat (length (tr_pem r))) roots)
      else b64_encode (digest env (utf8_encode (concat (sort (map (\<lambda>r. tr_name r @ '' '' @ tr_pem r) roots))))))"

definition buildCacheKey :: "crypto_env \<Rightarrow> string \<Rightarrow> string option \<Rightarrow> trusted_root list \<Rightarrow> string" where
  "buildCacheKey env hostname observed roots =
     hostname @ ''|'' @ (case observed of Some f \<Rightarrow> f | None \<Rightarrow> ''producer-asserted'') @ ''|'' @ trustedRootsDigest env roots"

text \<open>A call without a cache; one that has a cache is a lookup and, after a miss, the pipeline with its store: between
  the two, other calls on the same cache may take their own steps.\<close>

definition params_check :: "verify_params \<Rightarrow> (verify_stage \<times> verify_reason, unit) result" where
  "params_check params =
     (if vp_hostname params = [] then fail Fetch Empty_hostname
      else (case vp_observed params of
              Some f \<Rightarrow> if isFingerprint f then Inr () else fail Tls_fingerprint Malformed_observed
            | None \<Rightarrow> Inr ()))"

definition cache_key :: "crypto_env \<Rightarrow> verify_params \<Rightarrow> string" where
  "cache_key env params =
     buildCacheKey env (vp_hostname params) (vp_observed params) (vp_trustedRoots params)
     @ ''|'' @ (case vp_maxBundleAge params of Some n \<Rightarrow> show_int n | None \<Rightarrow> [])"

definition verify_lookup :: "crypto_env \<Rightarrow> verify_params \<Rightarrow> int \<Rightarrow> memory_cache \<Rightarrow> verify_result option \<times> memory_cache" where
  "verify_lookup env params t c =
     (case params_check params of
        Inl e \<Rightarrow> (Some (Inl e), c)
      | Inr _ \<Rightarrow> cache_get (cache_key env params) t c)"

definition verify_finish :: "verify_env \<Rightarrow> verify_params \<Rightarrow> int \<Rightarrow> memory_cache \<Rightarrow> verify_result \<times> memory_cache" where
  "verify_finish env params t c =
     (case runPipeline env params of
        Inl e \<Rightarrow> (Inl e, c)
      | Inr ok \<Rightarrow> (Inr ok, cache_set (cache_key (crypto env) params) (Inr ok) t c))"

definition verifyHostname :: "verify_env \<Rightarrow> verify_params \<Rightarrow> int \<Rightarrow> int \<Rightarrow> memory_cache option \<Rightarrow> verify_result \<times> memory_cache option" where
  "verifyHostname env params t1 t2 cache =
     (case cache of
        None \<Rightarrow> (case params_check params of Inl e \<Rightarrow> Inl e | Inr _ \<Rightarrow> runPipeline env params, None)
      | Some c \<Rightarrow> (case verify_lookup (crypto env) params t1 c of
          (Some hit, c') \<Rightarrow> (hit, Some c')
        | (None, c') \<Rightarrow> (case verify_finish env params t2 c' of (r, c'') \<Rightarrow> (r, Some c''))))"

text \<open>Calls that share a cache, as the interleaved steps they take: \<open>Start\<close> is the lookup of a call, \<open>Finish\<close> its
  pipeline after a miss, with the network and the clock of that call; the libraries \<open>cr\<close> are those of the process.\<close>

datatype verify_event = Start verify_params int | Finish verify_env verify_params int

definition verify_event_step :: "crypto_env \<Rightarrow> verify_event \<Rightarrow> memory_cache \<Rightarrow> memory_cache" where
  "verify_event_step cr e c =
     (case e of
        Start params t \<Rightarrow> snd (verify_lookup cr params t c)
      | Finish env params t \<Rightarrow>
          if params_check params = Inr () then snd (verify_finish (env\<lparr>crypto := cr\<rparr>) params t c) else c)"

section \<open>What the pipeline accepts\<close>

definition verify_time :: "int option \<Rightarrow> int \<Rightarrow> int" where
  "verify_time now clock = (case now of Some t \<Rightarrow> t | None \<Rightarrow> clock)"

text \<open>The first trusted root with the fingerprint, every root in front of it being a readable certificate of another
  fingerprint.\<close>

definition first_trusted :: "verify_env \<Rightarrow> trusted_root list \<Rightarrow> string \<Rightarrow> string \<Rightarrow> bool" where
  "first_trusted env roots fp nm \<longleftrightarrow>
     (\<exists>i < length roots. tr_name (roots ! i) = nm \<and> rootFingerprintFromPem (crypto env) (tr_pem (roots ! i)) = Inr fp
        \<and> (\<forall>j < i. \<exists>f. rootFingerprintFromPem (crypto env) (tr_pem (roots ! j)) = Inr f \<and> f \<noteq> fp))"

definition fresh_enough :: "verify_env \<Rightarrow> verify_params \<Rightarrow> string \<Rightarrow> bool" where
  "fresh_enough env params issuedAt \<longleftrightarrow>
     (case vp_maxBundleAge params of
        None \<Rightarrow> True
      | Some maxAge \<Rightarrow> (case parse_date env issuedAt of
          None \<Rightarrow> False
        | Some issued \<Rightarrow> verify_time (vp_now params) (freshness_clock env) - issued \<in> {- 60000 .. maxAge}))"

definition bound_to_channel :: "verify_env \<Rightarrow> string option \<Rightarrow> string option \<Rightarrow> string \<Rightarrow> channel_binding \<Rightarrow> bool" where
  "bound_to_channel env seen tlsLeaf fp binding \<longleftrightarrow>
     (case seen of
        Some f \<Rightarrow> fp = f \<and> binding = Observed
      | None \<Rightarrow> (\<exists>pem. tlsLeaf = Some pem \<and> rootFingerprintFromPem (crypto env) pem = Inr fp) \<and> binding = Producer_asserted)"

lemma ex_projected:
  assumes "\<And>c f. g (k c f) = f" and "\<And>c f. h (k c f) = h' c"
  shows "(\<exists>ch. (\<exists>c f. P c \<and> Q c \<and> S c = Some f \<and> ch = k c f) \<and> fp = g ch \<and> leaf = h ch) \<longleftrightarrow>
    (\<exists>c. P c \<and> Q c \<and> S c = Some fp \<and> leaf = h' c)"
  using assms by metis

lemma chain_stage_Inr:
  "runCertChainStage env bundle now = Inr (fp, leaf) \<longleftrightarrow>
   (\<exists>certs. list_all2 (\<lambda>pem c. parse_cert (crypto env) pem = Inr c) (b_certChain bundle) certs
      \<and> chain_valid (crypto env) (verify_time now (chain_clock env)) certs
      \<and> sha256Fingerprint (subtle (crypto env)) (digest (crypto env)) (rawData (last certs)) = Some fp \<and> leaf = hd certs)"
proof -
  have "runCertChainStage env bundle now = Inr (fp, leaf) \<longleftrightarrow>
      (\<exists>ch. validateChain (crypto env) (b_certChain bundle) (verify_time now (chain_clock env)) = Inr ch
        \<and> fp = pc_rootFingerprint ch \<and> leaf = pc_leaf ch)"
    by (auto simp: runCertChainStage_def fail_def verify_time_def split: sum.split)
  then show ?thesis unfolding validateChain_eq
    by (subst (asm) ex_projected [where h' = hd]) (simp_all add: chain_of_def)
qed

lemma root_stage_Inr: "runTrustedRootStage env fp roots = Inr (nm, f) \<longleftrightarrow> f = fp \<and> first_trusted env roots fp nm"
proof (induction roots)
  case (Cons r roots)
  have split: "first_trusted env (r # roots) fp nm \<longleftrightarrow>
      tr_name r = nm \<and> rootFingerprintFromPem (crypto env) (tr_pem r) = Inr fp
      \<or> (\<exists>f. rootFingerprintFromPem (crypto env) (tr_pem r) = Inr f \<and> f \<noteq> fp) \<and> first_trusted env roots fp nm"
    by (simp add: first_trusted_def Ex_less_Suc2 All_less_Suc2) blast
  show ?case
  proof (cases "rootFingerprintFromPem (crypto env) (tr_pem r)")
    case (Inl m)
    then show ?thesis by (simp add: split fail_def)
  next
    case (Inr g)
    with Cons.IH show ?thesis by (auto simp: split fingerprintsEqual_iff)
  qed
qed (simp add: first_trusted_def fail_def)

lemma jws_stage_Inr:
  "runJwsStage env bundle leaf host = Inr p \<longleftrightarrow>
   isEvidencePayload p \<and> (\<exists>bytes. jws_signed (crypto env) (b_jws bundle) leaf bytes \<and> parse_json (crypto env) bytes = Inr p)
   \<and> payload_string ''kind'' p = b_kind bundle \<and> payload_string ''hostname'' p = host"
proof -
  have "runJwsStage env bundle leaf host = Inr p \<longleftrightarrow> verifyJws (crypto env) (b_jws bundle) leaf = Inr p
      \<and> payload_string ''kind'' p = b_kind bundle \<and> payload_string ''hostname'' p = host"
    by (auto simp: runJwsStage_def fail_def split: sum.split)
  then show ?thesis unfolding verifyJws_Inr by blast
qed

lemma freshness_stage_Inr:
  "runFreshnessStage env issuedAt (vp_maxBundleAge params) (vp_now params) = Inr u \<longleftrightarrow> fresh_enough env params issuedAt"
  by (auto simp: runFreshnessStage_def fresh_enough_def fail_def verify_time_def ALLOWED_CLOCK_SKEW_MS_def Let_def
      split: option.split)

lemma tls_stage_Inr:
  "runTlsFingerprintStage env fp seen leaf = Inr binding \<longleftrightarrow> bound_to_channel env seen leaf fp binding"
  by (auto simp: runTlsFingerprintStage_def bound_to_channel_def fail_def fingerprintsEqual_iff
      split: option.split sum.split)

lemma params_check_Inr:
  "params_check params = Inr u \<longleftrightarrow> vp_hostname params \<noteq> [] \<and> (\<forall>f. vp_observed params = Some f \<longrightarrow> isFingerprint f)"
  by (auto simp: params_check_def fail_def split: option.split)

lemmas stage_Inr = chain_stage_Inr root_stage_Inr jws_stage_Inr freshness_stage_Inr tls_stage_Inr

definition verdict_given :: "verify_env \<Rightarrow> verify_params \<Rightarrow> attestation_bundle \<Rightarrow> string \<Rightarrow> x509 \<Rightarrow> verify_ok \<Rightarrow> bool" where
  "verdict_given env params bundle fp leaf ok \<longleftrightarrow>
     (let payload = ok_payload ok
      in first_trusted env (vp_trustedRoots params) fp (fst (ok_matchedRoot ok)) \<and> snd (ok_matchedRoot ok) = fp
         \<and> isEvidencePayload payload
         \<and> (\<exists>bytes. jws_signed (crypto env) (b_jws bundle) leaf bytes \<and> parse_json (crypto env) bytes = Inr payload)
         \<and> payload_string ''hostname'' payload = vp_hostname params
         \<and> payload_string ''kind'' payload = b_kind bundle \<and> ok_kind ok = b_kind bundle
         \<and> fresh_enough env params (payload_string ''issuedAt'' payload)
         \<and> bound_to_channel env (vp_observed params) (b_tlsLeaf bundle) (payload_string ''certFingerprint'' payload) (ok_channelBinding ok)
         \<and> ok_rootCaTeeQuote ok = b_rootCaTeeQuote bundle)"

lemma verdict_Inr:
  "res_bind (runTrustedRootStage env fp (vp_trustedRoots params)) (\<lambda>matchedRoot.
     res_bind (runJwsStage env bundle leaf (vp_hostname params)) (\<lambda>payload.
     res_bind (runFreshnessStage env (payload_string ''issuedAt'' payload) (vp_maxBundleAge params) (vp_now params)) (\<lambda>_.
     res_bind (runTlsFingerprintStage env (payload_string ''certFingerprint'' payload) (vp_observed params) (b_tlsLeaf bundle))
       (\<lambda>channelBinding.
     Inr \<lparr>ok_kind = payload_string ''kind'' payload, ok_payload = payload, ok_matchedRoot = matchedRoot,
          ok_rootCaTeeQuote = b_rootCaTeeQuote bundle, ok_channelBinding = channelBinding\<rparr>)))) = Inr ok
   \<longleftrightarrow> verdict_given env params bundle fp leaf ok"
  by (cases ok; cases "ok_matchedRoot ok") (auto simp: verdict_given_def res_bind_eq_Inr stage_Inr Let_def)

lemma runPipeline_Inr:
  "runPipeline env params = Inr ok \<longleftrightarrow>
   (\<exists>bundle fp leaf. fetchBundle env params = Inr bundle
      \<and> runCertChainStage env bundle (vp_now params) = Inr (fp, leaf) \<and> verdict_given env params bundle fp leaf ok)"
  unfolding runPipeline_def res_bind_eq_Inr [of "fetchBundle env params"]
    res_bind_eq_Inr [where r = "runCertChainStage env _ (vp_now params)"] split_paired_Ex prod.case verdict_Inr by blast

lemma shape_hostname: "validateBundleShape v host = Inr bundle \<Longrightarrow> b_hostname bundle = host"
  by (auto simp: validateBundleShape_def res_bind_eq_Inr guard_eq_Inr)

text \<open>C9: verification accepts exactly the evidence that deserves it. It succeeds if and only if the request is well
  formed, the host published a well-formed bundle for its own name, the certificate chain of the bundle is valid at the
  time of verification, its root is the first of the trusted roots with that fingerprint, and the payload is an
  evidence payload for this host and the kind of the bundle, signed under the key of the chain's leaf, as recent as the
  caller demands (up to a minute in the future), and naming the TLS certificate of the channel: the one the caller saw,
  or, if it saw none, the one published with the bundle.\<close>

theorem verify_exact:
  "verifyHostname env params t1 t2 None = (Inr ok, None) \<longleftrightarrow>
   vp_hostname params \<noteq> [] \<and> pred_option isFingerprint (vp_observed params)
   \<and> (\<exists>bundle certs fp. fetchBundle env params = Inr bundle
        \<and> list_all2 (\<lambda>pem c. parse_cert (crypto env) pem = Inr c) (b_certChain bundle) certs
        \<and> chain_valid (crypto env) (verify_time (vp_now params) (chain_clock env)) certs
        \<and> sha256Fingerprint (subtle (crypto env)) (digest (crypto env)) (rawData (last certs)) = Some fp
        \<and> verdict_given env params bundle fp (hd certs) ok)"
proof -
  have "verifyHostname env params t1 t2 None = (Inr ok, None) \<longleftrightarrow> params_check params = Inr () \<and> runPipeline env params = Inr ok"
    by (auto simp: verifyHostname_def split: sum.split)
  moreover have "params_check params = Inr () \<longleftrightarrow> vp_hostname params \<noteq> [] \<and> pred_option isFingerprint (vp_observed params)"
    by (cases "vp_observed params") (simp_all add: params_check_Inr)
  ultimately show ?thesis unfolding runPipeline_Inr chain_stage_Inr by blast
qed

section \<open>What the cache answers\<close>

text \<open>What the verifier asks of a cache (\<open>VerifyCache\<close> in \<open>types.ts\<close>) in order to trust its answers: an answer was
  stored under the key less than a lifetime ago, and only storing adds an answer.\<close>

locale verdict_cache =
  fixes get :: "'k \<Rightarrow> int \<Rightarrow> 'c \<Rightarrow> 'v option \<times> 'c"
    and put :: "'k \<Rightarrow> 'v \<Rightarrow> int \<Rightarrow> 'c \<Rightarrow> 'c"
    and holds :: "'c \<Rightarrow> 'k \<Rightarrow> 'v \<Rightarrow> int \<Rightarrow> bool"
    and lifetime :: "'c \<Rightarrow> int"
  assumes get_held: "get k t c = (Some v, c') \<Longrightarrow> \<exists>s. holds c k v s \<and> t < s + lifetime c"
    and get_keeps: "get k t c = (r, c') \<Longrightarrow> holds c' k' v s \<Longrightarrow> holds c k' v s"
    and put_keeps: "holds (put k v t c) k' v' s \<Longrightarrow> holds c k' v' s \<or> k' = k \<and> v' = v \<and> s = t"
    and get_lifetime: "get k t c = (r, c') \<Longrightarrow> lifetime c' = lifetime c"
    and put_lifetime: "lifetime (put k v t c) = lifetime c"
begin

definition recorded :: "('k \<times> 'v \<times> int) set \<Rightarrow> 'c \<Rightarrow> bool" where
  "recorded H c \<longleftrightarrow> (\<forall>k v s. holds c k v s \<longrightarrow> (k, v, s) \<in> H)"

lemma recorded_get: "recorded H c \<Longrightarrow> recorded H (snd (get k t c))"
  unfolding recorded_def using get_keeps [of k t c "fst (get k t c)" "snd (get k t c)"] by fastforce

lemma recorded_put: "recorded H c \<Longrightarrow> recorded (insert (k, v, t) H) (put k v t c)"
  unfolding recorded_def using put_keeps by blast

lemma recorded_mono: "recorded H c \<Longrightarrow> H \<subseteq> H' \<Longrightarrow> recorded H' c"
  unfolding recorded_def by blast

lemma recorded_hit: "recorded H c \<Longrightarrow> get k t c = (Some v, c') \<Longrightarrow> \<exists>s. (k, v, s) \<in> H \<and> t < s + lifetime c"
  unfolding recorded_def using get_held by blast

end

definition cache_holds :: "memory_cache \<Rightarrow> string \<Rightarrow> verify_result \<Rightarrow> int \<Rightarrow> bool" where
  "cache_holds c k v s \<longleftrightarrow> (k, \<lparr>ce_expiresAt = s + mc_ttlMs c, ce_value = v\<rparr>) \<in> set (mc_entries c)"

lemma set_map_set: "set (map_set k v m) \<subseteq> insert (k, v) (set m)"
  by (induction m rule: map_set.induct) auto

lemma cache_get_frame [simp]: "mc_ttlMs (snd (cache_get k t c)) = mc_ttlMs c" "mc_maxEntries (snd (cache_get k t c)) = mc_maxEntries c"
  by (auto simp: cache_get_def split: option.split)

lemma cache_set_frame [simp]: "mc_ttlMs (cache_set k v t c) = mc_ttlMs c" "mc_maxEntries (cache_set k v t c) = mc_maxEntries c"
  by (simp_all add: cache_set_def Let_def)

lemma cache_get_entries: "set (mc_entries (snd (cache_get k t c))) \<subseteq> set (mc_entries c)"
  by (auto simp: cache_get_def map_delete_def split: option.split)

lemma cache_set_entries:
  "set (mc_entries (cache_set k v t c)) \<subseteq> insert (k, \<lparr>ce_expiresAt = t + mc_ttlMs c, ce_value = v\<rparr>) (set (mc_entries c))"
proof -
  let ?e = "\<lparr>ce_expiresAt = t + mc_ttlMs c, ce_value = v\<rparr>"
  define kept where "kept = (if mc_maxEntries c \<le> length (mc_entries c) then drop 1 (mc_entries c) else mc_entries c)"
  have "set kept \<subseteq> set (mc_entries c)" using set_drop_subset [of 1 "mc_entries c"] by (simp add: kept_def)
  moreover have "mc_entries (cache_set k v t c) = map_set k ?e kept" by (simp add: cache_set_def kept_def)
  ultimately show ?thesis using set_map_set [of k ?e kept] by auto
qed

interpretation mc: verdict_cache cache_get cache_set cache_holds mc_ttlMs
proof
  fix k t c v c'
  assume "cache_get k t c = (Some v, c')"
  then obtain e where "map_of (mc_entries c) k = Some e" "\<not> ce_expiresAt e \<le> t" "v = ce_value e"
    by (auto simp: cache_get_def split: option.splits if_splits)
  then show "\<exists>s. cache_holds c k v s \<and> t < s + mc_ttlMs c"
    by (intro exI [of _ "ce_expiresAt e - mc_ttlMs c"]) (cases e, auto simp: cache_holds_def dest: map_of_SomeD)
next
  fix k t c r c' k' v s
  assume "cache_get k t c = (r, c')" "cache_holds c' k' v s"
  then show "cache_holds c k' v s"
    using cache_get_entries [of k t c] cache_get_frame(1) [of k t c] by (auto simp: cache_holds_def)
next
  fix k v t c k' v' s
  assume "cache_holds (cache_set k v t c) k' v' s"
  then show "cache_holds c k' v' s \<or> k' = k \<and> v' = v \<and> s = t"
    using cache_set_entries [of k v t c] by (auto simp: cache_holds_def)
next
  fix k t c r c'
  assume "cache_get k t c = (r, c')"
  then show "mc_ttlMs c' = mc_ttlMs c" using cache_get_frame(1) [of k t c] by simp
qed simp

lemma first_bar: "x \<notin> set b \<Longrightarrow> x \<notin> set b' \<Longrightarrow> b @ x # a = b' @ x # a' \<longleftrightarrow> b = b' \<and> a = a'"
proof (induction b arbitrary: b')
  case Nil
  then show ?case by (cases b') auto
next
  case (Cons y b)
  then show ?case by (cases b') auto
qed

lemma last_bar: "x \<notin> set b \<Longrightarrow> x \<notin> set b' \<Longrightarrow> a @ x # b = a' @ x # b' \<longleftrightarrow> a = a' \<and> b = b'"
  using first_bar [of x "rev b" "rev b'" "rev a" "rev a'"] rev_is_rev_conv [of "a @ x # b" "a' @ x # b'"] by auto

lemma digit_no_bar: "is_digit c \<Longrightarrow> c \<noteq> CHR ''|''"
  by (auto simp: is_digit_def)

lemma b64url_no_bar: "is_b64url c \<Longrightarrow> c \<noteq> CHR ''|''"
  by (auto simp: is_b64url_def b64_value_def)

lemma show_int_no_bar: "CHR ''|'' \<notin> set (show_int n)"
  using show_nat_digits [of "nat n"] show_nat_digits [of "nat (- n)"] digit_no_bar
  by (auto simp: show_int_def list_all_iff)

lemma show_int_nonempty: "show_int n \<noteq> []"
  by (simp add: show_int_def)

lemma fingerprint_no_bar: "isFingerprint f \<Longrightarrow> CHR ''|'' \<notin> set f"
proof -
  assume f: "isFingerprint f"
  then have "take 7 f = ''sha256/''" by (simp add: isFingerprint_def starts_with_def numeral_eq_Suc)
  moreover have "CHR ''|'' \<notin> set (drop 7 f)" using f b64url_no_bar by (auto simp: isFingerprint_def is_fingerprint_char_def list_all_iff)
  moreover have "set f = set (take 7 f) \<union> set (drop 7 f)" by (metis append_take_drop_id set_append)
  ultimately show ?thesis by simp
qed

lemma fingerprint_not_producer: "isFingerprint f \<Longrightarrow> f \<noteq> ''producer-asserted''"
  by (auto simp: isFingerprint_def starts_with_def)

lemma digest_no_bar:
  "subtle cr \<Longrightarrow> \<forall>x. list_all (\<lambda>b. b < 256) (digest cr x) \<Longrightarrow> CHR ''|'' \<notin> set (trustedRootsDigest cr roots)"
proof -
  assume "subtle cr" "\<forall>x. list_all (\<lambda>b. b < 256) (digest cr x)"
  then have "list_all is_b64url (trustedRootsDigest cr roots)" using encode_shape by (simp add: trustedRootsDigest_def)
  then show ?thesis using b64url_no_bar by (auto simp: list_all_iff)
qed

lemma cache_key_inj:
  assumes "subtle cr" and "\<forall>x. list_all (\<lambda>b. b < 256) (digest cr x)"
    and "params_check p = Inr u" and "params_check q = Inr u'" and "cache_key cr p = cache_key cr q"
  shows "vp_hostname p = vp_hostname q \<and> vp_observed p = vp_observed q \<and> vp_maxBundleAge p = vp_maxBundleAge q
    \<and> trustedRootsDigest cr (vp_trustedRoots p) = trustedRootsDigest cr (vp_trustedRoots q)"
proof -
  define ob where "ob = (\<lambda>p :: verify_params. case vp_observed p of Some f \<Rightarrow> f | None \<Rightarrow> ''producer-asserted'')"
  define ag where "ag = (\<lambda>p :: verify_params. case vp_maxBundleAge p of Some n \<Rightarrow> show_int n | None \<Rightarrow> [])"
  have ob: "CHR ''|'' \<notin> set (ob p)" if "params_check p = Inr u" for p u
    using that fingerprint_no_bar by (auto simp: params_check_Inr ob_def split: option.split)
  have ag: "CHR ''|'' \<notin> set (ag p)" for p using show_int_no_bar by (simp add: ag_def split: option.split)
  have key: "cache_key cr p =
      (((vp_hostname p) @ CHR ''|'' # ob p) @ CHR ''|'' # trustedRootsDigest cr (vp_trustedRoots p)) @ CHR ''|'' # ag p" for p
    by (simp add: cache_key_def buildCacheKey_def ob_def ag_def)
  have eq: "vp_hostname p = vp_hostname q \<and> ob p = ob q \<and> ag p = ag q
      \<and> trustedRootsDigest cr (vp_trustedRoots p) = trustedRootsDigest cr (vp_trustedRoots q)"
    using assms(5) unfolding key last_bar [OF ag ag]
      last_bar [OF digest_no_bar [OF assms(1,2)] digest_no_bar [OF assms(1,2)]] last_bar [OF ob [OF assms(3)] ob [OF assms(4)]]
    by blast
  have "ob p = ob q \<Longrightarrow> vp_observed p = vp_observed q" using assms(3,4) fingerprint_not_producer
    by (auto simp: ob_def params_check_Inr split: option.splits)
  moreover have "ag p = ag q \<Longrightarrow> vp_maxBundleAge p = vp_maxBundleAge q"
    unfolding ag_def
    by (cases "vp_maxBundleAge p"; cases "vp_maxBundleAge q")
      (auto dest: show_int_inj simp: show_int_nonempty show_int_nonempty [symmetric])
  ultimately show ?thesis using eq by blast
qed

definition stored :: "crypto_env \<Rightarrow> verify_event list \<Rightarrow> (string \<times> verify_result \<times> int) set" where
  "stored cr es = {(cache_key cr p, Inr ok, s) | env p ok s. Finish env p s \<in> set es \<and> params_check p = Inr ()
      \<and> runPipeline (env\<lparr>crypto := cr\<rparr>) p = Inr ok}"

lemma stored_Cons: "stored cr es \<subseteq> stored cr (es @ [e])"
  unfolding stored_def by auto

lemma step_recorded: "mc.recorded (stored cr es) c \<Longrightarrow> mc.recorded (stored cr (es @ [e])) (verify_event_step cr e c)"
proof (cases e)
  case (Start p t)
  assume "mc.recorded (stored cr es) c"
  note mc.recorded_mono [OF this stored_Cons]
  then show ?thesis using Start mc.recorded_get by (auto simp: verify_event_step_def verify_lookup_def split: sum.split)
next
  case (Finish env p t)
  assume r: "mc.recorded (stored cr es) c"
  note keep = mc.recorded_mono [OF r stored_Cons]
  show ?thesis
  proof (cases "params_check p = Inr () \<and> (\<exists>ok. runPipeline (env\<lparr>crypto := cr\<rparr>) p = Inr ok)")
    case True
    then obtain ok where ok: "runPipeline (env\<lparr>crypto := cr\<rparr>) p = Inr ok" "params_check p = Inr ()" by blast
    have "insert (cache_key cr p, Inr ok, t) (stored cr es) \<subseteq> stored cr (es @ [e])"
      using ok Finish unfolding stored_def by auto
    then have "mc.recorded (stored cr (es @ [e])) (cache_set (cache_key cr p) (Inr ok) t c)"
      by (rule mc.recorded_mono [OF mc.recorded_put [OF r]])
    with ok Finish show ?thesis by (simp add: verify_event_step_def verify_finish_def)
  next
    case False
    with keep Finish show ?thesis by (auto simp: verify_event_step_def verify_finish_def split: sum.split)
  qed
qed

definition verify_events :: "crypto_env \<Rightarrow> int \<Rightarrow> nat \<Rightarrow> verify_event list \<Rightarrow> memory_cache" where
  "verify_events cr ttl cap es = fold (verify_event_step cr) es \<lparr>mc_ttlMs = ttl, mc_maxEntries = cap, mc_entries = []\<rparr>"

lemma verify_events_recorded: "mc.recorded (stored cr es) (verify_events cr ttl cap es)"
proof (induction es rule: rev_induct)
  case Nil
  show ?case unfolding mc.recorded_def verify_events_def by (simp add: cache_holds_def)
next
  case (snoc e es)
  then show ?case using step_recorded [of cr es _ e] by (simp add: verify_events_def)
qed

lemma step_frame [simp]:
  "mc_ttlMs (verify_event_step cr e c) = mc_ttlMs c" "mc_maxEntries (verify_event_step cr e c) = mc_maxEntries c"
  by (auto simp: verify_event_step_def verify_lookup_def verify_finish_def split: verify_event.split sum.split)

lemma fold_frame:
  "mc_ttlMs (fold (verify_event_step cr) es c) = mc_ttlMs c"
  "mc_maxEntries (fold (verify_event_step cr) es c) = mc_maxEntries c"
  by (induction es arbitrary: c) simp_all

lemma cache_set_bound:
  "length (mc_entries c) \<le> max 1 (mc_maxEntries c) \<Longrightarrow> length (mc_entries (cache_set k v t c)) \<le> max 1 (mc_maxEntries c)"
  by (auto simp: cache_set_def Let_def length_map_set)

lemma step_bound:
  "length (mc_entries c) \<le> max 1 (mc_maxEntries c) \<Longrightarrow> length (mc_entries (verify_event_step cr e c)) \<le> max 1 (mc_maxEntries c)"
  using cache_set_bound [of c]
  by (auto simp: verify_event_step_def verify_lookup_def verify_finish_def cache_get_def map_delete_def
      intro: le_trans [OF length_filter_le] split: verify_event.split sum.split option.split)

lemma events_bound: "length (mc_entries (verify_events cr ttl cap es)) \<le> max 1 cap"
proof (induction es rule: rev_induct)
  case (snoc e es)
  then show ?case using step_bound [of "verify_events cr ttl cap es" cr e] by (simp add: verify_events_def fold_frame)
qed (simp add: verify_events_def)

lemma pipeline_needs_subtle: "runPipeline env p = Inr ok \<Longrightarrow> subtle (crypto env)"
  by (auto simp: runPipeline_Inr chain_stage_Inr sha256Fingerprint_def split: if_splits)

text \<open>C10: a cached verdict is one that verification gave: whatever calls shared the cache before, in whatever
  interleaving, an answer given without running the pipeline is either the refusal of a malformed request or the
  success of an earlier run for the same host, the same observed fingerprint, the same set of trusted roots (by its
  digest) and the same age policy, finished less than the lifetime ago. Failures are never cached, and the cache never
  holds more than its capacity (or one entry).\<close>

theorem cached_verdict:
  assumes "\<forall>x. list_all (\<lambda>b. b < 256) (digest cr x)"
    and "verify_lookup cr params t (verify_events cr ttl cap es) = (Some r, c')"
  shows "((\<exists>e. params_check params = Inl e \<and> r = Inl e)
      \<or> (\<exists>env p s ok. Finish env p s \<in> set es \<and> t < s + ttl \<and> runPipeline (env\<lparr>crypto := cr\<rparr>) p = Inr ok \<and> r = Inr ok
            \<and> vp_hostname p = vp_hostname params \<and> vp_observed p = vp_observed params
            \<and> vp_maxBundleAge p = vp_maxBundleAge params
            \<and> trustedRootsDigest cr (vp_trustedRoots p) = trustedRootsDigest cr (vp_trustedRoots params)))
    \<and> length (mc_entries (verify_events cr ttl cap es)) \<le> max 1 cap"
proof (cases "params_check params")
  case (Inl e)
  with assms(2) events_bound [of cr ttl cap es] show ?thesis by (auto simp: verify_lookup_def)
next
  case (Inr u)
  then have "cache_get (cache_key cr params) t (verify_events cr ttl cap es) = (Some r, c')"
    using assms(2) by (simp add: verify_lookup_def)
  from mc.recorded_hit [OF verify_events_recorded this] obtain s where
    "(cache_key cr params, r, s) \<in> stored cr es" and s: "t < s + mc_ttlMs (verify_events cr ttl cap es)" by blast
  then obtain env p ok where f: "Finish env p s \<in> set es" "params_check p = Inr ()"
      "runPipeline (env\<lparr>crypto := cr\<rparr>) p = Inr ok" "r = Inr ok" and key: "cache_key cr p = cache_key cr params"
    unfolding stored_def by auto
  have "subtle cr" using pipeline_needs_subtle [OF f(3)] by simp
  note cache_key_inj [OF this assms(1) f(2) Inr key]
  moreover have "t < s + ttl" using s by (simp add: verify_events_def fold_frame)
  ultimately show ?thesis using f events_bound by blast
qed

definition w_cert :: x509 where
  "w_cert = \<lparr>rawData = [1], subject = ''r'', issuer = ''r'', notBefore = 0, notAfter = 100, spkiData = [2], keyAlgorithm = None,
     namedCurve = None, signature = [3], basicConstraints = None, keyCertSign = None\<rparr>"

definition w_payload :: json where
  "w_payload = JObj [(''version'', JStr ''1''), (''kind'', JStr ''DeploymentEvidence''), (''hostname'', JStr ''h''),
     (''issuedAt'', JStr ''d''), (''certFingerprint'', JStr ''sha256/AA''), (''jws'', JStr ''j''), (''certChain'', JArr [JStr ''p''])]"

definition w_crypto :: crypto_env where
  "w_crypto = \<lparr>parse_cert = (\<lambda>_. Inr w_cert), subtle_verify = (\<lambda>_ _. Inr True), export_key = Inr,
     jose_header = (\<lambda>_. Inr (JObj [(''alg'', JStr ''RS256'')])), jose_verify = (\<lambda>_ k _. Inr k), curve = (\<lambda>_ _ _ _. Inr True),
     subtle = True, digest = (\<lambda>_. [0]), parse_json = (\<lambda>_. Inr w_payload)\<rparr>"

definition w_env :: verify_env where
  "w_env = \<lparr>crypto = w_crypto, fetcher = Some (\<lambda>_. Inr \<lparr>fr_status = 200, fr_json = Inr w_payload\<rparr>), parse_date = (\<lambda>_. Some 0),
     chain_clock = 50, freshness_clock = 50\<rparr>"

definition w_params :: verify_params where
  "w_params = \<lparr>vp_hostname = ''h'', vp_observed = Some ''sha256/AA'', vp_trustedRoots = [\<lparr>tr_name = ''n'', tr_pem = ''p''\<rparr>],
     vp_now = None, vp_maxBundleAge = Some 60\<rparr>"

definition w_ok :: verify_ok where
  "w_ok = \<lparr>ok_kind = ''DeploymentEvidence'', ok_payload = w_payload, ok_matchedRoot = (''n'', ''sha256/AA''),
     ok_rootCaTeeQuote = None, ok_channelBinding = Observed\<rparr>"

lemma w_hit: "fst (verify_lookup w_crypto w_params 10 (verify_events w_crypto 60000 256 [Finish w_env w_params 5])) = Some (Inr w_ok)"
  by code_simp

theorem cached_verdict_witness:
  "fst (verify_lookup w_crypto w_params 10 (verify_events w_crypto 60000 256 [Finish w_env w_params 5])) = Some (Inr w_ok)
   \<and> runPipeline (w_env\<lparr>crypto := w_crypto\<rparr>) w_params = Inr w_ok
   \<and> length (mc_entries (verify_events w_crypto 60000 256 [Finish w_env w_params 5])) \<le> 256"
proof -
  have ok: "params_check w_params = Inr ()" by code_simp
  have bytes: "\<forall>x. list_all (\<lambda>b. b < 256) (digest w_crypto x)" by (simp add: w_crypto_def)
  from w_hit have "\<exists>c'. verify_lookup w_crypto w_params 10 (verify_events w_crypto 60000 256 [Finish w_env w_params 5]) =
      (Some (Inr w_ok), c')"
    by (metis prod.collapse)
  then show ?thesis using cached_verdict [OF bytes, where t = 10 and ttl = 60000 and cap = 256 and r = "Inr w_ok" and params = w_params
        and es = "[Finish w_env w_params 5]"] w_hit ok by auto
qed

end
