(* ===== verification/Secret_Envelope.thy ===== *)
theory Secret_Envelope
  imports Der_Crypto
begin

text \<open>
  \<open>secrets/secret-envelope.ts\<close> and \<open>secrets/secret-envelope.service.ts\<close>: the sealing of an upstream API key under
  the data key of the environment, bound to the row that owns it. AES-256-GCM of \<open>node:crypto\<close> is a pair of arguments:
  encryption with the additional data gives the ciphertext and the tag, decryption gives the plaintext or fails.
  \<open>Buffer.toString('utf8')\<close> is an argument as well; the random nonce is an argument of the call that draws it.
\<close>

type_synonym aead_seal = "nat list \<Rightarrow> nat list \<Rightarrow> nat list \<Rightarrow> nat list \<Rightarrow> nat list \<times> nat list"
type_synonym aead_open = "nat list \<Rightarrow> nat list \<Rightarrow> nat list \<Rightarrow> nat list \<Rightarrow> nat list \<Rightarrow> nat list option"

definition KEY_BYTES :: nat where "KEY_BYTES = 32"

definition IV_BYTES :: nat where "IV_BYTES = 12"

definition TAG_BYTES :: nat where "TAG_BYTES = 16"

definition ENVELOPE_VERSION :: string where "ENVELOPE_VERSION = ''v1''"

datatype secret_error =
    Missing_data_key
  | Malformed_data_key nat
  | Not_in_format
  | Shorter_than_nonce_and_tag
  | Does_not_match

definition is_hex_key :: "string \<Rightarrow> bool" where
  "is_hex_key s \<longleftrightarrow> length s = 64 \<and> list_all (\<lambda>c. hex_value c \<noteq> None) s"

definition parseSecretsKey :: "string option \<Rightarrow> (secret_error, nat list) result" where
  "parseSecretsKey val =
     (case map_option trim val of
        None \<Rightarrow> Inl Missing_data_key
      | Some trimmed \<Rightarrow>
          if trimmed = [] then Inl Missing_data_key
          else let decoded = (if is_hex_key trimmed then hex_bytes trimmed else b64_decode trimmed)
               in if length decoded \<noteq> KEY_BYTES then Inl (Malformed_data_key (length decoded)) else Inr decoded)"

definition sealSecret :: "aead_seal \<Rightarrow> nat list \<Rightarrow> nat list \<Rightarrow> string \<Rightarrow> string \<Rightarrow> string" where
  "sealSecret gcm key iv plaintext ctx =
     (case gcm key iv (utf8_encode ctx) (utf8_encode plaintext) of (ciphertext, tag) \<Rightarrow>
        ENVELOPE_VERSION @ ''.'' @ b64_encode (iv @ ciphertext @ tag))"

definition openSecret :: "aead_open \<Rightarrow> (nat list \<Rightarrow> string) \<Rightarrow> nat list \<Rightarrow> string \<Rightarrow> string \<Rightarrow> (secret_error, string) result" where
  "openSecret gcm decode key envelope ctx =
     (case split_on CHR ''.'' envelope of
        [version, payload] \<Rightarrow>
          if version \<noteq> ENVELOPE_VERSION \<or> payload = [] then Inl Not_in_format
          else let packed = b64_decode payload
               in if length packed < IV_BYTES + TAG_BYTES then Inl Shorter_than_nonce_and_tag
                  else let iv = take IV_BYTES packed;
                           ciphertext = drop IV_BYTES (take (length packed - TAG_BYTES) packed);
                           tag = drop (length packed - TAG_BYTES) packed
                       in (case gcm key iv (utf8_encode ctx) ciphertext tag of
                             Some plain \<Rightarrow> Inr (decode plain)
                           | None \<Rightarrow> Inl Does_not_match)
      | _ \<Rightarrow> Inl Not_in_format)"

definition SECRET_DISPLAY_PREFIX_LENGTH :: nat where "SECRET_DISPLAY_PREFIX_LENGTH = 8"

definition secretDisplayPrefix :: "string \<Rightarrow> string" where
  "secretDisplayPrefix plaintext = take SECRET_DISPLAY_PREFIX_LENGTH plaintext"

section \<open>The service\<close>

text \<open>The service keeps the key it has read; the environment is read when there is none yet.\<close>

record secret_service =
  ss_key :: "nat list option"

record sealed_secret =
  sealed_ciphertext :: string
  sealed_prefix :: string

definition dataKey :: "string option \<Rightarrow> secret_service \<Rightarrow> (secret_error, nat list) result \<times> secret_service" where
  "dataKey var s =
     (case ss_key s of
        Some key \<Rightarrow> (Inr key, s)
      | None \<Rightarrow> (case parseSecretsKey var of Inl e \<Rightarrow> (Inl e, s) | Inr key \<Rightarrow> (Inr key, s\<lparr>ss_key := Some key\<rparr>)))"

text \<open>The answer, and whether the reason is logged.\<close>

definition secrets_available :: "string option \<Rightarrow> secret_service \<Rightarrow> (bool \<times> secret_error option) \<times> secret_service" where
  "secrets_available var s =
     (case dataKey var s of
        (Inr _, s') \<Rightarrow> ((True, None), s')
      | (Inl e, s') \<Rightarrow> ((False, if e = Missing_data_key then None else Some e), s'))"

definition seal_secret ::
  "aead_seal \<Rightarrow> string option \<Rightarrow> nat list \<Rightarrow> string \<Rightarrow> string \<Rightarrow> secret_service \<Rightarrow> (secret_error, sealed_secret) result \<times> secret_service" where
  "seal_secret gcm var iv plaintext ctx s =
     (case dataKey var s of
        (Inl e, s') \<Rightarrow> (Inl e, s')
      | (Inr key, s') \<Rightarrow> (Inr \<lparr>sealed_ciphertext = sealSecret gcm key iv plaintext ctx,
                              sealed_prefix = secretDisplayPrefix plaintext\<rparr>, s'))"

definition open_secret ::
  "aead_open \<Rightarrow> (nat list \<Rightarrow> string) \<Rightarrow> string option \<Rightarrow> string \<Rightarrow> string \<Rightarrow> secret_service \<Rightarrow> (secret_error, string) result \<times> secret_service" where
  "open_secret gcm decode var ciphertext ctx s =
     (case dataKey var s of
        (Inl e, s') \<Rightarrow> (Inl e, s')
      | (Inr key, s') \<Rightarrow> (openSecret gcm decode key ciphertext ctx, s'))"

section \<open>Round trip and binding\<close>

text \<open>What is used of AES-256-GCM: for a key of 32 bytes and a nonce of 12, encryption gives a ciphertext as long as
  the plaintext and a tag of 16 bytes, and decryption gives a plaintext exactly when encrypting it gives that
  ciphertext and that tag.\<close>

definition gcm_laws :: "aead_seal \<Rightarrow> aead_open \<Rightarrow> bool" where
  "gcm_laws enc dec \<longleftrightarrow>
     (\<forall>k iv a p. length k = KEY_BYTES \<longrightarrow> length iv = IV_BYTES \<longrightarrow> all_bytes p \<longrightarrow>
        all_bytes (fst (enc k iv a p)) \<and> all_bytes (snd (enc k iv a p))
        \<and> length (fst (enc k iv a p)) = length p \<and> length (snd (enc k iv a p)) = TAG_BYTES)
     \<and> (\<forall>k iv a c t p. length k = KEY_BYTES \<longrightarrow> length iv = IV_BYTES \<longrightarrow> length t = TAG_BYTES \<longrightarrow>
        (dec k iv a c t = Some p \<longleftrightarrow> all_bytes p \<and> enc k iv a p = (c, t)))"

definition packs :: "aead_seal \<Rightarrow> nat list \<Rightarrow> string \<Rightarrow> string \<Rightarrow> nat list \<Rightarrow> bool" where
  "packs enc key envelope ctx plain \<longleftrightarrow>
     (\<exists>payload iv c t. envelope = ENVELOPE_VERSION @ ''.'' @ payload \<and> CHR ''.'' \<notin> set payload
        \<and> b64_decode payload = iv @ c @ t \<and> length iv = IV_BYTES \<and> length t = TAG_BYTES
        \<and> all_bytes plain \<and> enc key iv (utf8_encode ctx) plain = (c, t))"

lemma unpack:
  assumes "IV_BYTES + TAG_BYTES \<le> length packed"
  defines "iv \<equiv> take IV_BYTES packed" and "c \<equiv> drop IV_BYTES (take (length packed - TAG_BYTES) packed)"
    and "t \<equiv> drop (length packed - TAG_BYTES) packed"
  shows "packed = iv' @ c' @ t' \<and> length iv' = IV_BYTES \<and> length t' = TAG_BYTES \<longleftrightarrow> iv' = iv \<and> c' = c \<and> t' = t"
proof -
  have "take IV_BYTES (take (length packed - TAG_BYTES) packed) = iv" using assms(1) by (simp add: iv_def min_absorb1 le_diff_conv2)
  then have "take (length packed - TAG_BYTES) packed = iv @ c" unfolding c_def by (metis append_take_drop_id)
  then have "packed = iv @ c @ t" unfolding t_def by (metis append.assoc append_take_drop_id)
  moreover have "length iv = IV_BYTES" "length t = TAG_BYTES" using assms(1) by (simp_all add: iv_def t_def)
  ultimately show ?thesis by (metis append_eq_append_conv)
qed

lemma openSecret_Inr:
  assumes "gcm_laws enc dec" and "length key = KEY_BYTES"
  shows "openSecret dec decode key envelope ctx = Inr p \<longleftrightarrow> (\<exists>plain. packs enc key envelope ctx plain \<and> p = decode plain)"
proof (cases "\<exists>payload. split_on CHR ''.'' envelope = [ENVELOPE_VERSION, payload] \<and> IV_BYTES + TAG_BYTES \<le> length (b64_decode payload)")
  case True
  then obtain payload where split: "split_on CHR ''.'' envelope = [ENVELOPE_VERSION, payload]"
    and len: "IV_BYTES + TAG_BYTES \<le> length (b64_decode payload)" by blast
  let ?p = "b64_decode payload"
  let ?iv = "take IV_BYTES ?p" and ?c = "drop IV_BYTES (take (length ?p - TAG_BYTES) ?p)" and ?t = "drop (length ?p - TAG_BYTES) ?p"
  have "payload \<noteq> []" using len by (auto simp: b64_decode_def IV_BYTES_def)
  then have "openSecret dec decode key envelope ctx = Inr p \<longleftrightarrow>
      (\<exists>plain. dec key ?iv (utf8_encode ctx) ?c ?t = Some plain \<and> p = decode plain)"
    using split len by (auto simp: openSecret_def Let_def split: option.split)
  moreover have "(\<exists>plain. dec key ?iv (utf8_encode ctx) ?c ?t = Some plain \<and> p = decode plain) \<longleftrightarrow>
      (\<exists>plain. (all_bytes plain \<and> enc key ?iv (utf8_encode ctx) plain = (?c, ?t)) \<and> p = decode plain)"
    using assms len by (simp add: gcm_laws_def)
  moreover have "(all_bytes plain \<and> enc key ?iv (utf8_encode ctx) plain = (?c, ?t)) \<longleftrightarrow> packs enc key envelope ctx plain" for plain
  proof
    assume "all_bytes plain \<and> enc key ?iv (utf8_encode ctx) plain = (?c, ?t)"
    with unpack [OF len, of ?iv ?c ?t] split show "packs enc key envelope ctx plain"
      unfolding packs_def split_two by (intro exI [of _ payload] exI [of _ ?iv] exI [of _ ?c] exI [of _ ?t]) simp
  next
    assume "packs enc key envelope ctx plain"
    then obtain pl iv c t where d: "envelope = ENVELOPE_VERSION @ ''.'' @ pl" "CHR ''.'' \<notin> set pl"
      "b64_decode pl = iv @ c @ t \<and> length iv = IV_BYTES \<and> length t = TAG_BYTES"
      "all_bytes plain" "enc key iv (utf8_encode ctx) plain = (c, t)" unfolding packs_def by blast
    then have "pl = payload" using split by (simp add: split_two)
    with d(3) unpack [OF len, of iv c t] have "iv = ?iv" "c = ?c" "t = ?t" by simp_all
    with d show "all_bytes plain \<and> enc key ?iv (utf8_encode ctx) plain = (?c, ?t)" by simp
  qed
  ultimately show ?thesis by simp
next
  case False
  have v: "CHR ''.'' \<notin> set ENVELOPE_VERSION" by (simp add: ENVELOPE_VERSION_def)
  have "openSecret dec decode key envelope ctx \<noteq> Inr p"
    using False by (auto simp: openSecret_def Let_def split: list.split)
  moreover have "\<not> packs enc key envelope ctx plain" for plain
    using False v by (auto simp: packs_def split_two)
  ultimately show ?thesis by blast
qed

lemma gcm_shape:
  assumes "gcm_laws enc dec" and "length k = KEY_BYTES" and "length iv = IV_BYTES" and "all_bytes p"
  shows "all_bytes (fst (enc k iv a p)) \<and> all_bytes (snd (enc k iv a p)) \<and> length (snd (enc k iv a p)) = TAG_BYTES"
proof -
  from assms(1) have "length k = KEY_BYTES \<longrightarrow> length iv = IV_BYTES \<longrightarrow> all_bytes p \<longrightarrow>
      all_bytes (fst (enc k iv a p)) \<and> all_bytes (snd (enc k iv a p))
      \<and> length (fst (enc k iv a p)) = length p \<and> length (snd (enc k iv a p)) = TAG_BYTES"
    unfolding gcm_laws_def by (elim conjE allE)
  with assms(2-4) show ?thesis by simp
qed

lemma seal_packs:
  assumes "gcm_laws enc dec" and "length key = KEY_BYTES" and "length iv = IV_BYTES" and "all_bytes iv"
  shows "packs enc key (sealSecret enc key iv plaintext ctx) ctx (utf8_encode plaintext)"
proof -
  obtain c t where e: "enc key iv (utf8_encode ctx) (utf8_encode plaintext) = (c, t)" by fastforce
  have b: "all_bytes c \<and> all_bytes t \<and> length t = TAG_BYTES"
    using gcm_shape [OF assms(1-3) utf8_bytes, where a = "utf8_encode ctx"] e by (metis fst_conv snd_conv)
  with assms(4) have all: "all_bytes (iv @ c @ t)" by (simp add: all_bytes_def)
  then have "b64_decode (b64_encode (iv @ c @ t)) = iv @ c @ t" by (simp add: b64_roundtrip_bytes all_bytes_def)
  with e b assms(3) b64_no_dot [OF all] show ?thesis
    by (auto simp: packs_def sealSecret_def utf8_bytes intro!: exI [of _ "b64_encode (iv @ c @ t)"])
qed

lemma parseSecretsKey_length: "parseSecretsKey var = Inr key \<Longrightarrow> length key = KEY_BYTES"
  by (auto simp: parseSecretsKey_def Let_def split: option.splits if_splits)

definition service_ok :: "secret_service \<Rightarrow> bool" where
  "service_ok s \<longleftrightarrow> pred_option (\<lambda>k. length k = KEY_BYTES) (ss_key s)"

lemma dataKey_ok:
  "service_ok s \<Longrightarrow> dataKey var s = (Inr key, s') \<Longrightarrow> ss_key s' = Some key \<and> length key = KEY_BYTES"
  using parseSecretsKey_length by (auto simp: service_ok_def dataKey_def split: option.splits sum.splits)

text \<open>An envelope opens under a context only if the cipher gives its ciphertext and tag for that context.\<close>

lemma packs_again:
  assumes "gcm_laws enc dec" and "length key = KEY_BYTES" and "length iv = IV_BYTES" and "all_bytes iv"
    and "packs enc key (sealSecret enc key iv plaintext ctx) ctx' plain"
  shows "enc key iv (utf8_encode ctx') plain = enc key iv (utf8_encode ctx) (utf8_encode plaintext)"
proof -
  obtain c t where e: "enc key iv (utf8_encode ctx) (utf8_encode plaintext) = (c, t)" by fastforce
  have shape: "all_bytes c" "all_bytes t" "length t = TAG_BYTES"
    using gcm_shape [OF assms(1-3) utf8_bytes, where a = "utf8_encode ctx"] e by (metis fst_conv snd_conv)+
  from assms(5) obtain payload iv' c' t' where d: "b64_encode (iv @ c @ t) = payload"
    "b64_decode payload = iv' @ c' @ t'" "length iv' = IV_BYTES" "length t' = TAG_BYTES"
    "enc key iv' (utf8_encode ctx') plain = (c', t')"
    unfolding packs_def sealSecret_def e by auto
  have "iv @ c @ t = iv' @ c' @ t'"
    using d(1,2) shape assms(4) b64_roundtrip_bytes [of "iv @ c @ t"] by (simp add: all_bytes_def)
  with assms(3) d(3,4) shape(3) have "iv = iv'" "c = c'" "t = t'" by auto
  with d(5) e show ?thesis by simp
qed

text \<open>C32: what the secrets service seals for a row it opens for that row: whatever the environment holds by then, the
  service that sealed a credential returns it, and keeps of it only its first eight characters outside of the envelope.
  For any other row, opening gives something only if AES-GCM itself produces the same ciphertext and tag for that row
  under the same nonce. Assumed of AES-GCM is that decryption undoes encryption, with its lengths.\<close>

theorem secret_roundtrip:
  assumes gcm: "gcm_laws enc dec" and decode: "\<forall>s. decode (utf8_encode s) = s" and ok: "service_ok sv"
    and iv: "length iv = IV_BYTES" "all_bytes iv"
    and sealed: "seal_secret enc var iv plaintext ctx sv = (Inr sealed, sv')"
  shows "open_secret dec decode var' (sealed_ciphertext sealed) ctx sv' = (Inr plaintext, sv')
    \<and> sealed_prefix sealed = take 8 plaintext
    \<and> (\<forall>ctx' q. open_secret dec decode var' (sealed_ciphertext sealed) ctx' sv' = (Inr q, sv') \<longrightarrow>
         (\<exists>key plain. ss_key sv' = Some key \<and> q = decode plain
            \<and> enc key iv (utf8_encode ctx') plain = enc key iv (utf8_encode ctx) (utf8_encode plaintext)))"
proof -
  obtain key where k: "dataKey var sv = (Inr key, sv')"
    and c: "sealed_ciphertext sealed = sealSecret enc key iv plaintext ctx" and pre: "sealed_prefix sealed = take 8 plaintext"
    using sealed by (auto simp: seal_secret_def secretDisplayPrefix_def SECRET_DISPLAY_PREFIX_LENGTH_def split: prod.splits sum.splits)
  from dataKey_ok [OF ok k] have key: "ss_key sv' = Some key" "length key = KEY_BYTES" by simp_all
  have opens: "open_secret dec decode var' e ctx sv' = (Inr q, sv') \<longleftrightarrow> (\<exists>plain. packs enc key e ctx plain \<and> q = decode plain)" for e ctx q
    using openSecret_Inr [OF gcm key(2)] by (simp add: open_secret_def dataKey_def key(1))
  show ?thesis
  proof (intro conjI allI impI)
    show "open_secret dec decode var' (sealed_ciphertext sealed) ctx sv' = (Inr plaintext, sv')"
      unfolding opens c using seal_packs [OF gcm key(2) iv] decode by metis
  next
    fix ctx' q
    assume "open_secret dec decode var' (sealed_ciphertext sealed) ctx' sv' = (Inr q, sv')"
    then show "\<exists>key plain. ss_key sv' = Some key \<and> q = decode plain
        \<and> enc key iv (utf8_encode ctx') plain = enc key iv (utf8_encode ctx) (utf8_encode plaintext)"
      unfolding opens c using packs_again [OF gcm key(2) iv] key(1) by blast
  qed (rule pre)
qed

text \<open>A cipher with the assumed laws, and a decoder of what \<open>utf8_encode\<close> produces.\<close>

definition w_enc :: aead_seal where "w_enc k iv a p = (p, replicate 16 0)"

definition w_dec :: aead_open where "w_dec k iv a c t = (if all_bytes c \<and> t = replicate 16 0 then Some c else None)"

fun w_utf8 :: "nat list \<Rightarrow> string" where
  "w_utf8 [] = []"
| "w_utf8 (b # bs) =
     (if b < 128 then char_of b # w_utf8 bs
      else (case bs of [] \<Rightarrow> [] | b' # r \<Rightarrow> char_of ((b - 192) * 64 + (b' - 128)) # w_utf8 r))"

lemma w_utf8_encode: "w_utf8 (utf8_encode s) = s"
proof (induction s)
  case (Cons c s)
  have "char_of (of_char c div 64 * 64 + of_char c mod 64 :: nat) = c" by simp
  with Cons show ?case by (simp add: utf8_encode_def Let_def)
qed (simp add: utf8_encode_def)

theorem secret_roundtrip_witness:
  "open_secret w_dec w_utf8 None (sealSecret w_enc (replicate 32 7) (replicate 12 5) ''sk-live-123'' ''row'') ''row''
     \<lparr>ss_key = Some (replicate 32 7)\<rparr> = (Inr ''sk-live-123'', \<lparr>ss_key = Some (replicate 32 7)\<rparr>)"
proof -
  have laws: "gcm_laws w_enc w_dec" by (auto simp: gcm_laws_def w_enc_def w_dec_def all_bytes_def TAG_BYTES_def list_all_iff)
  have "service_ok \<lparr>ss_key = Some (replicate 32 7)\<rparr>" by (simp add: service_ok_def KEY_BYTES_def)
  moreover have "seal_secret w_enc None (replicate 12 5) ''sk-live-123'' ''row'' \<lparr>ss_key = Some (replicate 32 7)\<rparr> =
      (Inr \<lparr>sealed_ciphertext = sealSecret w_enc (replicate 32 7) (replicate 12 5) ''sk-live-123'' ''row'', sealed_prefix = ''sk-live-''\<rparr>,
       \<lparr>ss_key = Some (replicate 32 7)\<rparr>)"
    by (simp add: seal_secret_def dataKey_def secretDisplayPrefix_def SECRET_DISPLAY_PREFIX_LENGTH_def)
  moreover have "length (replicate 12 (5 :: nat)) = IV_BYTES" "all_bytes (replicate 12 5)"
    by (simp_all add: IV_BYTES_def all_bytes_def list_all_iff)
  ultimately show ?thesis
    using secret_roundtrip [OF laws, where decode = w_utf8 and var' = None] w_utf8_encode by fastforce
qed

end
