(* ===== verification/Invite_Code.thy ===== *)
theory Invite_Code
  imports Prelude
begin

text \<open>
  \<open>invites/invite-code.ts\<close>: the alphabet of invitation codes, their stored form (upper case, no separators), the form
  that is shown, and minting. The numbers of \<open>randomInt\<close> are an argument of minting. \<open>toUpperCase\<close> turns the sharp s
  into two letters; the two characters below 256 whose upper case is above 255 are left as they are, as neither is
  part of the alphabet.
\<close>

definition INVITE_CODE_ALPHABET :: string where "INVITE_CODE_ALPHABET = ''23456789ABCDEFGHJKMNPQRSTVWXYZ''"

definition GROUP_LENGTH :: nat where "GROUP_LENGTH = 4"

definition GROUPS :: nat where "GROUPS = 3"

definition INVITE_CODE_LENGTH :: nat where "INVITE_CODE_LENGTH = GROUP_LENGTH * GROUPS"

definition is_separator :: "char \<Rightarrow> bool" where
  "is_separator c \<longleftrightarrow> is_space c \<or> c = CHR ''-'' \<or> c = CHR ''_''"

definition upper_of :: "char \<Rightarrow> string" where
  "upper_of c =
     (let n = of_char c :: nat
      in if n = 223 then ''SS''
         else if 97 \<le> n \<and> n \<le> 122 \<or> 224 \<le> n \<and> n \<le> 254 \<and> n \<noteq> 247 then [char_of (n - 32)] else [c])"

definition normaliseInviteCode :: "string \<Rightarrow> string" where
  "normaliseInviteCode v = concat (map upper_of (filter (\<lambda>c. \<not> is_separator c) (trim v)))"

fun code_groups :: "string \<Rightarrow> string list" where
  "code_groups [] = []"
| "code_groups (a # s) = take GROUP_LENGTH (a # s) # code_groups (drop (GROUP_LENGTH - 1) s)"

definition formatInviteCode :: "string \<Rightarrow> string" where
  "formatInviteCode normalised = join_with ''-'' (code_groups normalised)"

definition looksLikeInviteCode :: "string \<Rightarrow> bool" where
  "looksLikeInviteCode normalised \<longleftrightarrow>
     length normalised = INVITE_CODE_LENGTH \<and> list_all (\<lambda>c. c \<in> set INVITE_CODE_ALPHABET) normalised"

definition mintInviteCode :: "nat list \<Rightarrow> string" where
  "mintInviteCode randoms = map (\<lambda>n. INVITE_CODE_ALPHABET ! n) (take INVITE_CODE_LENGTH randoms)"

definition campaign_char :: "char \<Rightarrow> bool" where
  "campaign_char c \<longleftrightarrow> (let n = of_char c :: nat in 97 \<le> n \<and> n \<le> 122) \<or> is_digit c"

definition isInviteCampaignTag :: "string \<Rightarrow> bool" where
  "isInviteCampaignTag v \<longleftrightarrow>
     (case v of [] \<Rightarrow> False
      | c # s \<Rightarrow> campaign_char c \<and> length s \<le> 63 \<and> list_all (\<lambda>c. campaign_char c \<or> c \<in> set ''._-'') s)"

section \<open>Codes survive being shown\<close>

lemma alphabet_char: "c \<in> set INVITE_CODE_ALPHABET \<Longrightarrow> \<not> is_separator c \<and> upper_of c = [c] \<and> \<not> is_space c"
  by (auto simp: INVITE_CODE_ALPHABET_def is_separator_def is_space_def upper_of_def)

lemma alphabet_length: "length INVITE_CODE_ALPHABET = 30"
  by (simp add: INVITE_CODE_ALPHABET_def)

lemma twelve:
  assumes "length s = 12"
  obtains a b c d e f g h i j k l where "s = [a, b, c, d, e, f, g, h, i, j, k, l]"
  using assms by (auto simp: numeral_eq_Suc length_Suc_conv)

lemma format_groups:
  "formatInviteCode [a, b, c, d, e, f, g, h, i, j, k, l] = [a, b, c, d, CHR ''-'', e, f, g, h, CHR ''-'', i, j, k, l]"
  by (simp add: formatInviteCode_def GROUP_LENGTH_def)

lemma normalise_plain:
  assumes "\<And>c. c \<in> set s \<Longrightarrow> \<not> is_space c"
  shows "normaliseInviteCode s = concat (map upper_of (filter (\<lambda>c. \<not> is_separator c) s))"
proof (cases "s = []")
  case False
  then have "trim s = s" using assms by (intro trim_id) auto
  then show ?thesis by (simp add: normaliseInviteCode_def)
qed (simp add: normaliseInviteCode_def trim_def)

lemma normalise_format:
  assumes "looksLikeInviteCode s"
  shows "normaliseInviteCode (formatInviteCode s) = s \<and> normaliseInviteCode s = s"
proof -
  have al: "\<forall>c \<in> set s. \<not> is_separator c \<and> upper_of c = [c] \<and> \<not> is_space c"
    using assms alphabet_char by (auto simp: looksLikeInviteCode_def list_all_iff)
  have "length s = 12" using assms by (simp add: looksLikeInviteCode_def INVITE_CODE_LENGTH_def GROUP_LENGTH_def GROUPS_def)
  from twelve [OF this] obtain a b c d e f g h i j k l where s: "s = [a, b, c, d, e, f, g, h, i, j, k, l]" .
  have dash: "\<not> is_space CHR ''-''" "is_separator CHR ''-''" by (simp_all add: is_space_def is_separator_def)
  have "normaliseInviteCode s = s" using al by (subst normalise_plain) (auto simp: s)
  moreover have "normaliseInviteCode (formatInviteCode s) = s"
    unfolding s format_groups using al dash by (subst normalise_plain) (auto simp: s)
  ultimately show ?thesis by simp
qed

text \<open>A minted code has the shape of a code, and every spelling of it that is shown or typed back finds it.\<close>

lemma minted_found:
  assumes "length randoms = 12" and "\<forall>n \<in> set randoms. n < 30"
  shows "looksLikeInviteCode (mintInviteCode randoms)
    \<and> normaliseInviteCode (formatInviteCode (mintInviteCode randoms)) = mintInviteCode randoms"
proof -
  have "looksLikeInviteCode (mintInviteCode randoms)"
    using assms alphabet_length nth_mem [of _ INVITE_CODE_ALPHABET]
    by (auto simp: looksLikeInviteCode_def mintInviteCode_def INVITE_CODE_LENGTH_def GROUP_LENGTH_def GROUPS_def list_all_iff)
  then show ?thesis using normalise_format by blast
qed

end
