(* ===== verification/Invites.thy ===== *)
theory Invites
  imports Invite_Code Ledger
begin

text \<open>
  \<open>invites/\<close>: invitation codes and the credit they turn into. \<open>invite_db\<close> holds the tables of codes and redemptions and
  the ledger's database. A redemption is a read (\<open>redeem_read\<close>, the checks of \<open>redeem\<close> before its transaction) and a
  transaction (\<open>redeem_commit\<close>) on the row that was read; other operations may come in between, which
  \<open>invite_step\<close> makes explicit. The salted hash, the random ids and the clock are arguments; \<open>inviteUrl\<close> builds its
  link with the URL class of the platform and is left out.
\<close>

section \<open>Data\<close>

record invite_code =
  ic_id :: string
  ic_code :: string
  ic_grantMicros :: int
  ic_campaign :: string
  ic_maxRedemptions :: int
  ic_redemptionCount :: int
  ic_expiresAt :: "int option"
  ic_disabledAt :: "int option"
  ic_note :: "string option"
  ic_issuedByUserId :: "string option"
  ic_createdAt :: int

record invite_redemption =
  rd_id :: string
  rd_inviteCodeId :: string
  rd_userId :: string
  rd_workspaceId :: string
  rd_creditTransactionId :: string
  rd_ipHash :: "string option"
  rd_userAgentHash :: "string option"
  rd_redeemedAt :: int

record invite_db =
  iv_codes :: "invite_code list"
  iv_redemptions :: "invite_redemption list"
  iv_db :: db

datatype unusable_reason = Code_not_found | Code_expired | Code_exhausted | Code_disabled

datatype invite_lookup = Valid_code int string | Invalid_code unusable_reason

datatype redemption_refusal = Unusable unusable_reason | Already_redeemed | Redemption_error

datatype redemption_outcome = Granted int string string string | No_code | Refused redemption_refusal

record sign_up_invite =
  su_code :: "string option"
  su_ip :: "string option"
  su_userAgent :: "string option"

record redeem_input =
  ri_userId :: string
  ri_workspaceId :: string
  ri_invite :: sign_up_invite

text \<open>What a redemption draws: the id and the time of the ledger row, and the id of its own row.\<close>

record redeem_draw =
  dr_transactionId :: string
  dr_transactionAt :: int
  dr_redemptionId :: string

section \<open>InvitesService\<close>

definition unusableReason :: "invite_code \<Rightarrow> int \<Rightarrow> unusable_reason option" where
  "unusableReason invite now =
     (if ic_disabledAt invite \<noteq> None then Some Code_disabled
      else if (case ic_expiresAt invite of Some t \<Rightarrow> t \<le> now | None \<Rightarrow> False) then Some Code_expired
      else if ic_redemptionCount invite \<ge> ic_maxRedemptions invite then Some Code_exhausted
      else None)"

definition find_code :: "invite_db \<Rightarrow> string \<Rightarrow> invite_code option" where
  "find_code s code = List.find (\<lambda>c. ic_code c = code) (iv_codes s)"

definition find_code_id :: "invite_db \<Rightarrow> string \<Rightarrow> invite_code option" where
  "find_code_id s i = List.find (\<lambda>c. ic_id c = i) (iv_codes s)"

definition lookup :: "string \<Rightarrow> int \<Rightarrow> invite_db \<Rightarrow> invite_lookup" where
  "lookup raw now s =
     (let code = normaliseInviteCode raw
      in if \<not> looksLikeInviteCode code then Invalid_code Code_not_found
         else (case find_code s code of
                 None \<Rightarrow> Invalid_code Code_not_found
               | Some found \<Rightarrow> (case unusableReason found now of
                     Some reason \<Rightarrow> Invalid_code reason
                   | None \<Rightarrow> Valid_code (ic_grantMicros found) (ic_campaign found))))"

datatype redeem_error = Claim_lost unusable_reason | Ledger_failed ledger_error | Redemption_not_unique

text \<open>The \<open>WHERE\<close> clause of the claim, and the claim: one relative update.\<close>

definition claimable :: "string \<Rightarrow> int \<Rightarrow> invite_code \<Rightarrow> bool" where
  "claimable i now c \<longleftrightarrow>
     ic_id c = i \<and> ic_redemptionCount c < ic_maxRedemptions c \<and> ic_disabledAt c = None
     \<and> (case ic_expiresAt c of None \<Rightarrow> True | Some t \<Rightarrow> t > now)"

definition claimSeat :: "invite_code \<Rightarrow> int \<Rightarrow> invite_db \<Rightarrow> (redeem_error, invite_db) result" where
  "claimSeat invite now s =
     (if list_ex (claimable (ic_id invite) now) (iv_codes s)
      then Inr (s\<lparr>iv_codes := map (\<lambda>c. if claimable (ic_id invite) now c then c\<lparr>ic_redemptionCount := ic_redemptionCount c + 1\<rparr> else c)
             (iv_codes s)\<rparr>)
      else Inl (Claim_lost (case find_code_id s (ic_id invite) of
             None \<Rightarrow> Code_not_found
           | Some current \<Rightarrow> (case unusableReason current now of Some r \<Rightarrow> r | None \<Rightarrow> Code_exhausted))))"

definition invite_key :: "string \<Rightarrow> string \<Rightarrow> string" where
  "invite_key codeId userId = ''invite:'' @ codeId @ '':'' @ userId"

definition grant_input :: "invite_code \<Rightarrow> redeem_input \<Rightarrow> ledger_input" where
  "grant_input invite input =
     \<lparr>in_workspaceId = ri_workspaceId input, in_kind = Grant, in_amountMicros = ic_grantMicros invite,
      in_idempotencyKey = invite_key (ic_id invite) (ri_userId input), in_reference = Some (ic_campaign invite),
      in_description = Some (''Invitation credit '' @ [CHR 0xB7] @ '' '' @ ic_campaign invite)\<rparr>"

definition fingerprint :: "(string \<Rightarrow> string) \<Rightarrow> string option \<Rightarrow> string option" where
  "fingerprint saltedHash v = (if truthy v then map_option saltedHash v else None)"

definition redemption_row :: "(string \<Rightarrow> string) \<Rightarrow> invite_code \<Rightarrow> redeem_input \<Rightarrow> int \<Rightarrow> redeem_draw \<Rightarrow> invite_redemption" where
  "redemption_row saltedHash invite input now draw =
     \<lparr>rd_id = dr_redemptionId draw, rd_inviteCodeId = ic_id invite, rd_userId = ri_userId input,
      rd_workspaceId = ri_workspaceId input, rd_creditTransactionId = dr_transactionId draw,
      rd_ipHash = fingerprint saltedHash (su_ip (ri_invite input)),
      rd_userAgentHash = fingerprint saltedHash (su_userAgent (ri_invite input)), rd_redeemedAt = now\<rparr>"

definition redemption_violates :: "invite_db \<Rightarrow> invite_redemption \<Rightarrow> bool" where
  "redemption_violates s r \<longleftrightarrow>
     rd_id r \<in> rd_id ` set (iv_redemptions s) \<or> rd_userId r \<in> rd_userId ` set (iv_redemptions s)"

definition grant :: "(string \<Rightarrow> string) \<Rightarrow> invite_code \<Rightarrow> redeem_input \<Rightarrow> int \<Rightarrow> redeem_draw \<Rightarrow> invite_db
    \<Rightarrow> (redeem_error, redemption_outcome \<times> invite_db) result" where
  "grant saltedHash invite input now draw s =
     res_bind (claimSeat invite now s) (\<lambda>s1.
       case appendWithin (iv_db s1) (grant_input invite input) (dr_transactionId draw) (dr_transactionAt draw) of
         Inl e \<Rightarrow> Inl (Ledger_failed e)
       | Inr (entry, d) \<Rightarrow>
           let row = redemption_row saltedHash invite input now draw
           in if redemption_violates s1 row then Inl Redemption_not_unique
              else Inr (Granted (ic_grantMicros invite) (ic_campaign invite) (tx_id (le_transaction entry)) (rd_id row),
                        s1\<lparr>iv_db := d, iv_redemptions := iv_redemptions s1 @ [row]\<rparr>))"

definition redeem_read :: "redeem_input \<Rightarrow> int \<Rightarrow> invite_db \<Rightarrow> (redemption_outcome, invite_code) result" where
  "redeem_read input now s =
     (if \<not> truthy (su_code (ri_invite input)) then Inl No_code
      else let code = normaliseInviteCode (the (su_code (ri_invite input)))
           in if \<not> looksLikeInviteCode code then Inl (Refused (Unusable Code_not_found))
              else (case find_code s code of
                      None \<Rightarrow> Inl (Refused (Unusable Code_not_found))
                    | Some invite \<Rightarrow> (case unusableReason invite now of
                        Some reason \<Rightarrow> Inl (Refused (Unusable reason)) | None \<Rightarrow> Inr invite)))"

text \<open>The transaction, and what \<open>redeem\<close> and \<open>redeemOnSignUp\<close> make of its failure.\<close>

definition refused_as :: "redeem_error \<Rightarrow> redemption_refusal" where
  "refused_as e =
     (case e of
        Claim_lost reason \<Rightarrow> Unusable reason
      | Ledger_failed UniqueViolation \<Rightarrow> Already_redeemed
      | Ledger_failed _ \<Rightarrow> Redemption_error
      | Redemption_not_unique \<Rightarrow> Already_redeemed)"

definition redeem_commit :: "(string \<Rightarrow> string) \<Rightarrow> redeem_input \<Rightarrow> invite_code \<Rightarrow> int \<Rightarrow> redeem_draw \<Rightarrow> invite_db
    \<Rightarrow> redemption_outcome \<times> invite_db" where
  "redeem_commit saltedHash input invite now draw s =
     (case grant saltedHash invite input now draw s of
        Inr (outcome, s') \<Rightarrow> (outcome, s')
      | Inl e \<Rightarrow> (Refused (refused_as e), s))"

definition redeemOnSignUp :: "(string \<Rightarrow> string) \<Rightarrow> redeem_input \<Rightarrow> int \<Rightarrow> redeem_draw \<Rightarrow> invite_db
    \<Rightarrow> redemption_outcome \<times> invite_db" where
  "redeemOnSignUp saltedHash input now draw s =
     (case redeem_read input now s of
        Inl outcome \<Rightarrow> (outcome, s)
      | Inr invite \<Rightarrow> redeem_commit saltedHash input invite now draw s)"

definition redemptionOf :: "string \<Rightarrow> invite_db \<Rightarrow> invite_redemption option" where
  "redemptionOf userId s = List.find (\<lambda>r. rd_userId r = userId) (iv_redemptions s)"

section \<open>Minting a batch\<close>

record generate_request =
  gr_count :: nat
  gr_grantMicros :: int
  gr_campaign :: string
  gr_maxRedemptions :: int
  gr_expiresAt :: "int option"
  gr_note :: "string option"
  gr_issuedByUserId :: "string option"

definition BATCH :: nat where "BATCH = 250"

definition MAX_BATCH_ATTEMPTS :: nat where "MAX_BATCH_ATTEMPTS = 5"

definition code_row :: "generate_request \<Rightarrow> int \<Rightarrow> string \<times> string \<Rightarrow> invite_code" where
  "code_row request now draw =
     \<lparr>ic_id = fst draw, ic_code = snd draw, ic_grantMicros = gr_grantMicros request, ic_campaign = gr_campaign request,
      ic_maxRedemptions = gr_maxRedemptions request, ic_redemptionCount = 0, ic_expiresAt = gr_expiresAt request,
      ic_disabledAt = None, ic_note = gr_note request, ic_issuedByUserId = gr_issuedByUserId request, ic_createdAt = now\<rparr>"

text \<open>One statement: the rows go in together, or a unique index (id or code) refuses them all.\<close>

definition insert_codes :: "invite_code list \<Rightarrow> invite_db \<Rightarrow> invite_db option" where
  "insert_codes rows s =
     (let codes = iv_codes s @ rows
      in if distinct (map ic_id codes) \<and> distinct (map ic_code codes) then Some (s\<lparr>iv_codes := codes\<rparr>) else None)"

text \<open>\<open>draw attempt index\<close> is the id and the code drawn for a row of an attempt. \<open>None\<close> is the exception after the last
  attempt.\<close>

function insertBatch :: "generate_request \<Rightarrow> nat \<Rightarrow> int \<Rightarrow> (nat \<Rightarrow> nat \<Rightarrow> string \<times> string) \<Rightarrow> nat \<Rightarrow> invite_db
    \<Rightarrow> ((string \<times> string) list \<times> invite_db) option" where
  "insertBatch request batch now draw attempt s =
     (let draws = map (draw attempt) [0..<batch]
      in case insert_codes (map (code_row request now) draws) s of
           Some s' \<Rightarrow> Some (map (\<lambda>(i, code). (i, formatInviteCode code)) draws, s')
         | None \<Rightarrow> if attempt \<ge> MAX_BATCH_ATTEMPTS then None else insertBatch request batch now draw (attempt + 1) s)"
  by pat_completeness auto
termination
  by (relation "measure (\<lambda>(_, _, _, _, attempt, _). MAX_BATCH_ATTEMPTS - attempt)") auto

declare insertBatch.simps [simp del]

text \<open>The batches are separate statements: an exception in one leaves the ones before it. \<open>draw minted\<close> are the draws of
  the batch that starts after \<open>minted\<close> codes.\<close>

function generate_from :: "generate_request \<Rightarrow> int \<Rightarrow> (nat \<Rightarrow> nat \<Rightarrow> nat \<Rightarrow> string \<times> string) \<Rightarrow> nat \<Rightarrow> invite_db
    \<Rightarrow> (string \<times> string) list option \<times> invite_db" where
  "generate_from request now draw minted s =
     (if minted < gr_count request
      then (case insertBatch request (min BATCH (gr_count request - minted)) now (draw minted) 1 s of
              None \<Rightarrow> (None, s)
            | Some (codes, s') \<Rightarrow>
                (case generate_from request now draw (minted + BATCH) s' of (r, s'') \<Rightarrow> (map_option ((@) codes) r, s'')))
      else (Some [], s))"
  by pat_completeness auto
termination
  by (relation "measure (\<lambda>(request, _, _, minted, _). gr_count request - minted)") (auto simp: BATCH_def)

declare generate_from.simps [simp del]

definition generateInvites :: "generate_request \<Rightarrow> int \<Rightarrow> (nat \<Rightarrow> nat \<Rightarrow> nat \<Rightarrow> string \<times> string) \<Rightarrow> invite_db
    \<Rightarrow> (string \<times> string) list option \<times> invite_db" where
  "generateInvites request now draw s = generate_from request now draw 0 s"

section \<open>Withdrawal\<close>

record withdrawal_request =
  wr_id :: "string option"
  wr_code :: "string option"
  wr_campaign :: "string option"
  wr_unspentOnly :: bool

datatype target = By_id string | By_code string | By_campaign string

datatype target_error = One_target | Not_the_shape "string option"

definition named :: "string option \<Rightarrow> string option" where
  "named v = (case v of None \<Rightarrow> None | Some s \<Rightarrow> if trim s = [] then None else Some (trim s))"

definition targetOf :: "withdrawal_request \<Rightarrow> (target_error, target) result" where
  "targetOf request =
     (let i = named (wr_id request);
          code = (if named (wr_code request) = None then None else map_option normaliseInviteCode (wr_code request));
          campaign = named (wr_campaign request)
      in if length (filter (\<lambda>v. v \<noteq> None) [i, code, campaign]) > 1 then Inl One_target
         else (case (i, code, campaign) of
                 (Some x, _, _) \<Rightarrow> Inr (By_id x)
               | (None, Some c, _) \<Rightarrow> if looksLikeInviteCode c then Inr (By_code c) else Inl (Not_the_shape (wr_code request))
               | (None, None, Some t) \<Rightarrow> Inr (By_campaign t)
               | (None, None, None) \<Rightarrow> Inl One_target))"

fun targets :: "target \<Rightarrow> invite_code \<Rightarrow> bool" where
  "targets (By_id i) c \<longleftrightarrow> ic_id c = i"
| "targets (By_code code) c \<longleftrightarrow> ic_code c = code"
| "targets (By_campaign t) c \<longleftrightarrow> ic_campaign c = t"

fun nameOf :: "target \<Rightarrow> string" where
  "nameOf (By_id i) = ''invitation '' @ i"
| "nameOf (By_code code) = formatInviteCode code"
| "nameOf (By_campaign t) = t"

record invite_withdrawal =
  wd_target :: string
  wd_matched :: nat
  wd_withdrawn :: nat
  wd_alreadyWithdrawn :: nat
  wd_spent :: nat

record invite_restoration =
  rs_target :: string
  rs_matched :: nat
  rs_restored :: nat
  rs_alreadyUsable :: nat

definition census :: "target \<Rightarrow> invite_db \<Rightarrow> nat \<times> nat" where
  "census t s =
     (length (filter (targets t) (iv_codes s)), length (filter (\<lambda>c. targets t c \<and> ic_disabledAt c \<noteq> None) (iv_codes s)))"

definition stamps :: "target \<Rightarrow> bool \<Rightarrow> invite_code \<Rightarrow> bool" where
  "stamps t unspentOnly c \<longleftrightarrow>
     targets t c \<and> ic_disabledAt c = None \<and> (unspentOnly \<longrightarrow> ic_redemptionCount c < ic_maxRedemptions c)"

definition stamp :: "target \<Rightarrow> bool \<Rightarrow> int \<Rightarrow> invite_db \<Rightarrow> nat \<times> invite_db" where
  "stamp t unspentOnly now s =
     (length (filter (stamps t unspentOnly) (iv_codes s)),
      s\<lparr>iv_codes := map (\<lambda>c. if stamps t unspentOnly c then c\<lparr>ic_disabledAt := Some now\<rparr> else c) (iv_codes s)\<rparr>)"

definition clears :: "target \<Rightarrow> invite_code \<Rightarrow> bool" where
  "clears t c \<longleftrightarrow> targets t c \<and> ic_disabledAt c \<noteq> None"

definition clear :: "target \<Rightarrow> invite_db \<Rightarrow> nat \<times> invite_db" where
  "clear t s =
     (length (filter (clears t) (iv_codes s)),
      s\<lparr>iv_codes := map (\<lambda>c. if clears t c then c\<lparr>ic_disabledAt := None\<rparr> else c) (iv_codes s)\<rparr>)"

definition withdraw :: "withdrawal_request \<Rightarrow> int \<Rightarrow> invite_db \<Rightarrow> (target_error, invite_withdrawal) result \<times> invite_db" where
  "withdraw request now s =
     (case targetOf request of
        Inl e \<Rightarrow> (Inl e, s)
      | Inr t \<Rightarrow> (case census t s of (matched, already) \<Rightarrow> (case stamp t (wr_unspentOnly request) now s of (n, s') \<Rightarrow>
          (Inr \<lparr>wd_target = nameOf t, wd_matched = matched, wd_withdrawn = n, wd_alreadyWithdrawn = already,
                wd_spent = matched - already - n\<rparr>, s'))))"

definition restore :: "withdrawal_request \<Rightarrow> invite_db \<Rightarrow> (target_error, invite_restoration) result \<times> invite_db" where
  "restore request s =
     (case targetOf (request\<lparr>wr_unspentOnly := False\<rparr>) of
        Inl e \<Rightarrow> (Inl e, s)
      | Inr t \<Rightarrow> (case census t s of (matched, withdrawn) \<Rightarrow> (case clear t s of (n, s') \<Rightarrow>
          (Inr \<lparr>rs_target = nameOf t, rs_matched = matched, rs_restored = n, rs_alreadyUsable = matched - withdrawn\<rparr>, s'))))"

definition describeWithdrawal :: "invite_withdrawal \<Rightarrow> string" where
  "describeWithdrawal r =
     (if wd_matched r = 0 then wd_target r @ '': nothing matched. No codes were changed.''
      else let notes = (if wd_alreadyWithdrawn r > 0 then [show_nat (wd_alreadyWithdrawn r) @ '' already withdrawn''] else [])
                 @ (if wd_spent r > 0 then [show_nat (wd_spent r) @ '' spent and left in circulation''] else []);
               tail = (if notes \<noteq> [] then '' ('' @ join_with '', '' notes @ '')'' else [])
           in wd_target r @ '': withdrew '' @ show_nat (wd_withdrawn r) @ '' of '' @ show_nat (wd_matched r) @ '' codes'' @ tail @ ''.'')"

definition describeRestoration :: "invite_restoration \<Rightarrow> string" where
  "describeRestoration r =
     (if rs_matched r = 0 then rs_target r @ '': nothing matched. No codes were changed.''
      else rs_target r @ '': restored '' @ show_nat (rs_restored r) @ '' of '' @ show_nat (rs_matched r) @ '' codes''
        @ (if rs_alreadyUsable r > 0 then '' ('' @ show_nat (rs_alreadyUsable r) @ '' were not withdrawn)'' else []) @ ''.'')"

section \<open>Status of a code\<close>

datatype code_status = Active | Redeemed | Expired_code | Withdrawn

definition inviteCodeStatus :: "invite_code \<Rightarrow> int \<Rightarrow> code_status" where
  "inviteCodeStatus code now =
     (if ic_disabledAt code \<noteq> None then Withdrawn
      else if ic_redemptionCount code \<ge> ic_maxRedemptions code then Redeemed
      else if (case ic_expiresAt code of Some t \<Rightarrow> t \<le> now | None \<Rightarrow> False) then Expired_code
      else Active)"

fun whereStatus :: "code_status \<Rightarrow> int \<Rightarrow> invite_code \<Rightarrow> bool" where
  "whereStatus Withdrawn now c \<longleftrightarrow> ic_disabledAt c \<noteq> None"
| "whereStatus Redeemed now c \<longleftrightarrow> ic_disabledAt c = None \<and> ic_redemptionCount c \<ge> ic_maxRedemptions c"
| "whereStatus Expired_code now c \<longleftrightarrow>
     ic_disabledAt c = None \<and> ic_redemptionCount c < ic_maxRedemptions c \<and> (\<exists>t \<in> set_option (ic_expiresAt c). t \<le> now)"
| "whereStatus Active now c \<longleftrightarrow>
     ic_disabledAt c = None \<and> ic_redemptionCount c < ic_maxRedemptions c \<and> (case ic_expiresAt c of None \<Rightarrow> True | Some t \<Rightarrow> t > now)"

datatype sign_up_origin = Origin_invite | Origin_bootstrap | Origin_open

definition signUpOrigin :: "string \<Rightarrow> bool \<Rightarrow> string option \<Rightarrow> sign_up_origin" where
  "signUpOrigin userId redeemed bootstrapId =
     (if redeemed then Origin_invite else if Some userId = bootstrapId then Origin_bootstrap else Origin_open)"

section \<open>Sign-up\<close>

datatype sign_up_grant = Grant_given int string | Grant_replayed string | Grant_disabled | Grant_refused

definition signup_input :: "string \<Rightarrow> string \<Rightarrow> int \<Rightarrow> ledger_input" where
  "signup_input userId workspaceId grantMicros =
     \<lparr>in_workspaceId = workspaceId, in_kind = Grant, in_amountMicros = grantMicros,
      in_idempotencyKey = ''signup:'' @ userId, in_reference = Some ''signup'',
      in_description = Some ''Credit granted at sign-up''\<rparr>"

definition grantOnSignUp :: "int \<Rightarrow> string \<Rightarrow> string \<Rightarrow> string \<Rightarrow> int \<Rightarrow> db \<Rightarrow> sign_up_grant \<times> db" where
  "grantOnSignUp signupGrantMicros userId workspaceId uuid now d =
     (if signupGrantMicros \<le> 0 then (Grant_disabled, d)
      else case ledger_record d (signup_input userId workspaceId signupGrantMicros) uuid now of
             (Inl e, d') \<Rightarrow> (Grant_refused, d')
           | (Inr entry, d') \<Rightarrow>
               (if le_replayed entry then Grant_replayed (tx_id (le_transaction entry))
                else Grant_given signupGrantMicros (tx_id (le_transaction entry)), d'))"

datatype refusal_code = Invite_required | Invite_already_claimed | Invite_expired_or_unknown

text \<open>\<open>None\<close> is the reason \<open>missing\<close>.\<close>

definition signUpRefusalCodeOf :: "unusable_reason option \<Rightarrow> refusal_code" where
  "signUpRefusalCodeOf reason =
     (case reason of
        None \<Rightarrow> Invite_required
      | Some r \<Rightarrow> if r = Code_exhausted then Invite_already_claimed else Invite_expired_or_unknown)"

definition gate_refusal :: "sign_up_invite \<Rightarrow> int \<Rightarrow> invite_db \<Rightarrow> unusable_reason option option" where
  "gate_refusal invite now s =
     (if \<not> truthy (su_code invite) then Some None
      else (case lookup (the (su_code invite)) now s of
              Valid_code _ _ \<Rightarrow> None
            | Invalid_code reason \<Rightarrow> Some (Some reason)))"

definition gate_admit :: "bool \<Rightarrow> sign_up_invite \<Rightarrow> bool \<Rightarrow> int \<Rightarrow> invite_db \<Rightarrow> (refusal_code, unit) result" where
  "gate_admit required invite bootstrap now s =
     (if \<not> required \<or> bootstrap then Inr ()
      else (case gate_refusal invite now s of
              Some reason \<Rightarrow> Inl (signUpRefusalCodeOf reason)
            | None \<Rightarrow> Inr ()))"

definition gate_admits :: "bool \<Rightarrow> sign_up_invite \<Rightarrow> int \<Rightarrow> invite_db \<Rightarrow> bool" where
  "gate_admits required invite now s \<longleftrightarrow> \<not> required \<or> gate_refusal invite now s = None"

text \<open>The grants of \<open>onUserCreated\<close>, into the workspace just provisioned, and the credit that the welcome mail names.\<close>

definition sign_up_credits :: "(string \<Rightarrow> string) \<Rightarrow> int \<Rightarrow> redeem_input \<Rightarrow> int \<Rightarrow> string \<Rightarrow> redeem_draw \<Rightarrow> invite_db
    \<Rightarrow> (sign_up_grant \<times> redemption_outcome \<times> int) \<times> invite_db" where
  "sign_up_credits saltedHash signupGrantMicros input now uuid draw s =
     (case grantOnSignUp signupGrantMicros (ri_userId input) (ri_workspaceId input) uuid now (iv_db s) of
        (signUpGrant, d) \<Rightarrow> (case redeemOnSignUp saltedHash input now draw (s\<lparr>iv_db := d\<rparr>) of
          (outcome, s') \<Rightarrow>
            ((signUpGrant, outcome,
              (case signUpGrant of Grant_given n _ \<Rightarrow> n | _ \<Rightarrow> 0) + (case outcome of Granted n _ _ _ \<Rightarrow> n | _ \<Rightarrow> 0)), s')))"

section \<open>Interleaved sign-ups\<close>

text \<open>The tables and the redemptions that have been read and not committed. The other steps are operators minting,
  withdrawing and restoring codes, and any other writer of the ledger, whose keys never start with \<open>invite:\<close>.\<close>

record invite_world =
  iw_db :: invite_db
  iw_pending :: "(redeem_input \<times> invite_code \<times> int) set"

definition is_invite_key :: "string \<Rightarrow> bool" where
  "is_invite_key k \<longleftrightarrow> starts_with k ''invite:''"

inductive invite_step :: "(string \<Rightarrow> string) \<Rightarrow> invite_world \<Rightarrow> invite_world \<Rightarrow> bool" for saltedHash where
  read: "redeem_read input now (iw_db w) = Inr invite \<Longrightarrow>
    invite_step saltedHash w (w\<lparr>iw_pending := insert (input, invite, now) (iw_pending w)\<rparr>)"
| commit: "(input, invite, now) \<in> iw_pending w \<Longrightarrow>
    redeem_commit saltedHash input invite now draw (iw_db w) = (outcome, s') \<Longrightarrow> invite_step saltedHash w (w\<lparr>iw_db := s'\<rparr>)"
| mint: "generateInvites request now draws (iw_db w) = (r, s') \<Longrightarrow> invite_step saltedHash w (w\<lparr>iw_db := s'\<rparr>)"
| retire: "withdraw request now (iw_db w) = (r, s') \<Longrightarrow> invite_step saltedHash w (w\<lparr>iw_db := s'\<rparr>)"
| reinstate: "restore request (iw_db w) = (r, s') \<Longrightarrow> invite_step saltedHash w (w\<lparr>iw_db := s'\<rparr>)"
| other: "ledger_record (iv_db (iw_db w)) i uuid now = (r, d') \<Longrightarrow> \<not> is_invite_key (in_idempotencyKey i) \<Longrightarrow>
    invite_step saltedHash w (w\<lparr>iw_db := (iw_db w)\<lparr>iv_db := d'\<rparr>\<rparr>)"

inductive invite_reachable :: "(string \<Rightarrow> string) \<Rightarrow> db \<Rightarrow> invite_world \<Rightarrow> bool" for saltedHash d0 where
  start: "invite_reachable saltedHash d0 \<lparr>iw_db = \<lparr>iv_codes = [], iv_redemptions = [], iv_db = d0\<rparr>, iw_pending = {}\<rparr>"
| step: "invite_reachable saltedHash d0 w \<Longrightarrow> invite_step saltedHash w w' \<Longrightarrow> invite_reachable saltedHash d0 w'"

section \<open>The invariant\<close>

text \<open>What no operation changes of a code.\<close>

definition terms_of :: "invite_code \<Rightarrow> string \<times> string \<times> int \<times> string \<times> int" where
  "terms_of c = (ic_id c, ic_code c, ic_grantMicros c, ic_campaign c, ic_maxRedemptions c)"

definition redemptions_of :: "string \<Rightarrow> invite_db \<Rightarrow> nat" where
  "redemptions_of i s = length (filter (\<lambda>r. rd_inviteCodeId r = i) (iv_redemptions s))"

definition grant_of :: "(string \<times> string \<times> int \<times> string \<times> int) list \<Rightarrow> string \<Rightarrow> int" where
  "grant_of ts i = (case map_of ts i of None \<Rightarrow> 0 | Some (_, g, _) \<Rightarrow> g)"

text \<open>The sum of the ledger rows whose idempotency keys have a given form.\<close>

definition key_credit :: "(string \<Rightarrow> bool) \<Rightarrow> db \<Rightarrow> int" where
  "key_credit P d = sum_list (map tx_amountMicros (filter (\<lambda>t. P (tx_idempotencyKey t)) (transactions d)))"

definition invite_credit :: "db \<Rightarrow> int" where
  "invite_credit d = key_credit is_invite_key d"

definition redeemed_credit :: "invite_db \<Rightarrow> int" where
  "redeemed_credit s = sum_list (map (\<lambda>r. grant_of (map terms_of (iv_codes s)) (rd_inviteCodeId r)) (iv_redemptions s))"

definition counts_ok :: "invite_db \<Rightarrow> bool" where
  "counts_ok s \<longleftrightarrow> (\<forall>c \<in> set (iv_codes s). ic_redemptionCount c = int (redemptions_of (ic_id c) s)
     \<and> (ic_redemptionCount c = 0 \<or> ic_redemptionCount c \<le> ic_maxRedemptions c))"

definition redemption_paid :: "invite_db \<Rightarrow> invite_redemption \<Rightarrow> bool" where
  "redemption_paid s r \<longleftrightarrow> (\<exists>t \<in> set (transactions (iv_db s)). tx_id t = rd_creditTransactionId r \<and> tx_kind t = Grant
     \<and> tx_workspaceId t = rd_workspaceId r \<and> tx_idempotencyKey t = invite_key (rd_inviteCodeId r) (rd_userId r)
     \<and> tx_amountMicros t = grant_of (map terms_of (iv_codes s)) (rd_inviteCodeId r))"

definition invite_inv :: "invite_db \<Rightarrow> bool" where
  "invite_inv s \<longleftrightarrow>
     distinct (map ic_id (iv_codes s)) \<and> distinct (map ic_code (iv_codes s)) \<and> counts_ok s
     \<and> distinct (map rd_userId (iv_redemptions s)) \<and> rd_inviteCodeId ` set (iv_redemptions s) \<subseteq> ic_id ` set (iv_codes s)
     \<and> (\<forall>r \<in> set (iv_redemptions s). redemption_paid s r)
     \<and> invite_credit (iv_db s) = redeemed_credit s \<and> ledger_inv (iv_db s)"

definition pending_ok :: "invite_world \<Rightarrow> bool" where
  "pending_ok w \<longleftrightarrow> (\<forall>(input, invite, now) \<in> iw_pending w. terms_of invite \<in> terms_of ` set (iv_codes (iw_db w)))"

lemma fst_terms: "map fst (map terms_of cs) = map ic_id cs"
  by (simp add: terms_of_def)

lemma terms_ids: "map terms_of cs' = map terms_of cs \<Longrightarrow> map ic_id cs' = map ic_id cs \<and> map ic_code cs' = map ic_code cs"
proof -
  assume t: "map terms_of cs' = map terms_of cs"
  have "map ic_id cs = map fst (map terms_of cs)" "map ic_code cs = map (fst \<circ> snd) (map terms_of cs)" for cs :: "invite_code list"
    by (simp_all add: terms_of_def)
  with t show ?thesis by metis
qed

lemma key_credit_append:
  "ledger_append d i uuid now = Inr (entry, d') \<Longrightarrow>
   key_credit P d' = key_credit P d + (if P (in_idempotencyKey i) then in_amountMicros i else 0)"
  using append_success(4) [of d i uuid now entry d'] by (simp add: key_credit_def transaction_of_def)

lemma key_credit_record:
  "ledger_record d i uuid now = (r, d') \<Longrightarrow> \<not> P (in_idempotencyKey i) \<Longrightarrow>
   key_credit P d' = key_credit P d \<and> set (transactions d) \<subseteq> set (transactions d')"
  by (erule ledger_record_cases) (auto simp: key_credit_append append_success(4))

text \<open>An operation that keeps the terms and the counts of the codes keeps the invariant.\<close>

lemma invite_inv_codes:
  assumes "invite_inv s" and "map terms_of cs = map terms_of (iv_codes s)"
    and "\<And>c. c \<in> set cs \<Longrightarrow> \<exists>c' \<in> set (iv_codes s). terms_of c = terms_of c' \<and> ic_redemptionCount c = ic_redemptionCount c'"
  shows "invite_inv (s\<lparr>iv_codes := cs\<rparr>)"
proof -
  note ids = terms_ids [OF assms(2)]
  have set_ids: "ic_id ` set cs = ic_id ` set (iv_codes s)" using ids by (metis list.set_map)
  have "counts_ok (s\<lparr>iv_codes := cs\<rparr>)"
    unfolding counts_ok_def
  proof (intro ballI)
    fix c
    assume "c \<in> set (iv_codes (s\<lparr>iv_codes := cs\<rparr>))"
    then obtain c' where "c' \<in> set (iv_codes s)" "terms_of c = terms_of c'" "ic_redemptionCount c = ic_redemptionCount c'"
      using assms(3) by auto
    with assms(1) show "ic_redemptionCount c = int (redemptions_of (ic_id c) (s\<lparr>iv_codes := cs\<rparr>))
        \<and> (ic_redemptionCount c = 0 \<or> ic_redemptionCount c \<le> ic_maxRedemptions c)"
      by (auto simp: invite_inv_def counts_ok_def terms_of_def redemptions_of_def)
  qed
  with assms(1) ids set_ids show ?thesis
    by (simp add: invite_inv_def redemption_paid_def redeemed_credit_def assms(2))
qed

lemma invite_inv_update:
  assumes "invite_inv s" and "\<And>c. terms_of (f c) = terms_of c" and "\<And>c. ic_redemptionCount (f c) = ic_redemptionCount c"
  shows "invite_inv (s\<lparr>iv_codes := map (\<lambda>c. if P c then f c else c) (iv_codes s)\<rparr>)
    \<and> map terms_of (map (\<lambda>c. if P c then f c else c) (iv_codes s)) = map terms_of (iv_codes s)"
proof -
  have t: "map terms_of (map (\<lambda>c. if P c then f c else c) (iv_codes s)) = map terms_of (iv_codes s)" using assms(2) by simp
  have "invite_inv (s\<lparr>iv_codes := map (\<lambda>c. if P c then f c else c) (iv_codes s)\<rparr>)"
    by (rule invite_inv_codes [OF assms(1) t]) (use assms(2,3) in \<open>auto split: if_splits\<close>)
  with t show ?thesis by blast
qed

lemma withdraw_inv:
  "withdraw request now s = (r, s') \<Longrightarrow> invite_inv s \<Longrightarrow> invite_inv s' \<and> map terms_of (iv_codes s') = map terms_of (iv_codes s)"
  using invite_inv_update [of s "\<lambda>c. c\<lparr>ic_disabledAt := Some now\<rparr>"]
  by (auto simp: withdraw_def stamp_def terms_of_def split: sum.splits prod.splits)

lemma restore_inv:
  "restore request s = (r, s') \<Longrightarrow> invite_inv s \<Longrightarrow> invite_inv s' \<and> map terms_of (iv_codes s') = map terms_of (iv_codes s)"
  using invite_inv_update [of s "\<lambda>c. c\<lparr>ic_disabledAt := None\<rparr>"]
  by (auto simp: restore_def clear_def terms_of_def split: sum.splits prod.splits)

lemma grant_of_append: "i \<in> fst ` set ts \<Longrightarrow> grant_of (ts @ us) i = grant_of ts i"
proof -
  assume "i \<in> fst ` set ts"
  then obtain v where "map_of ts i = Some v" by (metis map_of_eq_None_iff option.exhaust)
  then show ?thesis by (simp add: grant_of_def map_add_def)
qed

lemma insert_codes_inv:
  assumes inv: "invite_inv s" and ins: "insert_codes rows s = Some s'" and zero: "\<And>c. c \<in> set rows \<Longrightarrow> ic_redemptionCount c = 0"
  shows "invite_inv s'" and "iv_codes s' = iv_codes s @ rows"
proof -
  have s': "s' = s\<lparr>iv_codes := iv_codes s @ rows\<rparr>" and d: "distinct (map ic_id (iv_codes s @ rows))" "distinct (map ic_code (iv_codes s @ rows))"
    using ins by (auto simp: insert_codes_def Let_def split: if_splits)
  show "iv_codes s' = iv_codes s @ rows" by (simp add: s')
  have known: "rd_inviteCodeId r \<in> ic_id ` set (iv_codes s)" if "r \<in> set (iv_redemptions s)" for r
    using inv that by (auto simp: invite_inv_def)
  have g: "grant_of (map terms_of (iv_codes s @ rows)) (rd_inviteCodeId r) = grant_of (map terms_of (iv_codes s)) (rd_inviteCodeId r)"
    if "r \<in> set (iv_redemptions s)" for r
    using known [OF that] grant_of_append [of "rd_inviteCodeId r" "map terms_of (iv_codes s)" "map terms_of rows"]
    by (force simp: terms_of_def)
  have "redemptions_of (ic_id c) s = 0" if "c \<in> set rows" for c
  proof -
    have "ic_id c \<notin> ic_id ` set (iv_codes s)" using d(1) that by auto
    then have "filter (\<lambda>r. rd_inviteCodeId r = ic_id c) (iv_redemptions s) = []" using known by (metis (mono_tags, lifting) filter_False)
    then show ?thesis by (simp add: redemptions_of_def)
  qed
  then have "counts_ok s'" using inv zero by (auto simp: counts_ok_def invite_inv_def s' redemptions_of_def)
  moreover have "redeemed_credit s' = redeemed_credit s"
    unfolding redeemed_credit_def using g by (auto simp: s' intro!: arg_cong [where f = sum_list] map_cong)
  moreover have "redemption_paid s' r" if "r \<in> set (iv_redemptions s)" for r
    using inv that g [OF that] by (simp add: invite_inv_def redemption_paid_def s')
  ultimately show "invite_inv s'" using inv d by (auto simp: invite_inv_def s')
qed

lemma insertBatch_inv:
  "insertBatch request batch now draw attempt s = Some (m, s') \<Longrightarrow> invite_inv s \<Longrightarrow> invite_inv s' \<and> (\<exists>rows. iv_codes s' = iv_codes s @ rows)"
proof (induction request batch now draw attempt s rule: insertBatch.induct)
  case (1 request batch now draw attempt s)
  let ?rows = "map (code_row request now) (map (draw attempt) [0..<batch])"
  show ?case
  proof (cases "insert_codes ?rows s")
    case None
    with 1 show ?thesis by (auto simp: insertBatch.simps [of request batch now draw attempt s] Let_def split: if_splits)
  next
    case (Some s1)
    then have "s1 = s'" using 1(2) by (simp add: insertBatch.simps [of request batch now draw attempt s] Let_def)
    moreover have "\<And>c. c \<in> set ?rows \<Longrightarrow> ic_redemptionCount c = 0" by (auto simp: code_row_def)
    ultimately show ?thesis using insert_codes_inv [OF 1(3) Some] by blast
  qed
qed

lemma generate_from_inv:
  "generate_from request now draw minted s = (r, s') \<Longrightarrow> invite_inv s \<Longrightarrow> invite_inv s' \<and> (\<exists>rows. iv_codes s' = iv_codes s @ rows)"
proof (induction request now draw minted s arbitrary: r s' rule: generate_from.induct)
  case (1 request now draw minted s)
  show ?case
  proof (cases "minted < gr_count request \<and> (\<exists>x. insertBatch request (min BATCH (gr_count request - minted)) now (draw minted) 1 s = Some x)")
    case True
    then obtain m s1 where b: "minted < gr_count request"
      "insertBatch request (min BATCH (gr_count request - minted)) now (draw minted) 1 s = Some (m, s1)" by auto
    obtain r2 s2 where rec: "generate_from request now draw (minted + BATCH) s1 = (r2, s2)" by fastforce
    have "s' = s2" using 1(2) b rec by (simp add: generate_from.simps [of request now draw minted s])
    moreover note one = insertBatch_inv [OF b(2) 1(3)]
    moreover have "invite_inv s2 \<and> (\<exists>rows. iv_codes s2 = iv_codes s1 @ rows)"
      using 1(1) [OF b refl rec] one by blast
    ultimately show ?thesis by auto
  next
    case False
    then have "s' = s" using 1(2) by (auto simp: generate_from.simps [of request now draw minted s] split: if_splits option.splits)
    with 1(3) show ?thesis by simp
  qed
qed

text \<open>What a claim does: the one row with the id gains a redemption.\<close>

lemma claimSeat_Inr:
  assumes "claimSeat invite now s = Inr s1"
  shows "s1 = s\<lparr>iv_codes := map (\<lambda>c. if claimable (ic_id invite) now c then c\<lparr>ic_redemptionCount := ic_redemptionCount c + 1\<rparr> else c) (iv_codes s)\<rparr>"
    and "\<exists>c \<in> set (iv_codes s). claimable (ic_id invite) now c"
  using assms by (auto simp: claimSeat_def list_ex_iff split: if_splits)

lemma grant_of_member:
  "distinct (map ic_id cs) \<Longrightarrow> terms_of x \<in> terms_of ` set cs \<Longrightarrow> grant_of (map terms_of cs) (ic_id x) = ic_grantMicros x"
proof -
  assume d: "distinct (map ic_id cs)" and "terms_of x \<in> terms_of ` set cs"
  then have "terms_of x \<in> set (map terms_of cs)" by simp
  moreover have "distinct (map fst (map terms_of cs))" using d unfolding fst_terms .
  ultimately have "map_of (map terms_of cs) (ic_id x) = Some (snd (terms_of x))"
    by (intro map_of_is_SomeI) (simp_all add: terms_of_def)
  then show ?thesis by (simp add: grant_of_def terms_of_def)
qed

lemma grant_InrE:
  assumes "grant saltedHash invite input now draw s = Inr (outcome, s')"
  obtains s1 entry d where "claimSeat invite now s = Inr s1"
    and "ledger_append (iv_db s1) (grant_input invite input) (dr_transactionId draw) (dr_transactionAt draw) = Inr (entry, d)"
    and "\<not> redemption_violates s1 (redemption_row saltedHash invite input now draw)"
    and "s' = s1\<lparr>iv_db := d, iv_redemptions := iv_redemptions s1 @ [redemption_row saltedHash invite input now draw]\<rparr>"
    and "outcome = Granted (ic_grantMicros invite) (ic_campaign invite) (tx_id (le_transaction entry)) (dr_redemptionId draw)"
proof -
  let ?row = "redemption_row saltedHash invite input now draw"
  obtain s1 where c: "claimSeat invite now s = Inr s1"
    and rest: "(case appendWithin (iv_db s1) (grant_input invite input) (dr_transactionId draw) (dr_transactionAt draw) of
         Inl e \<Rightarrow> Inl (Ledger_failed e)
       | Inr (entry, d) \<Rightarrow>
           if redemption_violates s1 ?row then Inl Redemption_not_unique
           else Inr (Granted (ic_grantMicros invite) (ic_campaign invite) (tx_id (le_transaction entry)) (rd_id ?row),
                     s1\<lparr>iv_db := d, iv_redemptions := iv_redemptions s1 @ [?row]\<rparr>)) = Inr (outcome, s')"
    using assms unfolding grant_def Let_def res_bind_eq_Inr by blast
  obtain entry d where p: "appendWithin (iv_db s1) (grant_input invite input) (dr_transactionId draw) (dr_transactionAt draw) = Inr (entry, d)"
    using rest by (cases "appendWithin (iv_db s1) (grant_input invite input) (dr_transactionId draw) (dr_transactionAt draw)") auto
  have "rd_id ?row = dr_redemptionId draw" by (simp add: redemption_row_def)
  moreover have "ledger_append (iv_db s1) (grant_input invite input) (dr_transactionId draw) (dr_transactionAt draw) = Inr (entry, d)"
    using p by (simp add: appendWithin_def res_bind_eq_Inr)
  ultimately show thesis using that [OF c] rest p by (auto split: if_splits)
qed

lemma grant_inv:
  assumes inv: "invite_inv s" and terms: "terms_of invite \<in> terms_of ` set (iv_codes s)"
    and g: "grant saltedHash invite input now draw s = Inr (outcome, s')"
  shows "invite_inv s'" and "map terms_of (iv_codes s') = map terms_of (iv_codes s)"
proof -
  obtain s1 entry d where c: "claimSeat invite now s = Inr s1"
    and a: "ledger_append (iv_db s1) (grant_input invite input) (dr_transactionId draw) (dr_transactionAt draw) = Inr (entry, d)"
    and v: "\<not> redemption_violates s1 (redemption_row saltedHash invite input now draw)"
    and s': "s' = s1\<lparr>iv_db := d, iv_redemptions := iv_redemptions s1 @ [redemption_row saltedHash invite input now draw]\<rparr>"
    using g by (rule grant_InrE)
  let ?row = "redemption_row saltedHash invite input now draw"
  let ?t = "transaction_of (grant_input invite input) (dr_transactionId draw) (dr_transactionAt draw)"
  note s1 = claimSeat_Inr [OF c]
  have fr: "iv_db s1 = iv_db s" "iv_redemptions s1 = iv_redemptions s" by (simp_all add: s1(1))
  have codes: "iv_codes s' = iv_codes s1" by (simp add: s')
  have tm: "map terms_of (iv_codes s1) = map terms_of (iv_codes s)" by (simp add: s1(1) terms_of_def)
  then show tm': "map terms_of (iv_codes s') = map terms_of (iv_codes s)" by (simp add: codes)
  note ids = terms_ids [OF tm]
  have set_ids: "ic_id ` set (iv_codes s1) = ic_id ` set (iv_codes s)" using ids by (metis list.set_map)
  note app = append_success [OF a, unfolded fr]
  have dist: "distinct (map ic_id (iv_codes s))" using inv by (simp add: invite_inv_def)
  have amount: "grant_of (map terms_of (iv_codes s)) (ic_id invite) = ic_grantMicros invite" by (rule grant_of_member [OF dist terms])
  have counts: "counts_ok s'"
    unfolding counts_ok_def
  proof (intro ballI)
    fix c'
    assume "c' \<in> set (iv_codes s')"
    then obtain c0 where c0: "c0 \<in> set (iv_codes s)"
      and c': "c' = (if claimable (ic_id invite) now c0 then c0\<lparr>ic_redemptionCount := ic_redemptionCount c0 + 1\<rparr> else c0)"
      unfolding codes s1(1) by auto
    have old: "ic_redemptionCount c0 = int (redemptions_of (ic_id c0) s)" "ic_redemptionCount c0 = 0 \<or> ic_redemptionCount c0 \<le> ic_maxRedemptions c0"
      using inv c0 by (auto simp: invite_inv_def counts_ok_def)
    have new: "redemptions_of i s' = redemptions_of i s + (if i = ic_id invite then 1 else 0)" for i
      by (simp add: redemptions_of_def s' fr redemption_row_def)
    have "claimable (ic_id invite) now c0 \<longleftrightarrow> ic_id c0 = ic_id invite"
      using s1(2) c0 dist by (auto simp: claimable_def distinct_map inj_on_def)
    then show "ic_redemptionCount c' = int (redemptions_of (ic_id c') s')
        \<and> (ic_redemptionCount c' = 0 \<or> ic_redemptionCount c' \<le> ic_maxRedemptions c')"
      using old new c' by (auto simp: claimable_def)
  qed
  have key: "is_invite_key (in_idempotencyKey (grant_input invite input))"
    by (simp add: is_invite_key_def grant_input_def invite_key_def starts_with_def)
  have "invite_credit d = invite_credit (iv_db s) + ic_grantMicros invite"
    using key_credit_append [OF a, where P = is_invite_key] key by (simp add: invite_credit_def fr) (simp add: grant_input_def)
  then have credit: "invite_credit d = redeemed_credit s'"
    using inv amount by (simp add: invite_inv_def redeemed_credit_def s' fr tm redemption_row_def)
  have "redemption_paid s' r" if "r \<in> set (iv_redemptions s')" for r
  proof (cases "r = ?row")
    case True
    then show ?thesis unfolding redemption_paid_def tm' using amount
      by (intro bexI [of _ ?t]) (simp_all add: s' app(4) transaction_of_def grant_input_def redemption_row_def)
  next
    case False
    then have "redemption_paid s r" using that inv by (simp add: s' fr invite_inv_def)
    then show ?thesis unfolding redemption_paid_def tm' by (auto simp: s' app(4))
  qed
  moreover have "ledger_inv d" using append_inv [OF _ a] inv by (simp add: fr invite_inv_def)
  moreover have "ic_id invite \<in> ic_id ` set (iv_codes s)" using s1(2) unfolding claimable_def by (metis imageI)
  ultimately show "invite_inv s'"
    using inv v counts credit ids set_ids
    by (auto simp: invite_inv_def s' fr redemption_violates_def redemption_row_def)
qed

lemma commit_cases:
  assumes "redeem_commit saltedHash input invite now draw s = (outcome, s')"
  obtains (granted) "grant saltedHash invite input now draw s = Inr (outcome, s')"
  | (refused) e where "outcome = Refused (refused_as e)" and "s' = s" and "grant saltedHash invite input now draw s = Inl e"
  using assms by (auto simp: redeem_commit_def split: sum.splits prod.splits)

lemma other_ledger_inv:
  assumes inv: "invite_inv s" and r: "ledger_record (iv_db s) i uuid now = (r, d')" and k: "\<not> is_invite_key (in_idempotencyKey i)"
  shows "invite_inv (s\<lparr>iv_db := d'\<rparr>)"
proof -
  have t: "set (transactions (iv_db s)) \<subseteq> set (transactions d')" "invite_credit d' = invite_credit (iv_db s)"
    using key_credit_record [where P = is_invite_key, OF r k] by (simp_all add: invite_credit_def)
  have "ledger_inv d'" using ledger_record_inv [OF r] inv by (simp add: invite_inv_def)
  moreover have "redemption_paid (s\<lparr>iv_db := d'\<rparr>) r" if "redemption_paid s r" for r
    using that t(1) by (auto simp: redemption_paid_def)
  moreover have "counts_ok (s\<lparr>iv_db := d'\<rparr>) = counts_ok s" "redeemed_credit (s\<lparr>iv_db := d'\<rparr>) = redeemed_credit s"
    by (simp_all add: counts_ok_def redemptions_of_def redeemed_credit_def)
  ultimately show ?thesis using inv t(2) by (simp add: invite_inv_def)
qed

lemma terms_found: "redeem_read input now s = Inr invite \<Longrightarrow> invite \<in> set (iv_codes s)"
  by (auto simp: redeem_read_def find_code_def Let_def find_Some_iff split: if_splits option.splits)

lemma pending_terms:
  assumes "pending_ok w" and "terms_of ` set (iv_codes (iw_db w)) \<subseteq> terms_of ` set (iv_codes s')"
  shows "pending_ok (w\<lparr>iw_db := s'\<rparr>)"
  using assms by (fastforce simp: pending_ok_def)

lemma invite_step_inv: "invite_step saltedHash w w' \<Longrightarrow> invite_inv (iw_db w) \<and> pending_ok w \<Longrightarrow> invite_inv (iw_db w') \<and> pending_ok w'"
proof (induction rule: invite_step.induct)
  case (read input now w invite)
  then show ?case using terms_found [of input now "iw_db w" invite] by (auto simp: pending_ok_def)
next
  case (commit input invite now w draw outcome s')
  then have terms: "terms_of invite \<in> terms_of ` set (iv_codes (iw_db w))" by (auto simp: pending_ok_def)
  from commit(2) show ?case
  proof (cases rule: commit_cases)
    case granted
    note g = grant_inv [OF _ terms granted]
    have "terms_of ` set (iv_codes s') = terms_of ` set (iv_codes (iw_db w))" using g(2) commit(3) by (metis list.set_map)
    with g commit(3) show ?thesis by (simp add: pending_terms)
  qed (use commit(3) in simp)
next
  case (mint request now draws w r s')
  then obtain rows where "invite_inv s'" "iv_codes s' = iv_codes (iw_db w) @ rows"
    using generate_from_inv [of request now draws 0 "iw_db w" r s'] by (auto simp: generateInvites_def)
  with mint show ?case by (auto intro: pending_terms)
next
  case (retire request now w r s')
  have "invite_inv s'" "map terms_of (iv_codes s') = map terms_of (iv_codes (iw_db w))" using withdraw_inv [OF retire(1)] retire(2) by auto
  moreover from this(2) have "terms_of ` set (iv_codes s') = terms_of ` set (iv_codes (iw_db w))" by (metis list.set_map)
  ultimately show ?case using retire(2) by (simp add: pending_terms)
next
  case (reinstate request w r s')
  have "invite_inv s'" "map terms_of (iv_codes s') = map terms_of (iv_codes (iw_db w))" using restore_inv [OF reinstate(1)] reinstate(2) by auto
  moreover from this(2) have "terms_of ` set (iv_codes s') = terms_of ` set (iv_codes (iw_db w))" by (metis list.set_map)
  ultimately show ?case using reinstate(2) by (simp add: pending_terms)
next
  case (other w i uuid now r d')
  then show ?case using other_ledger_inv by (auto intro: pending_terms)
qed

lemma invite_reachable_inv:
  assumes "invite_reachable saltedHash d0 w" and "ledger_inv d0" and "invite_credit d0 = 0"
  shows "invite_inv (iw_db w) \<and> pending_ok w"
  using assms
proof (induction rule: invite_reachable.induct)
  case start
  then show ?case by (simp add: invite_inv_def counts_ok_def redeemed_credit_def pending_ok_def)
next
  case (step w w')
  then show ?case using invite_step_inv by blast
qed

text \<open>The credit of the redemptions, counted by code.\<close>

lemma grouped_sum:
  assumes "distinct (map ic_id cs)" and "rd_inviteCodeId ` set rs \<subseteq> ic_id ` set cs"
  shows "sum_list (map (\<lambda>r. g (rd_inviteCodeId r)) rs) =
    (\<Sum>c \<leftarrow> cs. int (length (filter (\<lambda>r. rd_inviteCodeId r = ic_id c) rs)) * (g (ic_id c) :: int))"
  using assms(2)
proof (induction rs)
  case (Cons r rs)
  then obtain c where c: "c \<in> set cs" "ic_id c = rd_inviteCodeId r" by auto
  have pick: "(\<Sum>x \<leftarrow> cs. if rd_inviteCodeId r = ic_id x then g (ic_id x) else 0) = g (rd_inviteCodeId r)"
    using assms(1) c
  proof (induction cs)
    case (Cons x cs)
    have none: "(\<Sum>y \<leftarrow> ys. if rd_inviteCodeId r = ic_id y then g (ic_id y) else 0) = 0" if "rd_inviteCodeId r \<notin> ic_id ` set ys" for ys
      using that by (induction ys) auto
    show ?case
    proof (cases "ic_id x = rd_inviteCodeId r")
      case True
      then have "rd_inviteCodeId r \<notin> ic_id ` set cs" using Cons.prems(1) by auto
      with True none show ?thesis by simp
    next
      case False
      then have "c \<in> set cs" using Cons.prems by auto
      then have "(\<Sum>x \<leftarrow> cs. if rd_inviteCodeId r = ic_id x then g (ic_id x) else 0) = g (rd_inviteCodeId r)"
        using Cons.IH Cons.prems by simp
      with False show ?thesis by simp
    qed
  qed simp
  have "(\<Sum>x \<leftarrow> cs. int (length (filter (\<lambda>q. rd_inviteCodeId q = ic_id x) (r # rs))) * g (ic_id x)) =
      (\<Sum>x \<leftarrow> cs. (if rd_inviteCodeId r = ic_id x then g (ic_id x) else 0)
        + int (length (filter (\<lambda>q. rd_inviteCodeId q = ic_id x) rs)) * g (ic_id x))"
    by (intro arg_cong [where f = sum_list] map_cong) (auto simp: algebra_simps)
  also have "\<dots> = g (rd_inviteCodeId r) + (\<Sum>x \<leftarrow> cs. int (length (filter (\<lambda>q. rd_inviteCodeId q = ic_id x) rs)) * g (ic_id x))"
    by (simp add: sum_list_addf pick)
  finally show ?case using Cons by simp
qed simp

lemma sum_list_bound: "(\<And>x. x \<in> set xs \<Longrightarrow> f x \<le> (g x :: int)) \<Longrightarrow> sum_list (map f xs) \<le> sum_list (map g xs)"
  by (induction xs) (auto intro: add_mono)

text \<open>C33: invitations cannot be overspent. However sign-ups, minting, withdrawals, restorations and other ledger writers
  interleave, every code has been redeemed exactly as often as its counter says and never more often than it allows,
  no account has redeemed twice, every redemption has its own grant in the ledger for the terms of its code, and the
  credit that invitations have put into the ledger is at most what the issued codes are worth.\<close>

theorem invites_not_overspent:
  assumes "invite_reachable saltedHash d0 w" and "ledger_inv d0" and "invite_credit d0 = 0"
  shows "list_all (\<lambda>c. ic_redemptionCount c = int (redemptions_of (ic_id c) (iw_db w))
        \<and> ic_redemptionCount c \<le> max 0 (ic_maxRedemptions c)) (iv_codes (iw_db w))
    \<and> distinct (map rd_userId (iv_redemptions (iw_db w)))
    \<and> list_all (redemption_paid (iw_db w)) (iv_redemptions (iw_db w))
    \<and> invite_credit (iv_db (iw_db w)) = redeemed_credit (iw_db w)
    \<and> invite_credit (iv_db (iw_db w)) \<le> (\<Sum>c \<leftarrow> iv_codes (iw_db w). max 0 (ic_maxRedemptions c) * max 0 (ic_grantMicros c))
    \<and> ledger_inv (iv_db (iw_db w))"
proof -
  let ?s = "iw_db w"
  have inv: "invite_inv ?s" using invite_reachable_inv [OF assms] by blast
  then have counts: "ic_redemptionCount c = int (redemptions_of (ic_id c) ?s) \<and> ic_redemptionCount c \<le> max 0 (ic_maxRedemptions c)"
    if "c \<in> set (iv_codes ?s)" for c using that by (auto simp: invite_inv_def counts_ok_def)
  have d: "distinct (map ic_id (iv_codes ?s))" "rd_inviteCodeId ` set (iv_redemptions ?s) \<subseteq> ic_id ` set (iv_codes ?s)"
    using inv by (simp_all add: invite_inv_def)
  have "redeemed_credit ?s = (\<Sum>c \<leftarrow> iv_codes ?s. int (redemptions_of (ic_id c) ?s) * grant_of (map terms_of (iv_codes ?s)) (ic_id c))"
    unfolding redeemed_credit_def redemptions_of_def by (rule grouped_sum [OF d])
  also have "\<dots> \<le> (\<Sum>c \<leftarrow> iv_codes ?s. max 0 (ic_maxRedemptions c) * max 0 (ic_grantMicros c))"
  proof (rule sum_list_bound)
    fix c
    assume c: "c \<in> set (iv_codes ?s)"
    have "int (redemptions_of (ic_id c) ?s) * ic_grantMicros c \<le> int (redemptions_of (ic_id c) ?s) * max 0 (ic_grantMicros c)"
      by (intro mult_left_mono) auto
    also have "\<dots> \<le> max 0 (ic_maxRedemptions c) * max 0 (ic_grantMicros c)"
      using counts [OF c] by (intro mult_right_mono) auto
    finally show "int (redemptions_of (ic_id c) ?s) * grant_of (map terms_of (iv_codes ?s)) (ic_id c)
        \<le> max 0 (ic_maxRedemptions c) * max 0 (ic_grantMicros c)"
      using grant_of_member [OF d(1)] c by simp
  qed
  finally have "redeemed_credit ?s \<le> (\<Sum>c \<leftarrow> iv_codes ?s. max 0 (ic_maxRedemptions c) * max 0 (ic_grantMicros c))" .
  moreover have "list_all (\<lambda>c. ic_redemptionCount c = int (redemptions_of (ic_id c) ?s)
      \<and> ic_redemptionCount c \<le> max 0 (ic_maxRedemptions c)) (iv_codes ?s)"
    unfolding list_all_iff using counts by blast
  ultimately show ?thesis using inv by (simp add: invite_inv_def list_all_iff [of "redemption_paid ?s"])
qed

text \<open>One code, minted, read and redeemed.\<close>

definition w_request :: generate_request where
  "w_request = \<lparr>gr_count = 1, gr_grantMicros = 100, gr_campaign = ''c'', gr_maxRedemptions = 1, gr_expiresAt = None, gr_note = None,
     gr_issuedByUserId = None\<rparr>"

definition w_row :: invite_code where
  "w_row = code_row w_request 0 (''i'', ''222233334444'')"

definition w_input :: redeem_input where
  "w_input = \<lparr>ri_userId = ''u'', ri_workspaceId = ''w'', ri_invite = \<lparr>su_code = Some ''2222-3333-4444'', su_ip = None, su_userAgent = None\<rparr>\<rparr>"

definition w_draw :: redeem_draw where
  "w_draw = \<lparr>dr_transactionId = ''t'', dr_transactionAt = 2, dr_redemptionId = ''r''\<rparr>"

definition w_minted :: invite_db where
  "w_minted = \<lparr>iv_codes = [w_row], iv_redemptions = [], iv_db = one_workspace\<rparr>"

lemma w_mint: "snd (generateInvites w_request 0 (\<lambda>_ _ _. (''i'', ''222233334444'')) \<lparr>iv_codes = [], iv_redemptions = [], iv_db = one_workspace\<rparr>) = w_minted"
  by (simp add: generateInvites_def generate_from.simps insertBatch.simps w_request_def w_minted_def w_row_def insert_codes_def BATCH_def code_row_def)

lemma w_read: "redeem_read w_input 1 w_minted = Inr w_row"
  by code_simp

definition w_redeemed :: invite_db where
  "w_redeemed = snd (redeem_commit id w_input w_row 1 w_draw w_minted)"

lemma w_facts: "length (iv_redemptions w_redeemed) = 1 \<and> redeemed_credit w_redeemed = 100"
  by code_simp

lemma w_reached: "invite_reachable id one_workspace \<lparr>iw_db = w_redeemed, iw_pending = {(w_input, w_row, 1)}\<rparr>"
proof -
  let ?w0 = "\<lparr>iw_db = \<lparr>iv_codes = [], iv_redemptions = [], iv_db = one_workspace\<rparr>, iw_pending = {}\<rparr> :: invite_world"
  obtain r where "generateInvites w_request 0 (\<lambda>_ _ _. (''i'', ''222233334444'')) (iw_db ?w0) = (r, w_minted)"
    using w_mint by (metis invite_world.select_convs(1) prod.collapse)
  from invite_reachable.step [OF invite_reachable.start invite_step.mint [OF this]]
  have "invite_reachable id one_workspace \<lparr>iw_db = w_minted, iw_pending = {}\<rparr>" by simp
  from invite_reachable.step [OF this invite_step.read] w_read
  have r: "invite_reachable id one_workspace \<lparr>iw_db = w_minted, iw_pending = {(w_input, w_row, 1)}\<rparr>" by fastforce
  obtain outcome where "redeem_commit id w_input w_row 1 w_draw w_minted = (outcome, w_redeemed)"
    unfolding w_redeemed_def by (metis prod.collapse)
  with invite_reachable.step [OF r invite_step.commit, of w_input w_row 1 w_draw outcome w_redeemed] show ?thesis by simp
qed

theorem invites_not_overspent_witness:
  "invite_reachable id one_workspace \<lparr>iw_db = w_redeemed, iw_pending = {(w_input, w_row, 1)}\<rparr>
   \<and> length (iv_redemptions w_redeemed) = 1 \<and> invite_credit (iv_db w_redeemed) = 100"
proof -
  have "invite_credit one_workspace = 0" by (simp add: invite_credit_def key_credit_def one_workspace_def)
  from invites_not_overspent [OF w_reached one_workspace_inv this] w_facts w_reached show ?thesis by simp
qed

section \<open>One sign-up\<close>

lemma status_agree: "whereStatus st now c \<longleftrightarrow> inviteCodeStatus c now = st"
  by (cases st; cases "ic_expiresAt c") (auto simp: inviteCodeStatus_def)

text \<open>The gate lets an invitation through exactly when a redemption on the same tables would get past its read.\<close>

lemma gate_agrees: "gate_refusal (ri_invite input) now s = None \<longleftrightarrow> (\<exists>invite. redeem_read input now s = Inr invite)"
  by (auto simp: gate_refusal_def redeem_read_def lookup_def Let_def split: option.split)

lemma append_balance:
  "ledger_append d i uuid now = Inr (entry, d') \<Longrightarrow> balance_in d' w = balance_in d w + (if w = in_workspaceId i then in_amountMicros i else 0)"
  using append_success(5,6) [of d i uuid now entry d'] by (auto simp: balance_in_def)

lemma grant_effect:
  assumes "grant saltedHash invite input now draw s = Inr (outcome, s')"
  shows "balance_in (iv_db s') w = balance_in (iv_db s) w + (if w = ri_workspaceId input then ic_grantMicros invite else 0)"
    and "ri_userId input \<notin> rd_userId ` set (iv_redemptions s)" and "ri_userId input \<in> rd_userId ` set (iv_redemptions s')"
    and "set (transactions (iv_db s)) \<subseteq> set (transactions (iv_db s'))"
    and "\<exists>t r. outcome = Granted (ic_grantMicros invite) (ic_campaign invite) t r"
  using assms
proof (atomize (full), elim grant_InrE, intro conjI)
  fix s1 entry d
  assume c: "claimSeat invite now s = Inr s1"
    and a: "ledger_append (iv_db s1) (grant_input invite input) (dr_transactionId draw) (dr_transactionAt draw) = Inr (entry, d)"
    and v: "\<not> redemption_violates s1 (redemption_row saltedHash invite input now draw)"
    and s': "s' = s1\<lparr>iv_db := d, iv_redemptions := iv_redemptions s1 @ [redemption_row saltedHash invite input now draw]\<rparr>"
    and out: "outcome = Granted (ic_grantMicros invite) (ic_campaign invite) (tx_id (le_transaction entry)) (dr_redemptionId draw)"
  have fr: "iv_db s1 = iv_db s" "iv_redemptions s1 = iv_redemptions s" by (simp_all add: claimSeat_Inr(1) [OF c])
  show "balance_in (iv_db s') w = balance_in (iv_db s) w + (if w = ri_workspaceId input then ic_grantMicros invite else 0)"
    using append_balance [OF a, of w] by (simp add: s' fr grant_input_def)
  show "ri_userId input \<notin> rd_userId ` set (iv_redemptions s)" using v by (auto simp: redemption_violates_def fr redemption_row_def)
  show "ri_userId input \<in> rd_userId ` set (iv_redemptions s')" by (simp add: s' redemption_row_def)
  show "set (transactions (iv_db s)) \<subseteq> set (transactions (iv_db s'))" using append_success(4) [OF a] by (auto simp: s' fr)
  show "\<exists>t r. outcome = Granted (ic_grantMicros invite) (ic_campaign invite) t r" using out by blast
qed

definition outcome_credit :: "redemption_outcome \<Rightarrow> int" where
  "outcome_credit o' = (case o' of Granted n _ _ _ \<Rightarrow> n | _ \<Rightarrow> 0)"

lemma redeem_effect:
  assumes "redeemOnSignUp saltedHash input now draw s = (outcome, s')"
  shows "balance_in (iv_db s') w = balance_in (iv_db s) w + (if w = ri_workspaceId input then outcome_credit outcome else 0)"
    and "set (transactions (iv_db s)) \<subseteq> set (transactions (iv_db s'))"
    and "outcome = Granted n c t r \<Longrightarrow>
      ri_userId input \<notin> rd_userId ` set (iv_redemptions s) \<and> ri_userId input \<in> rd_userId ` set (iv_redemptions s')"
proof -
  consider (no) "s' = s" "outcome_credit outcome = 0" "\<And>n c t r. outcome \<noteq> Granted n c t r"
    | (yes) invite where "grant saltedHash invite input now draw s = Inr (outcome, s')"
    using assms
    by (auto simp: redeemOnSignUp_def redeem_read_def redeem_commit_def outcome_credit_def Let_def split: if_splits option.splits sum.splits prod.splits)
  note cases = this
  from cases show "balance_in (iv_db s') w = balance_in (iv_db s) w + (if w = ri_workspaceId input then outcome_credit outcome else 0)"
    by cases (use grant_effect(1,5) in \<open>fastforce simp: outcome_credit_def\<close>)+
  from cases show "set (transactions (iv_db s)) \<subseteq> set (transactions (iv_db s'))" by cases (use grant_effect(4) in auto)
  from cases show "outcome = Granted n c t r \<Longrightarrow>
      ri_userId input \<notin> rd_userId ` set (iv_redemptions s) \<and> ri_userId input \<in> rd_userId ` set (iv_redemptions s')"
    by cases (use grant_effect(2,3) in auto)
qed

definition signup_credit :: "sign_up_grant \<Rightarrow> int" where
  "signup_credit g = (case g of Grant_given n _ \<Rightarrow> n | _ \<Rightarrow> 0)"

lemma signup_effect:
  assumes "grantOnSignUp amount userId workspaceId uuid now d = (g, d')"
  shows "balance_in d' w = balance_in d w + (if w = workspaceId then signup_credit g else 0)"
    and "set (transactions d) \<subseteq> set (transactions d')"
    and "g = Grant_given n t \<Longrightarrow> n = amount \<and> ''signup:'' @ userId \<notin> tx_idempotencyKey ` set (transactions d)
      \<and> ''signup:'' @ userId \<in> tx_idempotencyKey ` set (transactions d')"
proof -
  let ?i = "signup_input userId workspaceId amount"
  consider (no) "d' = d" "signup_credit g = 0" "\<And>n t. g \<noteq> Grant_given n t"
    | (yes) entry where "ledger_append d ?i uuid now = Inr (entry, d')" "g = Grant_given amount (tx_id (le_transaction entry))"
  proof (cases "amount \<le> 0")
    case True
    with assms that(1) show thesis by (auto simp: grantOnSignUp_def signup_credit_def)
  next
    case False
    obtain r d1 where rec: "ledger_record d ?i uuid now = (r, d1)" by fastforce
    with False assms have g: "d' = d1" "g = (case r of Inl e \<Rightarrow> Grant_refused | Inr entry \<Rightarrow>
        if le_replayed entry then Grant_replayed (tx_id (le_transaction entry)) else Grant_given amount (tx_id (le_transaction entry)))"
      by (auto simp: grantOnSignUp_def split: sum.splits)
    from rec show thesis
    proof (cases rule: ledger_record_cases)
      case (appended entry)
      have "\<not> le_replayed entry" by (subst append_success(7) [OF appended(2)]) simp
      then show thesis using that(2) appended g by simp
    next
      case (replayed t)
      then show thesis using that(1) g by (auto simp: signup_credit_def replay_def)
    next
      case (failed e)
      then show thesis using that(1) g by (auto simp: signup_credit_def)
    qed
  qed
  note cases = this
  have i: "in_workspaceId ?i = workspaceId" "in_amountMicros ?i = amount" "in_idempotencyKey ?i = ''signup:'' @ userId"
    by (simp_all add: signup_input_def)
  from cases show "balance_in d' w = balance_in d w + (if w = workspaceId then signup_credit g else 0)"
    by cases (use append_balance i in \<open>auto simp: signup_credit_def\<close>)
  from cases show "set (transactions d) \<subseteq> set (transactions d')" by cases (auto simp: append_success(4))
  from cases show "g = Grant_given n t \<Longrightarrow> n = amount \<and> ''signup:'' @ userId \<notin> tx_idempotencyKey ` set (transactions d)
      \<and> ''signup:'' @ userId \<in> tx_idempotencyKey ` set (transactions d')"
    by cases (use append_success(2) append_success(4) i in \<open>fastforce simp: transaction_of_def\<close>)+
qed

text \<open>C34: a new account gets exactly the credit it is told about. The balance of the new workspace grows by the starting
  credit that the welcome mail names, the sum of the two grants that were made, and no other balance changes. When the
  hook runs again for the same account, whatever code and workspace it carries, a grant that was made the first time is
  not made a second time.\<close>

theorem sign_up_credit_exact:
  assumes "sign_up_credits saltedHash amount input now uuid draw s = ((sg, outcome, n), s')"
    and "sign_up_credits saltedHash amount input' now' uuid' draw' s' = ((sg', outcome', n'), s'')" and "ri_userId input' = ri_userId input"
  shows "balance_in (iv_db s') w = balance_in (iv_db s) w + (if w = ri_workspaceId input then n else 0)
    \<and> n = signup_credit sg + outcome_credit outcome
    \<and> \<not> (\<exists>m t m' t'. sg = Grant_given m t \<and> sg' = Grant_given m' t')
    \<and> \<not> (\<exists>m c t r m' c' t' r'. outcome = Granted m c t r \<and> outcome' = Granted m' c' t' r')"
proof -
  have split: "\<exists>d. grantOnSignUp amount (ri_userId i) (ri_workspaceId i) u t (iv_db s) = (sg, d)
      \<and> redeemOnSignUp saltedHash i t dr (s\<lparr>iv_db := d\<rparr>) = (outcome, s') \<and> n = signup_credit sg + outcome_credit outcome"
    if "sign_up_credits saltedHash amount i t u dr s = ((sg, outcome, n), s')" for i t u dr s s' sg outcome n
    using that by (auto simp: sign_up_credits_def signup_credit_def outcome_credit_def split: prod.splits)
  from split [OF assms(1)] obtain d where g: "grantOnSignUp amount (ri_userId input) (ri_workspaceId input) uuid now (iv_db s) = (sg, d)"
    and r: "redeemOnSignUp saltedHash input now draw (s\<lparr>iv_db := d\<rparr>) = (outcome, s')" and n: "n = signup_credit sg + outcome_credit outcome"
    by blast
  from split [OF assms(2)] obtain d' where g': "grantOnSignUp amount (ri_userId input') (ri_workspaceId input') uuid' now' (iv_db s') = (sg', d')"
    and r': "redeemOnSignUp saltedHash input' now' draw' (s'\<lparr>iv_db := d'\<rparr>) = (outcome', s'')" by blast
  have "balance_in (iv_db s') w = balance_in (iv_db s) w + (if w = ri_workspaceId input then n else 0)"
    using signup_effect(1) [OF g, of w] redeem_effect(1) [OF r, of w] n by simp
  moreover have "\<not> (\<exists>m t m' t'. sg = Grant_given m t \<and> sg' = Grant_given m' t')"
    using signup_effect(3) [OF g] signup_effect(3) [OF g'] redeem_effect(2) [OF r] assms(3) by fastforce
  moreover have "\<not> (\<exists>m c t r m' c' t' r'. outcome = Granted m c t r \<and> outcome' = Granted m' c' t' r')"
    using redeem_effect(3) [OF r] redeem_effect(3) [OF r'] assms(3) by fastforce
  ultimately show ?thesis using n by blast
qed

theorem sign_up_credit_exact_witness:
  "fst (sign_up_credits id 20 w_input 1 ''g'' w_draw w_minted) = (Grant_given 20 ''g'', Granted 100 ''c'' ''t'' ''r'', 120)
   \<and> balance_in (iv_db (snd (sign_up_credits id 20 w_input 1 ''g'' w_draw w_minted))) ''w'' = 120"
proof -
  have f: "fst (sign_up_credits id 20 w_input 1 ''g'' w_draw w_minted) = (Grant_given 20 ''g'', Granted 100 ''c'' ''t'' ''r'', 120)"
    by code_simp
  have b: "balance_in (iv_db w_minted) ''w'' = 0" by code_simp
  obtain s' sg' o' n' s'' where s': "sign_up_credits id 20 w_input 1 ''g'' w_draw w_minted = ((Grant_given 20 ''g'', Granted 100 ''c'' ''t'' ''r'', 120), s')"
    and "sign_up_credits id 20 w_input 1 ''g'' w_draw s' = ((sg', o', n'), s'')"
    using f by (metis prod.collapse)
  from sign_up_credit_exact [OF this refl, of "''w''"] f s' b show ?thesis by (simp add: w_input_def)
qed

section \<open>Withdrawal stops redemption\<close>

lemma counted: "length (filter P xs) = length (filter (\<lambda>x. P x \<and> Q x) xs) + length (filter (\<lambda>x. P x \<and> \<not> Q x) xs)"
  by (induction xs) auto

lemma withdraw_eq:
  assumes "withdraw request t s = (Inr r, s')"
  obtains tg where "targetOf request = Inr tg"
    and "s' = s\<lparr>iv_codes := map (\<lambda>c. if stamps tg (wr_unspentOnly request) c then c\<lparr>ic_disabledAt := Some t\<rparr> else c) (iv_codes s)\<rparr>"
    and "wd_matched r = length (filter (targets tg) (iv_codes s))"
    and "wd_withdrawn r = length (filter (stamps tg (wr_unspentOnly request)) (iv_codes s))"
    and "wd_alreadyWithdrawn r = length (filter (\<lambda>c. targets tg c \<and> ic_disabledAt c \<noteq> None) (iv_codes s))"
    and "wd_spent r = wd_matched r - wd_alreadyWithdrawn r - wd_withdrawn r"
  using assms by (auto simp: withdraw_def stamp_def census_def split: sum.splits)

lemma withdrawn_refused:
  assumes "distinct (map ic_id (iv_codes s))" and "c \<in> set (iv_codes s)" and "ic_disabledAt c \<noteq> None" and "ic_id invite = ic_id c"
  shows "redeem_commit saltedHash input invite now draw s = (Refused (Unusable Code_disabled), s)"
proof -
  have only: "x = c" if "x \<in> set (iv_codes s)" "ic_id x = ic_id c" for x
    using assms(1,2) that by (auto simp: distinct_map inj_on_def)
  then have none: "\<not> list_ex (claimable (ic_id invite) now) (iv_codes s)" using assms(3,4) by (auto simp: list_ex_iff claimable_def)
  have "find_code_id s (ic_id invite) = Some c"
  proof (cases "find_code_id s (ic_id invite)")
    case None
    then show ?thesis using assms(2,4) by (auto simp: find_code_id_def find_None_iff)
  next
    case (Some x)
    then have "x \<in> set (iv_codes s)" "ic_id x = ic_id invite" using find_Some_key [of ic_id] by (fastforce simp: find_code_id_def)+
    with Some only assms(4) show ?thesis by simp
  qed
  with none assms(3) have "claimSeat invite now s = Inl (Claim_lost Code_disabled)"
    by (auto simp: claimSeat_def unusableReason_def)
  then show ?thesis by (simp add: redeem_commit_def grant_def refused_as_def)
qed

text \<open>C35: a withdrawal takes effect at once and takes nothing back. The numbers it reports add up, no redemption and
  nothing in the ledger changes, a code that was withdrawn before keeps its timestamp, and a sign-up that read one of
  the withdrawn codes before the withdrawal is refused when it comes to commit, without a trace.\<close>

theorem withdrawal_stops:
  assumes "invite_inv s" and "withdraw request t s = (Inr r, s')" and "targetOf request = Inr tg"
  shows "wd_matched r = wd_withdrawn r + wd_alreadyWithdrawn r + wd_spent r
    \<and> iv_redemptions s' = iv_redemptions s \<and> iv_db s' = iv_db s
    \<and> (\<forall>c \<in> set (iv_codes s). ic_disabledAt c \<noteq> None \<longrightarrow> c \<in> set (iv_codes s'))
    \<and> (\<forall>c \<in> set (iv_codes s). stamps tg (wr_unspentOnly request) c \<longrightarrow>
         redeem_commit saltedHash input c now draw s' = (Refused (Unusable Code_disabled), s'))"
proof -
  let ?st = "stamps tg (wr_unspentOnly request)"
  from withdraw_eq [OF assms(2)] assms(3) have s': "s' = s\<lparr>iv_codes := map (\<lambda>c. if ?st c then c\<lparr>ic_disabledAt := Some t\<rparr> else c) (iv_codes s)\<rparr>"
    and n: "wd_matched r = length (filter (targets tg) (iv_codes s))" "wd_withdrawn r = length (filter ?st (iv_codes s))"
      "wd_alreadyWithdrawn r = length (filter (\<lambda>c. targets tg c \<and> ic_disabledAt c \<noteq> None) (iv_codes s))"
      "wd_spent r = wd_matched r - wd_alreadyWithdrawn r - wd_withdrawn r" by (metis sum.inject(2))+
  have "filter ?st (iv_codes s) = filter (\<lambda>c. (targets tg c \<and> \<not> ic_disabledAt c \<noteq> None) \<and> ?st c) (iv_codes s)"
    by (intro filter_cong) (auto simp: stamps_def)
  with counted [where P = "targets tg" and Q = "\<lambda>c. ic_disabledAt c \<noteq> None" and xs = "iv_codes s"]
    counted [where P = "\<lambda>c. targets tg c \<and> \<not> ic_disabledAt c \<noteq> None" and Q = ?st and xs = "iv_codes s"]
  have sum: "wd_withdrawn r + wd_alreadyWithdrawn r \<le> wd_matched r" using n by simp
  have keep: "c \<in> set (iv_codes s')" if "c \<in> set (iv_codes s)" "ic_disabledAt c \<noteq> None" for c
    using that by (force simp: s' stamps_def)
  have d: "distinct (map ic_id (iv_codes s'))"
    using invite_inv_update [OF assms(1), of "\<lambda>c. c\<lparr>ic_disabledAt := Some t\<rparr>" ?st] by (simp add: s' terms_of_def invite_inv_def)
  have "redeem_commit saltedHash input c now draw s' = (Refused (Unusable Code_disabled), s')" if "c \<in> set (iv_codes s)" "?st c" for c
    by (rule withdrawn_refused [OF d, of "c\<lparr>ic_disabledAt := Some t\<rparr>"]) (use that in \<open>auto simp: s' intro!: image_eqI [of _ _ c]\<close>)
  with sum keep n(4) show ?thesis by (simp add: s')
qed

definition w_withdrawal :: withdrawal_request where
  "w_withdrawal = \<lparr>wr_id = None, wr_code = Some ''2222-3333-4444'', wr_campaign = None, wr_unspentOnly = True\<rparr>"

theorem withdrawal_stops_witness:
  "fst (redeem_commit id w_input w_row 1 w_draw (snd (withdraw w_withdrawal 3 w_minted))) = Refused (Unusable Code_disabled)"
proof -
  have inv: "invite_inv w_minted"
    using one_workspace_inv by (simp add: w_minted_def invite_inv_def counts_ok_def w_row_def code_row_def w_request_def redemptions_of_def
        redeemed_credit_def invite_credit_def key_credit_def one_workspace_def)
  have tg: "targetOf w_withdrawal = Inr (By_code ''222233334444'')" by code_simp
  then obtain r s' where w: "withdraw w_withdrawal 3 w_minted = (Inr r, s')" by (simp add: withdraw_def census_def stamp_def)
  have st: "w_row \<in> set (iv_codes w_minted)" "stamps (By_code ''222233334444'') (wr_unspentOnly w_withdrawal) w_row"
    by (simp_all add: w_minted_def stamps_def w_row_def code_row_def w_request_def w_withdrawal_def)
  from withdrawal_stops [OF inv w tg] st w show ?thesis by simp
qed

end
