(* ===== verification/Feedback.thy ===== *)
theory Feedback
  imports Invites Der_Crypto Json
begin

text \<open>
  \<open>feedback/\<close>: the second grant, for a completed form. The console mints a signed token for an eligible account, the form
  provider posts the submission back with it, and the account of the token is credited once. HMAC-SHA256, UTF-8
  decoding, \<open>JSON.parse\<close>, \<open>Date\<close> parsing and \<open>Number\<close> (with its check for a safe integer) are arguments. A delivery is a
  decision on the tables as they are (\<open>settle_read\<close>) and a write (\<open>settle_commit\<close>); other calls may come in between.
  Analytics are left out.
\<close>

section \<open>The token of the form\<close>

type_synonym hmac = "nat list \<Rightarrow> nat list \<Rightarrow> nat list"

definition TOKEN_VERSION :: string where "TOKEN_VERSION = ''v1''"

definition KEY_INFO :: string where "KEY_INFO = ''feedback-form-token''"

record token_claims =
  tc_userId :: string
  tc_workspaceId :: string
  tc_issuedAt :: int

datatype token_failure = Malformed_token | Bad_signature_token | Expired_token

definition keyOf :: "hmac \<Rightarrow> string \<Rightarrow> nat list" where
  "keyOf hmac secret = hmac (utf8_encode secret) (utf8_encode KEY_INFO)"

definition payloadOf :: "token_claims \<Rightarrow> string" where
  "payloadOf claims = join_with '':'' [TOKEN_VERSION, tc_userId claims, tc_workspaceId claims, show_int (tc_issuedAt claims)]"

definition sign_token :: "hmac \<Rightarrow> string \<Rightarrow> string \<Rightarrow> string" where
  "sign_token hmac secret payload = b64_encode (hmac (keyOf hmac secret) (utf8_encode payload))"

definition issueFeedbackToken :: "hmac \<Rightarrow> string \<Rightarrow> token_claims \<Rightarrow> string" where
  "issueFeedbackToken hmac secret claims =
     b64_encode (utf8_encode (payloadOf claims)) @ ''.'' @ sign_token hmac secret (payloadOf claims)"

definition token_equals :: "string \<Rightarrow> string \<Rightarrow> bool" where
  "token_equals expected actual \<longleftrightarrow>
     (let a = utf8_encode expected; b = utf8_encode actual in length a = length b \<and> a = b)"

definition verifyFeedbackToken ::
  "hmac \<Rightarrow> (nat list \<Rightarrow> string) \<Rightarrow> (string \<Rightarrow> int option) \<Rightarrow> string \<Rightarrow> string \<Rightarrow> int \<Rightarrow> int \<Rightarrow> (token_failure, token_claims) result" where
  "verifyFeedbackToken hmac decode number secret token ttlMs now =
     (case split_on CHR ''.'' token of
        [body, signature] \<Rightarrow>
          if body = [] \<or> signature = [] then Inl Malformed_token
          else let payload = decode (b64_decode body)
               in if \<not> token_equals (sign_token hmac secret payload) signature then Inl Bad_signature_token
                  else (case split_on CHR '':'' payload of
                          version # userId # workspaceId # issuedAtText # _ \<Rightarrow>
                            (case number issuedAtText of
                               None \<Rightarrow> Inl Malformed_token
                             | Some issuedAt \<Rightarrow>
                                 if version \<noteq> TOKEN_VERSION \<or> userId = [] \<or> workspaceId = [] then Inl Malformed_token
                                 else if issuedAt > now \<or> now - issuedAt > ttlMs then Inl Expired_token
                                 else Inr \<lparr>tc_userId = userId, tc_workspaceId = workspaceId, tc_issuedAt = issuedAt\<rparr>)
                        | _ \<Rightarrow> Inl Malformed_token)
      | _ \<Rightarrow> Inl Malformed_token)"

section \<open>The provider's delivery\<close>

record feedback_delivery =
  fd_submissionId :: string
  fd_formId :: "string option"
  fd_token :: "string option"
  fd_submittedAt :: int
  fd_answers :: "json list"
  fd_fields :: "json list"

definition FEEDBACK_TOKEN_FIELD :: string where "FEEDBACK_TOKEN_FIELD = ''t''"

definition SIGNATURE_PREFIX :: string where "SIGNATURE_PREFIX = ''sha256=''"

text \<open>\<open>Buffer.from\<close> of base64 reads the characters of either alphabet, as \<open>b64_decode\<close> does.\<close>

definition verifyTypeformSignature :: "hmac \<Rightarrow> string \<Rightarrow> nat list \<Rightarrow> string option \<Rightarrow> bool" where
  "verifyTypeformSignature hmac secret rawBody header =
     (case header of
        None \<Rightarrow> False
      | Some h \<Rightarrow>
          if \<not> starts_with h SIGNATURE_PREFIX then False
          else let provided = b64_decode (drop (length SIGNATURE_PREFIX) h); expected = hmac (utf8_encode secret) rawBody
               in length provided = length expected \<and> provided = expected)"

definition isRecord :: "json option \<Rightarrow> bool" where
  "isRecord j = (case j of Some (JObj _) \<Rightarrow> True | _ \<Rightarrow> False)"

definition array_or_empty :: "json option \<Rightarrow> json list" where
  "array_or_empty j = (case json_array j of Some xs \<Rightarrow> xs | None \<Rightarrow> [])"

definition parseTypeformDelivery :: "(nat list \<Rightarrow> json option) \<Rightarrow> (string \<Rightarrow> int option) \<Rightarrow> int \<Rightarrow> nat list \<Rightarrow> feedback_delivery option" where
  "parseTypeformDelivery parse date now rawBody =
     (case parse rawBody of
        None \<Rightarrow> None
      | Some payload \<Rightarrow>
          if \<not> isRecord (Some payload) then None
          else if json_get ''event_type'' payload \<noteq> Some (JStr ''form_response'') \<or> \<not> isRecord (json_get ''form_response'' payload) then None
          else let response = the (json_get ''form_response'' payload);
                   hidden = (if isRecord (json_get ''hidden'' response) then the (json_get ''hidden'' response) else JObj []);
                   defn = (if isRecord (json_get ''definition'' response) then the (json_get ''definition'' response) else JObj [])
               in (case json_string (json_get ''token'' response) of
                     None \<Rightarrow> None
                   | Some submissionId \<Rightarrow>
                       if submissionId = [] then None
                       else Some \<lparr>fd_submissionId = submissionId, fd_formId = json_string (json_get ''form_id'' response),
                              fd_token = json_string (json_get FEEDBACK_TOKEN_FIELD hidden),
                              fd_submittedAt = (case json_string (json_get ''submitted_at'' response) of
                                  None \<Rightarrow> now | Some s \<Rightarrow> (case date s of None \<Rightarrow> now | Some t \<Rightarrow> t)),
                              fd_answers = array_or_empty (json_get ''answers'' response),
                              fd_fields = array_or_empty (json_get ''fields'' defn)\<rparr>))"

section \<open>Tables and eligibility\<close>

datatype feedback_refusal = Already_granted | Not_eligible | Unknown_account | Feedback_error

record feedback_submission =
  fs_id :: string
  fs_provider :: string
  fs_formId :: "string option"
  fs_submissionId :: string
  fs_userId :: string
  fs_workspaceId :: string
  fs_grantedUserId :: "string option"
  fs_grantMicros :: "int option"
  fs_creditTransactionId :: "string option"
  fs_refusalReason :: "feedback_refusal option"
  fs_answers :: "json list"
  fs_fields :: "json list"
  fs_submittedAt :: int
  fs_createdAt :: int

record feedback_db =
  fb_submissions :: "feedback_submission list"
  fb_invites :: invite_db

text \<open>\<open>fc_form\<close> is the webhook secret and the provider of the configured form, if there is one.\<close>

record feedback_config =
  fc_form :: "(string \<times> string) option"
  fc_secret :: string
  fc_tokenTtl :: int
  fc_grantMicros :: int
  fc_offerBelowMicros :: int
  fc_minMeteredTokens :: int

datatype ineligible_reason = Feedback_disabled | No_first_grant | Already_granted_once | Balance_healthy | No_usage

datatype eligibility = Eligible string int | Ineligible ineligible_reason "string option"

definition grantOf :: "string \<Rightarrow> feedback_db \<Rightarrow> feedback_submission option" where
  "grantOf userId s = List.find (\<lambda>f. fs_grantedUserId f = Some userId) (fb_submissions s)"

definition meteredTokens :: "string \<Rightarrow> feedback_db \<Rightarrow> int" where
  "meteredTokens workspaceId s =
     sum_list (map (\<lambda>g. gen_promptTokens g + gen_completionTokens g)
       (filter (\<lambda>g. gen_workspaceId g = workspaceId) (generations (iv_db (fb_invites s)))))"

definition evaluate :: "feedback_config \<Rightarrow> bool \<Rightarrow> string \<Rightarrow> feedback_db \<Rightarrow> eligibility" where
  "evaluate cfg ignoreBalance userId s =
     (if fc_form cfg = None then Ineligible Feedback_disabled None
      else (case redemptionOf userId (fb_invites s) of
              None \<Rightarrow> Ineligible No_first_grant None
            | Some redemption \<Rightarrow>
                let w = rd_workspaceId redemption
                in if grantOf userId s \<noteq> None then Ineligible Already_granted_once (Some w)
                   else if \<not> ignoreBalance \<and> (case workspaces (iv_db (fb_invites s)) w of
                             None \<Rightarrow> True | Some ws \<Rightarrow> ws_balanceMicros ws \<ge> fc_offerBelowMicros cfg)
                   then Ineligible Balance_healthy (Some w)
                   else if meteredTokens w s < fc_minMeteredTokens cfg then Ineligible No_usage (Some w)
                   else Eligible w (fc_grantMicros cfg)))"

section \<open>Settling a submission\<close>

definition settled_submission :: "string \<Rightarrow> feedback_db \<Rightarrow> bool" where
  "settled_submission submissionId s \<longleftrightarrow> submissionId \<in> fs_submissionId ` set (fb_submissions s)"

definition refusalFor_feedback :: "feedback_config \<Rightarrow> string \<Rightarrow> string \<Rightarrow> feedback_db \<Rightarrow> feedback_refusal option" where
  "refusalFor_feedback cfg userId workspaceId s =
     (case evaluate cfg True userId s of
        Eligible w _ \<Rightarrow> if w \<noteq> workspaceId then Some Unknown_account else None
      | Ineligible reason None \<Rightarrow> Some Not_eligible
      | Ineligible reason (Some w) \<Rightarrow>
          if w \<noteq> workspaceId then Some Unknown_account
          else Some (if reason = Already_granted_once then Already_granted else Not_eligible))"

datatype feedback_outcome = Feedback_granted int string | Feedback_replayed | Feedback_ignored | Feedback_refused feedback_refusal

record settlement_input =
  si_delivery :: feedback_delivery
  si_userId :: string
  si_workspaceId :: string
  si_provider :: string

datatype settlement = Settled_before | Refuse_it feedback_refusal bool | Grant_it int

definition settle_read :: "feedback_config \<Rightarrow> settlement_input \<Rightarrow> feedback_db \<Rightarrow> settlement" where
  "settle_read cfg input s =
     (if settled_submission (fd_submissionId (si_delivery input)) s then Settled_before
      else (case refusalFor_feedback cfg (si_userId input) (si_workspaceId input) s of
              Some refusal \<Rightarrow> Refuse_it refusal (refusal \<noteq> Unknown_account)
            | None \<Rightarrow> Grant_it (fc_grantMicros cfg)))"

record feedback_draw =
  fw_id :: string
  fw_transactionId :: string
  fw_now :: int

definition submission_row ::
  "settlement_input \<Rightarrow> feedback_draw \<Rightarrow> string option \<Rightarrow> int option \<Rightarrow> string option \<Rightarrow> feedback_refusal option \<Rightarrow> feedback_submission" where
  "submission_row input draw granted micros txn refusal =
     \<lparr>fs_id = fw_id draw, fs_provider = si_provider input, fs_formId = fd_formId (si_delivery input),
      fs_submissionId = fd_submissionId (si_delivery input), fs_userId = si_userId input, fs_workspaceId = si_workspaceId input,
      fs_grantedUserId = granted, fs_grantMicros = micros, fs_creditTransactionId = txn, fs_refusalReason = refusal,
      fs_answers = fd_answers (si_delivery input), fs_fields = fd_fields (si_delivery input),
      fs_submittedAt = fd_submittedAt (si_delivery input), fs_createdAt = fw_now draw\<rparr>"

text \<open>The unique indices of the table; a unique index ignores null.\<close>

definition insert_submission :: "feedback_submission \<Rightarrow> feedback_db \<Rightarrow> feedback_db option" where
  "insert_submission row s =
     (if fs_id row \<in> fs_id ` set (fb_submissions s) \<or> fs_submissionId row \<in> fs_submissionId ` set (fb_submissions s)
         \<or> fs_grantedUserId row \<noteq> None \<and> fs_grantedUserId row \<in> fs_grantedUserId ` set (fb_submissions s)
      then None else Some (s\<lparr>fb_submissions := fb_submissions s @ [row]\<rparr>))"

definition campaignOf :: "string \<Rightarrow> feedback_db \<Rightarrow> string option" where
  "campaignOf userId s =
     (case redemptionOf userId (fb_invites s) of
        None \<Rightarrow> None | Some r \<Rightarrow> map_option ic_campaign (find_code_id (fb_invites s) (rd_inviteCodeId r)))"

definition feedback_input :: "settlement_input \<Rightarrow> int \<Rightarrow> string option \<Rightarrow> ledger_input" where
  "feedback_input input grantMicros campaign =
     \<lparr>in_workspaceId = si_workspaceId input, in_kind = Grant, in_amountMicros = grantMicros,
      in_idempotencyKey = ''feedback:'' @ si_userId input, in_reference = Some ''feedback'',
      in_description = Some (if truthy campaign then ''Feedback grant '' @ [CHR 0xB7] @ '' '' @ the campaign else ''Feedback grant'')\<rparr>"

datatype write_error = Unique_violated | Write_failed

definition feedback_write :: "settlement_input \<Rightarrow> int \<Rightarrow> string option \<Rightarrow> feedback_draw \<Rightarrow> feedback_db \<Rightarrow> (write_error, string \<times> feedback_db) result" where
  "feedback_write input grantMicros campaign draw s =
     (case appendWithin (iv_db (fb_invites s)) (feedback_input input grantMicros campaign) (fw_transactionId draw) (fw_now draw) of
        Inl UniqueViolation \<Rightarrow> Inl Unique_violated
      | Inl _ \<Rightarrow> Inl Write_failed
      | Inr (entry, d) \<Rightarrow>
          (case insert_submission
                  (submission_row input draw (Some (si_userId input)) (Some grantMicros) (Some (tx_id (le_transaction entry))) None)
                  (s\<lparr>fb_invites := (fb_invites s)\<lparr>iv_db := d\<rparr>\<rparr>) of
             None \<Rightarrow> Inl Unique_violated
           | Some s' \<Rightarrow> Inr (tx_id (le_transaction entry), s')))"

definition feedback_refuse :: "settlement_input \<Rightarrow> feedback_refusal \<Rightarrow> bool \<Rightarrow> feedback_draw \<Rightarrow> feedback_db \<Rightarrow> feedback_outcome \<times> feedback_db" where
  "feedback_refuse input reason store draw s =
     (Feedback_refused reason,
      if store then (case insert_submission (submission_row input draw None None None (Some reason)) s of None \<Rightarrow> s | Some s' \<Rightarrow> s') else s)"

definition feedback_grant :: "settlement_input \<Rightarrow> int \<Rightarrow> string option \<Rightarrow> feedback_draw \<Rightarrow> feedback_db \<Rightarrow> feedback_outcome \<times> feedback_db" where
  "feedback_grant input grantMicros campaign draw s =
     (case feedback_write input grantMicros campaign draw s of
        Inr (txn, s') \<Rightarrow> (Feedback_granted grantMicros txn, s')
      | Inl Unique_violated \<Rightarrow> feedback_refuse input Already_granted False draw s
      | Inl Write_failed \<Rightarrow> feedback_refuse input Feedback_error False draw s)"

definition settle_commit :: "settlement_input \<Rightarrow> settlement \<Rightarrow> string option \<Rightarrow> feedback_draw \<Rightarrow> feedback_db \<Rightarrow> feedback_outcome \<times> feedback_db" where
  "settle_commit input decision campaign draw s =
     (case decision of
        Settled_before \<Rightarrow> (Feedback_replayed, s)
      | Refuse_it reason store \<Rightarrow> feedback_refuse input reason store draw s
      | Grant_it micros \<Rightarrow> feedback_grant input micros campaign draw s)"

text \<open>The offer of the console. \<open>with_param url name value\<close> is the form URL with the parameter set, or \<open>None\<close> where it is not a
  URL (\<open>new URL\<close> throws).\<close>

record feedback_offer =
  fo_eligibility :: eligibility
  fo_formUrl :: "string option"
  fo_granted :: "feedback_submission option"

definition formUrlFor :: "hmac \<Rightarrow> (string \<Rightarrow> string \<Rightarrow> string \<Rightarrow> string option) \<Rightarrow> string \<Rightarrow> feedback_config \<Rightarrow> int \<Rightarrow> string \<Rightarrow> string
    \<Rightarrow> string option option" where
  "formUrlFor hmac with_param url cfg now userId w =
     (case fc_form cfg of
        None \<Rightarrow> Some None
      | Some _ \<Rightarrow> map_option Some (with_param url FEEDBACK_TOKEN_FIELD
          (issueFeedbackToken hmac (fc_secret cfg) \<lparr>tc_userId = userId, tc_workspaceId = w, tc_issuedAt = now\<rparr>)))"

definition offerFor :: "hmac \<Rightarrow> (string \<Rightarrow> string \<Rightarrow> string \<Rightarrow> string option) \<Rightarrow> string \<Rightarrow> feedback_config \<Rightarrow> int \<Rightarrow> string \<Rightarrow> feedback_db
    \<Rightarrow> feedback_offer option" where
  "offerFor hmac with_param url cfg now userId s =
     (case evaluate cfg False userId s of
        Eligible w micros \<Rightarrow>
          map_option (\<lambda>u. \<lparr>fo_eligibility = Eligible w micros, fo_formUrl = u, fo_granted = grantOf userId s\<rparr>)
            (formUrlFor hmac with_param url cfg now userId w)
      | e \<Rightarrow> Some \<lparr>fo_eligibility = e, fo_formUrl = None, fo_granted = grantOf userId s\<rparr>)"

text \<open>A delivery up to the decision: \<open>None\<close> is the exception of a delivery that is not authentic.\<close>

definition authenticate_delivery ::
  "hmac \<Rightarrow> (nat list \<Rightarrow> string) \<Rightarrow> (string \<Rightarrow> int option) \<Rightarrow> (nat list \<Rightarrow> json option) \<Rightarrow> (string \<Rightarrow> int option) \<Rightarrow> feedback_config \<Rightarrow> int
    \<Rightarrow> nat list \<Rightarrow> string option \<Rightarrow> (feedback_outcome, settlement_input) result option" where
  "authenticate_delivery hmac decode number parse date cfg now rawBody signature =
     (case fc_form cfg of
        None \<Rightarrow> None
      | Some (webhookSecret, provider) \<Rightarrow>
          if \<not> verifyTypeformSignature hmac webhookSecret rawBody signature then None
          else (case parseTypeformDelivery parse date now rawBody of
                  None \<Rightarrow> Some (Inl Feedback_ignored)
                | Some delivery \<Rightarrow>
                    (case verifyFeedbackToken hmac decode number (fc_secret cfg) (case fd_token delivery of Some t \<Rightarrow> t | None \<Rightarrow> [])
                            (fc_tokenTtl cfg) now of
                       Inl _ \<Rightarrow> None
                     | Inr claims \<Rightarrow> Some (Inr \<lparr>si_delivery = delivery, si_userId = tc_userId claims,
                           si_workspaceId = tc_workspaceId claims, si_provider = provider\<rparr>))))"

definition handleDelivery ::
  "hmac \<Rightarrow> (nat list \<Rightarrow> string) \<Rightarrow> (string \<Rightarrow> int option) \<Rightarrow> (nat list \<Rightarrow> json option) \<Rightarrow> (string \<Rightarrow> int option) \<Rightarrow> feedback_config \<Rightarrow> int
    \<Rightarrow> nat list \<Rightarrow> string option \<Rightarrow> feedback_draw \<Rightarrow> feedback_db \<Rightarrow> feedback_outcome option \<times> feedback_db" where
  "handleDelivery hmac decode number parse date cfg now rawBody signature draw s =
     (case authenticate_delivery hmac decode number parse date cfg now rawBody signature of
        None \<Rightarrow> (None, s)
      | Some (Inl outcome) \<Rightarrow> (Some outcome, s)
      | Some (Inr input) \<Rightarrow>
          (case settle_commit input (settle_read cfg input s) (campaignOf (si_userId input) s) draw s of (o', s') \<Rightarrow> (Some o', s')))"

section \<open>Interleaved deliveries\<close>

text \<open>The tables, and the deliveries that have been decided and not written. A write may follow its decision at any later
  point; in between, other deliveries, redemptions and other writers of the ledger take their steps.\<close>

record feedback_world =
  fx_db :: feedback_db
  fx_pending :: "(settlement_input \<times> settlement) set"

definition is_feedback_key :: "string \<Rightarrow> bool" where
  "is_feedback_key k \<longleftrightarrow> starts_with k ''feedback:''"

inductive feedback_step :: "feedback_config \<Rightarrow> feedback_world \<Rightarrow> feedback_world \<Rightarrow> bool" for cfg where
  decide: "feedback_step cfg w (w\<lparr>fx_pending := insert (input, settle_read cfg input (fx_db w)) (fx_pending w)\<rparr>)"
| settle: "(input, decision) \<in> fx_pending w \<Longrightarrow> settle_commit input decision campaign draw (fx_db w) = (outcome, s') \<Longrightarrow>
    feedback_step cfg w (w\<lparr>fx_db := s'\<rparr>)"
| redeem: "redeem_commit saltedHash input invite now draw (fb_invites (fx_db w)) = (outcome, iv) \<Longrightarrow>
    feedback_step cfg w (w\<lparr>fx_db := (fx_db w)\<lparr>fb_invites := iv\<rparr>\<rparr>)"
| other: "ledger_record (iv_db (fb_invites (fx_db w))) i uuid now = (r, d') \<Longrightarrow> \<not> is_feedback_key (in_idempotencyKey i) \<Longrightarrow>
    feedback_step cfg w (w\<lparr>fx_db := (fx_db w)\<lparr>fb_invites := (fb_invites (fx_db w))\<lparr>iv_db := d'\<rparr>\<rparr>\<rparr>)"

inductive feedback_reachable :: "feedback_config \<Rightarrow> invite_db \<Rightarrow> feedback_world \<Rightarrow> bool" for cfg iv0 where
  start: "feedback_reachable cfg iv0 \<lparr>fx_db = \<lparr>fb_submissions = [], fb_invites = iv0\<rparr>, fx_pending = {}\<rparr>"
| step: "feedback_reachable cfg iv0 w \<Longrightarrow> feedback_step cfg w w' \<Longrightarrow> feedback_reachable cfg iv0 w'"

section \<open>One grant per account\<close>

definition granted_rows :: "feedback_db \<Rightarrow> feedback_submission list" where
  "granted_rows s = filter (\<lambda>f. fs_grantedUserId f \<noteq> None) (fb_submissions s)"

definition submission_paid :: "int \<Rightarrow> db \<Rightarrow> feedback_submission \<Rightarrow> bool" where
  "submission_paid micros d f \<longleftrightarrow>
     (\<exists>t \<in> set (transactions d). fs_creditTransactionId f = Some (tx_id t) \<and> tx_kind t = Grant \<and> tx_amountMicros t = micros
        \<and> tx_workspaceId t = fs_workspaceId f \<and> tx_idempotencyKey t = ''feedback:'' @ fs_userId f)
     \<and> fs_grantedUserId f = Some (fs_userId f) \<and> fs_grantMicros f = Some micros"

definition feedback_inv :: "int \<Rightarrow> feedback_db \<Rightarrow> bool" where
  "feedback_inv micros s \<longleftrightarrow>
     distinct (map fs_submissionId (fb_submissions s)) \<and> distinct (map fs_grantedUserId (granted_rows s))
     \<and> list_all (submission_paid micros (iv_db (fb_invites s))) (granted_rows s)
     \<and> key_credit is_feedback_key (iv_db (fb_invites s)) = micros * int (length (granted_rows s)) \<and> ledger_inv (iv_db (fb_invites s))"

definition decisions_ok :: "feedback_config \<Rightarrow> feedback_world \<Rightarrow> bool" where
  "decisions_ok cfg w \<longleftrightarrow> (\<forall>input n. (input, Grant_it n) \<in> fx_pending w \<longrightarrow> n = fc_grantMicros cfg)"

lemma insert_submission_Some:
  "insert_submission row s = Some s' \<longleftrightarrow> s' = s\<lparr>fb_submissions := fb_submissions s @ [row]\<rparr>
     \<and> fs_id row \<notin> fs_id ` set (fb_submissions s) \<and> fs_submissionId row \<notin> fs_submissionId ` set (fb_submissions s)
     \<and> (fs_grantedUserId row = None \<or> fs_grantedUserId row \<notin> fs_grantedUserId ` set (fb_submissions s))"
  by (auto simp: insert_submission_def)

lemma paid_mono: "submission_paid n d f \<Longrightarrow> set (transactions d) \<subseteq> set (transactions d') \<Longrightarrow> submission_paid n d' f"
  by (auto simp: submission_paid_def)

lemma feedback_inv_ledger:
  assumes "feedback_inv n s" and "set (transactions (iv_db (fb_invites s))) \<subseteq> set (transactions (iv_db iv))"
    and "key_credit is_feedback_key (iv_db iv) = key_credit is_feedback_key (iv_db (fb_invites s))" and "ledger_inv (iv_db iv)"
  shows "feedback_inv n (s\<lparr>fb_invites := iv\<rparr>)"
  using assms paid_mono by (auto simp: feedback_inv_def granted_rows_def list_all_iff)

lemma refuse_inv: "feedback_inv n s \<Longrightarrow> feedback_inv n (snd (feedback_refuse input reason store draw s))"
  by (auto simp: feedback_refuse_def insert_submission_Some feedback_inv_def granted_rows_def submission_row_def split: option.split)

lemma write_Inr:
  assumes "feedback_write input n campaign draw s = Inr (txn, s')"
  obtains entry d where
    "ledger_append (iv_db (fb_invites s)) (feedback_input input n campaign) (fw_transactionId draw) (fw_now draw) = Inr (entry, d)"
    and "txn = tx_id (le_transaction entry)"
    and "insert_submission (submission_row input draw (Some (si_userId input)) (Some n) (Some txn) None)
           (s\<lparr>fb_invites := (fb_invites s)\<lparr>iv_db := d\<rparr>\<rparr>) = Some s'"
proof -
  let ?a = "appendWithin (iv_db (fb_invites s)) (feedback_input input n campaign) (fw_transactionId draw) (fw_now draw)"
  obtain entry d where a: "?a = Inr (entry, d)"
    using assms by (cases ?a) (auto simp: feedback_write_def split: ledger_error.splits)
  moreover have "insert_submission (submission_row input draw (Some (si_userId input)) (Some n) (Some txn) None)
      (s\<lparr>fb_invites := (fb_invites s)\<lparr>iv_db := d\<rparr>\<rparr>) = Some s' \<and> txn = tx_id (le_transaction entry)"
    using assms a by (auto simp: feedback_write_def split: option.splits)
  ultimately show thesis using that by (auto simp: appendWithin_def res_bind_eq_Inr)
qed

lemma write_inv:
  assumes inv: "feedback_inv n s" and w: "feedback_write input n campaign draw s = Inr (txn, s')"
  shows "feedback_inv n s'"
  using w
proof (rule write_Inr)
  fix entry d
  let ?i = "feedback_input input n campaign" and ?d = "iv_db (fb_invites s)"
  let ?row = "submission_row input draw (Some (si_userId input)) (Some n) (Some txn) None"
  assume a: "ledger_append ?d ?i (fw_transactionId draw) (fw_now draw) = Inr (entry, d)" and txn: "txn = tx_id (le_transaction entry)"
    and ins: "insert_submission ?row (s\<lparr>fb_invites := (fb_invites s)\<lparr>iv_db := d\<rparr>\<rparr>) = Some s'"
  note app = append_success [OF a]
  have i: "in_idempotencyKey ?i = ''feedback:'' @ si_userId input" "in_amountMicros ?i = n" "in_kind ?i = Grant"
    "in_workspaceId ?i = si_workspaceId input" by (simp_all add: feedback_input_def)
  have s': "fb_submissions s' = fb_submissions s @ [?row]" "iv_db (fb_invites s') = d" and fresh:
    "fs_submissionId ?row \<notin> fs_submissionId ` set (fb_submissions s)" "Some (si_userId input) \<notin> fs_grantedUserId ` set (fb_submissions s)"
    using ins by (auto simp: insert_submission_Some submission_row_def)
  have rows: "granted_rows s' = granted_rows s @ [?row]" by (simp add: granted_rows_def s' submission_row_def)
  have "submission_paid n d ?row"
    unfolding submission_paid_def app(4) by (simp add: submission_row_def txn app(7) transaction_of_def i)
  moreover have "list_all (submission_paid n d) (granted_rows s)"
    using inv paid_mono [of n ?d _ d] by (auto simp: feedback_inv_def list_all_iff app(4))
  moreover have "key_credit is_feedback_key d = n * int (length (granted_rows s'))"
    using inv key_credit_append [OF a, of is_feedback_key]
    by (simp add: feedback_inv_def rows i is_feedback_key_def starts_with_def distrib_left)
  moreover have "ledger_inv d" using append_inv [OF _ a] inv by (simp add: feedback_inv_def)
  moreover have "fs_grantedUserId ?row = Some (si_userId input)" by (simp add: submission_row_def)
  ultimately show ?thesis using inv fresh
    by (auto simp: feedback_inv_def s' rows granted_rows_def)
qed

lemma settle_inv:
  assumes inv: "feedback_inv n s" and m: "\<And>m. decision = Grant_it m \<Longrightarrow> m = n"
  shows "feedback_inv n (snd (settle_commit input decision campaign draw s))"
proof (cases decision)
  case (Grant_it m)
  then have m: "m = n" using m by blast
  show ?thesis
  proof (cases "feedback_write input n campaign draw s")
    case (Inl e)
    then show ?thesis using refuse_inv [OF inv] Grant_it m
      by (cases e) (simp_all add: settle_commit_def feedback_grant_def)
  next
    case (Inr p)
    obtain txn s' where p: "p = (txn, s')" by (cases p)
    with Inr have "feedback_inv n s'" using write_inv [OF inv] by blast
    with Inr p show ?thesis by (simp add: settle_commit_def feedback_grant_def Grant_it m)
  qed
qed (simp_all add: settle_commit_def inv refuse_inv)

lemma invite_not_feedback: "\<not> is_feedback_key (invite_key codeId userId)"
  by (simp add: is_feedback_key_def invite_key_def starts_with_def)

lemma redeem_keeps_feedback:
  assumes inv: "feedback_inv n s" and c: "redeem_commit saltedHash input invite now draw (fb_invites s) = (outcome, iv)"
  shows "feedback_inv n (s\<lparr>fb_invites := iv\<rparr>)"
  using c
proof (cases rule: commit_cases)
  case granted
  then show ?thesis
  proof (rule grant_InrE)
    fix s1 entry d
    assume s1: "claimSeat invite now (fb_invites s) = Inr s1"
      and a: "ledger_append (iv_db s1) (grant_input invite input) (dr_transactionId draw) (dr_transactionAt draw) = Inr (entry, d)"
      and iv: "iv = s1\<lparr>iv_db := d, iv_redemptions := iv_redemptions s1 @ [redemption_row saltedHash invite input now draw]\<rparr>"
    have fr: "iv_db s1 = iv_db (fb_invites s)" by (simp add: claimSeat_Inr(1) [OF s1])
    have "\<not> is_feedback_key (in_idempotencyKey (grant_input invite input))"
      by (simp add: grant_input_def invite_not_feedback)
    then have "key_credit is_feedback_key d = key_credit is_feedback_key (iv_db (fb_invites s))"
      using key_credit_append [OF a, of is_feedback_key] fr by simp
    moreover have "ledger_inv d" using append_inv [OF _ a] inv by (simp add: feedback_inv_def fr)
    moreover have "set (transactions (iv_db (fb_invites s))) \<subseteq> set (transactions d)"
      using append_success(4) [OF a] by (auto simp: fr)
    ultimately show ?thesis using feedback_inv_ledger [OF inv, of iv] by (simp add: iv)
  qed
next
  case (refused e)
  then show ?thesis using inv by simp
qed

lemma other_keeps_feedback:
  assumes inv: "feedback_inv n s" and r: "ledger_record (iv_db (fb_invites s)) i uuid now = (r, d')"
    and k: "\<not> is_feedback_key (in_idempotencyKey i)"
  shows "feedback_inv n (s\<lparr>fb_invites := (fb_invites s)\<lparr>iv_db := d'\<rparr>\<rparr>)"
  using feedback_inv_ledger [OF inv, of "(fb_invites s)\<lparr>iv_db := d'\<rparr>"] key_credit_record [where P = is_feedback_key, OF r k]
    ledger_record_inv [OF r] inv by (simp add: feedback_inv_def)

lemma read_grants_configured: "settle_read cfg input s = Grant_it n \<Longrightarrow> n = fc_grantMicros cfg"
  by (auto simp: settle_read_def split: if_splits option.splits)

lemma feedback_step_inv:
  assumes "feedback_step cfg w w'" and "feedback_inv (fc_grantMicros cfg) (fx_db w) \<and> decisions_ok cfg w"
  shows "feedback_inv (fc_grantMicros cfg) (fx_db w') \<and> decisions_ok cfg w'"
  using assms
proof (induction rule: feedback_step.induct)
  case (decide w input)
  then show ?case using read_grants_configured by (auto simp: decisions_ok_def dest: sym)
next
  case (settle input decision w campaign draw outcome s')
  then have "feedback_inv (fc_grantMicros cfg) (snd (settle_commit input decision campaign draw (fx_db w)))"
    by (intro settle_inv) (auto simp: decisions_ok_def)
  with settle show ?case by (simp add: decisions_ok_def)
next
  case (redeem saltedHash input invite now draw w outcome iv)
  then show ?case using redeem_keeps_feedback [of _ "fx_db w"] by (simp add: decisions_ok_def)
next
  case (other w i uuid now r d')
  then show ?case using other_keeps_feedback [of _ "fx_db w"] by (simp add: decisions_ok_def)
qed

lemma feedback_reachable_inv:
  assumes "feedback_reachable cfg iv0 w" and "ledger_inv (iv_db iv0)" and "key_credit is_feedback_key (iv_db iv0) = 0"
  shows "feedback_inv (fc_grantMicros cfg) (fx_db w) \<and> decisions_ok cfg w"
  using assms(1)
proof (induction rule: feedback_reachable.induct)
  case start
  then show ?case using assms(2,3) by (simp add: feedback_inv_def granted_rows_def decisions_ok_def)
next
  case (step w w')
  then show ?case using feedback_step_inv by blast
qed

text \<open>C36: one grant per account, paid once. However deliveries (and redeliveries of the same submission), sign-up redemptions
  and other writers of the ledger interleave, a submission is filed at most once, at most one filed submission of an
  account is granted, each granted one names a ledger entry of its account for the configured amount, and the credit
  that forms have put into the ledger is the configured amount times the number of granted submissions.\<close>

theorem feedback_once:
  assumes "feedback_reachable cfg iv0 w" and "ledger_inv (iv_db iv0)" and "key_credit is_feedback_key (iv_db iv0) = 0"
  shows "distinct (map fs_submissionId (fb_submissions (fx_db w))) \<and> distinct (map fs_grantedUserId (granted_rows (fx_db w)))
    \<and> list_all (submission_paid (fc_grantMicros cfg) (iv_db (fb_invites (fx_db w)))) (granted_rows (fx_db w))
    \<and> key_credit is_feedback_key (iv_db (fb_invites (fx_db w))) = fc_grantMicros cfg * int (length (granted_rows (fx_db w)))
    \<and> ledger_inv (iv_db (fb_invites (fx_db w)))"
  using feedback_reachable_inv [OF assms] by (simp add: feedback_inv_def)

text \<open>The account of the redeemed invitation sends its form twice before either is written; the second write is refused.\<close>

definition w_feedback :: feedback_config where
  "w_feedback = \<lparr>fc_form = Some (''s'', ''typeform''), fc_secret = ''k'', fc_tokenTtl = 100, fc_grantMicros = 70, fc_offerBelowMicros = 500,
     fc_minMeteredTokens = 0\<rparr>"

definition w_form :: "string \<Rightarrow> settlement_input" where
  "w_form submission = \<lparr>si_delivery = \<lparr>fd_submissionId = submission, fd_formId = None, fd_token = None, fd_submittedAt = 3,
     fd_answers = [], fd_fields = []\<rparr>, si_userId = ''u'', si_workspaceId = ''w'', si_provider = ''typeform''\<rparr>"

definition w_stamp :: "string \<Rightarrow> feedback_draw" where
  "w_stamp i = \<lparr>fw_id = i, fw_transactionId = i, fw_now = 4\<rparr>"

definition w_before :: feedback_db where
  "w_before = \<lparr>fb_submissions = [], fb_invites = w_redeemed\<rparr>"

definition w_paid :: feedback_db where
  "w_paid = snd (settle_commit (w_form ''a'') (Grant_it 70) (Some ''c'') (w_stamp ''x'') w_before)"

lemma w_decided: "settle_read w_feedback (w_form ''a'') w_before = Grant_it 70" "settle_read w_feedback (w_form ''b'') w_before = Grant_it 70"
  by code_simp+

lemma w_paid_rows: "length (granted_rows w_paid) = 1"
  by code_simp

lemma w_second: "settle_commit (w_form ''b'') (Grant_it 70) (Some ''c'') (w_stamp ''y'') w_paid = (Feedback_refused Already_granted, w_paid)"
proof -
  have "(case feedback_write (w_form ''b'') 70 (Some ''c'') (w_stamp ''y'') w_paid of Inl Unique_violated \<Rightarrow> True | _ \<Rightarrow> False)"
    by code_simp
  then have "feedback_write (w_form ''b'') 70 (Some ''c'') (w_stamp ''y'') w_paid = Inl Unique_violated"
    by (simp split: sum.splits write_error.splits)
  then show ?thesis by (simp add: settle_commit_def feedback_grant_def feedback_refuse_def)
qed

lemma w_feedback_reached: "feedback_reachable w_feedback w_redeemed
    \<lparr>fx_db = w_paid, fx_pending = {(w_form ''b'', Grant_it 70), (w_form ''a'', Grant_it 70)}\<rparr>"
proof -
  let ?p = "{(w_form ''b'', Grant_it 70), (w_form ''a'', Grant_it 70)}"
  have "feedback_reachable w_feedback w_redeemed \<lparr>fx_db = w_before, fx_pending = {}\<rparr>"
    using feedback_reachable.start by (simp add: w_before_def)
  from feedback_reachable.step [OF this feedback_step.decide, of "w_form ''a''"]
  have "feedback_reachable w_feedback w_redeemed \<lparr>fx_db = w_before, fx_pending = {(w_form ''a'', Grant_it 70)}\<rparr>"
    by (simp add: w_decided)
  from feedback_reachable.step [OF this feedback_step.decide, of "w_form ''b''"]
  have r: "feedback_reachable w_feedback w_redeemed \<lparr>fx_db = w_before, fx_pending = ?p\<rparr>" by (simp add: w_decided)
  obtain outcome where "settle_commit (w_form ''a'') (Grant_it 70) (Some ''c'') (w_stamp ''x'') w_before = (outcome, w_paid)"
    unfolding w_paid_def by (metis prod.collapse)
  with feedback_reachable.step [OF r feedback_step.settle, of "w_form ''a''" "Grant_it 70" "Some ''c''" "w_stamp ''x''" outcome w_paid]
  have "feedback_reachable w_feedback w_redeemed \<lparr>fx_db = w_paid, fx_pending = ?p\<rparr>" by simp
  from feedback_reachable.step [OF this feedback_step.settle, of "w_form ''b''" "Grant_it 70" "Some ''c''" "w_stamp ''y''"] w_second
  show ?thesis by fastforce
qed

lemma w_redeemed_ledger: "ledger_inv (iv_db w_redeemed) \<and> key_credit is_feedback_key (iv_db w_redeemed) = 0"
proof -
  have "invite_credit one_workspace = 0" by (simp add: invite_credit_def key_credit_def one_workspace_def)
  from invite_reachable_inv [OF w_reached one_workspace_inv this] have "ledger_inv (iv_db w_redeemed)" by (simp add: invite_inv_def)
  moreover have "key_credit is_feedback_key (iv_db w_redeemed) = 0" by code_simp
  ultimately show ?thesis by blast
qed

theorem feedback_once_witness:
  "settle_commit (w_form ''b'') (Grant_it 70) (Some ''c'') (w_stamp ''y'') w_paid = (Feedback_refused Already_granted, w_paid)
   \<and> feedback_reachable w_feedback w_redeemed \<lparr>fx_db = w_paid, fx_pending = {(w_form ''b'', Grant_it 70), (w_form ''a'', Grant_it 70)}\<rparr>
   \<and> key_credit is_feedback_key (iv_db (fb_invites w_paid)) = 70"
  using feedback_once [OF w_feedback_reached] w_redeemed_ledger w_feedback_reached w_second w_paid_rows by (simp add: w_feedback_def)

section \<open>What a token says\<close>

lemma show_int_no_colon: "CHR '':'' \<notin> set (show_int i)"
proof -
  have "CHR '':'' \<notin> set (show_nat n)" for n
    using show_nat_digits [of n] by (auto simp: list_all_iff is_digit_def dest: bspec [where x = "CHR '':''"])
  then show ?thesis by (simp add: show_int_def)
qed

lemma issued_read:
  assumes "decode (utf8_encode (payloadOf c)) = payloadOf c" and "all_bytes (hmac (keyOf hmac secret) (utf8_encode (payloadOf c)))"
    and "hmac (keyOf hmac secret) (utf8_encode (payloadOf c)) \<noteq> []"
    and "split_on CHR '':'' (payloadOf c) = TOKEN_VERSION # u # w # n # rest"
    and "number n = Some t" and "u \<noteq> []" and "w \<noteq> []"
  shows "verifyFeedbackToken hmac decode number secret (issueFeedbackToken hmac secret c) ttl now =
    (if t > now \<or> now - t > ttl then Inl Expired_token else Inr \<lparr>tc_userId = u, tc_workspaceId = w, tc_issuedAt = t\<rparr>)"
proof -
  let ?body = "b64_encode (utf8_encode (payloadOf c))" and ?sig = "sign_token hmac secret (payloadOf c)"
  have "split_on CHR ''.'' (?body @ ''.'' @ ?sig) = [?body, ?sig]"
    using b64_no_dot utf8_bytes assms(2) by (simp add: split_two sign_token_def)
  moreover have "utf8_encode (payloadOf c) \<noteq> []" by (simp add: payloadOf_def TOKEN_VERSION_def utf8_encode_def)
  moreover have "b64_decode ?body = utf8_encode (payloadOf c)"
    using b64_roundtrip_bytes utf8_bytes by (simp add: all_bytes_def)
  ultimately show ?thesis using assms
    by (simp add: verifyFeedbackToken_def issueFeedbackToken_def sign_token_def token_equals_def)
qed

text \<open>C38: what a token says when it comes back. The token issued for ids without a colon verifies to exactly its claims until
  its lifetime is over and never before its time. The encoding of the payload does not protect an id that has a colon,
  though: the token issued for the account \<open>u:w:t\<close>, whatever workspace and time it names, verifies to account
  \<open>u\<close>, workspace \<open>w\<close> and time \<open>t\<close>.\<close>

theorem token_boundaries:
  assumes decode: "\<forall>s. decode (utf8_encode s) = s" and number: "number (show_int t) = Some t"
    and hmac: "\<forall>k m. all_bytes (hmac k m) \<and> hmac k m \<noteq> []"
    and ids: "u \<noteq> []" "w \<noteq> []" "CHR '':'' \<notin> set u" "CHR '':'' \<notin> set w"
  shows "verifyFeedbackToken hmac decode number secret
      (issueFeedbackToken hmac secret \<lparr>tc_userId = u, tc_workspaceId = w, tc_issuedAt = t\<rparr>) ttl now =
        (if t > now \<or> now - t > ttl then Inl Expired_token else Inr \<lparr>tc_userId = u, tc_workspaceId = w, tc_issuedAt = t\<rparr>)
    \<and> verifyFeedbackToken hmac decode number secret
      (issueFeedbackToken hmac secret \<lparr>tc_userId = u @ '':'' @ w @ '':'' @ show_int t, tc_workspaceId = v, tc_issuedAt = t'\<rparr>) ttl now =
        (if t > now \<or> now - t > ttl then Inl Expired_token else Inr \<lparr>tc_userId = u, tc_workspaceId = w, tc_issuedAt = t\<rparr>)"
proof -
  have v1: "CHR '':'' \<notin> set TOKEN_VERSION" by (simp add: TOKEN_VERSION_def)
  note split = split_on_first split_on_free v1 ids show_int_no_colon
  have "split_on CHR '':'' (payloadOf \<lparr>tc_userId = u, tc_workspaceId = w, tc_issuedAt = t\<rparr>) = [TOKEN_VERSION, u, w, show_int t]"
    by (simp add: payloadOf_def split)
  moreover have "split_on CHR '':'' (payloadOf \<lparr>tc_userId = u @ '':'' @ w @ '':'' @ show_int t, tc_workspaceId = v, tc_issuedAt = t'\<rparr>)
      = TOKEN_VERSION # u # w # show_int t # split_on CHR '':'' (v @ CHR '':'' # show_int t')"
    by (simp add: payloadOf_def split)
  ultimately show ?thesis
    using issued_read [where u = u and w = w and t = t and n = "show_int t"] decode number hmac ids(1,2) by blast
qed

fun utf8_decode :: "nat list \<Rightarrow> string" where
  "utf8_decode [] = []"
| "utf8_decode (a # bs) = (if a < 128 then char_of a # utf8_decode bs
     else (case bs of [] \<Rightarrow> [] | b # bs' \<Rightarrow> char_of ((a - 192) * 64 + (b - 128)) # utf8_decode bs'))"

lemma utf8_decode_encode: "utf8_decode (utf8_encode s) = s"
proof (induction s)
  case (Cons c s)
  let ?n = "of_char c :: nat"
  have "?n div 64 * 64 + ?n mod 64 = ?n" by presburger
  moreover have "utf8_encode (c # s) = (if ?n < 128 then [?n] else [192 + ?n div 64, 128 + ?n mod 64]) @ utf8_encode s"
    by (simp add: utf8_encode_def Let_def)
  ultimately show ?case using Cons by simp
qed (simp add: utf8_encode_def)

theorem token_boundaries_witness:
  "verifyFeedbackToken (\<lambda>k m. [7]) utf8_decode (\<lambda>n. if n = ''5'' then Some 5 else None) ''k''
     (issueFeedbackToken (\<lambda>k m. [7]) ''k'' \<lparr>tc_userId = ''a:b:5'', tc_workspaceId = ''c'', tc_issuedAt = 9\<rparr>) 100 10 =
   Inr \<lparr>tc_userId = ''a'', tc_workspaceId = ''b'', tc_issuedAt = 5\<rparr>"
proof -
  have "show_int 5 = ''5''" by code_simp
  then show ?thesis
    using token_boundaries [where decode = utf8_decode and number = "\<lambda>n. if n = ''5'' then Some 5 else None" and t = 5
        and hmac = "\<lambda>k m. [7]" and u = "''a''" and w = "''b''" and v = "''c''" and t' = 9 and secret = "''k''" and ttl = 100 and now = 10]
    by (simp add: utf8_decode_encode all_bytes_def)
qed

section \<open>An offer is kept\<close>

text \<open>What the account can do to the tables between the offer and its submission: spend, top up, sign in; not lose its
  redemption, and not take a feedback grant.\<close>

definition offer_stands :: "string \<Rightarrow> string \<Rightarrow> feedback_db \<Rightarrow> feedback_db \<Rightarrow> bool" where
  "offer_stands userId w s s' \<longleftrightarrow>
     redemptionOf userId (fb_invites s') = redemptionOf userId (fb_invites s) \<and> grantOf userId s' = grantOf userId s
     \<and> meteredTokens w s \<le> meteredTokens w s'"

lemma eligible_iff:
  "evaluate cfg ignoreBalance userId s = Eligible w n \<longleftrightarrow>
     fc_form cfg \<noteq> None \<and> (\<exists>r. redemptionOf userId (fb_invites s) = Some r \<and> rd_workspaceId r = w) \<and> grantOf userId s = None
     \<and> (ignoreBalance \<or> (\<exists>ws. workspaces (iv_db (fb_invites s)) w = Some ws \<and> ws_balanceMicros ws < fc_offerBelowMicros cfg))
     \<and> fc_minMeteredTokens cfg \<le> meteredTokens w s \<and> n = fc_grantMicros cfg"
  by (auto simp: evaluate_def Let_def not_le split: option.splits if_splits)

lemma offered_eligible:
  assumes "offerFor hmac with_param url cfg t userId s = Some offer" and "fo_formUrl offer = Some u"
  obtains w n where "evaluate cfg False userId s = Eligible w n"
    and "with_param url FEEDBACK_TOKEN_FIELD
      (issueFeedbackToken hmac (fc_secret cfg) \<lparr>tc_userId = userId, tc_workspaceId = w, tc_issuedAt = t\<rparr>) = Some u"
  using assms by (auto simp: offerFor_def formUrlFor_def split: eligibility.splits option.splits)

lemma offer_settles:
  assumes "evaluate cfg False userId s = Eligible w n" and "offer_stands userId w s s'"
    and "si_userId input = userId" and "si_workspaceId input = w" and "\<not> settled_submission (fd_submissionId (si_delivery input)) s'"
  shows "settle_read cfg input s' = Grant_it (fc_grantMicros cfg)"
proof -
  have "evaluate cfg True userId s' = Eligible w (fc_grantMicros cfg)"
    using assms(1,2) by (auto simp: eligible_iff offer_stands_def)
  then show ?thesis using assms(3-5) by (simp add: settle_read_def refusalFor_feedback_def)
qed

text \<open>C37: an offer is kept. When the console has handed an account a form, and the provider's signed delivery brings
  the token of its URL back within the lifetime, the delivery is settled for that account, in the workspace of its first grant,
  and for the configured amount: whatever happened to the balance in between, and only unless the account has taken a
  feedback grant, lost its redemption, or the submission has been filed before.\<close>

theorem offer_kept:
  assumes offer: "offerFor hmac with_param url cfg t userId s = Some offer" "fo_formUrl offer = Some u"
    and form: "fc_form cfg = Some (webhookSecret, provider)"
    and delivered: "verifyTypeformSignature hmac webhookSecret rawBody signature" "parseTypeformDelivery parse date now rawBody = Some delivery"
      "fd_token delivery = param_of u FEEDBACK_TOKEN_FIELD" "t \<le> now" "now - t \<le> fc_tokenTtl cfg"
    and stands: "\<forall>w. offer_stands userId w s s'" "\<not> settled_submission (fd_submissionId delivery) s'"
    and ids: "userId \<noteq> []" "CHR '':'' \<notin> set userId" "\<forall>r. redemptionOf userId (fb_invites s) = Some r \<longrightarrow> rd_workspaceId r \<noteq> [] \<and> CHR '':'' \<notin> set (rd_workspaceId r)"
    and library: "\<forall>a b c d. with_param a b c = Some d \<longrightarrow> param_of d b = Some c" "\<forall>x. decode (utf8_encode x) = x" "number (show_int t) = Some t" "\<forall>k m. all_bytes (hmac k m) \<and> hmac k m \<noteq> []"
  shows "\<exists>input. authenticate_delivery hmac decode number parse date cfg now rawBody signature = Some (Inr input)
    \<and> si_userId input = userId \<and> si_delivery input = delivery
    \<and> map_option rd_workspaceId (redemptionOf userId (fb_invites s)) = Some (si_workspaceId input)
    \<and> settle_read cfg input s' = Grant_it (fc_grantMicros cfg)"
  using offer
proof (rule offered_eligible)
  fix w n
  let ?c = "\<lparr>tc_userId = userId, tc_workspaceId = w, tc_issuedAt = t\<rparr>"
  let ?input = "\<lparr>si_delivery = delivery, si_userId = userId, si_workspaceId = w, si_provider = provider\<rparr>"
  assume e: "evaluate cfg False userId s = Eligible w n" 
    and u: "with_param url FEEDBACK_TOKEN_FIELD (issueFeedbackToken hmac (fc_secret cfg) ?c) = Some u"
  from e obtain r where r: "redemptionOf userId (fb_invites s) = Some r" "rd_workspaceId r = w" by (auto simp: eligible_iff)
  with ids have w: "w \<noteq> []" "CHR '':'' \<notin> set w" by auto
  have "split_on CHR '':'' (payloadOf ?c) = [TOKEN_VERSION, userId, w, show_int t]"
    using ids w by (simp add: payloadOf_def TOKEN_VERSION_def split_on_first split_on_free show_int_no_colon)
  from issued_read [where number = number and t = t, OF _ _ _ this] library(2-4) ids(1) w(1) delivered(4,5)
  have "verifyFeedbackToken hmac decode number (fc_secret cfg) (issueFeedbackToken hmac (fc_secret cfg) ?c) (fc_tokenTtl cfg) now = Inr ?c"
    by simp
  then have "authenticate_delivery hmac decode number parse date cfg now rawBody signature = Some (Inr ?input)"
    using form delivered(1-3) u library(1) by (simp add: authenticate_delivery_def)
  moreover have "settle_read cfg ?input s' = Grant_it (fc_grantMicros cfg)"
    using offer_settles [OF e] stands by simp
  ultimately show ?thesis using r by (intro exI [of _ ?input]) simp
qed

definition w_token :: string where
  "w_token = issueFeedbackToken (\<lambda>k m. [7]) ''k'' \<lparr>tc_userId = ''u'', tc_workspaceId = ''w'', tc_issuedAt = 5\<rparr>"

definition w_parse :: "nat list \<Rightarrow> json option" where
  "w_parse b = Some (JObj [(''event_type'', JStr ''form_response''), (''form_response'', JObj [(''token'', JStr ''a''),
     (''hidden'', JObj [(''t'', JStr w_token)])])])"

definition w_number :: "string \<Rightarrow> int option" where
  "w_number n = (if n = ''5'' then Some 5 else None)"

text \<open>A form URL of one character that is followed by the parameter.\<close>

definition w_with_param :: "string \<Rightarrow> string \<Rightarrow> string \<Rightarrow> string option" where
  "w_with_param u n v = (if u = ''f'' \<and> n = ''t'' then Some (u @ n @ v) else None)"

definition w_param_of :: "string \<Rightarrow> string \<Rightarrow> string option" where
  "w_param_of u n = Some (drop 2 u)"

theorem offer_kept_witness:
  "\<exists>input. authenticate_delivery (\<lambda>k m. [7]) utf8_decode w_number w_parse (\<lambda>_. None) w_feedback 10 [] (Some ''sha256=Bw'') = Some (Inr input)
     \<and> si_userId input = ''u'' \<and> settle_read w_feedback input w_before = Grant_it 70"
proof -
  let ?h = "\<lambda>k m. [7 :: nat]"
  let ?d = "\<lparr>fd_submissionId = ''a'', fd_formId = None, fd_token = Some w_token, fd_submittedAt = 10, fd_answers = [], fd_fields = []\<rparr>"
  have e: "evaluate w_feedback False ''u'' w_before = Eligible ''w'' 70" by code_simp
  have ws: "map_option rd_workspaceId (redemptionOf ''u'' (fb_invites w_before)) = Some ''w''" by code_simp
  have cfg: "fc_grantMicros w_feedback = 70" "fc_form w_feedback = Some (''s'', ''typeform'')" "fc_tokenTtl w_feedback = 100" "fc_secret w_feedback = ''k''"
    by (simp_all add: w_feedback_def)
  have "show_int 5 = ''5''" by code_simp
  then have n: "w_number (show_int 5) = Some 5" by (simp add: w_number_def)
  have sig: "verifyTypeformSignature ?h ''s'' [] (Some ''sha256=Bw'')" by code_simp
  have d: "parseTypeformDelivery w_parse (\<lambda>_. None) 10 [] = Some ?d"
    by (simp add: parseTypeformDelivery_def w_parse_def isRecord_def FEEDBACK_TOKEN_FIELD_def array_or_empty_def)
  have off: "offerFor ?h w_with_param ''f'' w_feedback 5 ''u'' w_before = Some \<lparr>fo_eligibility = Eligible ''w'' 70,
      fo_formUrl = Some (''f'' @ ''t'' @ w_token), fo_granted = grantOf ''u'' w_before\<rparr>"
    unfolding offerFor_def by (simp add: e cfg w_token_def formUrlFor_def FEEDBACK_TOKEN_FIELD_def w_with_param_def)
  have new: "\<not> settled_submission ''a'' w_before" by (simp add: settled_submission_def w_before_def)
  have url: "\<forall>a b c d. w_with_param a b c = Some d \<longrightarrow> w_param_of d b = Some c" by (simp add: w_with_param_def w_param_of_def)
  have token: "w_param_of (''f'' @ ''t'' @ w_token) FEEDBACK_TOKEN_FIELD = Some w_token" by (simp add: w_param_of_def)
  show ?thesis
    using offer_kept [OF off _ cfg(2) sig d, where s' = w_before and decode = utf8_decode and number = w_number and param_of = w_param_of] ws n new url token
    by (auto simp: cfg offer_stands_def utf8_decode_encode all_bytes_def)
qed

end
