(* ===== verification/Import_Plan.thy ===== *)
theory Import_Plan
  imports Invites External_Endpoints
begin

text \<open>
  \<open>data-migration/import-plan.ts\<close>: what importing a deployment export would do, worked out from the bundle and from a
  picture of the tables, without writing.

  The bundle holds the values its strings spell: an amount is the integer of its digits, an instant the milliseconds of its
  ISO date. A section whose columns are those of the table has the table's record as its row. No loop of \<open>planImport\<close> reads
  what an earlier iteration of it has collected, so each is a verdict on every row: created, already present, or a conflict.
  The messages are constructors with what they name.
\<close>

section \<open>The bundle\<close>

datatype member_role = Owner | Member

record exported_user =
  xu_id :: string
  xu_email :: string
  xu_name :: string
  xu_emailVerified :: bool
  xu_image :: "string option"
  xu_createdAt :: int
  xu_admin :: bool
  xu_origin :: sign_up_origin
  xu_invitedByCodeId :: "string option"

record workspace_row = workspace +
  wk_id :: string
  wk_name :: string
  wk_slug :: string

record member_row =
  mb_workspaceId :: string
  mb_userId :: string
  mb_role :: member_role
  mb_createdAt :: int

record exported_code =
  xo_row :: invite_code
  xo_status :: code_status

record exported_redemption =
  xr_id :: string
  xr_inviteCodeId :: string
  xr_userId :: string
  xr_workspaceId :: string
  xr_creditTransactionId :: string
  xr_redeemedAt :: int

record exported_model =
  xl_id :: string
  xl_name :: string
  xl_upstreamModel :: string
  xl_contextLength :: int
  xl_capabilities :: "route_kind list"
  xl_promptPer1mMicros :: int
  xl_completionPer1mMicros :: int
  xl_enabled :: bool

record exported_endpoint =
  xn_id :: string
  xn_name :: string
  xn_baseUrl :: string
  xn_listenPort :: nat
  xn_enabled :: bool
  xn_pinnedEvidenceDigest :: "string option"
  xn_createdByUserId :: "string option"
  xn_createdAt :: int
  xn_models :: "exported_model list"

record export_data =
  xd_users :: "exported_user list"
  xd_workspaces :: "workspace_row list"
  xd_members :: "member_row list"
  xd_ledger :: "credit_transaction list"
  xd_codes :: "exported_code list"
  xd_redemptions :: "exported_redemption list"
  xd_keys :: "api_key list"
  xd_endpoints :: "exported_endpoint list"
  xd_measurements :: "trusted_measurement list"

section \<open>The plan\<close>

record local_state =
  ls_users :: "(string \<times> string) list"
  ls_workspaces :: "(string \<times> string) list"
  ls_members :: "(string \<times> string \<times> member_role) list"
  ls_ledger :: "(string \<times> string) list"
  ls_codes :: "(string \<times> string) list"
  ls_redemptions :: "(string \<times> string) list"
  ls_keys :: "(string \<times> string) list"
  ls_endpoints :: "(string \<times> string) list"
  ls_models :: "(string \<times> string option) list"
  ls_measurements :: "(string \<times> string) list"

datatype section_name =
    Users_section | Workspaces_section | Members_section | Ledger_section | Codes_section | Redemptions_section | Keys_section
  | Endpoints_section | Models_section | Measurements_section

datatype plan_conflict =
    Account_other_address string | Slug_taken string | Idempotency_repeated string | Code_other_value string
  | Code_value_issued string | Account_redeemed string | Key_other_credential string | Credential_registered string
  | Endpoint_name_taken string | Models_taken string "string list"

datatype plan_refusal =
    Members_dangling nat | Ledger_dangling nat | Redemptions_dangling nat | Keys_dangling nat | Balances_differ nat
  | Listed_twice string | Not_fresh nat

datatype plan_note = Operators_merged nat | Grants_already_made nat | Keys_imported nat nat | Endpoints_switched_off nat

record section_plan =
  sp_section :: section_name
  sp_inBundle :: nat
  sp_toCreate :: nat
  sp_alreadyPresent :: nat
  sp_conflicts :: "plan_conflict list"

record import_plan =
  ip_refusals :: "plan_refusal list"
  ip_sections :: "section_plan list"
  ip_notes :: "plan_note list"
  ip_writes :: export_data
  ip_touched :: "string list"

definition planIsClean :: "import_plan \<Rightarrow> bool" where
  "planIsClean plan \<longleftrightarrow> ip_refusals plan = [] \<and> list_all (\<lambda>s. sp_conflicts s = []) (ip_sections plan)"

definition lower :: "string \<Rightarrow> string" where
  "lower v = to_lower (trim v)"

datatype 'w row_verdict = Create 'w | Present | Conflict plan_conflict

definition creates :: "'w row_verdict list \<Rightarrow> 'w list" where
  "creates vs = List.map_filter (\<lambda>v. case v of Create w \<Rightarrow> Some w | _ \<Rightarrow> None) vs"

definition conflicts :: "'w row_verdict list \<Rightarrow> plan_conflict list" where
  "conflicts vs = List.map_filter (\<lambda>v. case v of Conflict c \<Rightarrow> Some c | _ \<Rightarrow> None) vs"

definition presents :: "'w row_verdict list \<Rightarrow> nat" where
  "presents vs = length (filter (\<lambda>v. case v of Present \<Rightarrow> True | _ \<Rightarrow> False) vs)"

text \<open>\<open>Section\<close> after its loop.\<close>

definition section_done :: "section_name \<Rightarrow> 'w row_verdict list \<Rightarrow> section_plan" where
  "section_done name vs =
     \<lparr>sp_section = name, sp_inBundle = length vs, sp_toCreate = length (creates vs), sp_alreadyPresent = presents vs,
      sp_conflicts = conflicts vs\<rparr>"

text \<open>\<open>new Map(rows)\<close>: the last row of a key counts.\<close>

definition js_index :: "('k \<times> 'v) list \<Rightarrow> 'k \<Rightarrow> 'v option" where
  "js_index xs = map_of (rev xs)"

text \<open>A \<open>Map\<close> filled in a loop: a row that gives a pair sets it.\<close>

definition collect :: "('r \<Rightarrow> ('k \<times> 'v) option) \<Rightarrow> 'r list \<Rightarrow> ('k \<times> 'v) list" where
  "collect f rows = foldl (\<lambda>m r. case f r of None \<Rightarrow> m | Some (k, v) \<Rightarrow> map_set k v m) [] rows"

section \<open>The bundle against itself\<close>

definition missing :: "(nat \<Rightarrow> plan_refusal) \<Rightarrow> nat \<Rightarrow> plan_refusal list" where
  "missing what n = (if n > 0 then [what n] else [])"

definition duplicated :: "string \<Rightarrow> string list \<Rightarrow> plan_refusal list" where
  "duplicated label vs = (if length (remdups vs) \<noteq> length vs then [Listed_twice label] else [])"

definition bundleInconsistencies :: "export_data \<Rightarrow> plan_refusal list" where
  "bundleInconsistencies data =
     (let users = xu_id ` set (xd_users data); workspaces = wk_id ` set (xd_workspaces data);
          ledger = tx_id ` set (xd_ledger data); codes = (ic_id \<circ> xo_row) ` set (xd_codes data)
      in missing Members_dangling
           (length (filter (\<lambda>r. mb_userId r \<notin> users \<or> mb_workspaceId r \<notin> workspaces) (xd_members data)))
       @ missing Ledger_dangling (length (filter (\<lambda>r. tx_workspaceId r \<notin> workspaces) (xd_ledger data)))
       @ missing Redemptions_dangling
           (length (filter (\<lambda>r. xr_inviteCodeId r \<notin> codes \<or> xr_userId r \<notin> users \<or> xr_workspaceId r \<notin> workspaces
              \<or> xr_creditTransactionId r \<notin> ledger) (xd_redemptions data)))
       @ missing Keys_dangling (length (filter (\<lambda>r. key_workspaceId r \<notin> workspaces) (xd_keys data)))
       @ missing Balances_differ
           (length (filter (\<lambda>w. sum_for tx_workspaceId tx_amountMicros (wk_id w) (xd_ledger data) \<noteq> ws_balanceMicros w) (xd_workspaces data)))
       @ duplicated ''account'' (map xu_id (xd_users data))
       @ duplicated ''account address'' (map (lower \<circ> xu_email) (xd_users data))
       @ duplicated ''workspace'' (map wk_id (xd_workspaces data))
       @ duplicated ''ledger entry'' (map tx_id (xd_ledger data))
       @ duplicated ''invitation code'' (map (ic_id \<circ> xo_row) (xd_codes data))
       @ duplicated ''API key'' (map key_id (xd_keys data))
       @ duplicated ''API key hash'' (map key_keyHash (xd_keys data)))"

section \<open>The bundle against the deployment\<close>

text \<open>Accounts. \<open>userIds\<close> maps the id of an exported account to the id of the account here with its address.\<close>

definition strangers :: "export_data \<Rightarrow> local_state \<Rightarrow> string list \<Rightarrow> (string \<times> string) list" where
  "strangers data loc operators = filter (\<lambda>u. fst u \<notin> xu_id ` set (xd_users data) \<and> lower (snd u) \<notin> set operators) (ls_users loc)"

definition local_by_email :: "local_state \<Rightarrow> string \<Rightarrow> string option" where
  "local_by_email loc = js_index (map (\<lambda>(i, e). (lower e, i)) (ls_users loc))"

definition user_verdict :: "local_state \<Rightarrow> exported_user \<Rightarrow> exported_user row_verdict" where
  "user_verdict loc u =
     (case js_index (ls_users loc) (xu_id u) of
        Some e \<Rightarrow> if lower e = lower (xu_email u) then Present else Conflict (Account_other_address (xu_id u))
      | None \<Rightarrow> (case local_by_email loc (lower (xu_email u)) of Some _ \<Rightarrow> Present | None \<Rightarrow> Create u))"

definition mapped_to :: "local_state \<Rightarrow> exported_user \<Rightarrow> string option" where
  "mapped_to loc u =
     (case js_index (ls_users loc) (xu_id u) of Some _ \<Rightarrow> None | None \<Rightarrow> local_by_email loc (lower (xu_email u)))"

definition userIds :: "export_data \<Rightarrow> local_state \<Rightarrow> (string \<times> string) list" where
  "userIds data loc = collect (\<lambda>u. map_option (Pair (xu_id u)) (mapped_to loc u)) (xd_users data)"

definition renamed :: "(string \<times> string) list \<Rightarrow> string \<Rightarrow> string" where
  "renamed m v = (case map_of m v of Some t \<Rightarrow> t | None \<Rightarrow> v)"

text \<open>Workspaces. The personal workspace of a mapped operator is folded into the one it owns here.\<close>

definition folded :: "export_data \<Rightarrow> local_state \<Rightarrow> string \<times> string \<Rightarrow> (string \<times> string) option" where
  "folded data loc ft =
     (case (List.find (\<lambda>r. mb_userId r = fst ft \<and> mb_role r = Owner) (xd_members data),
            List.find (\<lambda>(w, u, role). u = snd ft \<and> role = Owner) (ls_members loc)) of
        (Some exported, Some here) \<Rightarrow>
          if mb_workspaceId exported \<notin> fst ` set (ls_workspaces loc) then Some (mb_workspaceId exported, fst here) else None
      | _ \<Rightarrow> None)"

definition workspaceIds :: "export_data \<Rightarrow> local_state \<Rightarrow> (string \<times> string) list" where
  "workspaceIds data loc = collect (folded data loc) (userIds data loc)"

definition workspace_verdict :: "export_data \<Rightarrow> local_state \<Rightarrow> workspace_row \<Rightarrow> workspace_row row_verdict" where
  "workspace_verdict data loc w =
     (if map_of (workspaceIds data loc) (wk_id w) \<noteq> None \<or> wk_id w \<in> fst ` set (ls_workspaces loc) then Present
      else if truthy (js_index (map (\<lambda>(i, slug). (slug, i)) (ls_workspaces loc)) (wk_slug w)) then Conflict (Slug_taken (wk_slug w))
      else Create w)"

definition member_key :: "string \<Rightarrow> string \<Rightarrow> string" where
  "member_key w u = w @ CHR 0x0A # u"

definition member_verdict :: "export_data \<Rightarrow> local_state \<Rightarrow> member_row \<Rightarrow> member_row row_verdict" where
  "member_verdict data loc r =
     (let mapped = r\<lparr>mb_workspaceId := renamed (workspaceIds data loc) (mb_workspaceId r), mb_userId := renamed (userIds data loc) (mb_userId r)\<rparr>
      in if member_key (mb_workspaceId mapped) (mb_userId mapped) \<in> (\<lambda>(w, u, role). member_key w u) ` set (ls_members loc) then Present else Create mapped)"

text \<open>The ledger. \<open>s.split(from).join(to)\<close> replaces every occurrence, from the left.\<close>

function replace_all :: "string \<Rightarrow> string \<Rightarrow> string \<Rightarrow> string" where
  "replace_all from to s =
     (if from = [] then join_with to (map (\<lambda>c. [c]) s)
      else if s = [] then []
      else if starts_with s from then to @ replace_all from to (drop (length from) s)
      else hd s # replace_all from to (tl s))"
  by pat_completeness auto
termination
  by (relation "measure (\<lambda>(_, _, s). length s)") auto

declare replace_all.simps [simp del]

definition respelled :: "(string \<times> string) list \<Rightarrow> string \<Rightarrow> string" where
  "respelled uids k = foldl (\<lambda>k (from, to). replace_all from to k) k uids"

definition same_key :: "export_data \<Rightarrow> local_state \<Rightarrow> credit_transaction \<Rightarrow> string option" where
  "same_key data loc e = js_index (map (\<lambda>(i, k). (k, i)) (ls_ledger loc)) (respelled (userIds data loc) (tx_idempotencyKey e))"

definition grant_made :: "export_data \<Rightarrow> local_state \<Rightarrow> credit_transaction \<Rightarrow> string option" where
  "grant_made data loc e =
     (if tx_id e \<notin> fst ` set (ls_ledger loc) \<and> truthy (same_key data loc e) \<and> map_of (workspaceIds data loc) (tx_workspaceId e) \<noteq> None
      then same_key data loc e else None)"

definition ledger_verdict :: "export_data \<Rightarrow> local_state \<Rightarrow> credit_transaction \<Rightarrow> credit_transaction row_verdict" where
  "ledger_verdict data loc e =
     (if tx_id e \<in> fst ` set (ls_ledger loc) then Present
      else if truthy (same_key data loc e)
      then (if map_of (workspaceIds data loc) (tx_workspaceId e) \<noteq> None then Present else Conflict (Idempotency_repeated (tx_id e)))
      else Create (e\<lparr>tx_workspaceId := renamed (workspaceIds data loc) (tx_workspaceId e),
                     tx_idempotencyKey := respelled (userIds data loc) (tx_idempotencyKey e)\<rparr>))"

definition ledgerIds :: "export_data \<Rightarrow> local_state \<Rightarrow> (string \<times> string) list" where
  "ledgerIds data loc = collect (\<lambda>e. map_option (Pair (tx_id e)) (grant_made data loc e)) (xd_ledger data)"

text \<open>Invitations.\<close>

definition code_verdict :: "export_data \<Rightarrow> local_state \<Rightarrow> exported_code \<Rightarrow> exported_code row_verdict" where
  "code_verdict data loc c =
     (let row = xo_row c
      in case js_index (ls_codes loc) (ic_id row) of
           Some here \<Rightarrow> if here = ic_code row then Present else Conflict (Code_other_value (ic_id row))
         | None \<Rightarrow>
             if ic_code row \<in> snd ` set (ls_codes loc) then Conflict (Code_value_issued (ic_id row))
             else Create (c\<lparr>xo_row := row\<lparr>ic_issuedByUserId := map_option (renamed (userIds data loc)) (ic_issuedByUserId row)\<rparr>\<rparr>))"

definition redemption_verdict :: "export_data \<Rightarrow> local_state \<Rightarrow> exported_redemption \<Rightarrow> exported_redemption row_verdict" where
  "redemption_verdict data loc r =
     (let userId = renamed (userIds data loc) (xr_userId r)
      in if xr_id r \<in> fst ` set (ls_redemptions loc) then Present
         else if userId \<in> snd ` set (ls_redemptions loc) then Conflict (Account_redeemed userId)
         else Create (r\<lparr>xr_userId := userId, xr_workspaceId := renamed (workspaceIds data loc) (xr_workspaceId r),
                        xr_creditTransactionId := renamed (ledgerIds data loc) (xr_creditTransactionId r)\<rparr>))"

text \<open>API keys.\<close>

definition key_verdict :: "export_data \<Rightarrow> local_state \<Rightarrow> api_key \<Rightarrow> api_key row_verdict" where
  "key_verdict data loc k =
     (case js_index (ls_keys loc) (key_id k) of
        Some here \<Rightarrow> if here = key_keyHash k then Present else Conflict (Key_other_credential (key_id k))
      | None \<Rightarrow>
          if key_keyHash k \<in> snd ` set (ls_keys loc) then Conflict (Credential_registered (key_id k))
          else Create (k\<lparr>key_workspaceId := renamed (workspaceIds data loc) (key_workspaceId k),
                         key_createdByUserId := map_option (renamed (userIds data loc)) (key_createdByUserId k)\<rparr>))"

text \<open>External endpoints and trust. The conflicts of an endpoint's models are reported in the section of the models.\<close>

definition endpoint_verdict :: "export_data \<Rightarrow> local_state \<Rightarrow> exported_endpoint \<Rightarrow> exported_endpoint row_verdict" where
  "endpoint_verdict data loc n =
     (if xn_id n \<in> fst ` set (ls_endpoints loc) then Present
      else if xn_name n \<in> snd ` set (ls_endpoints loc) then Conflict (Endpoint_name_taken (xn_name n))
      else let taken = filter (\<lambda>m. xl_id m \<in> fst ` set (ls_models loc)) (xn_models n)
           in if taken \<noteq> [] then Conflict (Models_taken (xn_name n) (map xl_id taken))
              else Create (n\<lparr>xn_createdByUserId := map_option (renamed (userIds data loc)) (xn_createdByUserId n)\<rparr>))"

definition measurement_verdict :: "export_data \<Rightarrow> local_state \<Rightarrow> trusted_measurement \<Rightarrow> trusted_measurement row_verdict" where
  "measurement_verdict data loc r =
     (if tm_id r \<in> fst ` set (ls_measurements loc) \<or> tm_measurement r \<in> snd ` set (ls_measurements loc) then Present
      else Create (r\<lparr>tm_addedByUserId := map_option (renamed (userIds data loc)) (tm_addedByUserId r)\<rparr>))"

definition is_models_taken :: "plan_conflict \<Rightarrow> bool" where
  "is_models_taken c = (case c of Models_taken _ _ \<Rightarrow> True | _ \<Rightarrow> False)"

definition endpoints_section :: "export_data \<Rightarrow> local_state \<Rightarrow> section_plan" where
  "endpoints_section data loc =
     (let s = section_done Endpoints_section (map (endpoint_verdict data loc) (xd_endpoints data))
      in s\<lparr>sp_conflicts := filter (\<lambda>c. \<not> is_models_taken c) (sp_conflicts s)\<rparr>)"

definition models_section :: "export_data \<Rightarrow> local_state \<Rightarrow> section_plan" where
  "models_section data loc =
     \<lparr>sp_section = Models_section, sp_inBundle = sum_list (map (length \<circ> xn_models) (xd_endpoints data)),
      sp_toCreate = sum_list (map (length \<circ> xn_models) (creates (map (endpoint_verdict data loc) (xd_endpoints data)))),
      sp_alreadyPresent = sum_list (map (length \<circ> xn_models) (filter (\<lambda>n. xn_id n \<in> fst ` set (ls_endpoints loc)) (xd_endpoints data))),
      sp_conflicts = filter is_models_taken (conflicts (map (endpoint_verdict data loc) (xd_endpoints data)))\<rparr>"

section \<open>The plan\<close>

definition plan_writes :: "export_data \<Rightarrow> local_state \<Rightarrow> export_data" where
  "plan_writes data loc =
     \<lparr>xd_users = creates (map (user_verdict loc) (xd_users data)),
      xd_workspaces = creates (map (workspace_verdict data loc) (xd_workspaces data)),
      xd_members = creates (map (member_verdict data loc) (xd_members data)),
      xd_ledger = creates (map (ledger_verdict data loc) (xd_ledger data)),
      xd_codes = creates (map (code_verdict data loc) (xd_codes data)),
      xd_redemptions = creates (map (redemption_verdict data loc) (xd_redemptions data)),
      xd_keys = creates (map (key_verdict data loc) (xd_keys data)),
      xd_endpoints = creates (map (endpoint_verdict data loc) (xd_endpoints data)),
      xd_measurements = creates (map (measurement_verdict data loc) (xd_measurements data))\<rparr>"

definition plan_sections :: "export_data \<Rightarrow> local_state \<Rightarrow> section_plan list" where
  "plan_sections data loc =
     [section_done Users_section (map (user_verdict loc) (xd_users data)),
      section_done Workspaces_section (map (workspace_verdict data loc) (xd_workspaces data)),
      section_done Members_section (map (member_verdict data loc) (xd_members data)),
      section_done Ledger_section (map (ledger_verdict data loc) (xd_ledger data)),
      section_done Codes_section (map (code_verdict data loc) (xd_codes data)),
      section_done Redemptions_section (map (redemption_verdict data loc) (xd_redemptions data)),
      section_done Keys_section (map (key_verdict data loc) (xd_keys data)),
      endpoints_section data loc, models_section data loc,
      section_done Measurements_section (map (measurement_verdict data loc) (xd_measurements data))]"

definition note_if :: "nat \<Rightarrow> plan_note \<Rightarrow> plan_note list" where
  "note_if n note = (if n > 0 then [note] else [])"

definition plan_notes :: "export_data \<Rightarrow> local_state \<Rightarrow> plan_note list" where
  "plan_notes data loc =
     (let merged = length (userIds data loc); made = length (filter (\<lambda>e. grant_made data loc e \<noteq> None) (xd_ledger data));
          keys = xd_keys (plan_writes data loc); endpoints = length (xd_endpoints (plan_writes data loc))
      in note_if merged (Operators_merged merged) @ note_if made (Grants_already_made made)
       @ note_if (length keys) (Keys_imported (length keys) (length (filter (\<lambda>k. key_revokedAt k = None) keys)))
       @ note_if endpoints (Endpoints_switched_off endpoints))"

definition planImport :: "export_data \<Rightarrow> local_state \<Rightarrow> string list \<Rightarrow> import_plan" where
  "planImport data loc operatorEmails =
     (let operators = filter (\<lambda>e. e \<noteq> []) (map lower operatorEmails); others = strangers data loc operators
      in \<lparr>ip_refusals = bundleInconsistencies data @ missing Not_fresh (length others),
          ip_sections = plan_sections data loc, ip_notes = plan_notes data loc, ip_writes = plan_writes data loc,
          ip_touched = rev (remdups (rev (map tx_workspaceId (xd_ledger (plan_writes data loc)))))\<rparr>)"

section \<open>Verdicts\<close>

lemma creates_simps [simp]:
  "creates [] = []" "creates (Create w # vs) = w # creates vs" "creates (Present # vs) = creates vs" "creates (Conflict c # vs) = creates vs"
  by (simp_all add: creates_def map_filter_simps)

lemma conflicts_simps [simp]:
  "conflicts [] = []" "conflicts (Create w # vs) = conflicts vs" "conflicts (Present # vs) = conflicts vs" "conflicts (Conflict c # vs) = c # conflicts vs"
  by (simp_all add: conflicts_def map_filter_simps)

lemma presents_simps [simp]:
  "presents [] = 0" "presents (Create w # vs) = presents vs" "presents (Present # vs) = Suc (presents vs)" "presents (Conflict c # vs) = presents vs"
  by (simp_all add: presents_def)

lemma verdicts_length: "length vs = length (creates vs) + presents vs + length (conflicts vs)"
proof (induction vs)
  case (Cons v vs)
  then show ?case by (cases v) simp_all
qed simp

lemma set_creates: "w \<in> set (creates vs) \<longleftrightarrow> Create w \<in> set vs"
proof (induction vs)
  case (Cons v vs)
  then show ?case by (cases v) auto
qed simp

lemma creates_member: "r \<in> set rows \<Longrightarrow> v r = Create w \<Longrightarrow> w \<in> set (creates (map v rows))"
  by (force simp: set_creates)

lemma set_conflicts: "c \<in> set (conflicts vs) \<longleftrightarrow> Conflict c \<in> set vs"
proof (induction vs)
  case (Cons v vs)
  then show ?case by (cases v) auto
qed simp

lemma conflicts_empty: "conflicts vs = [] \<longleftrightarrow> (\<forall>c. Conflict c \<notin> set vs)"
proof (induction vs)
  case (Cons v vs)
  then show ?case by (cases v) auto
qed simp

lemma creates_map: "creates (map v rows) = map (\<lambda>r. case v r of Create w \<Rightarrow> w) (filter (\<lambda>r. \<exists>w. v r = Create w) rows)"
proof (induction rows)
  case (Cons r rows)
  then show ?case by (cases "v r") simp_all
qed simp

lemma creates_cong: "(\<And>r. r \<in> set rows \<Longrightarrow> v r = v' r) \<Longrightarrow> creates (map v rows) = creates (map v' rows)"
  by (metis map_cong)

lemma creates_none: "(\<And>r. r \<in> set rows \<Longrightarrow> v r = Present) \<Longrightarrow> creates (map v rows) = []"
  by (induction rows) simp_all

lemma js_index_Some: "js_index xs k = Some v \<Longrightarrow> (k, v) \<in> set xs"
  unfolding js_index_def by (metis map_of_SomeD set_rev)

lemma js_index_None: "js_index xs k = None \<longleftrightarrow> k \<notin> fst ` set xs"
  by (simp add: js_index_def map_of_eq_None_iff)

lemma js_index_distinct: "distinct (map fst xs) \<Longrightarrow> js_index xs k = Some v \<longleftrightarrow> (k, v) \<in> set xs"
  unfolding js_index_def by (subst map_of_eq_Some_iff) (auto simp: rev_map [symmetric])

lemma js_index_append: "js_index (xs @ ys) k = (case js_index ys k of None \<Rightarrow> js_index xs k | Some v \<Rightarrow> Some v)"
  unfolding js_index_def by (simp add: map_add_def)

lemma index_by_key: "map_of xs k = map_of (filter (\<lambda>p. fst p = k) xs) k"
  by (induction xs) auto

lemma js_index_filter: "js_index xs k = js_index (filter (\<lambda>p. fst p = k) xs) k"
  unfolding js_index_def rev_filter by (rule index_by_key)

lemma collect_None: "map_of (collect f rows) k = None \<longleftrightarrow> (\<forall>r \<in> set rows. \<forall>v. f r \<noteq> Some (k, v))"
  unfolding collect_def
proof (induction rows rule: rev_induct)
  case (snoc r rows)
  then show ?case by (cases "f r") (auto split: if_splits)
qed simp

lemma collect_Some: "map_of (collect f rows) k = Some v \<Longrightarrow> \<exists>r \<in> set rows. f r = Some (k, v)"
  unfolding collect_def
proof (induction rows rule: rev_induct)
  case (snoc r rows)
  then show ?case by (cases "f r") (auto split: if_splits)
qed simp

lemma collect_cong: "(\<And>r. r \<in> set rows \<Longrightarrow> f r = g r) \<Longrightarrow> collect f rows = collect g rows"
  unfolding collect_def by (rule foldl_cong) auto

lemma set_of_map_set: "p \<in> set (map_set k v m) \<Longrightarrow> p = (k, v) \<or> p \<in> set m"
  by (induction k v m rule: map_set.induct) (auto split: if_splits)

lemma set_collect: "p \<in> set (collect f rows) \<Longrightarrow> \<exists>r \<in> set rows. f r = Some p"
  unfolding collect_def
proof (induction rows rule: rev_induct)
  case (snoc r rows)
  then show ?case by (cases "f r") (auto dest: set_of_map_set)
qed simp

section \<open>A clean plan\<close>

lemma missing_Nil [simp]: "missing what n = [] \<longleftrightarrow> n = 0"
  by (simp add: missing_def)

lemma duplicated_Nil [simp]: "duplicated label vs = [] \<longleftrightarrow> distinct vs"
  by (simp add: duplicated_def)

lemma filter_length_0: "length (filter P xs) = 0 \<longleftrightarrow> (\<forall>x \<in> set xs. \<not> P x)"
  by (simp add: filter_empty_conv)

text \<open>What a bundle without inconsistencies is.\<close>

definition bundle_ok :: "export_data \<Rightarrow> bool" where
  "bundle_ok data \<longleftrightarrow>
     (\<forall>r \<in> set (xd_members data). mb_userId r \<in> xu_id ` set (xd_users data) \<and> mb_workspaceId r \<in> wk_id ` set (xd_workspaces data))
     \<and> (\<forall>r \<in> set (xd_ledger data). tx_workspaceId r \<in> wk_id ` set (xd_workspaces data))
     \<and> (\<forall>r \<in> set (xd_redemptions data). xr_inviteCodeId r \<in> (ic_id \<circ> xo_row) ` set (xd_codes data) \<and> xr_userId r \<in> xu_id ` set (xd_users data)
          \<and> xr_workspaceId r \<in> wk_id ` set (xd_workspaces data) \<and> xr_creditTransactionId r \<in> tx_id ` set (xd_ledger data))
     \<and> (\<forall>r \<in> set (xd_keys data). key_workspaceId r \<in> wk_id ` set (xd_workspaces data))
     \<and> (\<forall>w \<in> set (xd_workspaces data). sum_for tx_workspaceId tx_amountMicros (wk_id w) (xd_ledger data) = ws_balanceMicros w)
     \<and> distinct (map xu_id (xd_users data)) \<and> distinct (map (lower \<circ> xu_email) (xd_users data)) \<and> distinct (map wk_id (xd_workspaces data))
     \<and> distinct (map tx_id (xd_ledger data)) \<and> distinct (map (ic_id \<circ> xo_row) (xd_codes data)) \<and> distinct (map key_id (xd_keys data))
     \<and> distinct (map key_keyHash (xd_keys data))"

lemma bundle_consistent: "bundleInconsistencies data = [] \<longleftrightarrow> bundle_ok data"
  by (simp add: bundleInconsistencies_def bundle_ok_def Let_def filter_empty_conv conj_ac)

definition no_conflict :: "'w row_verdict \<Rightarrow> bool" where
  "no_conflict v = (case v of Conflict _ \<Rightarrow> False | _ \<Rightarrow> True)"

lemma no_conflict_iff: "conflicts vs = [] \<longleftrightarrow> (\<forall>v \<in> set vs. no_conflict v)"
  by (auto simp: conflicts_empty no_conflict_def split: row_verdict.splits)

lemma plan_clean_iff:
  "planIsClean (planImport data loc ops) \<longleftrightarrow>
     bundle_ok data \<and> strangers data loc (filter (\<lambda>e. e \<noteq> []) (map lower ops)) = []
     \<and> (\<forall>u \<in> set (xd_users data). no_conflict (user_verdict loc u)) \<and> (\<forall>w \<in> set (xd_workspaces data). no_conflict (workspace_verdict data loc w))
     \<and> (\<forall>e \<in> set (xd_ledger data). no_conflict (ledger_verdict data loc e)) \<and> (\<forall>c \<in> set (xd_codes data). no_conflict (code_verdict data loc c))
     \<and> (\<forall>r \<in> set (xd_redemptions data). no_conflict (redemption_verdict data loc r)) \<and> (\<forall>k \<in> set (xd_keys data). no_conflict (key_verdict data loc k))
     \<and> (\<forall>n \<in> set (xd_endpoints data). no_conflict (endpoint_verdict data loc n))"
proof -
  have split: "filter (\<lambda>c. \<not> P c) cs = [] \<and> filter P cs = [] \<longleftrightarrow> cs = []" for P and cs :: "plan_conflict list"
    by (cases cs) (auto simp: filter_empty_conv)
  have "no_conflict (member_verdict data loc r)" "no_conflict (measurement_verdict data loc m)" for r m
    by (simp_all add: member_verdict_def measurement_verdict_def no_conflict_def Let_def)
  then show ?thesis
    using split [of is_models_taken "conflicts (map (endpoint_verdict data loc) (xd_endpoints data))"]
    by (auto simp: planIsClean_def planImport_def Let_def bundle_consistent plan_sections_def section_done_def endpoints_section_def
        models_section_def no_conflict_iff)
qed

end
