(* ===== verification/Data_Import.thy ===== *)
theory Data_Import
  imports Import_Plan "HOL-Library.Sublist"
begin

text \<open>
  \<open>data-migration/data-import.service.ts\<close>: the import writes what the plan says. The accounts are created first, each on its
  own, through the connection of the authentication library; everything else is one transaction, which fails as a whole
  when a unique index or a foreign key refuses a row (\<open>None\<close>). Rows are inserted in chunks of fifty within it, which a
  transaction does not show. \<open>host_of\<close> is the host name of a URL. The sidecar configuration and the routing table are
  rendered afterwards (\<open>External_Admin\<close>); a failure there changes no row and is left out.
\<close>

section \<open>Numbers\<close>

text \<open>\<open>Number(text)\<close> of an integer, below the largest double: the nearest integer with 53 significant bits, the even one
  of two.\<close>

function halvings :: "int \<Rightarrow> nat" where
  "halvings n = (if n < 9007199254740992 then 0 else Suc (halvings (n div 2)))"
  by pat_completeness auto
termination
  by (relation "measure nat") auto

declare halvings.simps [simp del]

definition nearest :: "int \<Rightarrow> int" where
  "nearest n =
     (let e = halvings n; q = n div 2 ^ e; r = n mod 2 ^ e
      in (if e = 0 \<or> 2 * r < 2 ^ e \<or> 2 * r = 2 ^ e \<and> even q then q else q + 1) * 2 ^ e)"

definition numberOf :: "int \<Rightarrow> int" where
  "numberOf v = (if v < 0 then - nearest (- v) else nearest v)"

section \<open>The tables\<close>

record auth_user =
  au_id :: string
  au_email :: string
  au_name :: string
  au_emailVerified :: bool
  au_image :: "string option"
  au_createdAt :: int

record deployment =
  dp_users :: "auth_user list"
  dp_workspaces :: "workspace_row list"
  dp_members :: "member_row list"
  dp_ledger :: "credit_transaction list"
  dp_codes :: "invite_code list"
  dp_redemptions :: "invite_redemption list"
  dp_keys :: "api_key list"
  dp_endpoints :: "endpoint_row list"
  dp_models :: "model_row list"
  dp_measurements :: "trusted_measurement list"

definition localState :: "deployment \<Rightarrow> local_state" where
  "localState d =
     \<lparr>ls_users = map (\<lambda>u. (au_id u, au_email u)) (sort_key au_createdAt (dp_users d)),
      ls_workspaces = map (\<lambda>w. (wk_id w, wk_slug w)) (dp_workspaces d),
      ls_members = map (\<lambda>m. (mb_workspaceId m, mb_userId m, mb_role m)) (dp_members d),
      ls_ledger = map (\<lambda>t. (tx_id t, tx_idempotencyKey t)) (dp_ledger d),
      ls_codes = map (\<lambda>c. (ic_id c, ic_code c)) (dp_codes d),
      ls_redemptions = map (\<lambda>r. (rd_id r, rd_userId r)) (dp_redemptions d),
      ls_keys = map (\<lambda>k. (key_id k, key_keyHash k)) (dp_keys d),
      ls_endpoints = map (\<lambda>n. (er_id n, er_name n)) (dp_endpoints d),
      ls_models = map (\<lambda>m. (mr_id m, mr_externalEndpointId m)) (dp_models d),
      ls_measurements = map (\<lambda>m. (tm_id m, tm_measurement m)) (dp_measurements d)\<rparr>"

text \<open>The indices of the tables. \<open>insert_rows ok rows table\<close> is an insert, refused when the table would not be \<open>ok\<close>.\<close>

definition workspaces_ok :: "workspace_row list \<Rightarrow> bool" where
  "workspaces_ok ws \<longleftrightarrow> distinct (map wk_id ws) \<and> distinct (map wk_slug ws)"

definition members_ok :: "workspace_row list \<Rightarrow> member_row list \<Rightarrow> bool" where
  "members_ok ws ms \<longleftrightarrow> distinct (map (\<lambda>m. (mb_workspaceId m, mb_userId m)) ms) \<and> mb_workspaceId ` set ms \<subseteq> wk_id ` set ws"

definition ledger_ok :: "workspace_row list \<Rightarrow> credit_transaction list \<Rightarrow> bool" where
  "ledger_ok ws ts \<longleftrightarrow> distinct (map tx_id ts) \<and> distinct (map tx_idempotencyKey ts) \<and> tx_workspaceId ` set ts \<subseteq> wk_id ` set ws"

definition codes_ok :: "invite_code list \<Rightarrow> bool" where
  "codes_ok cs \<longleftrightarrow> distinct (map ic_id cs) \<and> distinct (map ic_code cs)"

definition redemptions_ok :: "invite_code list \<Rightarrow> workspace_row list \<Rightarrow> invite_redemption list \<Rightarrow> bool" where
  "redemptions_ok cs ws rs \<longleftrightarrow> distinct (map rd_id rs) \<and> distinct (map rd_userId rs)
     \<and> rd_inviteCodeId ` set rs \<subseteq> ic_id ` set cs \<and> rd_workspaceId ` set rs \<subseteq> wk_id ` set ws"

definition api_keys_ok :: "workspace_row list \<Rightarrow> api_key list \<Rightarrow> bool" where
  "api_keys_ok ws ks \<longleftrightarrow> distinct (map key_id ks) \<and> distinct (map key_keyHash ks) \<and> key_workspaceId ` set ks \<subseteq> wk_id ` set ws"

definition endpoints_ok :: "endpoint_row list \<Rightarrow> bool" where
  "endpoints_ok ns \<longleftrightarrow> distinct (map er_id ns) \<and> distinct (map er_name ns)"

definition models_ok :: "endpoint_row list \<Rightarrow> model_row list \<Rightarrow> bool" where
  "models_ok ns ms \<longleftrightarrow> distinct (map mr_id ms) \<and> (\<forall>m \<in> set ms. \<forall>i \<in> set_option (mr_externalEndpointId m). i \<in> er_id ` set ns)"

definition measurements_ok :: "trusted_measurement list \<Rightarrow> bool" where
  "measurements_ok ms \<longleftrightarrow> distinct (map tm_id ms) \<and> distinct (map tm_measurement ms)"

definition insert_rows :: "('r list \<Rightarrow> bool) \<Rightarrow> 'r list \<Rightarrow> 'r list \<Rightarrow> 'r list option" where
  "insert_rows ok rows table = (if rows = [] then Some table else if ok (table @ rows) then Some (table @ rows) else None)"

section \<open>Writing\<close>

definition imported_user :: "exported_user \<Rightarrow> auth_user" where
  "imported_user u =
     \<lparr>au_id = xu_id u, au_email = to_lower (xu_email u), au_name = xu_name u, au_emailVerified = xu_emailVerified u,
      au_image = xu_image u, au_createdAt = xu_createdAt u\<rparr>"

fun createImportedUsers :: "exported_user list \<Rightarrow> auth_user list \<Rightarrow> auth_user list" where
  "createImportedUsers [] table = table"
| "createImportedUsers (u # us) table =
     createImportedUsers us (if xu_id u \<in> au_id ` set table then table else table @ [imported_user u])"

definition imported_workspace :: "workspace_row \<Rightarrow> workspace_row" where
  "imported_workspace w =
     w\<lparr>ws_balanceMicros := 0, ws_autoTopUpThresholdMicros := map_option numberOf (ws_autoTopUpThresholdMicros w),
       ws_autoTopUpAmountMicros := map_option numberOf (ws_autoTopUpAmountMicros w)\<rparr>"

definition imported_entry :: "credit_transaction \<Rightarrow> credit_transaction" where
  "imported_entry e = e\<lparr>tx_amountMicros := numberOf (tx_amountMicros e)\<rparr>"

definition imported_code :: "exported_code \<Rightarrow> invite_code" where
  "imported_code c = (xo_row c)\<lparr>ic_grantMicros := numberOf (ic_grantMicros (xo_row c))\<rparr>"

definition imported_redemption :: "exported_redemption \<Rightarrow> invite_redemption" where
  "imported_redemption r =
     \<lparr>rd_id = xr_id r, rd_inviteCodeId = xr_inviteCodeId r, rd_userId = xr_userId r, rd_workspaceId = xr_workspaceId r,
      rd_creditTransactionId = xr_creditTransactionId r, rd_ipHash = None, rd_userAgentHash = None, rd_redeemedAt = xr_redeemedAt r\<rparr>"

definition imported_key :: "api_key \<Rightarrow> api_key" where
  "imported_key k =
     k\<lparr>key_spendLimitMicros := map_option numberOf (key_spendLimitMicros k), key_spentTotalMicros := numberOf (key_spentTotalMicros k)\<rparr>"

definition endpointRow :: "(string \<Rightarrow> string) \<Rightarrow> int \<Rightarrow> exported_endpoint \<Rightarrow> endpoint_row" where
  "endpointRow host_of now n =
     \<lparr>st_status = Disabled, st_lastCheckedAt = None, st_lastStage = None, st_lastReason = None, st_measurementSeen = None,
      st_measurementSource = None, st_measurementInRegistry = None, st_evidenceDigestSeen = None, st_pinnedCertFingerprint = None,
      st_observedCertFingerprint = None, st_lastSuccessAt = None, st_lastFailureAt = None, st_notServingSince = None,
      st_consecutiveFailures = 0, st_upstreamUnreachable = None, er_id = xn_id n, er_name = xn_name n, er_baseUrl = xn_baseUrl n,
      er_hostname = host_of (xn_baseUrl n), er_listenPort = xn_listenPort n, er_enabled = False,
      er_pinnedEvidenceDigest = xn_pinnedEvidenceDigest n, er_apiKeyCiphertext = [], er_apiKeyPrefix = [],
      er_createdByUserId = xn_createdByUserId n, er_createdAt = xn_createdAt n, er_updatedAt = now\<rparr>"

definition imported_model :: "int \<Rightarrow> string \<Rightarrow> exported_model \<Rightarrow> model_row" where
  "imported_model now i m =
     \<lparr>mr_id = xl_id m, mr_name = xl_name m, mr_litellmModel = xl_upstreamModel m, mr_origin = External_origin, mr_endpointId = None,
      mr_externalEndpointId = Some i, mr_contextLength = xl_contextLength m, mr_capabilities = xl_capabilities m,
      mr_promptPer1mMicros = numberOf (xl_promptPer1mMicros m), mr_completionPer1mMicros = numberOf (xl_completionPer1mMicros m),
      mr_enabled = xl_enabled m, mr_updatedAt = now\<rparr>"

text \<open>The sum is grouped by workspace, so a workspace without entries has none and keeps its balance.\<close>

definition resumBalances :: "string list \<Rightarrow> credit_transaction list \<Rightarrow> workspace_row list \<Rightarrow> workspace_row list" where
  "resumBalances ids ts ws =
     map (\<lambda>w. if wk_id w \<in> set ids \<and> wk_id w \<in> tx_workspaceId ` set ts
              then w\<lparr>ws_balanceMicros := numberOf (sum_for tx_workspaceId tx_amountMicros (wk_id w) ts)\<rparr> else w) ws"

definition import_write :: "(string \<Rightarrow> string) \<Rightarrow> int \<Rightarrow> import_plan \<Rightarrow> deployment \<Rightarrow> deployment option" where
  "import_write host_of now plan d =
     (let writes = ip_writes plan in
      Option.bind (insert_rows workspaces_ok (map imported_workspace (xd_workspaces writes)) (dp_workspaces d)) (\<lambda>ws.
      Option.bind (insert_rows (members_ok ws) (xd_members writes) (dp_members d)) (\<lambda>members.
      Option.bind (insert_rows (ledger_ok ws) (map imported_entry (xd_ledger writes)) (dp_ledger d)) (\<lambda>ledger.
      let ws' = resumBalances (ip_touched plan) ledger ws in
      Option.bind (insert_rows codes_ok (map imported_code (xd_codes writes)) (dp_codes d)) (\<lambda>codes.
      Option.bind (insert_rows (redemptions_ok codes ws') (map imported_redemption (xd_redemptions writes)) (dp_redemptions d)) (\<lambda>redemptions.
      Option.bind (insert_rows (api_keys_ok ws') (map imported_key (xd_keys writes)) (dp_keys d)) (\<lambda>keys.
      Option.bind (insert_rows endpoints_ok (map (endpointRow host_of now) (xd_endpoints writes)) (dp_endpoints d)) (\<lambda>endpoints.
      Option.bind (insert_rows (models_ok endpoints)
          (concat (map (\<lambda>n. map (imported_model now (xn_id n)) (xn_models n)) (xd_endpoints writes))) (dp_models d)) (\<lambda>models.
      Option.bind (insert_rows measurements_ok (xd_measurements writes) (dp_measurements d)) (\<lambda>measurements.
      Some (d\<lparr>dp_workspaces := ws', dp_members := members, dp_ledger := ledger, dp_codes := codes, dp_redemptions := redemptions,
              dp_keys := keys, dp_endpoints := endpoints, dp_models := models, dp_measurements := measurements\<rparr>)))))))))))"

record import_report =
  rp_applied :: bool
  rp_ok :: bool
  rp_plan :: import_plan

definition planFor :: "string list \<Rightarrow> export_data \<Rightarrow> deployment \<Rightarrow> import_plan" where
  "planFor operatorEmails data d = planImport data (localState d) operatorEmails"

definition import_dry_run :: "string list \<Rightarrow> export_data \<Rightarrow> deployment \<Rightarrow> import_report" where
  "import_dry_run operatorEmails data d =
     (let plan = planFor operatorEmails data d in \<lparr>rp_applied = False, rp_ok = planIsClean plan, rp_plan = plan\<rparr>)"

text \<open>\<open>None\<close> is the exception of the transaction; the accounts have been created by then.\<close>

definition import_users :: "import_plan \<Rightarrow> deployment \<Rightarrow> deployment" where
  "import_users plan d = d\<lparr>dp_users := createImportedUsers (xd_users (ip_writes plan)) (dp_users d)\<rparr>"

definition import_apply ::
  "(string \<Rightarrow> string) \<Rightarrow> string list \<Rightarrow> int \<Rightarrow> export_data \<Rightarrow> deployment \<Rightarrow> import_report option \<times> deployment" where
  "import_apply host_of operatorEmails now data d =
     (let plan = planFor operatorEmails data d
      in if \<not> planIsClean plan then (Some \<lparr>rp_applied = False, rp_ok = False, rp_plan = plan\<rparr>, d)
         else let d1 = import_users plan d
              in case import_write host_of now plan d1 of
                   None \<Rightarrow> (None, d1)
                 | Some d2 \<Rightarrow> (Some \<lparr>rp_applied = True, rp_ok = True, rp_plan = plan\<rparr>, d2))"

section \<open>Tables\<close>

definition tables_ok :: "deployment \<Rightarrow> bool" where
  "tables_ok d \<longleftrightarrow>
     workspaces_ok (dp_workspaces d) \<and> members_ok (dp_workspaces d) (dp_members d) \<and> ledger_ok (dp_workspaces d) (dp_ledger d)
     \<and> codes_ok (dp_codes d) \<and> redemptions_ok (dp_codes d) (dp_workspaces d) (dp_redemptions d) \<and> api_keys_ok (dp_workspaces d) (dp_keys d)
     \<and> endpoints_ok (dp_endpoints d) \<and> models_ok (dp_endpoints d) (dp_models d) \<and> measurements_ok (dp_measurements d)"

text \<open>The part of the tables that the other components read.\<close>

definition db_of :: "deployment \<Rightarrow> db" where
  "db_of d =
     \<lparr>workspaces = map_of (map (\<lambda>w. (wk_id w, workspace.truncate w)) (dp_workspaces d)), transactions = dp_ledger d, generations = [],
      api_keys = dp_keys d, owners = map_of (map (\<lambda>m. (mb_workspaceId m, mb_userId m)) (filter (\<lambda>m. mb_role m = Owner) (dp_members d)))\<rparr>"

lemma db_of_simps [simp]: "transactions (db_of d) = dp_ledger d" "api_keys (db_of d) = dp_keys d" "generations (db_of d) = []"
  by (simp_all add: db_of_def)

lemma insert_rows_Some: "insert_rows ok rows t = Some t' \<Longrightarrow> t' = t @ rows \<and> (ok t \<longrightarrow> ok t')"
  by (auto simp: insert_rows_def split: if_splits)

lemma resum_maps [simp]: "map wk_id (resumBalances ids ts ws) = map wk_id ws" "map wk_slug (resumBalances ids ts ws) = map wk_slug ws"
  by (simp_all add: resumBalances_def)

lemma resum_ids [simp]: "wk_id ` set (resumBalances ids ts ws) = wk_id ` set ws"
  by (metis list.set_map resum_maps(1))

lemma resum_member:
  assumes "w' \<in> set (resumBalances ids ts ws)" and "set ids \<subseteq> tx_workspaceId ` set ts"
  shows "\<exists>w \<in> set ws. w' = (if wk_id w \<in> set ids
    then w\<lparr>ws_balanceMicros := numberOf (sum_for tx_workspaceId tx_amountMicros (wk_id w) ts)\<rparr> else w)"
  using assms unfolding resumBalances_def by auto

lemma imported_workspace_simps [simp]:
  "wk_id (imported_workspace w) = wk_id w" "wk_slug (imported_workspace w) = wk_slug w" "ws_balanceMicros (imported_workspace w) = 0"
  by (simp_all add: imported_workspace_def)

lemma numberOf_safe: "\<bar>v\<bar> < 2 ^ 53 \<Longrightarrow> numberOf v = v"
proof -
  have small: "nearest n = n" if "n < 2 ^ 53" for n using that by (simp add: nearest_def halvings.simps)
  assume "\<bar>v\<bar> < 2 ^ 53"
  then show ?thesis using small [of v] small [of "- v"] by (simp add: numberOf_def)
qed

text \<open>What a successful transaction leaves.\<close>

definition written :: "(string \<Rightarrow> string) \<Rightarrow> int \<Rightarrow> import_plan \<Rightarrow> deployment \<Rightarrow> deployment" where
  "written host_of now plan d =
     (let W = ip_writes plan; ledger = dp_ledger d @ map imported_entry (xd_ledger W)
      in d\<lparr>dp_workspaces := resumBalances (ip_touched plan) ledger (dp_workspaces d @ map imported_workspace (xd_workspaces W)),
           dp_members := dp_members d @ xd_members W, dp_ledger := ledger, dp_codes := dp_codes d @ map imported_code (xd_codes W),
           dp_redemptions := dp_redemptions d @ map imported_redemption (xd_redemptions W), dp_keys := dp_keys d @ map imported_key (xd_keys W),
           dp_endpoints := dp_endpoints d @ map (endpointRow host_of now) (xd_endpoints W),
           dp_models := dp_models d @ concat (map (\<lambda>n. map (imported_model now (xn_id n)) (xn_models n)) (xd_endpoints W)),
           dp_measurements := dp_measurements d @ xd_measurements W\<rparr>)"

lemma ok_more:
  "members_ok ws ms \<Longrightarrow> wk_id ` set ws \<subseteq> wk_id ` set ws' \<Longrightarrow> members_ok ws' ms"
  "ledger_ok ws ts \<Longrightarrow> wk_id ` set ws \<subseteq> wk_id ` set ws' \<Longrightarrow> ledger_ok ws' ts"
  "redemptions_ok cs ws rs \<Longrightarrow> wk_id ` set ws \<subseteq> wk_id ` set ws' \<Longrightarrow> ic_id ` set cs \<subseteq> ic_id ` set cs' \<Longrightarrow> redemptions_ok cs' ws' rs"
  "api_keys_ok ws ks \<Longrightarrow> wk_id ` set ws \<subseteq> wk_id ` set ws' \<Longrightarrow> api_keys_ok ws' ks"
  "models_ok ns qs \<Longrightarrow> er_id ` set ns \<subseteq> er_id ` set ns' \<Longrightarrow> models_ok ns' qs"
  unfolding members_ok_def ledger_ok_def redemptions_ok_def api_keys_ok_def models_ok_def by blast+

lemma workspaces_ok_resum [simp]: "workspaces_ok (resumBalances ids ts ws) = workspaces_ok ws"
  by (simp add: workspaces_ok_def)

lemma import_write_Some:
  assumes "import_write host_of now plan d = Some d'"
  shows "d' = written host_of now plan d" and "tables_ok d \<Longrightarrow> tables_ok d'"
proof -
  obtain ws ms ts cs rs ks ns mls qs where
    ws: "insert_rows workspaces_ok (map imported_workspace (xd_workspaces (ip_writes plan))) (dp_workspaces d) = Some ws"
    and ms: "insert_rows (members_ok ws) (xd_members (ip_writes plan)) (dp_members d) = Some ms"
    and ts: "insert_rows (ledger_ok ws) (map imported_entry (xd_ledger (ip_writes plan))) (dp_ledger d) = Some ts"
    and cs: "insert_rows codes_ok (map imported_code (xd_codes (ip_writes plan))) (dp_codes d) = Some cs"
    and rs: "insert_rows (redemptions_ok cs (resumBalances (ip_touched plan) ts ws))
        (map imported_redemption (xd_redemptions (ip_writes plan))) (dp_redemptions d) = Some rs"
    and ks: "insert_rows (api_keys_ok (resumBalances (ip_touched plan) ts ws)) (map imported_key (xd_keys (ip_writes plan))) (dp_keys d) = Some ks"
    and ns: "insert_rows endpoints_ok (map (endpointRow host_of now) (xd_endpoints (ip_writes plan))) (dp_endpoints d) = Some ns"
    and mls: "insert_rows (models_ok ns)
        (concat (map (\<lambda>n. map (imported_model now (xn_id n)) (xn_models n)) (xd_endpoints (ip_writes plan)))) (dp_models d) = Some mls"
    and qs: "insert_rows measurements_ok (xd_measurements (ip_writes plan)) (dp_measurements d) = Some qs"
    and d': "d' = d\<lparr>dp_workspaces := resumBalances (ip_touched plan) ts ws, dp_members := ms, dp_ledger := ts, dp_codes := cs,
        dp_redemptions := rs, dp_keys := ks, dp_endpoints := ns, dp_models := mls, dp_measurements := qs\<rparr>"
    using assms by (auto simp: import_write_def Let_def Option.bind_eq_Some_conv)
  note ins = insert_rows_Some [OF ws] insert_rows_Some [OF ms] insert_rows_Some [OF ts] insert_rows_Some [OF cs] insert_rows_Some [OF rs]
    insert_rows_Some [OF ks] insert_rows_Some [OF ns] insert_rows_Some [OF mls] insert_rows_Some [OF qs]
  note eqs = ins [THEN conjunct1]
  show "d' = written host_of now plan d" unfolding d' written_def Let_def eqs [symmetric] by (rule refl)
  assume ok: "tables_ok d"
  let ?ws = "resumBalances (ip_touched plan) ts ws"
  have grow: "f ` set xs \<subseteq> f ` set (xs @ ys)" for f :: "'x \<Rightarrow> 'y" and xs ys by auto
  have sub: "wk_id ` set (dp_workspaces d) \<subseteq> wk_id ` set ws" "ic_id ` set (dp_codes d) \<subseteq> ic_id ` set cs"
    "er_id ` set (dp_endpoints d) \<subseteq> er_id ` set ns" unfolding eqs(1,4,7) by (rule grow)+
  have sub': "wk_id ` set (dp_workspaces d) \<subseteq> wk_id ` set ?ws" using sub(1) by simp
  note old = ok [unfolded tables_ok_def]
  have "members_ok ws ms" using old ins(2) ok_more(1) [OF _ sub(1)] by blast
  then have "members_ok ?ws ms" by (simp add: members_ok_def)
  moreover have "ledger_ok ws ts" using old ins(3) ok_more(2) [OF _ sub(1)] by blast
  then have "ledger_ok ?ws ts" by (simp add: ledger_ok_def)
  moreover have "redemptions_ok cs ?ws rs" using old ins(5) ok_more(3) [OF _ sub' sub(2)] by blast
  moreover have "api_keys_ok ?ws ks" using old ins(6) ok_more(4) [OF _ sub'] by blast
  moreover have "models_ok ns mls" using old ins(8) ok_more(5) [OF _ sub(3)] by blast
  moreover have "workspaces_ok ?ws" "codes_ok cs" "endpoints_ok ns" "measurements_ok qs"
    unfolding workspaces_ok_resum using old ins(1,4,7,9) by blast+
  ultimately show "tables_ok d'" by (simp add: tables_ok_def d')
qed

text \<open>An applied import was clean, and wrote its plan.\<close>

lemma import_applied:
  assumes "import_apply host_of ops now data d = (Some r, d')" and "rp_applied r"
  shows "rp_plan r = planFor ops data d" and "planIsClean (planFor ops data d)"
    and "import_write host_of now (planFor ops data d) (import_users (planFor ops data d) d) = Some d'"
  using assms by (auto simp: import_apply_def Let_def split: if_splits option.splits)

lemma planFor_simps [simp]:
  "ip_writes (planFor ops data d) = plan_writes data (localState d)"
  "set (ip_touched (planFor ops data d)) = tx_workspaceId ` set (xd_ledger (plan_writes data (localState d)))"
  by (simp_all add: planFor_def planImport_def Let_def)

lemma import_users_frame [simp]:
  "dp_workspaces (import_users plan d) = dp_workspaces d" "dp_members (import_users plan d) = dp_members d"
  "dp_ledger (import_users plan d) = dp_ledger d" "dp_codes (import_users plan d) = dp_codes d"
  "dp_redemptions (import_users plan d) = dp_redemptions d" "dp_keys (import_users plan d) = dp_keys d"
  "dp_endpoints (import_users plan d) = dp_endpoints d" "dp_models (import_users plan d) = dp_models d"
  "dp_measurements (import_users plan d) = dp_measurements d"
  by (simp_all add: import_users_def)

lemma tables_ok_users [simp]: "tables_ok (import_users plan d) = tables_ok d"
  by (simp add: tables_ok_def)

section \<open>The books\<close>

lemma workspaces_db_of:
  assumes "workspaces_ok (dp_workspaces d)"
  shows "workspaces (db_of d) i = Some ws \<longleftrightarrow> (\<exists>w \<in> set (dp_workspaces d). wk_id w = i \<and> workspace.truncate w = ws)"
proof -
  have "distinct (map fst (map (\<lambda>w. (wk_id w, workspace.truncate w)) (dp_workspaces d)))"
    using assms by (simp add: workspaces_ok_def comp_def)
  then show ?thesis by (auto simp: db_of_def map_of_eq_Some_iff)
qed

lemma dom_db_of: "dom (workspaces (db_of d)) = wk_id ` set (dp_workspaces d)"
  by (force simp: db_of_def dom_map_of_conv_image_fst)

lemma truncate_balance: "ws_balanceMicros (workspace.truncate w) = ws_balanceMicros w"
  by (simp add: workspace.truncate_def)

lemma balance_db_of:
  assumes "workspaces_ok (dp_workspaces d)" and "w \<in> set (dp_workspaces d)"
  shows "balance_in (db_of d) (wk_id w) = ws_balanceMicros w"
proof -
  have "workspaces (db_of d) (wk_id w) = Some (workspace.truncate w)" using workspaces_db_of [OF assms(1)] assms(2) by blast
  then show ?thesis by (simp add: balance_in_def workspace.truncate_def)
qed

text \<open>\<open>ledger_inv\<close> of the tables is that every cached balance is the sum of its entries.\<close>

lemma ledger_inv_db_of:
  assumes "tables_ok d"
  shows "ledger_inv (db_of d) \<longleftrightarrow>
    (\<forall>w \<in> set (dp_workspaces d). ws_balanceMicros w = sum_for tx_workspaceId tx_amountMicros (wk_id w) (dp_ledger d))"
proof -
  have ok: "workspaces_ok (dp_workspaces d)" and ts: "ledger_ok (dp_workspaces d) (dp_ledger d)" using assms by (simp_all add: tables_ok_def)
  have "(\<forall>t \<in> set (dp_ledger d). tx_workspaceId t \<in> dom (workspaces (db_of d)))" using ts by (auto simp: ledger_ok_def dom_db_of)
  moreover have "(\<forall>i ws. workspaces (db_of d) i = Some ws \<longrightarrow> ws_balanceMicros ws = sum_for tx_workspaceId tx_amountMicros i (dp_ledger d)) \<longleftrightarrow>
      (\<forall>w \<in> set (dp_workspaces d). ws_balanceMicros w = sum_for tx_workspaceId tx_amountMicros (wk_id w) (dp_ledger d))"
    using workspaces_db_of [OF ok] truncate_balance by metis
  ultimately show ?thesis using ts by (simp add: ledger_inv_def ledger_ok_def)
qed

lemma sum_for_none: "k \<notin> key ` set xs \<Longrightarrow> sum_for key amount k xs = 0"
  by (induction xs) auto

definition safe_entries :: "credit_transaction list \<Rightarrow> bool" where
  "safe_entries ts \<longleftrightarrow> list_all (\<lambda>t. \<bar>tx_amountMicros t\<bar> < 2 ^ 53) ts"

lemma imported_entries_safe: "safe_entries ts \<Longrightarrow> map imported_entry ts = ts"
  by (induction ts) (simp_all add: safe_entries_def imported_entry_def numberOf_safe)

text \<open>The balances after the transaction: every workspace has its old balance and the entries written to it.\<close>

lemma written_balances:
  assumes ok: "tables_ok d" and inv: "ledger_inv (db_of d)" and d': "d' = written host_of now (planFor ops data d0) d" "tables_ok d'"
    and loc: "plan_writes data (localState d0) = W" and safe: "safe_entries (xd_ledger W)"
    and sums: "\<forall>i. \<bar>sum_for tx_workspaceId tx_amountMicros i (dp_ledger d')\<bar> < 2 ^ 53"
  shows "ledger_inv (db_of d')"
proof -
  let ?sum = "sum_for tx_workspaceId tx_amountMicros"
  have ledger: "dp_ledger d' = dp_ledger d @ xd_ledger W"
    by (simp add: d' written_def Let_def loc imported_entries_safe [OF safe])
  have table: "dp_workspaces d' = resumBalances (ip_touched (planFor ops data d0)) (dp_ledger d')
      (dp_workspaces d @ map imported_workspace (xd_workspaces W))"
    by (simp add: d'(1) written_def Let_def loc)
  have fk: "tx_workspaceId ` set (dp_ledger d) \<subseteq> wk_id ` set (dp_workspaces d)" using ok by (simp add: tables_ok_def ledger_ok_def)
  have "ws_balanceMicros w' = ?sum (wk_id w') (dp_ledger d')" if w': "w' \<in> set (dp_workspaces d')" for w'
  proof -
    obtain w where w: "w \<in> set (dp_workspaces d @ map imported_workspace (xd_workspaces W))" and
      eq: "w' = (if wk_id w \<in> tx_workspaceId ` set (xd_ledger W)
           then w\<lparr>ws_balanceMicros := numberOf (?sum (wk_id w) (dp_ledger d'))\<rparr> else w)"
      using resum_member [OF w' [unfolded table]] by (auto simp: loc ledger)
    have "ws_balanceMicros w = ?sum (wk_id w) (dp_ledger d)"
    proof (cases "w \<in> set (dp_workspaces d)")
      case True
      then show ?thesis using inv ledger_inv_db_of [OF ok] by blast
    next
      case False
      then obtain x where x: "w = imported_workspace x" "x \<in> set (xd_workspaces W)" using w by auto
      have "distinct (map wk_id (dp_workspaces d @ map imported_workspace (xd_workspaces W)))"
        using d'(2) by (simp add: d'(1) tables_ok_def workspaces_ok_def written_def Let_def loc)
      then have "wk_id w \<notin> wk_id ` set (dp_workspaces d)" using x by (auto simp: image_iff)
      then have "?sum (wk_id w) (dp_ledger d) = 0" using fk by (intro sum_for_none) blast
      then show ?thesis using x by simp
    qed
    then have "ws_balanceMicros w = ?sum (wk_id w) (dp_ledger d')" if "wk_id w \<notin> tx_workspaceId ` set (xd_ledger W)"
      using that sum_for_none [of "wk_id w" tx_workspaceId "xd_ledger W"] by (simp add: ledger)
    then show ?thesis using numberOf_safe [OF sums [rule_format, of "wk_id w"]] by (simp add: eq)
  qed
  then show ?thesis using ledger_inv_db_of [OF d'(2)] by blast
qed

lemma ledger_write:
  assumes "e' \<in> set (xd_ledger (plan_writes data loc))"
  obtains e where "e \<in> set (xd_ledger data)" and "ledger_verdict data loc e = Create e'"
    and "e' = e\<lparr>tx_workspaceId := renamed (workspaceIds data loc) (tx_workspaceId e),
                tx_idempotencyKey := respelled (userIds data loc) (tx_idempotencyKey e)\<rparr>"
    and "tx_id e \<notin> fst ` set (ls_ledger loc)"
  using assms by (auto simp: plan_writes_def set_creates ledger_verdict_def split: if_splits)

lemma plan_entries_safe: "safe_entries (xd_ledger data) \<Longrightarrow> safe_entries (xd_ledger (plan_writes data loc))"
  unfolding safe_entries_def list_all_iff by (auto elim!: ledger_write)

text \<open>The entries of a workspace that is neither here nor folded into one that is here are all written, and nothing else is
  written to it.\<close>

lemma sum_creates:
  assumes "\<And>e. e \<in> set es \<Longrightarrow> (case v e of Create e' \<Rightarrow> (if key e' = k then amount e' else 0) | _ \<Rightarrow> 0) = (if key e = k then amount e else 0)"
  shows "sum_for key amount k (creates (map v es)) = sum_for key amount k es"
  using assms
proof (induction es)
  case (Cons e es)
  then have "sum_for key amount k (creates (map v es)) = sum_for key amount k es" by simp
  then show ?case using Cons.prems [of e] by (cases "v e") simp_all
qed simp

lemma find_member: "List.find P xs = Some x \<Longrightarrow> x \<in> set xs \<and> P x"
  by (induction xs) (auto split: if_splits)

lemma folded_Some:
  assumes "folded data loc ft = Some (w, h)"
  shows "\<exists>e \<in> set (xd_members data). mb_workspaceId e = w \<and> mb_userId e = fst ft \<and> mb_role e = Owner"
    and "(h, snd ft, Owner) \<in> set (ls_members loc)" and "w \<notin> fst ` set (ls_workspaces loc)"
  using assms by (auto simp: folded_def split: option.splits if_splits dest!: find_member)

lemma folded_here:
  assumes "map_of (workspaceIds data loc) w = Some h"
  shows "\<exists>u. (h, u, Owner) \<in> set (ls_members loc)" and "w \<notin> fst ` set (ls_workspaces loc)"
  using collect_Some [OF assms [unfolded workspaceIds_def]] folded_Some by blast+

lemma created_workspace_sum:
  assumes clean: "planIsClean (planFor ops data d)" and ok: "tables_ok d"
    and w: "i \<notin> wk_id ` set (dp_workspaces d)" "map_of (workspaceIds data (localState d)) i = None"
    and ids: "tx_id ` set (xd_ledger data) \<inter> tx_id ` set (dp_ledger d) = {}"
  shows "sum_for tx_workspaceId tx_amountMicros i (xd_ledger (plan_writes data (localState d))) = sum_for tx_workspaceId tx_amountMicros i (xd_ledger data)"
proof -
  let ?loc = "localState d"
  have other: "renamed (workspaceIds data ?loc) x = i \<longleftrightarrow> x = i" for x
  proof (cases "map_of (workspaceIds data ?loc) x")
    case (Some h)
    with folded_here(1) [OF Some] ok have "h \<in> wk_id ` set (dp_workspaces d)"
      by (auto simp: localState_def tables_ok_def members_ok_def)
    with Some w show ?thesis by (auto simp: renamed_def)
  qed (simp add: renamed_def)
  have present: "tx_id e \<notin> fst ` set (ls_ledger ?loc)" if "e \<in> set (xd_ledger data)" for e
    using that ids by (force simp: localState_def)
  have key: "\<not> truthy (same_key data ?loc e)" if "e \<in> set (xd_ledger data)" "tx_workspaceId e = i" for e
    using clean that present [OF that(1)] w(2) unfolding planFor_def plan_clean_iff
    by (auto simp: ledger_verdict_def no_conflict_def dest!: bspec [where x = e] split: if_splits)
  show ?thesis unfolding plan_writes_def export_data.simps
  proof (rule sum_creates)
    fix e assume e: "e \<in> set (xd_ledger data)"
    then show "(case ledger_verdict data ?loc e of Create e' \<Rightarrow> if tx_workspaceId e' = i then tx_amountMicros e' else 0 | _ \<Rightarrow> 0) =
        (if tx_workspaceId e = i then tx_amountMicros e else 0)"
      using present [OF e] key [OF e] w(2) other [of "tx_workspaceId e"] by (auto simp: ledger_verdict_def)
  qed
qed


section \<open>Trying again\<close>

text \<open>The accounts that were created when an import stopped after \<open>k\<close> of them.\<close>

definition interrupted :: "nat \<Rightarrow> import_plan \<Rightarrow> deployment \<Rightarrow> deployment" where
  "interrupted k plan d = d\<lparr>dp_users := createImportedUsers (take k (xd_users (ip_writes plan))) (dp_users d)\<rparr>"

lemma created_users:
  assumes "distinct (map xu_id us)" and "xu_id ` set us \<inter> au_id ` set table = {}"
  shows "createImportedUsers us table = table @ map imported_user us"
  using assms
proof (induction us arbitrary: table)
  case (Cons u us)
  then have "xu_id ` set us \<inter> au_id ` set (table @ [imported_user u]) = {}" by (auto simp: imported_user_def)
  with Cons show ?case by auto
qed simp

lemma imported_user_simps [simp]: "au_id (imported_user u) = xu_id u" "au_email (imported_user u) = to_lower (xu_email u)"
  by (simp_all add: imported_user_def)

lemma is_space_lower: "is_space (lower_char c) = is_space c"
  by (auto simp: lower_char_def is_space_def Let_def)

lemma lower_char_idem: "lower_char (lower_char c) = lower_char c"
  by (auto simp: lower_char_def Let_def)

lemma lower_lower: "lower (to_lower e) = lower e"
proof -
  have drop: "dropWhile is_space (map lower_char s) = map lower_char (dropWhile is_space s)" for s
    by (induction s) (simp_all add: is_space_lower)
  then have "trim (map lower_char e) = map lower_char (trim e)" by (simp add: trim_def rev_map)
  then show ?thesis by (simp add: lower_def to_lower_def lower_char_idem comp_def)
qed

lemma js_index_sorted:
  "js_index (map g (sort_key f xs)) i = js_index (map g (sort_key f (filter (\<lambda>x. fst (g x) = i) xs))) i"
  by (subst js_index_filter) (simp add: filter_map comp_def filter_sort)

lemma index_more:
  assumes "i \<notin> (fst \<circ> g) ` set ys"
  shows "js_index (map g (sort_key f (xs @ ys))) i = js_index (map g (sort_key f xs)) i"
proof -
  have "filter (\<lambda>x. fst (g x) = i) ys = []" using assms by (auto simp: filter_empty_conv)
  then show ?thesis using js_index_sorted [of g f "xs @ ys" i] js_index_sorted [of g f xs i] by simp
qed

lemma js_index_member: "distinct (map fst xs) \<Longrightarrow> (i, v) \<in> set xs \<Longrightarrow> js_index xs i = Some v"
  by (simp add: js_index_distinct)

lemma local_users: "ls_users (localState d) = map (\<lambda>u. (au_id u, au_email u)) (sort_key au_createdAt (dp_users d))"
  by (simp add: localState_def)

lemma by_email_index: "local_by_email (localState d) = js_index (map (\<lambda>u. (lower (au_email u), au_id u)) (sort_key au_createdAt (dp_users d)))"
  by (simp add: local_by_email_def local_users comp_def)

lemma user_created:
  assumes "user_verdict (localState d) u = Create w"
  shows "w = u" and "xu_id u \<notin> au_id ` set (dp_users d)" and "lower (xu_email u) \<notin> (lower \<circ> au_email) ` set (dp_users d)"
  using assms
  by (auto simp: user_verdict_def js_index_None local_users by_email_index image_image split: option.splits if_splits)

definition created_users_of :: "export_data \<Rightarrow> deployment \<Rightarrow> exported_user list" where
  "created_users_of data d = creates (map (user_verdict (localState d)) (xd_users data))"

lemma created_users_filter: "created_users_of data d = filter (\<lambda>u. user_verdict (localState d) u = Create u) (xd_users data)"
proof -
  have "creates (map (user_verdict (localState d)) us) = filter (\<lambda>u. user_verdict (localState d) u = Create u) us" for us
  proof (induction us)
    case (Cons u us)
    then show ?case using user_created(1) [of d u] by (cases "user_verdict (localState d) u") auto
  qed simp
  then show ?thesis by (simp add: created_users_of_def)
qed

text \<open>Some of the planned accounts are created already.\<close>

lemma users_planned:
  assumes ok: "bundle_ok data" and us: "set us \<subseteq> set (created_users_of data d)" and u: "u \<in> set (xd_users data)"
    and d': "dp_users d' = dp_users d @ map imported_user us"
  shows "user_verdict (localState d') u = (if u \<in> set us then Present else user_verdict (localState d) u)"
    and "mapped_to (localState d') u = mapped_to (localState d) u"
proof -
  let ?g = "\<lambda>u. (au_id u, au_email u)" and ?h = "\<lambda>u. (lower (au_email u), au_id u)"
  have dist: "distinct (map xu_id (xd_users data))" "distinct (map (lower \<circ> xu_email) (xd_users data))" using ok by (simp_all add: bundle_ok_def)
  have sub: "set us \<subseteq> set (xd_users data)" using us by (auto simp: created_users_filter)
  show "user_verdict (localState d') u = (if u \<in> set us then Present else user_verdict (localState d) u)"
    "mapped_to (localState d') u = mapped_to (localState d) u"
  proof (atomize (full), cases "u \<in> set us")
    case True
    then have c: "user_verdict (localState d) u = Create u" using us by (auto simp: created_users_filter)
    have "js_index (ls_users (localState d')) (xu_id u) = Some (to_lower (xu_email u))"
    proof -
      have "xu_id u \<in> au_id ` set (dp_users d')" unfolding d' using True by (simp add: image_Un image_image)
      then have "js_index (ls_users (localState d')) (xu_id u) \<noteq> None"
        unfolding js_index_None local_users by (simp add: image_image)
      then obtain e where e: "js_index (ls_users (localState d')) (xu_id u) = Some e" by blast
      then have "(xu_id u, e) \<in> set (ls_users (localState d'))" by (rule js_index_Some)
      then obtain u' where "u' \<in> set us" "xu_id u' = xu_id u" "e = to_lower (xu_email u')"
        using user_created(2) [OF c] by (auto simp: local_users d')
      moreover have "u' = u" using calculation(1,2) dist(1) sub u by (metis distinct_map inj_onD subsetD)
      ultimately show ?thesis using e by simp
    qed
    then show "user_verdict (localState d') u = (if u \<in> set us then Present else user_verdict (localState d) u)
        \<and> mapped_to (localState d') u = mapped_to (localState d) u"
      using True c by (auto simp: user_verdict_def mapped_to_def lower_lower split: option.splits if_splits)
  next
    case False
    have inj: "inj_on xu_id (set (xd_users data))" "inj_on (lower \<circ> xu_email) (set (xd_users data))" using dist by (simp_all add: distinct_map)
    have "xu_id u \<notin> xu_id ` set us" "(lower \<circ> xu_email) u \<notin> (lower \<circ> xu_email) ` set us"
      using False inj_on_image_mem_iff [OF inj(1) u sub] inj_on_image_mem_iff [OF inj(2) u sub] by simp_all
    then have fresh: "xu_id u \<notin> (fst \<circ> ?g) ` set (map imported_user us)" "lower (xu_email u) \<notin> (fst \<circ> ?h) ` set (map imported_user us)"
      by (simp_all add: image_image lower_lower)
    have "js_index (ls_users (localState d')) (xu_id u) = js_index (ls_users (localState d)) (xu_id u)"
      "local_by_email (localState d') (lower (xu_email u)) = local_by_email (localState d) (lower (xu_email u))"
      unfolding local_users by_email_index d' by (rule index_more [OF fresh(1)], rule index_more [OF fresh(2)])
    then show "user_verdict (localState d') u = (if u \<in> set us then Present else user_verdict (localState d) u)
        \<and> mapped_to (localState d') u = mapped_to (localState d) u"
      using False by (simp add: user_verdict_def mapped_to_def cong: option.case_cong)
  qed
qed

lemma userIds_planned:
  assumes "bundle_ok data" and "set us \<subseteq> set (created_users_of data d)" and "dp_users d' = dp_users d @ map imported_user us"
  shows "userIds data (localState d') = userIds data (localState d)"
  unfolding userIds_def using users_planned(2) [OF assms(1,2) _ assms(3)] by (intro collect_cong) simp

lemma strangers_planned:
  assumes "strangers data (localState d) ops = []" and "set us \<subseteq> set (created_users_of data d)" and "dp_users d' = dp_users d @ map imported_user us"
  shows "strangers data (localState d') ops = []"
  using assms by (auto simp: strangers_def filter_empty_conv local_users created_users_filter)

lemma filter_not_taken: "distinct xs \<Longrightarrow> filter (\<lambda>x. x \<notin> set (take k xs)) xs = drop k xs"
proof (induction xs arbitrary: k)
  case (Cons x xs)
  then show ?case
  proof (cases k)
    case (Suc n)
    have "filter (\<lambda>y. y \<noteq> x \<and> y \<notin> set (take n xs)) xs = filter (\<lambda>y. y \<notin> set (take n xs)) xs"
      using Cons.prems by (intro filter_cong) auto
    then show ?thesis using Cons Suc by simp
  qed simp
qed simp

lemma users_left:
  assumes ok: "bundle_ok data" and d': "dp_users d' = dp_users d @ map imported_user (take k (created_users_of data d))"
  shows "created_users_of data d' = drop k (created_users_of data d)"
proof -
  let ?C = "created_users_of data d"
  have us: "set (take k ?C) \<subseteq> set ?C" by (rule set_take_subset)
  have "distinct (xd_users data)" using ok by (simp add: bundle_ok_def distinct_map)
  then have dist: "distinct ?C" by (simp add: created_users_filter)
  have "created_users_of data d' = filter (\<lambda>u. u \<notin> set (take k ?C)) ?C"
    using users_planned(1) [OF ok us _ d'] unfolding created_users_filter by (auto intro!: filter_cong split: if_splits)
  then show ?thesis using filter_not_taken [OF dist] by simp
qed

text \<open>Only the accounts differ: the rest of the plan depends on them through the ids they are mapped to.\<close>

lemma plan_other_sections:
  assumes "userIds data (loc\<lparr>ls_users := us\<rparr>) = userIds data loc"
  shows "workspace_verdict data (loc\<lparr>ls_users := us\<rparr>) = workspace_verdict data loc" "member_verdict data (loc\<lparr>ls_users := us\<rparr>) = member_verdict data loc"
    "ledger_verdict data (loc\<lparr>ls_users := us\<rparr>) = ledger_verdict data loc" "code_verdict data (loc\<lparr>ls_users := us\<rparr>) = code_verdict data loc"
    "redemption_verdict data (loc\<lparr>ls_users := us\<rparr>) = redemption_verdict data loc" "key_verdict data (loc\<lparr>ls_users := us\<rparr>) = key_verdict data loc"
    "endpoint_verdict data (loc\<lparr>ls_users := us\<rparr>) = endpoint_verdict data loc"
    "measurement_verdict data (loc\<lparr>ls_users := us\<rparr>) = measurement_verdict data loc"
proof -
  have "folded data (loc\<lparr>ls_users := us\<rparr>) = folded data loc" by (simp add: folded_def fun_eq_iff cong: option.case_cong)
  then have ws: "workspaceIds data (loc\<lparr>ls_users := us\<rparr>) = workspaceIds data loc" by (simp add: workspaceIds_def assms)
  have "same_key data (loc\<lparr>ls_users := us\<rparr>) = same_key data loc" by (simp add: same_key_def assms fun_eq_iff)
  then have "grant_made data (loc\<lparr>ls_users := us\<rparr>) = grant_made data loc" by (auto simp: grant_made_def ws fun_eq_iff)
  then have ls: "ledgerIds data (loc\<lparr>ls_users := us\<rparr>) = ledgerIds data loc" by (simp add: ledgerIds_def)
  note defs = workspace_verdict_def member_verdict_def ledger_verdict_def code_verdict_def redemption_verdict_def key_verdict_def
    endpoint_verdict_def measurement_verdict_def
  show "workspace_verdict data (loc\<lparr>ls_users := us\<rparr>) = workspace_verdict data loc" "member_verdict data (loc\<lparr>ls_users := us\<rparr>) = member_verdict data loc"
    "ledger_verdict data (loc\<lparr>ls_users := us\<rparr>) = ledger_verdict data loc" "code_verdict data (loc\<lparr>ls_users := us\<rparr>) = code_verdict data loc"
    "redemption_verdict data (loc\<lparr>ls_users := us\<rparr>) = redemption_verdict data loc" "key_verdict data (loc\<lparr>ls_users := us\<rparr>) = key_verdict data loc"
    "endpoint_verdict data (loc\<lparr>ls_users := us\<rparr>) = endpoint_verdict data loc"
    "measurement_verdict data (loc\<lparr>ls_users := us\<rparr>) = measurement_verdict data loc"
    by (simp_all add: defs fun_eq_iff ws ls assms \<open>same_key data _ = _\<close> Let_def cong: option.case_cong)
qed

lemma interrupted_users:
  assumes "bundle_ok data"
  shows "dp_users (interrupted k (planFor ops data d) d) = dp_users d @ map imported_user (take k (created_users_of data d))"
proof -
  let ?us = "take k (created_users_of data d)"
  have "set ?us \<subseteq> set (created_users_of data d)" by (rule set_take_subset)
  then have "xu_id ` set ?us \<inter> au_id ` set (dp_users d) = {}"
    using user_created(2) by (fastforce simp: created_users_filter)
  moreover have "distinct (map xu_id (xd_users data))" using assms by (simp add: bundle_ok_def)
  then have "distinct (map xu_id ?us)" by (simp add: created_users_filter distinct_map_filter take_map [symmetric])
  ultimately show ?thesis by (simp add: interrupted_def created_users_of_def [symmetric] plan_writes_def created_users)
qed

lemma interrupted_plan:
  assumes clean: "planIsClean (planFor ops data d)" and d1_def: "d1 = interrupted k (planFor ops data d) d"
  shows "planIsClean (planFor ops data d1)"
    and "plan_writes data (localState d1) = (plan_writes data (localState d))\<lparr>xd_users := drop k (created_users_of data d)\<rparr>"
proof -
  have ok: "bundle_ok data" using clean by (simp add: planFor_def plan_clean_iff)
  note d1 = interrupted_users [OF ok, of k ops d, folded d1_def]
  have us: "set (take k (created_users_of data d)) \<subseteq> set (created_users_of data d)" by (rule set_take_subset)
  have loc: "localState d1 = (localState d)\<lparr>ls_users := ls_users (localState d1)\<rparr>" by (simp add: localState_def d1_def interrupted_def)
  have same: "userIds data ((localState d)\<lparr>ls_users := ls_users (localState d1)\<rparr>) = userIds data (localState d)"
    using userIds_planned [OF ok us d1] loc by simp
  note other = plan_other_sections [OF same, folded loc]
  have "no_conflict (user_verdict (localState d1) u)" if "u \<in> set (xd_users data)" for u
    using users_planned(1) [OF ok us that d1] clean that by (auto simp: no_conflict_def planFor_def plan_clean_iff)
  then show "planIsClean (planFor ops data d1)"
    using clean strangers_planned [OF _ us d1] unfolding planFor_def plan_clean_iff other by blast
  show "plan_writes data (localState d1) = (plan_writes data (localState d))\<lparr>xd_users := drop k (created_users_of data d)\<rparr>"
    using users_left [OF ok d1] by (simp add: plan_writes_def other created_users_of_def)
qed

lemma planFor_writes: "xd_users (plan_writes data (localState d)) = created_users_of data d"
  by (simp add: plan_writes_def created_users_of_def)

lemma import_users_all:
  assumes "bundle_ok data"
  shows "dp_users (import_users (planFor ops data d) d) = dp_users d @ map imported_user (created_users_of data d)"
  using interrupted_users [OF assms, of "length (created_users_of data d)" ops d]
  by (simp add: import_users_def interrupted_def planFor_writes)

text \<open>The transaction does not look at the accounts of the plan.\<close>

lemma import_write_users:
  assumes "ip_writes plan' = (ip_writes plan)\<lparr>xd_users := us\<rparr>" and "ip_touched plan' = ip_touched plan"
  shows "import_write host_of now plan' d = import_write host_of now plan d"
  by (simp add: import_write_def assms Let_def)

lemma interrupted_resumes:
  assumes clean: "planIsClean (planFor ops data d)"
  shows "import_apply host_of ops now data (interrupted k (planFor ops data d) d) =
    map_prod (map_option (\<lambda>r. r\<lparr>rp_plan := planFor ops data (interrupted k (planFor ops data d) d)\<rparr>)) id (import_apply host_of ops now data d)"
proof -
  let ?p = "planFor ops data d" and ?d1 = "interrupted k (planFor ops data d) d"
  let ?p1 = "planFor ops data ?d1"
  have ok: "bundle_ok data" using clean by (simp add: planFor_def plan_clean_iff)
  note again = interrupted_plan [OF clean refl, of k]
  have "dp_users (import_users ?p1 ?d1) = dp_users ?d1 @ map imported_user (created_users_of data ?d1)"
    by (rule import_users_all [OF ok])
  also have "\<dots> = dp_users d @ map imported_user (created_users_of data d)"
    unfolding interrupted_users [OF ok] users_left [OF ok interrupted_users [OF ok]] by (simp flip: map_append)
  finally have "dp_users (import_users ?p1 ?d1) = dp_users (import_users ?p d)" using import_users_all [OF ok, of ops d] by simp
  then have d1: "import_users ?p1 ?d1 = import_users ?p d" by (simp add: import_users_def interrupted_def)
  have "import_write host_of now ?p1 (import_users ?p d) = import_write host_of now ?p (import_users ?p d)"
    using again(2) by (intro import_write_users [where us = "drop k (created_users_of data d)"]) (simp_all add: planFor_def planImport_def Let_def)
  then show ?thesis using clean again(1) d1 by (simp add: import_apply_def Let_def split: option.split)
qed

section \<open>Importing twice\<close>

lemma localState_written:
  assumes "d' = written host_of now plan d" and "ip_writes plan = W"
  shows "ls_workspaces (localState d') = ls_workspaces (localState d) @ map (\<lambda>w. (wk_id w, wk_slug w)) (xd_workspaces W)"
    "ls_members (localState d') = ls_members (localState d) @ map (\<lambda>m. (mb_workspaceId m, mb_userId m, mb_role m)) (xd_members W)"
    "ls_ledger (localState d') = ls_ledger (localState d) @ map (\<lambda>t. (tx_id t, tx_idempotencyKey t)) (xd_ledger W)"
    "ls_codes (localState d') = ls_codes (localState d) @ map (\<lambda>c. (ic_id (xo_row c), ic_code (xo_row c))) (xd_codes W)"
    "ls_redemptions (localState d') = ls_redemptions (localState d) @ map (\<lambda>r. (xr_id r, xr_userId r)) (xd_redemptions W)"
    "ls_keys (localState d') = ls_keys (localState d) @ map (\<lambda>k. (key_id k, key_keyHash k)) (xd_keys W)"
    "ls_endpoints (localState d') = ls_endpoints (localState d) @ map (\<lambda>n. (xn_id n, xn_name n)) (xd_endpoints W)"
    "ls_measurements (localState d') = ls_measurements (localState d) @ map (\<lambda>m. (tm_id m, tm_measurement m)) (xd_measurements W)"
proof -
  have "map (\<lambda>w. (wk_id w, wk_slug w)) (resumBalances ids ts ws) = map (\<lambda>w. (wk_id w, wk_slug w)) ws" for ids ts ws
    by (simp add: resumBalances_def)
  then show "ls_workspaces (localState d') = ls_workspaces (localState d) @ map (\<lambda>w. (wk_id w, wk_slug w)) (xd_workspaces W)"
    by (simp add: assms localState_def written_def Let_def)
qed (simp_all add: assms localState_def written_def Let_def imported_entry_def imported_code_def imported_redemption_def imported_key_def endpointRow_def)

lemma member_owner_stays:
  assumes "List.find P xs \<noteq> None"
  shows "List.find P (xs @ ys) = List.find P xs"
  using assms by (induction xs) auto

text \<open>Every operator that is mapped has a workspace of its own here, as provisioning gives every account one.\<close>

definition operators_settled :: "export_data \<Rightarrow> local_state \<Rightarrow> bool" where
  "operators_settled data loc \<longleftrightarrow>
     list_all (\<lambda>ft. List.find (\<lambda>(w, u, role). u = snd ft \<and> role = Owner) (ls_members loc) \<noteq> None) (userIds data loc)"

lemma workspaceIds_again:
  assumes settled: "operators_settled data loc" and us: "userIds data loc' = userIds data loc"
    and ws: "fst ` set (ls_workspaces loc') = fst ` set (ls_workspaces loc) \<union> wk_id ` set (creates (map (workspace_verdict data loc) (xd_workspaces data)))"
    and ms: "ls_members loc' = ls_members loc @ ms"
  shows "workspaceIds data loc' = workspaceIds data loc"
  unfolding workspaceIds_def us
proof (rule collect_cong)
  fix ft assume ft: "ft \<in> set (userIds data loc)"
  let ?own = "List.find (\<lambda>(w, u, role). u = snd ft \<and> role = Owner)"
  let ?exp = "List.find (\<lambda>r. mb_userId r = fst ft \<and> mb_role r = Owner) (xd_members data)"
  have here: "?own (ls_members loc') = ?own (ls_members loc)"
    using settled ft unfolding ms operators_settled_def list_all_iff by (intro member_owner_stays) blast
  show "folded data loc' ft = folded data loc ft"
  proof (cases "folded data loc ft")
    case None
    then show ?thesis unfolding folded_def here ws by (auto split: option.splits if_splits)
  next
    case (Some p)
    obtain w h where p: "p = (w, h)" by (cases p)
    have "map_of (workspaceIds data loc) w \<noteq> None"
      unfolding workspaceIds_def collect_None using ft Some p by blast
    then have "w \<notin> wk_id ` set (creates (map (workspace_verdict data loc) (xd_workspaces data)))"
      by (auto simp: set_creates workspace_verdict_def split: if_splits)
    then show ?thesis using Some p unfolding folded_def here ws by (auto split: option.splits if_splits)
  qed
qed

text \<open>The picture of the tables after the import, in terms of the one before.\<close>

definition imported_over :: "export_data \<Rightarrow> local_state \<Rightarrow> local_state \<Rightarrow> bool" where
  "imported_over data loc loc' \<longleftrightarrow>
     (let W = plan_writes data loc in
      userIds data loc' = userIds data loc \<and> workspaceIds data loc' = workspaceIds data loc
      \<and> ls_workspaces loc' = ls_workspaces loc @ map (\<lambda>w. (wk_id w, wk_slug w)) (xd_workspaces W)
      \<and> ls_members loc' = ls_members loc @ map (\<lambda>m. (mb_workspaceId m, mb_userId m, mb_role m)) (xd_members W)
      \<and> ls_ledger loc' = ls_ledger loc @ map (\<lambda>t. (tx_id t, tx_idempotencyKey t)) (xd_ledger W)
      \<and> ls_codes loc' = ls_codes loc @ map (\<lambda>c. (ic_id (xo_row c), ic_code (xo_row c))) (xd_codes W)
      \<and> ls_redemptions loc' = ls_redemptions loc @ map (\<lambda>r. (xr_id r, xr_userId r)) (xd_redemptions W)
      \<and> ls_keys loc' = ls_keys loc @ map (\<lambda>k. (key_id k, key_keyHash k)) (xd_keys W)
      \<and> ls_endpoints loc' = ls_endpoints loc @ map (\<lambda>n. (xn_id n, xn_name n)) (xd_endpoints W)
      \<and> ls_measurements loc' = ls_measurements loc @ map (\<lambda>m. (tm_id m, tm_measurement m)) (xd_measurements W))"

lemma imported_overI:
  assumes clean: "planIsClean (planFor ops data d)" and settled: "operators_settled data (localState d)"
    and d': "d' = written host_of now (planFor ops data d) (import_users (planFor ops data d) d)"
  shows "imported_over data (localState d) (localState d')"
proof -
  let ?loc = "localState d" and ?loc' = "localState d'" and ?d1 = "import_users (planFor ops data d) d"
  have bok: "bundle_ok data" using clean by (simp add: planFor_def plan_clean_iff)
  have users: "dp_users d' = dp_users d @ map imported_user (created_users_of data d)"
    unfolding d' using import_users_all [OF bok, of ops d] by (simp add: written_def Let_def)
  have uids: "userIds data ?loc' = userIds data ?loc" by (rule userIds_planned [OF bok subset_refl users])
  have base: "ls_workspaces (localState ?d1) = ls_workspaces ?loc" "ls_members (localState ?d1) = ls_members ?loc"
    "ls_ledger (localState ?d1) = ls_ledger ?loc" "ls_codes (localState ?d1) = ls_codes ?loc"
    "ls_redemptions (localState ?d1) = ls_redemptions ?loc" "ls_keys (localState ?d1) = ls_keys ?loc"
    "ls_endpoints (localState ?d1) = ls_endpoints ?loc" "ls_measurements (localState ?d1) = ls_measurements ?loc"
    by (simp_all add: localState_def)
  note grown = localState_written [OF d' refl, unfolded base planFor_simps]
  have "workspaceIds data ?loc' = workspaceIds data ?loc"
    by (rule workspaceIds_again [OF settled uids _ grown(2)]) (simp add: grown(1) image_Un image_image plan_writes_def)
  then show ?thesis unfolding imported_over_def Let_def using uids grown by blast
qed

lemma imported_overD:
  assumes "imported_over data loc loc'"
  shows "userIds data loc' = userIds data loc" "workspaceIds data loc' = workspaceIds data loc"
    "ls_workspaces loc' = ls_workspaces loc @ map (\<lambda>w. (wk_id w, wk_slug w)) (xd_workspaces (plan_writes data loc))"
    "ls_members loc' = ls_members loc @ map (\<lambda>m. (mb_workspaceId m, mb_userId m, mb_role m)) (xd_members (plan_writes data loc))"
    "ls_ledger loc' = ls_ledger loc @ map (\<lambda>t. (tx_id t, tx_idempotencyKey t)) (xd_ledger (plan_writes data loc))"
    "ls_codes loc' = ls_codes loc @ map (\<lambda>c. (ic_id (xo_row c), ic_code (xo_row c))) (xd_codes (plan_writes data loc))"
    "ls_redemptions loc' = ls_redemptions loc @ map (\<lambda>r. (xr_id r, xr_userId r)) (xd_redemptions (plan_writes data loc))"
    "ls_keys loc' = ls_keys loc @ map (\<lambda>k. (key_id k, key_keyHash k)) (xd_keys (plan_writes data loc))"
    "ls_endpoints loc' = ls_endpoints loc @ map (\<lambda>n. (xn_id n, xn_name n)) (xd_endpoints (plan_writes data loc))"
    "ls_measurements loc' = ls_measurements loc @ map (\<lambda>m. (tm_id m, tm_measurement m)) (xd_measurements (plan_writes data loc))"
  using assms unfolding imported_over_def Let_def by blast+

lemma plan_writes_simps [simp]:
  "xd_workspaces (plan_writes data loc) = creates (map (workspace_verdict data loc) (xd_workspaces data))"
  "xd_members (plan_writes data loc) = creates (map (member_verdict data loc) (xd_members data))"
  "xd_ledger (plan_writes data loc) = creates (map (ledger_verdict data loc) (xd_ledger data))"
  "xd_codes (plan_writes data loc) = creates (map (code_verdict data loc) (xd_codes data))"
  "xd_redemptions (plan_writes data loc) = creates (map (redemption_verdict data loc) (xd_redemptions data))"
  "xd_keys (plan_writes data loc) = creates (map (key_verdict data loc) (xd_keys data))"
  "xd_endpoints (plan_writes data loc) = creates (map (endpoint_verdict data loc) (xd_endpoints data))"
  "xd_measurements (plan_writes data loc) = creates (map (measurement_verdict data loc) (xd_measurements data))"
  by (simp_all add: plan_writes_def)

text \<open>A row that was here or is created is here afterwards.\<close>

lemma here_by_pair:
  assumes "(i, j) \<in> set xs \<or> (\<exists>w. v r = Create w \<and> key w = i \<and> val w = j)" and "r \<in> set rows"
  shows "(i, j) \<in> set (xs @ map (\<lambda>w. (key w, val w)) (creates (map v rows)))"
proof (cases "(i, j) \<in> set xs")
  case False
  then obtain w where "v r = Create w" "key w = i" "val w = j" using assms(1) by blast
  then show ?thesis using creates_member [where v = v, OF assms(2)] by force
qed simp

lemma here_by_id:
  assumes "i \<in> fst ` set xs \<or> (\<exists>w. v r = Create w \<and> key w = i)" and "r \<in> set rows"
  shows "i \<in> fst ` set (xs @ map (\<lambda>w. (key w, val w)) (creates (map v rows)))"
proof -
  obtain j where "(i, j) \<in> set xs \<or> (\<exists>w. v r = Create w \<and> key w = i \<and> val w = j)" using assms(1) by force
  from here_by_pair [where v = v and key = key and val = val, OF this assms(2)] show ?thesis by force
qed

lemma workspace_present:
  assumes "imported_over data loc loc'" and "w \<in> set (xd_workspaces data)" and "no_conflict (workspace_verdict data loc w)"
  shows "workspace_verdict data loc' w = Present"
proof (cases "map_of (workspaceIds data loc) (wk_id w) = None")
  case True
  then have "wk_id w \<in> fst ` set (ls_workspaces loc) \<or> (\<exists>w'. workspace_verdict data loc w = Create w' \<and> wk_id w' = wk_id w)"
    using assms(3) by (auto simp: workspace_verdict_def no_conflict_def split: if_splits)
  from here_by_id [where v = "workspace_verdict data loc" and key = wk_id and val = wk_slug, OF this assms(2)] have "wk_id w \<in> fst ` set (ls_workspaces loc')"
    unfolding imported_overD(3) [OF assms(1)] plan_writes_simps .
  then show ?thesis by (simp add: workspace_verdict_def)
qed (simp add: workspace_verdict_def imported_overD(2) [OF assms(1)])

lemma member_present:
  assumes "imported_over data loc loc'" and "m \<in> set (xd_members data)"
  shows "member_verdict data loc' m = Present"
proof -
  let ?m = "m\<lparr>mb_workspaceId := renamed (workspaceIds data loc) (mb_workspaceId m), mb_userId := renamed (userIds data loc) (mb_userId m)\<rparr>"
  let ?k = "member_key (mb_workspaceId ?m) (mb_userId ?m)" and ?here = "\<lambda>loc. (\<lambda>(w, u, role). member_key w u) ` set (ls_members loc)"
  have members: "ls_members loc' = ls_members loc @ map (\<lambda>m. (mb_workspaceId m, mb_userId m, mb_role m)) (xd_members (plan_writes data loc))"
    by (rule imported_overD(4) [OF assms(1)])
  have "?k \<in> ?here loc'"
  proof (cases "?k \<in> ?here loc")
    case False
    then have "?m \<in> set (xd_members (plan_writes data loc))"
      using creates_member [OF assms(2), of "member_verdict data loc" ?m] by (simp add: plan_writes_def member_verdict_def)
    then show ?thesis unfolding members by (force simp: image_Un image_image)
  qed (auto simp: members image_Un)
  then show ?thesis by (simp add: member_verdict_def imported_overD(1,2) [OF assms(1)])
qed

lemma ledger_present:
  assumes over: "imported_over data loc loc'" and e: "e \<in> set (xd_ledger data)" and fine: "no_conflict (ledger_verdict data loc e)"
    and dist: "distinct (map snd (ls_ledger loc'))"
  shows "ledger_verdict data loc' e = Present"
proof (cases "tx_id e \<in> fst ` set (ls_ledger loc) \<or> \<not> truthy (same_key data loc e)")
  case True
  then have "tx_id e \<in> fst ` set (ls_ledger loc) \<or> (\<exists>e'. ledger_verdict data loc e = Create e' \<and> tx_id e' = tx_id e)"
    by (auto simp: ledger_verdict_def)
  from here_by_id [where v = "ledger_verdict data loc" and key = tx_id and val = tx_idempotencyKey, OF this e] have "tx_id e \<in> fst ` set (ls_ledger loc')"
    unfolding imported_overD(5) [OF over] plan_writes_simps .
  then show ?thesis by (simp add: ledger_verdict_def)
next
  case False
  let ?k = "respelled (userIds data loc) (tx_idempotencyKey e)" and ?f = "\<lambda>(i, k). (k, i)"
  let ?new = "map (\<lambda>t. (tx_id t, tx_idempotencyKey t)) (xd_ledger (plan_writes data loc))"
  note loc' = imported_overD(5) [OF over]
  from False obtain i where i: "js_index (map ?f (ls_ledger loc)) ?k = Some i" by (auto simp: same_key_def elim: truthy.elims)
  then have "?k \<in> snd ` set (ls_ledger loc)" by (force dest: js_index_Some)
  then have "?k \<notin> snd ` set ?new" using dist unfolding loc' map_append distinct_append list.set_map [of snd] by blast
  then have "js_index (map ?f ?new) ?k = None" unfolding js_index_None by (force simp: image_image)
  then have "same_key data loc' e = same_key data loc e"
    unfolding same_key_def loc' imported_overD(1) [OF over] map_append js_index_append by simp
  then show ?thesis using False fine by (auto simp: ledger_verdict_def no_conflict_def imported_overD(2) [OF over] split: if_splits)
qed

lemma code_present:
  assumes over: "imported_over data loc loc'" and c: "c \<in> set (xd_codes data)" and fine: "no_conflict (code_verdict data loc c)"
    and dist: "distinct (map fst (ls_codes loc'))"
  shows "code_verdict data loc' c = Present"
proof -
  have "(ic_id (xo_row c), ic_code (xo_row c)) \<in> set (ls_codes loc)
      \<or> (\<exists>c'. code_verdict data loc c = Create c' \<and> ic_id (xo_row c') = ic_id (xo_row c) \<and> ic_code (xo_row c') = ic_code (xo_row c))"
    using fine by (auto simp: code_verdict_def no_conflict_def Let_def dest: js_index_Some split: option.splits if_splits)
  from here_by_pair [where v = "code_verdict data loc" and key = "\<lambda>c. ic_id (xo_row c)" and val = "\<lambda>c. ic_code (xo_row c)", OF this c]
  have "(ic_id (xo_row c), ic_code (xo_row c)) \<in> set (ls_codes loc')" unfolding imported_overD(6) [OF over] plan_writes_simps .
  then show ?thesis using js_index_member [OF dist] by (simp add: code_verdict_def Let_def)
qed

lemma redemption_present:
  assumes over: "imported_over data loc loc'" and r: "r \<in> set (xd_redemptions data)" and fine: "no_conflict (redemption_verdict data loc r)"
  shows "redemption_verdict data loc' r = Present"
proof -
  have "xr_id r \<in> fst ` set (ls_redemptions loc) \<or> (\<exists>r'. redemption_verdict data loc r = Create r' \<and> xr_id r' = xr_id r)"
    using fine by (auto simp: redemption_verdict_def no_conflict_def Let_def split: if_splits)
  from here_by_id [where v = "redemption_verdict data loc" and key = xr_id and val = xr_userId, OF this r] have "xr_id r \<in> fst ` set (ls_redemptions loc')"
    unfolding imported_overD(7) [OF over] plan_writes_simps .
  then show ?thesis by (simp add: redemption_verdict_def Let_def)
qed

lemma key_present:
  assumes over: "imported_over data loc loc'" and k: "k \<in> set (xd_keys data)" and fine: "no_conflict (key_verdict data loc k)"
    and dist: "distinct (map fst (ls_keys loc'))"
  shows "key_verdict data loc' k = Present"
proof -
  have "(key_id k, key_keyHash k) \<in> set (ls_keys loc) \<or> (\<exists>k'. key_verdict data loc k = Create k' \<and> key_id k' = key_id k \<and> key_keyHash k' = key_keyHash k)"
    using fine by (auto simp: key_verdict_def no_conflict_def dest: js_index_Some split: option.splits if_splits)
  from here_by_pair [where v = "key_verdict data loc" and key = key_id and val = key_keyHash, OF this k] have "(key_id k, key_keyHash k) \<in> set (ls_keys loc')"
    unfolding imported_overD(8) [OF over] plan_writes_simps .
  then show ?thesis using js_index_member [OF dist] by (simp add: key_verdict_def)
qed

lemma endpoint_present:
  assumes over: "imported_over data loc loc'" and n: "n \<in> set (xd_endpoints data)" and fine: "no_conflict (endpoint_verdict data loc n)"
  shows "endpoint_verdict data loc' n = Present"
proof -
  have "xn_id n \<in> fst ` set (ls_endpoints loc) \<or> (\<exists>n'. endpoint_verdict data loc n = Create n' \<and> xn_id n' = xn_id n)"
    using fine by (auto simp: endpoint_verdict_def no_conflict_def Let_def split: if_splits)
  from here_by_id [where v = "endpoint_verdict data loc" and key = xn_id and val = xn_name, OF this n] have "xn_id n \<in> fst ` set (ls_endpoints loc')"
    unfolding imported_overD(9) [OF over] plan_writes_simps .
  then show ?thesis by (simp add: endpoint_verdict_def)
qed

lemma measurement_present:
  assumes over: "imported_over data loc loc'" and m: "m \<in> set (xd_measurements data)"
  shows "measurement_verdict data loc' m = Present"
proof (cases "tm_measurement m \<in> snd ` set (ls_measurements loc)")
  case True
  then show ?thesis by (simp add: measurement_verdict_def imported_overD(10) [OF over] image_Un)
next
  case False
  then have "tm_id m \<in> fst ` set (ls_measurements loc) \<or> (\<exists>m'. measurement_verdict data loc m = Create m' \<and> tm_id m' = tm_id m)"
    by (simp add: measurement_verdict_def)
  from here_by_id [where v = "measurement_verdict data loc" and key = tm_id and val = tm_measurement, OF this m] have "tm_id m \<in> fst ` set (ls_measurements loc')"
    unfolding imported_overD(10) [OF over] plan_writes_simps .
  then show ?thesis by (simp add: measurement_verdict_def)
qed

lemma resum_nothing: "set ids = {} \<Longrightarrow> resumBalances ids ts ws = ws"
  by (simp add: resumBalances_def)

definition no_rows :: export_data where
  "no_rows = \<lparr>xd_users = [], xd_workspaces = [], xd_members = [], xd_ledger = [], xd_codes = [], xd_redemptions = [], xd_keys = [],
     xd_endpoints = [], xd_measurements = []\<rparr>"

lemma write_nothing:
  assumes "ip_writes plan = no_rows" and "set (ip_touched plan) = {}"
  shows "import_write host_of now plan (import_users plan d) = Some d"
  by (simp add: import_write_def import_users_def assms no_rows_def insert_rows_def resum_nothing [OF assms(2)])

lemma tables_indices:
  assumes "tables_ok d"
  shows "distinct (map snd (ls_ledger (localState d)))" "distinct (map fst (ls_codes (localState d)))" "distinct (map fst (ls_keys (localState d)))"
  using assms by (simp_all add: tables_ok_def localState_def ledger_ok_def codes_ok_def api_keys_ok_def comp_def)

lemma imported_again:
  assumes clean: "planIsClean (planFor ops data d)" and settled: "operators_settled data (localState d)" and ok: "tables_ok d'"
    and d': "d' = written host_of now (planFor ops data d) (import_users (planFor ops data d) d)"
  shows "planIsClean (planFor ops data d')" and "ip_writes (planFor ops data d') = no_rows"
proof -
  let ?C = "created_users_of data d"
  note over = imported_overI [OF clean settled d']
  note fine = clean [unfolded planFor_def plan_clean_iff]
  have bok: "bundle_ok data" using fine by blast
  have users: "dp_users d' = dp_users d @ map imported_user ?C"
    unfolding d' using import_users_all [OF bok, of ops d] by (simp add: written_def Let_def)
  have us: "no_conflict (user_verdict (localState d') u)" if "u \<in> set (xd_users data)" for u
    using users_planned(1) [OF bok subset_refl that users] fine that by (auto simp: no_conflict_def)
  have none: "created_users_of data d' = []" using users_left [OF bok, of d' d "length ?C"] users by simp
  have same: "workspace_verdict data (localState d') w = Present" if "w \<in> set (xd_workspaces data)" for w
    using workspace_present [OF over that] fine that by blast
  moreover have "member_verdict data (localState d') m = Present" if "m \<in> set (xd_members data)" for m
    by (rule member_present [OF over that])
  moreover have "ledger_verdict data (localState d') e = Present" if "e \<in> set (xd_ledger data)" for e
    using ledger_present [OF over that _ tables_indices(1) [OF ok]] fine that by blast
  moreover have "code_verdict data (localState d') c = Present" if "c \<in> set (xd_codes data)" for c
    using code_present [OF over that _ tables_indices(2) [OF ok]] fine that by blast
  moreover have "redemption_verdict data (localState d') r = Present" if "r \<in> set (xd_redemptions data)" for r
    using redemption_present [OF over that] fine that by blast
  moreover have "key_verdict data (localState d') k = Present" if "k \<in> set (xd_keys data)" for k
    using key_present [OF over that _ tables_indices(3) [OF ok]] fine that by blast
  moreover have "endpoint_verdict data (localState d') n = Present" if "n \<in> set (xd_endpoints data)" for n
    using endpoint_present [OF over that] fine that by blast
  moreover have "measurement_verdict data (localState d') m = Present" if "m \<in> set (xd_measurements data)" for m
    by (rule measurement_present [OF over that])
  moreover note present = calculation
  show "ip_writes (planFor ops data d') = no_rows"
    using none by (simp add: plan_writes_def no_rows_def creates_none present created_users_of_def)
  have "strangers data (localState d') (filter (\<lambda>e. e \<noteq> []) (map lower ops)) = []"
    by (rule strangers_planned [OF _ subset_refl users]) (use fine in blast)
  then show "planIsClean (planFor ops data d')"
    unfolding planFor_def plan_clean_iff using bok us present by (simp add: no_conflict_def)
qed

text \<open>C39: an import can be tried again. An import that stopped after any number of accounts, before its transaction, is finished by
  running it again: the tables become those of an import that did not stop. Run once more on the tables it left, it is
  clean, finds every row of the bundle already present, and changes nothing. (Every operator account the bundle is merged
  into owns a workspace here, as provisioning sees to.)\<close>

theorem import_retry:
  assumes "import_apply host_of ops now data d = (Some r, d')" and "rp_applied r" and "tables_ok d" and "operators_settled data (localState d)"
  shows "snd (import_apply host_of ops now data (interrupted k (planFor ops data d) d)) = d'
    \<and> (let plan' = planFor ops data d' in ip_writes plan' = no_rows
        \<and> import_apply host_of ops now' data d' = (Some \<lparr>rp_applied = True, rp_ok = True, rp_plan = plan'\<rparr>, d'))"
proof -
  note applied = import_applied [OF assms(1,2)]
  have d': "d' = written host_of now (planFor ops data d) (import_users (planFor ops data d) d)" "tables_ok d'"
    using import_write_Some [OF applied(3)] assms(3) by simp_all
  note again = imported_again [OF applied(2) assms(4) d'(2,1)]
  have "import_write host_of now' (planFor ops data d') (import_users (planFor ops data d') d') = Some d'"
    using again(2) by (intro write_nothing) (simp_all add: no_rows_def)
  then show ?thesis
    using again interrupted_resumes [OF applied(2), of host_of now k] assms(1) by (simp add: import_apply_def Let_def)
qed


section \<open>An import\<close>

text \<open>The operator of the bundle has signed in here already, with a workspace and a sign-up credit; the other account is new.\<close>

definition demo_workspace :: "string \<Rightarrow> int \<Rightarrow> workspace_row" where
  "demo_workspace i balance =
     \<lparr>ws_balanceMicros = balance, ws_stripeCustomerId = None, ws_autoTopUpEnabled = False, ws_autoTopUpThresholdMicros = Some 2,
      ws_autoTopUpAmountMicros = None, ws_autoTopUpLastAt = None, ws_firstRequestAt = None, ws_createdAt = 1, wk_id = i, wk_name = i, wk_slug = i\<rparr>"

definition demo_entry :: "string \<Rightarrow> string \<Rightarrow> int \<Rightarrow> string \<Rightarrow> credit_transaction" where
  "demo_entry i w amount k =
     \<lparr>tx_id = i, tx_workspaceId = w, tx_kind = Grant, tx_amountMicros = amount, tx_reference = None, tx_description = None,
      tx_idempotencyKey = k, tx_createdAt = 1\<rparr>"

definition demo_user :: "string \<Rightarrow> string \<Rightarrow> exported_user" where
  "demo_user i email =
     \<lparr>xu_id = i, xu_email = email, xu_name = i, xu_emailVerified = True, xu_image = None, xu_createdAt = 1, xu_admin = False,
      xu_origin = Origin_open, xu_invitedByCodeId = None\<rparr>"

definition demo_member :: "string \<Rightarrow> string \<Rightarrow> member_row" where
  "demo_member w u = \<lparr>mb_workspaceId = w, mb_userId = u, mb_role = Owner, mb_createdAt = 1\<rparr>"

definition demo_code :: invite_code where
  "demo_code =
     \<lparr>ic_id = ''c'', ic_code = ''CODE'', ic_grantMicros = 7, ic_campaign = ''pilot'', ic_maxRedemptions = 1, ic_redemptionCount = 1,
      ic_expiresAt = None, ic_disabledAt = None, ic_note = None, ic_issuedByUserId = Some ''bo'', ic_createdAt = 1\<rparr>"

definition demo_api_key :: "string \<Rightarrow> api_key" where
  "demo_api_key w =
     \<lparr>key_id = ''k'', key_workspaceId = w, key_name = ''n'', key_keyHash = ''h'', key_prefix = ''sk'', key_purpose = None,
      key_modelScope = None, key_spendLimitMicros = Some 10, key_spentTotalMicros = 4, key_requestsPerMinute = None, key_tokensPerMinute = None,
      key_expiresAt = None, key_lastUsedAt = None, key_revokedAt = None, key_createdByUserId = Some ''bu'', key_createdAt = 1\<rparr>"

definition demo_endpoint :: exported_endpoint where
  "demo_endpoint =
     \<lparr>xn_id = ''e'', xn_name = ''east'', xn_baseUrl = ''https://e'', xn_listenPort = 8, xn_enabled = True, xn_pinnedEvidenceDigest = None,
      xn_createdByUserId = Some ''bo'', xn_createdAt = 1,
      xn_models = [\<lparr>xl_id = ''m'', xl_name = ''m'', xl_upstreamModel = ''u'', xl_contextLength = 8, xl_capabilities = [], xl_promptPer1mMicros = 1,
        xl_completionPer1mMicros = 2, xl_enabled = True\<rparr>]\<rparr>"

definition demo_bundle :: export_data where
  "demo_bundle =
     \<lparr>xd_users = [demo_user ''bo'' ''Op@x.io'', demo_user ''bu'' ''u@x.io''], xd_workspaces = [demo_workspace ''bw'' 3, demo_workspace ''uw'' 7],
      xd_members = [demo_member ''bw'' ''bo'', demo_member ''uw'' ''bu''],
      xd_ledger = [demo_entry ''t1'' ''bw'' 3 ''signup:bo'', demo_entry ''t2'' ''uw'' 7 ''signup:bu''],
      xd_codes = [\<lparr>xo_row = demo_code, xo_status = Redeemed\<rparr>],
      xd_redemptions = [\<lparr>xr_id = ''r'', xr_inviteCodeId = ''c'', xr_userId = ''bu'', xr_workspaceId = ''uw'', xr_creditTransactionId = ''t2'', xr_redeemedAt = 1\<rparr>],
      xd_keys = [demo_api_key ''uw''], xd_endpoints = [demo_endpoint],
      xd_measurements = [\<lparr>tm_id = ''q'', tm_measurement = ''abc'', tm_note = None, tm_addedByUserId = Some ''bo'', tm_addedAt = 1\<rparr>]\<rparr>"

definition demo_here :: deployment where
  "demo_here =
     \<lparr>dp_users = [\<lparr>au_id = ''lo'', au_email = ''op@x.io'', au_name = [], au_emailVerified = True, au_image = None, au_createdAt = 5\<rparr>],
      dp_workspaces = [demo_workspace ''lw'' 5], dp_members = [demo_member ''lw'' ''lo''], dp_ledger = [demo_entry ''t0'' ''lw'' 5 ''signup:lo''],
      dp_codes = [], dp_redemptions = [], dp_keys = [], dp_endpoints = [], dp_models = [], dp_measurements = []\<rparr>"

text \<open>What is written: the operator's workspace and sign-up credit are not.\<close>

definition demo_writes :: export_data where
  "demo_writes = demo_bundle\<lparr>xd_users := [demo_user ''bu'' ''u@x.io''], xd_workspaces := [demo_workspace ''uw'' 7], xd_members := [demo_member ''uw'' ''bu''],
     xd_ledger := [demo_entry ''t2'' ''uw'' 7 ''signup:bu''], xd_codes := [\<lparr>xo_row = demo_code\<lparr>ic_issuedByUserId := Some ''lo''\<rparr>, xo_status = Redeemed\<rparr>],
     xd_endpoints := [demo_endpoint\<lparr>xn_createdByUserId := Some ''lo''\<rparr>],
     xd_measurements := [\<lparr>tm_id = ''q'', tm_measurement = ''abc'', tm_note = None, tm_addedByUserId = Some ''lo'', tm_addedAt = 1\<rparr>]\<rparr>"

definition demo_plan :: import_plan where
  "demo_plan = \<lparr>ip_refusals = [], ip_sections = [], ip_notes = [], ip_writes = demo_writes, ip_touched = [''uw'']\<rparr>"

lemma demo_written: "plan_writes demo_bundle (localState demo_here) = demo_writes"
  by code_simp

lemma demo_clean: "planIsClean (planFor [''op@x.io''] demo_bundle demo_here)"
proof -
  let ?loc = "localState demo_here"
  have "bundle_ok demo_bundle" "strangers demo_bundle ?loc (filter (\<lambda>e. e \<noteq> []) (map lower [''op@x.io''])) = []"
    "\<forall>u \<in> set (xd_users demo_bundle). no_conflict (user_verdict ?loc u)" "\<forall>w \<in> set (xd_workspaces demo_bundle). no_conflict (workspace_verdict demo_bundle ?loc w)"
    "\<forall>e \<in> set (xd_ledger demo_bundle). no_conflict (ledger_verdict demo_bundle ?loc e)" "\<forall>c \<in> set (xd_codes demo_bundle). no_conflict (code_verdict demo_bundle ?loc c)"
    "\<forall>r \<in> set (xd_redemptions demo_bundle). no_conflict (redemption_verdict demo_bundle ?loc r)"
    "\<forall>k \<in> set (xd_keys demo_bundle). no_conflict (key_verdict demo_bundle ?loc k)"
    "\<forall>n \<in> set (xd_endpoints demo_bundle). no_conflict (endpoint_verdict demo_bundle ?loc n)"
    by code_simp+
  then show ?thesis unfolding planFor_def plan_clean_iff by blast
qed

definition demo_middle :: deployment where
  "demo_middle = demo_here\<lparr>dp_users := dp_users demo_here @ [imported_user (demo_user ''bu'' ''u@x.io'')]\<rparr>"

definition demo_after :: deployment where
  "demo_after = written (\<lambda>_. []) 9 demo_plan demo_middle"

definition demo_report :: import_report where
  "demo_report = \<lparr>rp_applied = True, rp_ok = True, rp_plan = planFor [''op@x.io''] demo_bundle demo_here\<rparr>"

lemma demo_applied: "import_apply (\<lambda>_. []) [''op@x.io''] 9 demo_bundle demo_here = (Some demo_report, demo_after)"
proof -
  let ?plan = "planFor [''op@x.io''] demo_bundle demo_here"
  have "import_users demo_plan demo_here = demo_middle" by code_simp
  then have d1: "import_users ?plan demo_here = demo_middle"
    by (simp add: import_users_def demo_written demo_plan_def)
  have "\<not> Option.is_none (import_write (\<lambda>_. []) 9 demo_plan demo_middle)" by code_simp
  then obtain d' where d': "import_write (\<lambda>_. []) 9 demo_plan demo_middle = Some d'" by (auto simp: Option.is_none_def)
  have "import_write (\<lambda>_. []) 9 ?plan demo_middle = import_write (\<lambda>_. []) 9 demo_plan demo_middle"
    by (rule import_write_users [where us = "xd_users demo_writes"])
      (simp_all add: demo_written demo_plan_def, simp add: planFor_def planImport_def Let_def demo_written demo_writes_def demo_entry_def)
  then show ?thesis using d' demo_clean import_write_Some(1) [OF d']
    by (simp add: import_apply_def Let_def d1 demo_report_def demo_after_def)
qed

lemma demo_ledger: "dp_ledger demo_after = [demo_entry ''t0'' ''lw'' 5 ''signup:lo'', demo_entry ''t2'' ''uw'' 7 ''signup:bu'']"
  by code_simp

lemma demo_ok: "tables_ok demo_here" "operators_settled demo_bundle (localState demo_here)" "safe_entries (xd_ledger demo_bundle)"
  by code_simp+

lemma demo_books: "ledger_inv (db_of demo_here)"
  unfolding ledger_inv_db_of [OF demo_ok(1)] by (simp add: demo_here_def demo_workspace_def demo_entry_def)

lemma demo_report_simps [simp]: "rp_applied demo_report" "ip_writes (rp_plan demo_report) = demo_writes"
  by (simp_all add: demo_report_def demo_written)


theorem import_retry_witness:
  "snd (import_apply (\<lambda>_. []) [''op@x.io''] 9 demo_bundle (interrupted 1 (planFor [''op@x.io''] demo_bundle demo_here) demo_here)) = demo_after
   \<and> snd (import_apply (\<lambda>_. []) [''op@x.io''] 20 demo_bundle demo_after) = demo_after"
  using import_retry [OF demo_applied _ demo_ok(1,2), where k = 1 and now' = 20] by (simp add: Let_def)


end
