(* ===== verification/Data_Export.thy ===== *)
theory Data_Export
  imports Data_Import Api_Keys
begin

text \<open>
  \<open>data-migration/data-export.service.ts\<close>: the dataset of a deployment export, read out of the tables. As in \<open>Import_Plan\<close>
  the dataset holds the values its strings spell; the status \<open>unredeemed\<close> of a code is \<open>Active\<close>. Rows that tie in the
  order of a query keep the order of the table.

  The theorem is about the two together: what one deployment exports, a fresh one imports and exports again.
\<close>

section \<open>Reading the tables\<close>

record export_config =
  xc_adminEmails :: "string list"
  xc_bootstrapEmail :: string

definition isAdminEmail :: "string \<Rightarrow> string list \<Rightarrow> bool" where
  "isAdminEmail email adminEmails =
     (let allowed = filter (\<lambda>e. e \<noteq> []) (map (\<lambda>entry. to_lower (trim entry)) adminEmails)
      in email \<noteq> [] \<and> to_lower (trim email) \<in> set allowed)"

definition listUsers :: "deployment \<Rightarrow> auth_user list" where
  "listUsers d = sort_key au_createdAt (dp_users d)"

definition invitedBy :: "deployment \<Rightarrow> string \<Rightarrow> string option" where
  "invitedBy d = js_index (map (\<lambda>r. (rd_userId r, rd_inviteCodeId r)) (sort_key (\<lambda>r. (rd_redeemedAt r, rd_id r)) (dp_redemptions d)))"

definition exportedUser :: "export_config \<Rightarrow> (string \<Rightarrow> string option) \<Rightarrow> auth_user \<Rightarrow> exported_user" where
  "exportedUser cfg invited u =
     \<lparr>xu_id = au_id u, xu_email = au_email u, xu_name = au_name u, xu_emailVerified = au_emailVerified u, xu_image = au_image u,
      xu_createdAt = au_createdAt u, xu_admin = isAdminEmail (au_email u) (xc_adminEmails cfg),
      xu_origin = (if invited (au_id u) \<noteq> None then Origin_invite
                   else if to_lower (au_email u) = to_lower (xc_bootstrapEmail cfg) then Origin_bootstrap else Origin_open),
      xu_invitedByCodeId = invited (au_id u)\<rparr>"

definition exportedStatus :: "invite_code \<Rightarrow> int \<Rightarrow> code_status" where
  "exportedStatus code now = inviteCodeStatus code now"

definition exportedRedemption :: "invite_redemption \<Rightarrow> exported_redemption" where
  "exportedRedemption r =
     \<lparr>xr_id = rd_id r, xr_inviteCodeId = rd_inviteCodeId r, xr_userId = rd_userId r, xr_workspaceId = rd_workspaceId r,
      xr_creditTransactionId = rd_creditTransactionId r, xr_redeemedAt = rd_redeemedAt r\<rparr>"

definition exportedKey :: "string set \<Rightarrow> api_key \<Rightarrow> api_key" where
  "exportedKey known k =
     k\<lparr>key_createdByUserId := (case key_createdByUserId k of Some u \<Rightarrow> if u \<in> known then Some u else None | None \<Rightarrow> None)\<rparr>"

definition exportedModel :: "model_row \<Rightarrow> exported_model" where
  "exportedModel m =
     \<lparr>xl_id = mr_id m, xl_name = mr_name m, xl_upstreamModel = mr_litellmModel m, xl_contextLength = mr_contextLength m,
      xl_capabilities = mr_capabilities m, xl_promptPer1mMicros = mr_promptPer1mMicros m,
      xl_completionPer1mMicros = mr_completionPer1mMicros m, xl_enabled = mr_enabled m\<rparr>"

definition exportedEndpoint :: "model_row list \<Rightarrow> endpoint_row \<Rightarrow> exported_endpoint" where
  "exportedEndpoint models n =
     \<lparr>xn_id = er_id n, xn_name = er_name n, xn_baseUrl = er_baseUrl n, xn_listenPort = er_listenPort n, xn_enabled = er_enabled n,
      xn_pinnedEvidenceDigest = er_pinnedEvidenceDigest n, xn_createdByUserId = er_createdByUserId n, xn_createdAt = er_createdAt n,
      xn_models = map exportedModel (filter (\<lambda>m. mr_externalEndpointId m = Some (er_id n)) models)\<rparr>"

definition export_read :: "export_config \<Rightarrow> int \<Rightarrow> deployment \<Rightarrow> export_data" where
  "export_read cfg now d =
     (let users = listUsers d; known = au_id ` set users;
          models = sort_key mr_id (filter (\<lambda>m. mr_origin m = External_origin) (dp_models d))
      in \<lparr>xd_users = map (exportedUser cfg (invitedBy d)) users,
          xd_workspaces = sort_key (\<lambda>w. (ws_createdAt w, wk_id w)) (dp_workspaces d),
          xd_members = filter (\<lambda>r. mb_userId r \<in> known) (sort_key (\<lambda>m. (mb_createdAt m, mb_workspaceId m)) (dp_members d)),
          xd_ledger = sort_key (\<lambda>t. (tx_createdAt t, tx_id t)) (dp_ledger d),
          xd_codes = map (\<lambda>c. \<lparr>xo_row = c, xo_status = exportedStatus c now\<rparr>) (sort_key (\<lambda>c. (ic_createdAt c, ic_id c)) (dp_codes d)),
          xd_redemptions = map exportedRedemption
            (filter (\<lambda>r. rd_userId r \<in> known) (sort_key (\<lambda>r. (rd_redeemedAt r, rd_id r)) (dp_redemptions d))),
          xd_keys = map (exportedKey known) (sort_key (\<lambda>k. (key_createdAt k, key_id k)) (dp_keys d)),
          xd_endpoints = map (exportedEndpoint models) (sort_key (\<lambda>n. (er_createdAt n, er_id n)) (dp_endpoints d)),
          xd_measurements = sort_key (\<lambda>m. (tm_addedAt m, tm_id m)) (dp_measurements d)\<rparr>)"

text \<open>\<open>countsOf\<close> and \<open>totalBalanceMicros\<close> of \<open>export-bundle.ts\<close>: the manifest, derived from the dataset.\<close>

record export_counts =
  ct_users :: nat
  ct_workspaces :: nat
  ct_workspaceMembers :: nat
  ct_creditEntries :: nat
  ct_inviteCampaigns :: nat
  ct_inviteCodes :: nat
  ct_inviteCodesUnredeemed :: nat
  ct_inviteRedemptions :: nat
  ct_apiKeys :: nat
  ct_apiKeysLive :: nat
  ct_externalEndpoints :: nat
  ct_externalModels :: nat
  ct_trustedMeasurements :: nat

definition countsOf :: "export_data \<Rightarrow> export_counts" where
  "countsOf data =
     \<lparr>ct_users = length (xd_users data), ct_workspaces = length (xd_workspaces data), ct_workspaceMembers = length (xd_members data),
      ct_creditEntries = length (xd_ledger data), ct_inviteCampaigns = card (set (map (ic_campaign \<circ> xo_row) (xd_codes data))),
      ct_inviteCodes = length (xd_codes data), ct_inviteCodesUnredeemed = length (filter (\<lambda>c. xo_status c = Active) (xd_codes data)),
      ct_inviteRedemptions = length (xd_redemptions data), ct_apiKeys = length (xd_keys data),
      ct_apiKeysLive = length (filter (\<lambda>k. key_revokedAt k = None) (xd_keys data)), ct_externalEndpoints = length (xd_endpoints data),
      ct_externalModels = foldl (\<lambda>sum n. sum + length (xn_models n)) 0 (xd_endpoints data),
      ct_trustedMeasurements = length (xd_measurements data)\<rparr>"

definition totalBalanceMicros :: "export_data \<Rightarrow> int" where
  "totalBalanceMicros data = foldl (\<lambda>sum w. sum + ws_balanceMicros w) 0 (xd_workspaces data)"

section \<open>Importing into fresh tables\<close>

definition fresh_deployment :: deployment where
  "fresh_deployment =
     \<lparr>dp_users = [], dp_workspaces = [], dp_members = [], dp_ledger = [], dp_codes = [], dp_redemptions = [], dp_keys = [], dp_endpoints = [],
      dp_models = [], dp_measurements = []\<rparr>"

lemma renamed_nothing [simp]: "renamed [] = id"
  by (simp add: renamed_def fun_eq_iff)

lemma js_index_nothing [simp]: "js_index [] k = None"
  by (simp add: js_index_def)

lemma creates_all: "(\<And>r. r \<in> set rows \<Longrightarrow> v r = Create r) \<Longrightarrow> creates (map v rows) = rows"
  by (induction rows) simp_all

lemma fresh_local:
  "ls_users (localState fresh_deployment) = []" "ls_workspaces (localState fresh_deployment) = []" "ls_members (localState fresh_deployment) = []"
  "ls_ledger (localState fresh_deployment) = []" "ls_codes (localState fresh_deployment) = []" "ls_redemptions (localState fresh_deployment) = []"
  "ls_keys (localState fresh_deployment) = []" "ls_endpoints (localState fresh_deployment) = []" "ls_models (localState fresh_deployment) = []"
  "ls_measurements (localState fresh_deployment) = []"
  by (simp_all add: localState_def fresh_deployment_def)

lemma collect_nothing: "(\<And>r. r \<in> set rows \<Longrightarrow> f r = None) \<Longrightarrow> collect f rows = []"
  unfolding collect_def by (induction rows) simp_all

lemma fresh_ids [simp]:
  "userIds data (localState fresh_deployment) = []" "workspaceIds data (localState fresh_deployment) = []"
  "same_key data (localState fresh_deployment) e = None" "ledgerIds data (localState fresh_deployment) = []"
proof -
  show u: "userIds data (localState fresh_deployment) = []"
    unfolding userIds_def by (rule collect_nothing) (simp add: mapped_to_def local_by_email_def fresh_local)
  show "workspaceIds data (localState fresh_deployment) = []" by (simp add: workspaceIds_def u collect_def)
  show k: "same_key data (localState fresh_deployment) e = None" for e by (simp add: same_key_def fresh_local)
  show "ledgerIds data (localState fresh_deployment) = []"
    unfolding ledgerIds_def by (rule collect_nothing) (simp add: grant_made_def k)
qed

lemma fresh_verdicts:
  "user_verdict (localState fresh_deployment) u = Create u" "workspace_verdict data (localState fresh_deployment) w = Create w"
  "member_verdict data (localState fresh_deployment) m = Create m" "ledger_verdict data (localState fresh_deployment) e = Create e"
  "code_verdict data (localState fresh_deployment) c = Create c" "redemption_verdict data (localState fresh_deployment) r = Create r"
  "key_verdict data (localState fresh_deployment) k = Create k" "endpoint_verdict data (localState fresh_deployment) n = Create n"
  "measurement_verdict data (localState fresh_deployment) q = Create q"
  by (simp_all add: user_verdict_def local_by_email_def workspace_verdict_def member_verdict_def ledger_verdict_def respelled_def code_verdict_def
      redemption_verdict_def key_verdict_def endpoint_verdict_def measurement_verdict_def fresh_local Let_def option.map_id)

lemma fresh_plan:
  shows "plan_writes data (localState fresh_deployment) = data"
    and "planIsClean (planFor ops data fresh_deployment) \<longleftrightarrow> bundle_ok data"
proof -
  show "plan_writes data (localState fresh_deployment) = data" by (simp add: plan_writes_def creates_all fresh_verdicts)
  have "strangers data (localState fresh_deployment) os = []" for os by (simp add: strangers_def fresh_local)
  then show "planIsClean (planFor ops data fresh_deployment) \<longleftrightarrow> bundle_ok data"
    by (simp add: planFor_def plan_clean_iff fresh_verdicts no_conflict_def)
qed

section \<open>A deployment that can be exported\<close>

text \<open>What the other components keep of the tables: the indices, the books, addresses as the sign-in stores them, the ledger
  entry of every redemption; and amounts within the integers that a double holds exactly, as they are doubles here too.\<close>

definition safe :: "int \<Rightarrow> bool" where
  "safe v \<longleftrightarrow> \<bar>v\<bar> < 2 ^ 53"

definition safe_option :: "int option \<Rightarrow> bool" where
  "safe_option v = (case v of Some n \<Rightarrow> safe n | None \<Rightarrow> True)"

definition numbers_safe :: "deployment \<Rightarrow> bool" where
  "numbers_safe d \<longleftrightarrow>
     list_all (\<lambda>w. safe (ws_balanceMicros w) \<and> safe_option (ws_autoTopUpThresholdMicros w) \<and> safe_option (ws_autoTopUpAmountMicros w)) (dp_workspaces d)
     \<and> list_all (\<lambda>t. safe (tx_amountMicros t)) (dp_ledger d) \<and> list_all (\<lambda>c. safe (ic_grantMicros c)) (dp_codes d)
     \<and> list_all (\<lambda>k. safe_option (key_spendLimitMicros k) \<and> safe (key_spentTotalMicros k)) (dp_keys d)
     \<and> list_all (\<lambda>m. safe (mr_promptPer1mMicros m) \<and> safe (mr_completionPer1mMicros m)) (dp_models d)"

definition exportable :: "deployment \<Rightarrow> bool" where
  "exportable d \<longleftrightarrow>
     tables_ok d \<and> numbers_safe d
     \<and> list_all (\<lambda>w. ws_balanceMicros w = sum_for tx_workspaceId tx_amountMicros (wk_id w) (dp_ledger d)) (dp_workspaces d)
     \<and> distinct (map au_id (dp_users d)) \<and> distinct (map (lower \<circ> au_email) (dp_users d))
     \<and> list_all (\<lambda>u. to_lower (au_email u) = au_email u) (dp_users d)
     \<and> list_all (\<lambda>r. rd_creditTransactionId r \<in> tx_id ` set (dp_ledger d)) (dp_redemptions d)"

lemma distinct_map_sort [simp]: "distinct (map f (sort_key k xs)) = distinct (map f xs)"
  by (simp add: distinct_map)

lemma sort_twice [simp]: "sort_key k (sort_key k xs) = sort_key k xs"
  by (simp add: sort_key_id_if_sorted)

lemma sum_for_mset: "mset xs = mset ys \<Longrightarrow> sum_for key amount k xs = sum_for key amount k ys"
proof -
  have "sum_for key amount k xs = sum_mset (image_mset (\<lambda>x. if key x = k then amount x else 0) (mset xs))" for xs
    by (induction xs) simp_all
  then show "mset xs = mset ys \<Longrightarrow> sum_for key amount k xs = sum_for key amount k ys" by simp
qed

lemma sum_for_sort [simp]: "sum_for key amount k (sort_key f xs) = sum_for key amount k xs"
  by (rule sum_for_mset) simp

lemma exported_simps [simp]:
  "xu_id (exportedUser cfg i u) = au_id u" "xu_email (exportedUser cfg i u) = au_email u" "xr_id (exportedRedemption r) = rd_id r"
  "xr_inviteCodeId (exportedRedemption r) = rd_inviteCodeId r" "xr_userId (exportedRedemption r) = rd_userId r"
  "xr_workspaceId (exportedRedemption r) = rd_workspaceId r" "xr_creditTransactionId (exportedRedemption r) = rd_creditTransactionId r"
  "key_id (exportedKey s k) = key_id k" "key_keyHash (exportedKey s k) = key_keyHash k" "key_workspaceId (exportedKey s k) = key_workspaceId k"
  "xn_id (exportedEndpoint ms n) = er_id n" "xn_name (exportedEndpoint ms n) = er_name n"
  "xn_models (exportedEndpoint ms n) = map exportedModel (filter (\<lambda>m. mr_externalEndpointId m = Some (er_id n)) ms)"
  by (simp_all add: exportedUser_def exportedRedemption_def exportedKey_def exportedEndpoint_def)

lemma exported_bundle_ok:
  assumes "exportable d"
  shows "bundle_ok (export_read cfg now d)"
proof -
  note facts = assms [unfolded exportable_def tables_ok_def members_ok_def ledger_ok_def redemptions_ok_def api_keys_ok_def workspaces_ok_def
      codes_ok_def list_all_iff]
  let ?data = "export_read cfg now d"
  have "\<forall>r \<in> set (xd_members ?data). mb_userId r \<in> xu_id ` set (xd_users ?data) \<and> mb_workspaceId r \<in> wk_id ` set (xd_workspaces ?data)"
    using facts by (auto simp: export_read_def Let_def image_image)
  moreover have "\<forall>r \<in> set (xd_redemptions ?data). xr_inviteCodeId r \<in> (ic_id \<circ> xo_row) ` set (xd_codes ?data) \<and> xr_userId r \<in> xu_id ` set (xd_users ?data)
      \<and> xr_workspaceId r \<in> wk_id ` set (xd_workspaces ?data) \<and> xr_creditTransactionId r \<in> tx_id ` set (xd_ledger ?data)"
    using facts by (auto simp: export_read_def Let_def image_image)
  moreover have "\<forall>r \<in> set (xd_keys ?data). key_workspaceId r \<in> wk_id ` set (xd_workspaces ?data)"
    "\<forall>r \<in> set (xd_ledger ?data). tx_workspaceId r \<in> wk_id ` set (xd_workspaces ?data)"
    using facts by (auto simp: export_read_def Let_def)
  moreover have "\<forall>w \<in> set (xd_workspaces ?data). sum_for tx_workspaceId tx_amountMicros (wk_id w) (xd_ledger ?data) = ws_balanceMicros w"
    using facts by (simp add: export_read_def Let_def)
  ultimately show ?thesis
    using facts unfolding bundle_ok_def by (simp add: export_read_def Let_def listUsers_def comp_def)
qed

lemma numberOf_ids:
  "safe v \<Longrightarrow> numberOf v = v" "safe_option w \<Longrightarrow> map_option numberOf w = w"
  by (auto simp: safe_def safe_option_def numberOf_safe split: option.splits)

text \<open>What the import makes of the rows that were read.\<close>

lemma imported_back:
  assumes "exportable d"
  shows "u \<in> set (dp_users d) \<Longrightarrow> imported_user (exportedUser cfg i u) = u" "t \<in> set (dp_ledger d) \<Longrightarrow> imported_entry t = t"
    "c \<in> set (dp_codes d) \<Longrightarrow> imported_code \<lparr>xo_row = c, xo_status = s\<rparr> = c" "k \<in> set (dp_keys d) \<Longrightarrow> imported_key (exportedKey known k) = exportedKey known k"
    "m \<in> set (dp_models d) \<Longrightarrow> exportedModel (imported_model now e (exportedModel m)) = exportedModel m"
    "w \<in> set (dp_workspaces d) \<Longrightarrow> (imported_workspace w)\<lparr>ws_balanceMicros := ws_balanceMicros w\<rparr> = w"
proof -
  note facts = assms [unfolded exportable_def numbers_safe_def list_all_iff]
  show "imported_user (exportedUser cfg i u) = u" if "u \<in> set (dp_users d)"
    using facts that by (simp add: imported_user_def exportedUser_def)
  show "imported_entry t = t" if "t \<in> set (dp_ledger d)" using facts that by (simp add: imported_entry_def numberOf_ids)
  show "imported_code \<lparr>xo_row = c, xo_status = s\<rparr> = c" if "c \<in> set (dp_codes d)" using facts that by (simp add: imported_code_def numberOf_ids)
  show "imported_key (exportedKey known k) = exportedKey known k" if "k \<in> set (dp_keys d)"
    using facts that by (simp add: imported_key_def exportedKey_def numberOf_ids)
  show "exportedModel (imported_model now e (exportedModel m)) = exportedModel m" if "m \<in> set (dp_models d)"
    using facts that by (simp add: imported_model_def exportedModel_def numberOf_ids)
  show "(imported_workspace w)\<lparr>ws_balanceMicros := ws_balanceMicros w\<rparr> = w" if "w \<in> set (dp_workspaces d)"
    using facts that by (simp add: imported_workspace_def numberOf_ids)
qed

lemma imported_zero: "(imported_workspace w)\<lparr>ws_balanceMicros := 0\<rparr> = imported_workspace w"
  by (cases w) (simp add: imported_workspace_def)

lemma balances_back:
  assumes d: "exportable d" and ids: "set ids = tx_workspaceId ` set (dp_ledger d)" and ts: "mset ts = mset (dp_ledger d)" and ws: "set ws = set (dp_workspaces d)"
  shows "resumBalances ids ts (map imported_workspace ws) = ws"
proof -
  have set: "set ts = set (dp_ledger d)" using ts by (rule mset_eq_setD)
  have "(if wk_id w \<in> set ids \<and> wk_id w \<in> tx_workspaceId ` set ts
      then (imported_workspace w)\<lparr>ws_balanceMicros := numberOf (sum_for tx_workspaceId tx_amountMicros (wk_id w) ts)\<rparr> else imported_workspace w) = w"
    if w: "w \<in> set ws" for w
  proof -
    have facts: "ws_balanceMicros w = sum_for tx_workspaceId tx_amountMicros (wk_id w) (dp_ledger d)" "safe (ws_balanceMicros w)"
      using d w by (auto simp: exportable_def numbers_safe_def list_all_iff ws)
    then have eq: "numberOf (sum_for tx_workspaceId tx_amountMicros (wk_id w) ts) = ws_balanceMicros w"
      using sum_for_mset [OF ts] numberOf_ids(1) by metis
    have whole: "(imported_workspace w)\<lparr>ws_balanceMicros := ws_balanceMicros w\<rparr> = w" using imported_back(6) [OF d] w ws by blast
    have "imported_workspace w = w" if "wk_id w \<notin> tx_workspaceId ` set (dp_ledger d)"
      using whole facts(1) sum_for_none [OF that] imported_zero by metis
    then show ?thesis using whole by (simp add: eq ids set)
  qed
  then show ?thesis unfolding resumBalances_def map_map by (intro map_idI) (simp only: o_apply imported_workspace_simps)
qed

text \<open>The models of the endpoints.\<close>

lemma imported_model_simps [simp]:
  "mr_id (imported_model now i m) = xl_id m" "mr_externalEndpointId (imported_model now i m) = Some i"
  "mr_origin (imported_model now i m) = External_origin" "xl_id (exportedModel q) = mr_id q"
  by (simp_all add: imported_model_def exportedModel_def)

lemma endpointRow_simps [simp]:
  "er_id (endpointRow host_of now n) = xn_id n" "er_name (endpointRow host_of now n) = xn_name n" "er_createdAt (endpointRow host_of now n) = xn_createdAt n"
  by (simp_all add: endpointRow_def)

lemma models_apart:
  assumes "distinct (map er_id ns)" and "distinct (map mr_id ms)"
  shows "distinct (concat (map (\<lambda>n. map mr_id (filter (\<lambda>m. mr_externalEndpointId m = Some (er_id n)) ms)) ns))"
  using assms(1)
proof (induction ns)
  case (Cons n ns)
  have "mr_id ` {m \<in> set ms. mr_externalEndpointId m = Some (er_id n)} \<inter> mr_id ` {m \<in> set ms. mr_externalEndpointId m = Some (er_id n')} = {}"
    if "n' \<in> set ns" for n'
  proof -
    have "er_id n \<noteq> er_id n'" using Cons.prems that by force
    then have apart: "{m \<in> set ms. mr_externalEndpointId m = Some (er_id n)} \<inter> {m \<in> set ms. mr_externalEndpointId m = Some (er_id n')} = {}" by auto
    have inj: "inj_on mr_id (set ms)" using assms(2) by (simp add: distinct_map)
    show ?thesis using inj_on_image_Int [OF inj, symmetric] apart by (metis (no_types, lifting) image_empty mem_Collect_eq subsetI)
  qed
  then show ?case using Cons assms(2) by (auto simp: distinct_map_filter)
qed simp

lemma exported_models_ok:
  assumes "distinct (map er_id (dp_endpoints d))" and "distinct (map mr_id (dp_models d))"
  shows "models_ok (map (endpointRow host_of now') (xd_endpoints (export_read cfg now d)))
    (concat (map (\<lambda>n. map (imported_model now' (xn_id n)) (xn_models n)) (xd_endpoints (export_read cfg now d))))"
proof -
  let ?ms = "sort_key mr_id (filter (\<lambda>m. mr_origin m = External_origin) (dp_models d))"
  have "distinct (map er_id (sort_key (\<lambda>n. (er_createdAt n, er_id n)) (dp_endpoints d)))" "distinct (map mr_id ?ms)"
    using assms by (simp_all add: distinct_map_filter)
  from models_apart [OF this] show ?thesis
    by (auto simp: models_ok_def export_read_def Let_def map_concat comp_def image_image)
qed

lemma models_of_endpoint:
  fixes ns :: "exported_endpoint list"
  assumes "distinct (map xn_id ns)" and "n \<in> set ns"
  shows "filter (\<lambda>m. mr_externalEndpointId m = Some (xn_id n)) (concat (map (\<lambda>n. map (imported_model now (xn_id n)) (xn_models n)) ns)) =
    map (imported_model now (xn_id n)) (xn_models n)"
proof -
  have none: "filter (\<lambda>m. mr_externalEndpointId m = Some i) (concat (map (\<lambda>n. map (imported_model now (xn_id n)) (xn_models n)) ns)) = []"
    if "i \<notin> xn_id ` set ns" for i and ns :: "exported_endpoint list"
    using that by (auto simp: filter_empty_conv)
  show ?thesis using assms
  proof (induction ns)
    case (Cons n' ns)
    show ?case
    proof (cases "n = n'")
      case True
      then show ?thesis using none [of "xn_id n" ns] Cons.prems by (simp add: filter_map comp_def)
    next
      case False
      then have "n \<in> set ns" using Cons.prems by simp
      then have "xn_id n \<in> xn_id ` set ns" by (rule imageI)
      moreover have "xn_id n' \<notin> xn_id ` set ns" using Cons.prems by simp
      ultimately have "xn_id n \<noteq> xn_id n'" by metis
      then show ?thesis using Cons False by (simp add: filter_map comp_def)
    qed
  qed simp
qed

text \<open>The tables of the fresh deployment after the import.\<close>

lemma fresh_write:
  assumes d: "exportable d" and data: "data = export_read cfg now d" and plan: "plan = planFor ops data fresh_deployment"
  shows "import_write host_of now' plan (import_users plan fresh_deployment) = Some (written host_of now' plan (import_users plan fresh_deployment))"
proof -
  note facts = d [unfolded exportable_def tables_ok_def]
  have W: "ip_writes plan = data" by (simp add: plan fresh_plan)
  have empty: "dp_workspaces fresh_deployment = []" "dp_members fresh_deployment = []" "dp_ledger fresh_deployment = []"
    "dp_codes fresh_deployment = []" "dp_redemptions fresh_deployment = []" "dp_keys fresh_deployment = []" "dp_endpoints fresh_deployment = []"
    "dp_models fresh_deployment = []" "dp_measurements fresh_deployment = []"
    by (simp_all add: fresh_deployment_def)
  have row: "insert_rows ok rows [] = Some rows" if "ok rows" for ok rows using that by (simp add: insert_rows_def)
  have "workspaces_ok (map imported_workspace (xd_workspaces data))"
    using facts by (simp add: data export_read_def Let_def workspaces_ok_def comp_def)
  moreover have "members_ok (map imported_workspace (xd_workspaces data)) (xd_members data)"
    using facts by (auto simp: data export_read_def Let_def members_ok_def comp_def image_image distinct_map_filter)
  moreover have "ledger_ok (map imported_workspace (xd_workspaces data)) (map imported_entry (xd_ledger data))"
    using facts by (simp add: data export_read_def Let_def ledger_ok_def comp_def image_image imported_entry_def)
  moreover have "codes_ok (map imported_code (xd_codes data))"
    using facts by (simp add: data export_read_def Let_def codes_ok_def comp_def imported_code_def)
  moreover have "redemptions_ok (map imported_code (xd_codes data)) ws (map imported_redemption (xd_redemptions data))"
    if "wk_id ` set ws = wk_id ` set (dp_workspaces d)" for ws
    using facts that by (auto simp: data export_read_def Let_def redemptions_ok_def comp_def image_image imported_code_def imported_redemption_def distinct_map_filter)
  moreover have "api_keys_ok ws (map imported_key (xd_keys data))" if "wk_id ` set ws = wk_id ` set (dp_workspaces d)" for ws
    using facts that by (simp add: data export_read_def Let_def api_keys_ok_def comp_def image_image imported_key_def)
  moreover have "endpoints_ok (map (endpointRow host_of now') (xd_endpoints data))"
    using facts by (simp add: data export_read_def Let_def endpoints_ok_def comp_def endpointRow_def)
  moreover have "measurements_ok (xd_measurements data)" using facts by (simp add: data export_read_def Let_def measurements_ok_def comp_def)
  moreover have "wk_id ` set (resumBalances ids ts (map imported_workspace (xd_workspaces data))) = wk_id ` set (dp_workspaces d)" for ids ts
    by (simp add: data export_read_def Let_def image_image)
  moreover have "models_ok (map (endpointRow host_of now') (xd_endpoints data)) (concat (map (\<lambda>n. map (imported_model now' (xn_id n)) (xn_models n)) (xd_endpoints data)))"
    using facts unfolding data by (intro exported_models_ok) (simp_all add: endpoints_ok_def models_ok_def)
  ultimately show ?thesis by (simp add: import_write_def written_def W empty row Let_def)
qed

lemma fresh_tables:
  assumes d: "exportable d" and data: "data = export_read cfg now d" and plan: "plan = planFor ops data fresh_deployment"
    and d': "d' = written host_of now' plan (import_users plan fresh_deployment)"
  shows "dp_users d' = listUsers d" "dp_workspaces d' = xd_workspaces data" "dp_members d' = xd_members data" "dp_ledger d' = xd_ledger data"
    "dp_codes d' = map xo_row (xd_codes data)" "dp_redemptions d' = map imported_redemption (xd_redemptions data)" "dp_keys d' = xd_keys data"
    "dp_endpoints d' = map (endpointRow host_of now') (xd_endpoints data)"
    "dp_models d' = concat (map (\<lambda>n. map (imported_model now' (xn_id n)) (xn_models n)) (xd_endpoints data))"
    "dp_measurements d' = xd_measurements data"
proof -
  have W: "ip_writes plan = data" and touched: "set (ip_touched plan) = tx_workspaceId ` set (xd_ledger data)" by (simp_all add: plan fresh_plan)
  have bok: "bundle_ok data" using exported_bundle_ok [OF d] by (simp add: data)
  have ledger: "map imported_entry (xd_ledger data) = xd_ledger data"
    by (intro map_idI) (simp add: data export_read_def Let_def imported_back(2) [OF d])
  have sets: "set (xd_ledger data) = set (dp_ledger d)" "mset (xd_ledger data) = mset (dp_ledger d)" "set (xd_workspaces data) = set (dp_workspaces d)"
    by (simp_all add: data export_read_def Let_def)
  have "created_users_of data fresh_deployment = xd_users data" by (simp add: created_users_of_def creates_all fresh_verdicts)
  then have "dp_users d' = map imported_user (xd_users data)"
    using import_users_all [OF bok, of ops fresh_deployment] by (simp add: d' plan written_def Let_def fresh_deployment_def)
  also have "\<dots> = listUsers d"
    unfolding data export_read_def Let_def export_data.simps map_map
    by (intro map_idI) (simp add: listUsers_def imported_back(1) [OF d])
  finally show "dp_users d' = listUsers d" .
  show "dp_ledger d' = xd_ledger data" by (simp add: d' written_def Let_def W ledger fresh_deployment_def)
  have "dp_workspaces d' = resumBalances (ip_touched plan) (xd_ledger data) (map imported_workspace (xd_workspaces data))"
    by (simp add: d' written_def Let_def W ledger fresh_deployment_def)
  also have "\<dots> = xd_workspaces data" by (rule balances_back [OF d _ sets(2,3)]) (simp add: touched sets)
  finally show "dp_workspaces d' = xd_workspaces data" .
  show "dp_codes d' = map xo_row (xd_codes data)"
    by (simp add: d' written_def Let_def W fresh_deployment_def data export_read_def comp_def) (rule map_idI, simp add: imported_back(3) [OF d])
  show "dp_keys d' = xd_keys data"
    by (simp add: d' written_def Let_def W fresh_deployment_def data export_read_def comp_def imported_back(4) [OF d] cong: map_cong)
  show "dp_members d' = xd_members data" "dp_redemptions d' = map imported_redemption (xd_redemptions data)"
    "dp_endpoints d' = map (endpointRow host_of now') (xd_endpoints data)"
    "dp_models d' = concat (map (\<lambda>n. map (imported_model now' (xn_id n)) (xn_models n)) (xd_endpoints data))"
    "dp_measurements d' = xd_measurements data"
    by (simp_all add: d' written_def Let_def W fresh_deployment_def)
qed

lemma exported_again:
  assumes d: "exportable d" and data: "data = export_read cfg now d" and plan: "plan = planFor ops data fresh_deployment"
    and d': "d' = written host_of now' plan (import_users plan fresh_deployment)"
  shows "export_read cfg now d' = data\<lparr>xd_endpoints := map (\<lambda>n. n\<lparr>xn_enabled := False\<rparr>) (xd_endpoints data)\<rparr>"
proof -
  note tables = fresh_tables [OF assms]
  let ?known = "au_id ` set (dp_users d)" and ?ord = "\<lambda>r. (rd_redeemedAt r, rd_id r)"
  let ?ms = "sort_key mr_id (filter (\<lambda>m. mr_origin m = External_origin) (dp_models d))"
  let ?ms' = "sort_key mr_id (filter (\<lambda>m. mr_origin m = External_origin) (dp_models d'))"
  have users: "listUsers d' = listUsers d" and known: "au_id ` set (listUsers d) = ?known" by (simp_all add: listUsers_def tables(1))
  have fields: "xd_users data = map (exportedUser cfg (invitedBy d)) (listUsers d)"
    "xd_members data = filter (\<lambda>r. mb_userId r \<in> ?known) (sort_key (\<lambda>m. (mb_createdAt m, mb_workspaceId m)) (dp_members d))"
    "xd_redemptions data = map exportedRedemption (filter (\<lambda>r. rd_userId r \<in> ?known) (sort_key ?ord (dp_redemptions d)))"
    "xd_keys data = map (exportedKey ?known) (sort_key (\<lambda>k. (key_createdAt k, key_id k)) (dp_keys d))"
    "xd_endpoints data = map (exportedEndpoint ?ms) (sort_key (\<lambda>n. (er_createdAt n, er_id n)) (dp_endpoints d))"
    by (simp_all add: data export_read_def Let_def known)
  have redemptions: "sort_key ?ord (dp_redemptions d') = dp_redemptions d'"
    by (rule sort_key_id_if_sorted) (simp add: tables(6) fields(3) filter_sort comp_def imported_redemption_def exportedRedemption_def)
  have invited: "exportedUser cfg (invitedBy d') u = exportedUser cfg (invitedBy d) u" if "u \<in> set (listUsers d)" for u
  proof -
    let ?R = "sort_key ?ord (dp_redemptions d)" and ?k = "au_id u" and ?g = "\<lambda>r. (rd_userId r, rd_inviteCodeId r)"
    have "?k \<in> ?known" using that by (simp add: listUsers_def)
    then have "filter (\<lambda>p. fst p = ?k) (map ?g (filter (\<lambda>r. rd_userId r \<in> ?known) ?R)) = filter (\<lambda>p. fst p = ?k) (map ?g ?R)"
      by (auto simp: filter_map comp_def intro!: arg_cong [where f = "map ?g"] filter_cong)
    then have "js_index (map ?g (filter (\<lambda>r. rd_userId r \<in> ?known) ?R)) ?k = js_index (map ?g ?R) ?k"
      by (subst (1 2) js_index_filter) (rule arg_cong [where f = "\<lambda>xs. js_index xs ?k"])
    then have "invitedBy d' ?k = invitedBy d ?k"
      unfolding invitedBy_def redemptions by (simp add: tables(6) fields(3) comp_def imported_redemption_def)
    then show ?thesis by (simp add: exportedUser_def)
  qed
  have models: "exportedEndpoint ?ms' (endpointRow host_of now' n) = n\<lparr>xn_enabled := False\<rparr>" if n: "n \<in> set (xd_endpoints data)" for n
  proof -
    have dist: "distinct (map xn_id (xd_endpoints data))"
      using d by (simp add: fields(5) comp_def exportable_def tables_ok_def endpoints_ok_def)
    obtain e where e: "n = exportedEndpoint ?ms e" using n by (auto simp: fields(5))
    have ids: "sorted (map (mr_id \<circ> imported_model now' (er_id e)) (xn_models n))"
      by (simp add: e comp_def filter_sort)
    have "filter (\<lambda>m. mr_externalEndpointId m = Some (xn_id n)) ?ms' =
        sort_key mr_id (filter (\<lambda>m. mr_externalEndpointId m = Some (xn_id n)) (dp_models d'))"
      by (auto simp: filter_sort tables(9) intro!: arg_cong [where f = "sort_key mr_id"] filter_cong)
    also have "\<dots> = map (imported_model now' (xn_id n)) (xn_models n)"
      unfolding tables(9) models_of_endpoint [OF dist n] by (rule sort_key_id_if_sorted) (use ids in \<open>simp add: e comp_def\<close>)
    finally have ms: "filter (\<lambda>m. mr_externalEndpointId m = Some (xn_id n)) ?ms' = map (imported_model now' (xn_id n)) (xn_models n)" .
    have "map exportedModel (map (imported_model now' (xn_id n)) (xn_models n)) = xn_models n"
      by (simp add: e comp_def imported_back(5) [OF d])
    then show ?thesis unfolding exportedEndpoint_def [of ?ms'] endpointRow_simps ms by (simp add: endpointRow_def)
  qed
  have endpoints: "sort_key (\<lambda>n. (er_createdAt n, er_id n)) (dp_endpoints d') = dp_endpoints d'"
    by (rule sort_key_id_if_sorted) (simp add: tables(8) fields(5) comp_def exportedEndpoint_def)
  have "xd_users (export_read cfg now d') = xd_users data" using invited by (simp add: export_read_def Let_def users fields)
  moreover have "xd_workspaces (export_read cfg now d') = xd_workspaces data" "xd_ledger (export_read cfg now d') = xd_ledger data"
    "xd_measurements (export_read cfg now d') = xd_measurements data" by (simp_all add: export_read_def Let_def tables data)
  moreover have "xd_members (export_read cfg now d') = xd_members data"
    by (simp add: export_read_def Let_def tables users known fields(2) filter_sort)
  moreover have "xd_codes (export_read cfg now d') = xd_codes data"
    by (simp add: export_read_def Let_def tables data comp_def)
  moreover have "xd_redemptions (export_read cfg now d') = xd_redemptions data"
    by (simp add: export_read_def Let_def redemptions users known)
      (simp add: tables(6) fields(3) comp_def imported_redemption_def exportedRedemption_def filter_map)
  moreover have "xd_keys (export_read cfg now d') = xd_keys data"
  proof -
    have "sort_key (\<lambda>k. (key_createdAt k, key_id k)) (dp_keys d') = dp_keys d'"
      by (rule sort_key_id_if_sorted) (simp add: tables(7) fields(4) comp_def exportedKey_def)
    then show ?thesis by (simp add: export_read_def Let_def users known)
        (simp add: tables(7) fields(4) comp_def exportedKey_def split: option.splits cong: option.case_cong)
  qed
  moreover have "xd_endpoints (export_read cfg now d') = map (\<lambda>n. n\<lparr>xn_enabled := False\<rparr>) (xd_endpoints data)"
    using models by (simp add: export_read_def Let_def endpoints) (simp add: tables)
  ultimately show ?thesis by simp
qed

text \<open>The import of an export into fresh tables, as one function.\<close>

definition redeployed :: "(string \<Rightarrow> string) \<Rightarrow> string list \<Rightarrow> int \<Rightarrow> export_config \<Rightarrow> int \<Rightarrow> deployment \<Rightarrow> import_report option \<times> deployment" where
  "redeployed host_of ops now' cfg now d = import_apply host_of ops now' (export_read cfg now d) fresh_deployment"

lemma redeployed_applied:
  assumes "exportable d" and "data = export_read cfg now d" and "plan = planFor ops data fresh_deployment"
  shows "redeployed host_of ops now' cfg now d =
    (Some \<lparr>rp_applied = True, rp_ok = True, rp_plan = plan\<rparr>, written host_of now' plan (import_users plan fresh_deployment))"
  using exported_bundle_ok [OF assms(1)] fresh_write [OF assms] unfolding assms(2,3)
  by (simp add: redeployed_def import_apply_def Let_def fresh_plan)

text \<open>C18: a redeploy carries the deployment over. What one deployment exports, an empty one imports without a conflict, and the
  result exports the same dataset again, except that every external endpoint is switched off: accounts, memberships,
  codes, redemptions, API keys with their limits and revocations, endpoints with their models. The workspaces with their
  balances and the ledger are those of the old deployment, row for row.\<close>

theorem redeploy:
  assumes "exportable d"
  shows "case redeployed host_of ops now' cfg now d of
      (Some r, d') \<Rightarrow> rp_applied r
        \<and> export_read cfg now d' = (export_read cfg now d)\<lparr>xd_endpoints := map (\<lambda>n. n\<lparr>xn_enabled := False\<rparr>) (xd_endpoints (export_read cfg now d))\<rparr>
        \<and> mset (dp_workspaces d') = mset (dp_workspaces d) \<and> mset (dp_ledger d') = mset (dp_ledger d)
    | (None, _) \<Rightarrow> False"
proof -
  have "mset (xd_workspaces (export_read cfg now d)) = mset (dp_workspaces d)" "mset (xd_ledger (export_read cfg now d)) = mset (dp_ledger d)"
    by (simp_all add: export_read_def Let_def)
  then show ?thesis
    using exported_again [OF assms refl refl refl] fresh_tables(2,4) [OF assms refl refl refl] by (simp add: redeployed_applied [OF assms refl refl])
qed

section \<open>Credentials across a redeploy\<close>

lemma find_by_key:
  assumes "distinct (map f xs)"
  shows "List.find (\<lambda>x. f x = k) xs = Some x \<longleftrightarrow> x \<in> set xs \<and> f x = k"
  using assms
proof (induction xs)
  case (Cons y ys)
  then show ?case by (auto simp: image_iff)
qed simp

lemma find_same:
  assumes "distinct (map f xs)" and "set ys = g ` set xs" and "distinct (map f ys)" and "\<And>x. f (g x) = f x"
  shows "List.find (\<lambda>x. f x = k) ys = map_option g (List.find (\<lambda>x. f x = k) xs)"
proof (cases "List.find (\<lambda>x. f x = k) xs")
  case None
  then have "\<forall>y \<in> set ys. f y \<noteq> k" using assms(2,4) by (auto simp: find_None_iff)
  then have "List.find (\<lambda>x. f x = k) ys = None" by (simp add: find_None_iff)
  then show ?thesis using None by simp
next
  case (Some x)
  then have "g x \<in> set ys \<and> f (g x) = k" using find_by_key [OF assms(1)] assms(2,4) by auto
  then show ?thesis using Some find_by_key [OF assms(3)] by simp
qed

lemma redeployed_workspaces:
  assumes "tables_ok d" and "tables_ok d'" and "set (dp_workspaces d') = set (dp_workspaces d)"
  shows "workspaces (db_of d') = workspaces (db_of d)"
proof -
  let ?g = "\<lambda>w. (wk_id w, workspace.truncate w)"
  have "distinct (map fst (map ?g (dp_workspaces x)))" if "tables_ok x" for x
    using that by (simp add: tables_ok_def workspaces_ok_def comp_def)
  then have "map_of (map ?g (dp_workspaces d')) = map_of (map ?g (dp_workspaces d))"
    using assms map_of_inject_set [of "map ?g (dp_workspaces d')" "map ?g (dp_workspaces d)"] by simp
  then show ?thesis by (simp add: db_of_def)
qed


section \<open>A redeploy\<close>

text \<open>The key was created by an account that is gone; the endpoint is switched on.\<close>

definition demo_source :: deployment where
  "demo_source =
     \<lparr>dp_users = [imported_user (demo_user ''u'' ''u@x.io'')], dp_workspaces = [demo_workspace ''v'' 0, demo_workspace ''w'' 4],
      dp_members = [demo_member ''w'' ''u''], dp_ledger = [demo_entry ''b'' ''w'' (-3) ''use'', demo_entry ''a'' ''w'' 7 ''signup:u''],
      dp_codes = [demo_code], dp_redemptions = [\<lparr>rd_id = ''r'', rd_inviteCodeId = ''c'', rd_userId = ''u'', rd_workspaceId = ''w'', rd_creditTransactionId = ''a'',
        rd_ipHash = Some ''i'', rd_userAgentHash = None, rd_redeemedAt = 2\<rparr>],
      dp_keys = [demo_api_key ''w''], dp_endpoints = [(endpointRow (\<lambda>_. []) 1 demo_endpoint)\<lparr>er_enabled := True\<rparr>],
      dp_models = map (imported_model 1 ''e'') (xn_models demo_endpoint), dp_measurements = []\<rparr>"

lemma demo_exportable: "exportable demo_source"
  by code_simp

theorem redeploy_witness:
  "case redeployed (\<lambda>_. []) [] 9 \<lparr>xc_adminEmails = [], xc_bootstrapEmail = []\<rparr> 8 demo_source of
     (Some r, d') \<Rightarrow> rp_applied r \<and> mset (dp_workspaces d') = mset [demo_workspace ''v'' 0, demo_workspace ''w'' 4] | (None, _) \<Rightarrow> False"
  using redeploy [OF demo_exportable, where host_of = "\<lambda>_. []" and ops = "[]" and now' = 9 and cfg = "\<lparr>xc_adminEmails = [], xc_bootstrapEmail = []\<rparr>" and now = 8]
  by (auto simp: demo_source_def split: option.splits)


end
