(* ===== verification/Credential_Guard.thy ===== *)
theory Credential_Guard
  imports Json
begin

text \<open>
  The tripwire of \<open>data-migration/export-bundle.ts\<close>: no key of a bundle may look like a credential. The guard looks at the
  first row of every array only, for the rows of a section share their keys; \<open>rows_alike\<close> says that they do, and \<open>key_paths\<close>
  lists the keys of all rows.
\<close>

section \<open>The guard\<close>

fun contains_text :: "string \<Rightarrow> string \<Rightarrow> bool" where
  "contains_text w s \<longleftrightarrow> starts_with s w \<or> (case s of [] \<Rightarrow> False | _ # t \<Rightarrow> contains_text w t)"

declare contains_text.simps [simp del]

text \<open>\<open>/pass(word|phrase)|hash|token|secret|ciphertext|api_?key|credential|session/i\<close>.\<close>

definition CREDENTIAL_KEY_PATTERN :: "string \<Rightarrow> bool" where
  "CREDENTIAL_KEY_PATTERN key =
     list_ex (\<lambda>w. contains_text w (to_lower key))
       [''password'', ''passphrase'', ''hash'', ''token'', ''secret'', ''ciphertext'', ''apikey'', ''api_key'', ''credential'', ''session'']"

definition CARRIED_NON_CREDENTIAL_PATHS :: "string list" where
  "CARRIED_NON_CREDENTIAL_PATHS = [''apiKeys'', ''apiKeys[].keyHash'', ''apiKeys[].tokensPerMinute'', ''counts.apiKeys'', ''counts.apiKeysLive'']"

definition isExcusedPath :: "string \<Rightarrow> bool" where
  "isExcusedPath path = list_ex (\<lambda>allowed. path = allowed \<or> path = ''data.'' @ allowed) CARRIED_NON_CREDENTIAL_PATHS"

definition key_path :: "string \<Rightarrow> string \<Rightarrow> string" where
  "key_path path key = (if path \<noteq> [] then path @ ''.'' @ key else key)"

definition flagged :: "string \<Rightarrow> string \<Rightarrow> bool" where
  "flagged here key \<longleftrightarrow> key \<noteq> ''idempotencyKey'' \<and> \<not> isExcusedPath here \<and> CREDENTIAL_KEY_PATTERN key"

fun credentialShapedKeys :: "json \<Rightarrow> string \<Rightarrow> string list"
  and credentialShapedEntries :: "json_object \<Rightarrow> string \<Rightarrow> string list" where
  "credentialShapedKeys (JArr []) path = []"
| "credentialShapedKeys (JArr (v # vs)) path = credentialShapedKeys v (path @ ''[]'')"
| "credentialShapedKeys (JObj m) path = credentialShapedEntries m path"
| "credentialShapedKeys (JStr _) path = []"
| "credentialShapedKeys (JNum _) path = []"
| "credentialShapedKeys (JBool _) path = []"
| "credentialShapedKeys JNull path = []"
| "credentialShapedEntries [] path = []"
| "credentialShapedEntries ((key, entry) # m) path =
     (if flagged (key_path path key) key then [key_path path key] else [])
     @ credentialShapedKeys entry (key_path path key) @ credentialShapedEntries m path"

section \<open>Every key\<close>

fun key_paths :: "json \<Rightarrow> string \<Rightarrow> (string \<times> string) set"
  and entry_paths :: "json_object \<Rightarrow> string \<Rightarrow> (string \<times> string) set"
  and row_paths :: "json list \<Rightarrow> string \<Rightarrow> (string \<times> string) set" where
  "key_paths (JArr vs) path = row_paths vs (path @ ''[]'')"
| "key_paths (JObj m) path = entry_paths m path"
| "key_paths (JStr _) path = {}"
| "key_paths (JNum _) path = {}"
| "key_paths (JBool _) path = {}"
| "key_paths JNull path = {}"
| "entry_paths [] path = {}"
| "entry_paths ((key, entry) # m) path = {(key_path path key, key)} \<union> key_paths entry (key_path path key) \<union> entry_paths m path"
| "row_paths [] path = {}"
| "row_paths (v # vs) path = key_paths v path \<union> row_paths vs path"

fun rows_alike :: "json \<Rightarrow> bool"
  and entries_alike :: "json_object \<Rightarrow> bool" where
  "rows_alike (JArr []) = True"
| "rows_alike (JArr (v # vs)) = (rows_alike v \<and> (\<forall>path. row_paths vs path \<subseteq> key_paths v path))"
| "rows_alike (JObj m) = entries_alike m"
| "rows_alike (JStr _) = True"
| "rows_alike (JNum _) = True"
| "rows_alike (JBool _) = True"
| "rows_alike JNull = True"
| "entries_alike [] = True"
| "entries_alike ((key, entry) # m) = (rows_alike entry \<and> entries_alike m)"

lemma guard_sound:
  "set (credentialShapedKeys v path) \<subseteq> {here. \<exists>key. (here, key) \<in> key_paths v path \<and> flagged here key}"
  "set (credentialShapedEntries m path) \<subseteq> {here. \<exists>key. (here, key) \<in> entry_paths m path \<and> flagged here key}"
  by (induction v path and m path rule: credentialShapedKeys_credentialShapedEntries.induct) fastforce+

lemma guard_complete:
  "rows_alike v \<Longrightarrow> {here. \<exists>key. (here, key) \<in> key_paths v path \<and> flagged here key} \<subseteq> set (credentialShapedKeys v path)"
  "entries_alike m \<Longrightarrow> {here. \<exists>key. (here, key) \<in> entry_paths m path \<and> flagged here key} \<subseteq> set (credentialShapedEntries m path)"
  by (induction v path and m path rule: credentialShapedKeys_credentialShapedEntries.induct) fastforce+

text \<open>The tripwire flags exactly the credential-shaped keys that are not excused, wherever they are, in a document whose rows
  share their keys with the first of their array. A document whose second row carries a password in addition passes it.\<close>

theorem guard_exact:
  "(\<forall>v path. rows_alike v \<longrightarrow> (credentialShapedKeys v path = [] \<longleftrightarrow> (\<forall>here key. (here, key) \<in> key_paths v path \<longrightarrow> \<not> flagged here key)))
   \<and> (\<forall>name. let v = JObj [(''users'', JArr [JObj [(''id'', JStr name)], JObj [(''id'', JStr name), (''password'', JStr name)]])]
        in credentialShapedKeys v [] = [] \<and> (''users[].password'', ''password'') \<in> key_paths v [] \<and> flagged ''users[].password'' ''password'')"
proof -
  have "credentialShapedKeys v path = [] \<longleftrightarrow> (\<forall>here key. (here, key) \<in> key_paths v path \<longrightarrow> \<not> flagged here key)" if "rows_alike v" for v path
  proof -
    have "set (credentialShapedKeys v path) = {here. \<exists>key. (here, key) \<in> key_paths v path \<and> flagged here key}"
      using guard_sound(1) guard_complete(1) [OF that] by (rule subset_antisym)
    then show ?thesis unfolding set_empty [symmetric] by auto
  qed
  moreover have "\<not> flagged ''users'' ''users''" "\<not> flagged ''users[].id'' ''id''" "flagged ''users[].password'' ''password''" by code_simp+
  ultimately show ?thesis by (simp add: Let_def key_path_def)
qed

end
