(* ===== verification/Spec2Isabelle.thy ===== *)
theory Spec2Isabelle
  imports Ledger Write_Queue Billing Metering Rate_Limit Sse Upstream External_Run Gateway Root_Tee Attestation Secret_Envelope Feedback Data_Export Credential_Guard
begin

text \<open>
  Confidential Router: a verification development of the router API.

  \<^bold>\<open>The program.\<close> The router (\<open>src/apps/router-api\<close>, TypeScript on NestJS) sells OpenAI-compatible inference. A
  request carries an API key; the gateway resolves the model it names, checks the credit of the
  workspace and the rate limits, forwards the request to LiteLLM or, for a model in another operator's
  deployment, to an attesting egress sidecar on a loopback port, relays the answer, and meters it: a
  generation row, the key's running total, and a debit of the credits ledger. Credits come in through payment
  providers. External endpoints are registered by an administrator, admitted by the verdicts of the sidecar that a
  status pass reads every few seconds, and dropped again when a verdict is withdrawn or goes stale.

  \<^bold>\<open>Theories and what they model\<close> (paths under \<open>src/apps/router-api/src/app\<close> unless given in full).
  \<^item> \<open>Prelude\<close>: results, JavaScript's truthiness, trimming, decimal printing, insertion-ordered maps, sums over
    rows; the collections of facts the components share.
  \<^item> \<open>Money\<close>, \<open>Db\<close>, \<open>Ledger\<close>, \<open>Write_Queue\<close>: \<open>billing/money.ts\<close>, the tables of \<open>db/entities\<close> the meter and the ledger
    touch, \<open>billing/ledger.service.ts\<close>. A transaction is one step on the record \<open>db\<close>; \<open>pool_step\<close> interleaves concurrent
    \<open>record\<close> calls between the lookup and the transaction; \<open>Write_Queue\<close> is the per-key promise chain.
  \<^item> \<open>Signed_Link\<close>, \<open>Payment\<close>, \<open>Billing\<close>: \<open>common/signed-link.ts\<close>, \<open>common/loopback.ts\<close> and the rest of \<open>billing\<close>:
    the three payment providers, webhooks, checkouts, automatic top-ups.
  \<^item> \<open>Api_Keys\<close>, \<open>Json\<close>, \<open>Pricing\<close>, \<open>Metering\<close>: \<open>api-keys\<close>, \<open>api/v1/api-key.guard.ts\<close> and \<open>metering\<close>.
  \<^item> \<open>Rate_Limit\<close>: \<open>api/v1/rate-limiter.ts\<close> and \<open>api/v1/rate-limit.service.ts\<close>, with rational token counts.
  \<^item> \<open>Sse\<close>, \<open>Openai_Error\<close>, \<open>Gateway_Types\<close>, \<open>Wire\<close>, \<open>Upstream\<close>, \<open>Gateway_Policy\<close>, \<open>Stream_Relay\<close>, \<open>Gateway\<close>: the files of
    \<open>api/v1\<close> in the order a request passes them; \<open>handle\<close> is \<open>GatewayService.handle\<close>.
  \<^item> \<open>Evidence_Digest\<close>: \<open>src/libs/types/src/evidence-digest.ts\<close> and \<open>external-endpoints/measurement.ts\<close>.
  \<^item> \<open>Js_Date\<close>, \<open>Status_Projection\<close>, \<open>Liveness\<close>, \<open>Catalog\<close>, \<open>External_Endpoints\<close>, \<open>Sidecar_Config\<close>, \<open>External_Admin\<close>,
    \<open>External_Run\<close>: \<open>external-endpoints\<close> and \<open>catalog\<close>. \<open>pollOnce\<close> is one pass of the status poller, each admin mutation is a
    function on \<open>ext_state\<close>, and \<open>ext_run\<close> is any sequence of passes and mutations since a boot.
  \<^item> \<open>Bits\<close>, \<open>Proto_Wire\<close>, \<open>Root_Tee\<close>, \<open>Der_Crypto\<close>, \<open>Cert_Chain\<close>, \<open>Attestation\<close>: \<open>src/libs/attestation/src\<close>. The
    protobuf reader and the TEE evidence in a root certificate (\<open>proto-wire.ts\<close>, \<open>root-tee-evidence.ts\<close>), DER lengths and
    fingerprints, chains (\<open>cert-chain.ts\<close>, \<open>jws.ts\<close>), and \<open>verifyHostname\<close> with its stages and its cache.
  \<^item> \<open>Secret_Envelope\<close>: \<open>secrets\<close>, the sealing of upstream keys.
  \<^item> \<open>Invite_Code\<close>, \<open>Invites\<close>: \<open>invites\<close>, and of \<open>auth\<close> the gate and the grants at sign-up. \<open>invite_step\<close> separates the read of
    a redemption from its transaction.
  \<^item> \<open>Feedback\<close>: \<open>feedback\<close>, with \<open>feedback_step\<close> in the same way.
  \<^item> \<open>Import_Plan\<close>, \<open>Data_Import\<close>, \<open>Data_Export\<close>, \<open>Credential_Guard\<close>: \<open>data-migration\<close>. \<open>planImport\<close> is a verdict on every row of a
    bundle, \<open>import_apply\<close> creates the accounts and then writes one transaction, \<open>export_read\<close> reads the tables out again.
  This theory composes the external endpoints with the gateway.

  \<^bold>\<open>Interfaces.\<close> Where a component relies on another, or operations share a contract, the contract is a locale,
  interpreted on the model: \<open>credits_gateway\<close>, which the meter debits (on the ledger's gateway), \<open>provider_contract\<close>, the payment
  provider billing calls (on all three), \<open>rate_limiter\<close> (on the token bucket), \<open>idempotent_step\<close>, an operation that may
  be repeated (on \<open>record\<close> and on the application of provider events), and \<open>verdict_cache\<close>, what verification relies on of its
  cache (on \<open>MemoryCache\<close>).

  \<^bold>\<open>What is shown.\<close> The balance of a workspace is the sum of its ledger rows in every interleaving of writers, and an
  idempotency key is written once. The meter and the books agree after any run of requests, and an admitted request leaves one
  row. A prompt reaches an external upstream only through an enabled endpoint the sidecar vouched for within the
  grace; a withdrawal takes effect at once, and a verdict makes models routable in the pass that reads it.
  A stream is relayed the same however it is cut into chunks, and every way it can end is metered. Rate limits
  bound what is admitted, evidence is accepted exactly when its chain, signature, age, host and channel are right, a cached
  verdict is one that was reached for the same question, sealed secrets open for their row only, invitations are never
  overspent and forms are paid once, revoked keys stay refused, a redeploy through export and
  import carries every balance and credential over and can be retried, signed links are authentic, the rendered sidecar configuration fails
  closed. Some properties show where the code departs from its comments: a top-up that settles at once
  is credited twice, partial refunds are counted cumulatively, saving a stale key undoes a revocation, a
  failed render leaves a disabled endpoint routable until the next pass, an error event may follow the terminator, a colon in
  an account id moves the claims of a feedback token.

  \<^bold>\<open>Parameters and bounds.\<close> JSON parsing and printing, URL parsing, hashes, MACs, ciphers and signature checks, X.509 parsing, the Stripe SDK,
  \<open>fetch\<close>, clocks and fresh ids are arguments of the definitions; a property that needs something of them says so as a
  hypothesis. Characters are eight bits wide. Numbers of the source that are integers are \<open>int\<close>, with the bounds the code checks
  written out (\<open>is_safe_integer\<close>); rate limits are \<open>rat\<close> where the source computes with doubles. Every loop is a total function;
  the one fuel, eleven steps of \<open>double_shift\<close> in \<open>Upstream\<close>, is enough for every timeout below a second.
  A status pass, an admin mutation and a gateway request are each one step: their database calls do not interleave with
  another's, except where a theory makes the interleaving its subject (\<open>Ledger\<close>, \<open>Write_Queue\<close>, \<open>Billing\<close>, \<open>Api_Keys\<close>, \<open>Attestation\<close>,
  \<open>Invites\<close>, \<open>Feedback\<close>).

  \<^bold>\<open>Not modelled.\<close> The React console (\<open>src/apps/router-ui\<close>), the Go gatekeeper, GraphQL resolvers, the configuration of
  sign-in, mail, activity reports, analytics delivery, the configuration schema and the tools: glue, presentation or I/O around
  the services above. Of the invitations, the CSV transfer between deployments (which may carry counts without redemptions) and
  the campaign statistics. Of data migration, the gzip and JSON envelope. Of the evidence service and model discovery, nothing: they
  fetch documents and keep the latest one.
\<close>

section \<open>Across the components: no unvouched external upstream\<close>

text \<open>The routing table of the gateway is the one the last status pass left.\<close>

lemma external_admitted:
  assumes "ext_run cfg tr x" and "x' = pollOnce cfg vs now x" and "gs_external s = xs_catalog x'"
    and "prepare env w req kind s = (Inr ctx, s1)" and "rm_external (gc_model ctx) = Some route"
  shows "\<exists>e \<in> set (xs_rows x'). ep_id (rm_endpoint (gc_model ctx)) = er_id e \<and> er_enabled e
    \<and> xr_baseUrl route = ''http://127.0.0.1:'' @ show_nat (er_listenPort e) \<and> xr_apiKeyCiphertext route = er_apiKeyCiphertext e
    \<and> (\<exists>t l v. (t, Some l) \<in> set ((now, vs) # tr) \<and> now - t < verdictGraceMs (xg_statusPollInterval cfg)
         \<and> verdict_for l (er_name e) = Some v \<and> live_admission v (pass_clock cfg t))"
proof -
  from assms(4) obtain body where "resolve (gs_catalog s) (gs_external s) kind body (auth_key (gq_auth req)) = Inr (gc_model ctx)"
    by (elim prepare_Inr)
  then obtain i m where m: "external_find (xs_catalog x') i = Some m" "gc_model ctx = routedExternalModel m"
    using assms(3,5) by (metis option.simps(3) resolve_external)
  have route: "ep_id (rm_endpoint (gc_model ctx)) = xe_id (xm_endpoint m)"
    "xr_baseUrl route = ''http://127.0.0.1:'' @ show_nat (xe_listenPort (xm_endpoint m))"
    "xr_apiKeyCiphertext route = xe_apiKeyCiphertext (xm_endpoint m)"
    using assms(5) by (auto simp: m(2) routedExternalModel_def)
  from poll_vouches [OF assms(1,2) m(1)] show ?thesis unfolding route by metis
qed


definition demo_external_gateway :: gateway_state where
  "demo_external_gateway = demo_gateway\<lparr>gs_external := xs_catalog demo_polled,
     gs_catalog := \<lparr>cs_models = [], cs_endpoints = [], cs_endpointRows = [], cs_modelRows = []\<rparr>\<rparr>"

lemma demo_external_prepared:
  "\<exists>ctx route. fst (prepare demo_gateway_env demo_world demo_request Chat demo_external_gateway) = Inr ctx
     \<and> rm_external (gc_model ctx) = Some route"
proof -
  let ?c = "gs_catalog demo_external_gateway" and ?x = "gs_external demo_external_gateway"
  obtain e0 where e0: "e0 \<in> set (xs_rows demo_boot)" "er_enabled e0" "er_id e0 = ''e1''" "er_name e0 = ''cloud''"
    using demo_facts(1) by blast
  from poll_routes [OF demo_run(1) e0(1,2) _ demo_facts(2,4,5), of demo_verdicts "hd demo_verdicts" 2000] e0(3,4) demo_facts
  obtain e where e: "external_find ?x ''m1'' = Some (external_model_of demo_model e)"
    by (auto simp: demo_polled_def demo_external_gateway_def)
  have "lookUp ?c ?x ''m1'' = Some (Routable ''m1'' (routedExternalModel (external_model_of demo_model e)))"
    by (simp add: lookUp_routable e) (simp add: catalog_find_def demo_external_gateway_def)
  then have "resolve ?c ?x Chat [(''model'', JStr ''m1'')] demo_key = Inr (routedExternalModel (external_model_of demo_model e))"
    by (simp add: resolve_string [where i = "''m1''"] in_scope_def assertSupportedParameters_def servesRoute_iff demo_key_def
        external_model_of_def demo_model_def)
  moreover have "gs_meter demo_external_gateway = example_meter" "gs_limiter demo_external_gateway = []"
    "auth_key (gq_auth demo_request) = demo_key" "rw_limiterClock demo_world = (\<lambda>_. 0)"
    "bodyOf demo_request = Inr [(''model'', JStr ''m1'')]"
    by (simp_all add: demo_external_gateway_def demo_gateway_def demo_request_def demo_world_def bodyOf_def)
  ultimately show ?thesis using demo_admitted
    by (auto simp: prepare_def resolveAndReport_def gateway_context_of_def Let_def routedExternalModel_def split: prod.splits)
qed


end
